(* ===== verification/Prelude.thy ===== *)
theory Prelude
  imports Main "HOL-Library.AList"
begin

text \<open>
  Shared vocabulary of the development: Python dictionaries as insertion-ordered
  association lists (\<open>map_of\<close> reads, \<open>dict_set\<close> stores in place or at the end,
  \<open>dict_pop\<close> removes), the collections of rewrite rules the component theories fill,
  and generic facts on lists and dictionaries.
\<close>

named_theorems column_simps
  \<open>wildcard column sets, read through their denotation\<close>

named_theorems dict_simps
  \<open>lookups after dictionary operations\<close>

named_theorems result_simps
  \<open>grouped conflict results\<close>

type_synonym ('k, 'v) dict = "('k \<times> 'v) list"

text \<open>A dictionary value has each key once; every operation below keeps that.\<close>

definition dict_ok :: "('k, 'v) dict \<Rightarrow> bool" where
  "dict_ok d \<longleftrightarrow> distinct (map fst d)"

abbreviation dict_set :: "'k \<Rightarrow> 'v \<Rightarrow> ('k, 'v) dict \<Rightarrow> ('k, 'v) dict" where
  "dict_set \<equiv> AList.update"

abbreviation dict_pop :: "'k \<Rightarrow> ('k, 'v) dict \<Rightarrow> ('k, 'v) dict" where
  "dict_pop \<equiv> AList.delete"

text \<open>\<open>d.get(k, default)\<close>.\<close>

definition dict_get :: "('k, 'v) dict \<Rightarrow> 'k \<Rightarrow> 'v \<Rightarrow> 'v" where
  "dict_get d k dflt = (case map_of d k of None \<Rightarrow> dflt | Some v \<Rightarrow> v)"

text \<open>\<open>d.setdefault(k, default)\<close>, as the dictionary it leaves behind.\<close>

definition dict_setdefault :: "'k \<Rightarrow> 'v \<Rightarrow> ('k, 'v) dict \<Rightarrow> ('k, 'v) dict" where
  "dict_setdefault k dflt d =
     (case map_of d k of None \<Rightarrow> d @ [(k, dflt)] | Some _ \<Rightarrow> d)"

text \<open>Errors as values: the continuation runs on a result only.\<close>

definition result_bind :: "('e + 'a) \<Rightarrow> ('a \<Rightarrow> 'e + 'b) \<Rightarrow> 'e + 'b" where
  "result_bind r f = (case r of Inl e \<Rightarrow> Inl e | Inr x \<Rightarrow> f x)"

lemma result_bind_simps [simp, result_simps]:
  "result_bind (Inl e) f = Inl e" "result_bind (Inr x) f = f x"
  by (simp_all add: result_bind_def)

lemma result_bind_Inr [result_simps]:
  "result_bind r f = Inr y \<longleftrightarrow> (\<exists>x. r = Inr x \<and> f x = Inr y)"
  by (cases r) simp_all

text \<open>\<open>a or b\<close> on optional strings: the empty string counts as missing.\<close>

definition str_or :: "string option \<Rightarrow> string \<Rightarrow> string" where
  "str_or a b = (case a of None \<Rightarrow> b | Some s \<Rightarrow> if s = [] then b else s)"

text \<open>
  Python's \<open>str.upper\<close>, \<open>str.lower\<close> and character classes on ASCII text. Characters
  above 127 are outside the model: they belong to no class and are left alone.
\<close>

definition ascii_upper_char :: "char \<Rightarrow> char" where
  "ascii_upper_char c =
     (let n = (of_char c :: nat) in if 97 \<le> n \<and> n \<le> 122 then char_of (n - 32) else c)"

definition ascii_lower_char :: "char \<Rightarrow> char" where
  "ascii_lower_char c =
     (let n = (of_char c :: nat) in if 65 \<le> n \<and> n \<le> 90 then char_of (n + 32) else c)"

definition ascii_upper :: "string \<Rightarrow> string" where
  "ascii_upper s = map ascii_upper_char s"

definition ascii_lower :: "string \<Rightarrow> string" where
  "ascii_lower s = map ascii_lower_char s"

definition is_alpha :: "char \<Rightarrow> bool" where
  "is_alpha c =
     (let n = (of_char c :: nat) in 65 \<le> n \<and> n \<le> 90 \<or> 97 \<le> n \<and> n \<le> 122)"

definition is_digit :: "char \<Rightarrow> bool" where
  "is_digit c = (let n = (of_char c :: nat) in 48 \<le> n \<and> n \<le> 57)"

text \<open>\<open>str.isspace\<close> on ASCII: tab to carriage return, the four separators, and blank.\<close>

definition is_space :: "char \<Rightarrow> bool" where
  "is_space c =
     (let n = (of_char c :: nat) in 9 \<le> n \<and> n \<le> 13 \<or> 28 \<le> n \<and> n \<le> 32)"

definition lstrip :: "string \<Rightarrow> string" where
  "lstrip s = dropWhile is_space s"

definition rstrip :: "string \<Rightarrow> string" where
  "rstrip s = rev (dropWhile is_space (rev s))"

definition strip :: "string \<Rightarrow> string" where
  "strip s = rstrip (lstrip s)"

text \<open>\<open>s.startswith(p)\<close>.\<close>

definition starts_with :: "string \<Rightarrow> string \<Rightarrow> bool" where
  "starts_with s p = (take (length p) s = p)"

definition ends_with :: "string \<Rightarrow> string \<Rightarrow> bool" where
  "ends_with s p = (drop (length s - length p) s = p)"

text \<open>\<open>needle in text\<close>.\<close>

definition contains_text :: "string \<Rightarrow> string \<Rightarrow> bool" where
  "contains_text text needle = list_ex (\<lambda>i. starts_with (drop i text) needle) [0..<length text + 1]"

lemma length_ascii_upper [simp]: "length (ascii_upper s) = length s"
  by (simp add: ascii_upper_def)

lemma dict_ok_Nil [simp, intro]: "dict_ok []"
  by (simp add: dict_ok_def)

lemma dict_ok_set [simp, intro]: "dict_ok d \<Longrightarrow> dict_ok (dict_set k v d)"
  by (simp add: dict_ok_def distinct_update)

lemma dict_ok_pop [simp, intro]: "dict_ok d \<Longrightarrow> dict_ok (dict_pop k d)"
  by (simp add: dict_ok_def distinct_delete)

lemma map_of_dict_set [simp, dict_simps]:
  "map_of (dict_set k v d) k' = (if k' = k then Some v else map_of d k')"
  by (simp add: update_conv')

lemma map_of_dict_pop [simp, dict_simps]:
  "map_of (dict_pop k d) k' = (if k' = k then None else map_of d k')"
  by (simp add: delete_conv')

lemma map_of_dict_setdefault [simp, dict_simps]:
  "map_of (dict_setdefault k v d) k' =
     (if k' = k then Some (dict_get d k v) else map_of d k')"
  by (cases "map_of d k") (auto simp: dict_setdefault_def dict_get_def map_add_def
      split: option.splits)

lemma dict_ok_setdefault [simp, intro]: "dict_ok d \<Longrightarrow> dict_ok (dict_setdefault k v d)"
  by (auto simp: dict_ok_def dict_setdefault_def map_of_eq_None_iff split: option.splits)

lemma dict_items_lookup:
  "dict_ok d \<Longrightarrow> (k, v) \<in> set d \<longleftrightarrow> map_of d k = Some v"
  by (auto simp: dict_ok_def intro: map_of_is_SomeI dest: map_of_SomeD)

lemma dict_get_set [simp, dict_simps]:
  "dict_get (dict_set k v d) k' def = (if k' = k then v else dict_get d k' def)"
  by (simp add: dict_get_def)

lemma dict_get_Nil [simp, dict_simps]: "dict_get [] k def = def"
  by (simp add: dict_get_def)

lemma dict_get_append_new:
  "map_of d k = None \<Longrightarrow> dict_get (d @ [(k, v)]) k' def =
     (if k' = k then v else dict_get d k' def)"
  by (auto simp: dict_get_def map_add_def split: option.splits)

text \<open>An \<open>any(...)\<close> over a dictionary's items is a statement about its lookups.\<close>

lemma list_ex_dict_items:
  "dict_ok d \<Longrightarrow> list_ex (\<lambda>(k, v). P k v) d \<longleftrightarrow> (\<exists>k v. map_of d k = Some v \<and> P k v)"
  by (force simp: list_ex_iff dict_items_lookup)

lemma foldl_induct_inv:
  assumes "I s" and "\<And>s x. x \<in> set xs \<Longrightarrow> I s \<Longrightarrow> I (f s x)"
  shows "I (foldl f s xs)"
  using assms by (induction xs arbitrary: s) auto

section \<open>Shared by the wrapper, the replay preparation and the terminal\<close>

text \<open>\<open>s.rstrip(";")\<close>.\<close>

definition rstrip_semicolons :: "string \<Rightarrow> string" where
  "rstrip_semicolons s = rev (dropWhile (\<lambda>c. c = CHR '';'') (rev s))"

text \<open>\<open>LogEntry\<close>: what is logged of one statement.\<close>

record log_entry =
  original_sql_text :: string
  entry_replay_sql_text :: string
  entry_is_replay_safe :: bool
  entry_block_reason :: "string option"

end
