(* ===== verification/Column_Maps.thy ===== *)
theory Column_Maps
  imports Prelude
begin

text \<open>
  The column arithmetic of \<open>src/merge/utils.py\<close>: sets of column names in which \<open>'*'\<close>
  stands for every column, and maps from tables to such sets. The abstract reading of a
  column set is the set of column names it covers; overlap is intersection and adding is
  union of what is covered.
\<close>

definition ALL_COLUMNS :: string where
  "ALL_COLUMNS = ''*''"

type_synonym column_map = "(string, string set) dict"

definition add_columns_to_column_map :: "string \<Rightarrow> string set \<Rightarrow> column_map \<Rightarrow> column_map" where
  "add_columns_to_column_map table columns columns_by_table =
     (if columns = {} then columns_by_table
      else let existing = dict_get columns_by_table table {};
               by_table = dict_setdefault table {} columns_by_table
           in if ALL_COLUMNS \<in> existing then by_table
              else if ALL_COLUMNS \<in> columns then dict_set table {ALL_COLUMNS} by_table
              else dict_set table (existing \<union> columns) by_table)"

definition add_columns_by_table :: "column_map \<Rightarrow> column_map \<Rightarrow> column_map" where
  "add_columns_by_table columns_by_table extra =
     foldl (\<lambda>m (table, columns). add_columns_to_column_map table columns m)
       columns_by_table extra"

definition column_overlap :: "string set \<Rightarrow> string set \<Rightarrow> string set" where
  "column_overlap left right =
     (if left = {} \<or> right = {} then {}
      else if ALL_COLUMNS \<in> left \<and> ALL_COLUMNS \<in> right then {ALL_COLUMNS}
      else if ALL_COLUMNS \<in> left then right
      else if ALL_COLUMNS \<in> right then left
      else left \<inter> right)"

text \<open>
  \<open>quote_identifier\<close> doubles the quotes of an identifier and encloses it in quotes.
  \<open>read_quoted\<close> is the reader of such a literal: SQLite's rule for a double-quoted
  identifier, two quotes inside standing for one.
\<close>

fun double_quotes :: "string \<Rightarrow> string" where
  "double_quotes [] = []"
| "double_quotes (c # cs) =
     (if c = CHR 0x22 then [c, c] @ double_quotes cs else c # double_quotes cs)"

definition quote_identifier :: "string \<Rightarrow> string" where
  "quote_identifier identifier = [CHR 0x22] @ double_quotes identifier @ [CHR 0x22]"

fun read_quoted_tail :: "string \<Rightarrow> (string \<times> string) option" where
  "read_quoted_tail [] = None"
| "read_quoted_tail [c] = (if c = CHR 0x22 then Some ([], []) else None)"
| "read_quoted_tail (c # d # cs) =
     (if c = CHR 0x22
      then if d = CHR 0x22
           then map_option (\<lambda>(i, r). (c # i, r)) (read_quoted_tail cs)
           else Some ([], d # cs)
      else map_option (\<lambda>(i, r). (c # i, r)) (read_quoted_tail (d # cs)))"

fun read_quoted :: "string \<Rightarrow> (string \<times> string) option" where
  "read_quoted (c # cs) = (if c = CHR 0x22 then read_quoted_tail cs else None)"
| "read_quoted [] = None"

section \<open>What a column set covers\<close>

definition covers :: "string set \<Rightarrow> string set" where
  "covers columns = (if ALL_COLUMNS \<in> columns then UNIV else columns)"

definition map_covers :: "column_map \<Rightarrow> string \<Rightarrow> string set" where
  "map_covers m table = covers (dict_get m table {})"

lemma covers_empty [simp, column_simps]: "covers {} = {}"
  by (simp add: covers_def)

lemma covers_all [simp, column_simps]: "covers {ALL_COLUMNS} = UNIV"
  by (simp add: covers_def)

lemma covers_eq_empty [simp, column_simps]: "covers c = {} \<longleftrightarrow> c = {}"
  by (auto simp: covers_def)

lemma subset_covers: "c \<subseteq> covers c"
  by (auto simp: covers_def)

lemma covers_mono: "a \<subseteq> b \<Longrightarrow> covers a \<subseteq> covers b"
  by (auto simp: covers_def)

lemma covers_union [column_simps]: "covers (a \<union> b) = covers a \<union> covers b"
  by (auto simp: covers_def)

text \<open>Overlap is intersection of what is covered; this is the contract the analyses use.\<close>

lemma covers_column_overlap [column_simps]:
  "covers (column_overlap left right) = covers left \<inter> covers right"
  by (auto simp: covers_def column_overlap_def)

lemma column_overlap_nonempty [column_simps]:
  "column_overlap left right \<noteq> {} \<longleftrightarrow> covers left \<inter> covers right \<noteq> {}"
  by (metis covers_column_overlap covers_eq_empty)

lemma column_overlap_empty_left [simp]: "column_overlap {} c = {}"
  by (simp add: column_overlap_def)

lemma column_overlap_commute_nonempty:
  "column_overlap a b \<noteq> {} \<longleftrightarrow> column_overlap b a \<noteq> {}"
  by (auto simp: column_simps)

lemma dict_ok_add_columns [simp, intro]:
  "dict_ok m \<Longrightarrow> dict_ok (add_columns_to_column_map t c m)"
  by (auto simp: add_columns_to_column_map_def Let_def)

lemma map_covers_add_columns [simp, column_simps]:
  "map_covers (add_columns_to_column_map t c m) t' =
     (if t' = t then map_covers m t \<union> covers c else map_covers m t')"
  by (auto simp: add_columns_to_column_map_def map_covers_def Let_def dict_get_def covers_def
      split: option.splits)

lemma map_covers_Nil [simp, column_simps]: "map_covers [] t = {}"
  by (simp add: map_covers_def)

lemma dict_ok_add_columns_by_table [simp, intro]:
  "dict_ok m \<Longrightarrow> dict_ok (add_columns_by_table m extra)"
  unfolding add_columns_by_table_def by (rule foldl_induct_inv) auto

lemma map_covers_Cons [column_simps]:
  "t \<notin> fst ` set d \<Longrightarrow> map_covers ((t, c) # d) t' = (if t' = t then covers c else map_covers d t')"
  by (simp add: map_covers_def dict_get_def)

lemma map_covers_fresh: "t \<notin> fst ` set d \<Longrightarrow> map_covers d t = {}"
  by (simp add: map_covers_def dict_get_def map_of_eq_None_iff [THEN iffD2])

lemma map_covers_add_columns_by_table:
  "dict_ok extra \<Longrightarrow>
     map_covers (add_columns_by_table m extra) t = map_covers m t \<union> map_covers extra t"
proof (induction extra arbitrary: m)
  case Nil
  then show ?case by (simp add: add_columns_by_table_def)
next
  case (Cons p extra)
  obtain t1 c1 where p: "p = (t1, c1)" by (cases p)
  have ok: "dict_ok extra" and new: "t1 \<notin> fst ` set extra"
    using Cons.prems by (auto simp: dict_ok_def p)
  have step: "add_columns_by_table m (p # extra) =
      add_columns_by_table (add_columns_to_column_map t1 c1 m) extra"
    by (simp add: add_columns_by_table_def p)
  have split: "map_covers (p # extra) t = (if t = t1 then covers c1 else map_covers extra t)"
    using new by (simp add: p map_covers_Cons)
  show ?case
    unfolding step split Cons.IH [OF ok] using map_covers_fresh [OF new] by auto
qed

text \<open>A Python dictionary of finite sets.\<close>

definition column_map_ok :: "column_map \<Rightarrow> bool" where
  "column_map_ok m \<longleftrightarrow> dict_ok m \<and> (\<forall>(t, c) \<in> set m. finite c)"

lemma column_map_ok_dict [simp, dest]: "column_map_ok m \<Longrightarrow> dict_ok m"
  by (simp add: column_map_ok_def)

lemma column_map_ok_Nil [simp, intro]: "column_map_ok []"
  by (simp add: column_map_ok_def)

lemma column_map_ok_get [simp, intro]: "column_map_ok m \<Longrightarrow> finite (dict_get m t {})"
  by (auto simp: column_map_ok_def dict_get_def dest: map_of_SomeD split: option.splits)

lemma column_map_ok_item: "column_map_ok m \<Longrightarrow> (t, c) \<in> set m \<Longrightarrow> finite c"
  by (auto simp: column_map_ok_def)

lemma column_map_ok_set [simp, intro]: "column_map_ok m \<Longrightarrow> finite c \<Longrightarrow> column_map_ok (dict_set t c m)"
proof -
  have "(k, v) \<in> set (dict_set t c d) \<Longrightarrow> (k, v) \<in> set d \<or> v = c" for k v and d :: column_map
    by (induction d) (auto split: if_splits)
  then show "column_map_ok m \<Longrightarrow> finite c \<Longrightarrow> ?thesis"
    by (fastforce simp: column_map_ok_def)
qed

lemma column_map_ok_setdefault [simp, intro]: "column_map_ok m \<Longrightarrow> column_map_ok (dict_setdefault t {} m)"
  by (auto simp: column_map_ok_def dict_setdefault_def split: option.splits)
    (auto simp: dict_ok_def map_of_eq_None_iff)

lemma column_map_ok_add_columns [simp, intro]:
  "column_map_ok m \<Longrightarrow> finite c \<Longrightarrow> column_map_ok (add_columns_to_column_map t c m)"
  by (auto simp: add_columns_to_column_map_def Let_def)

lemma column_map_ok_foldl:
  "(\<And>d x. x \<in> set xs \<Longrightarrow> column_map_ok d \<Longrightarrow> column_map_ok (f d x)) \<Longrightarrow> column_map_ok d \<Longrightarrow>
     column_map_ok (foldl f d xs)"
  by (rule foldl_induct_inv)

lemma column_map_ok_add_columns_by_table [simp, intro]:
  "column_map_ok m \<Longrightarrow> column_map_ok extra \<Longrightarrow> column_map_ok (add_columns_by_table m extra)"
  unfolding add_columns_by_table_def
  by (rule column_map_ok_foldl) (auto dest: column_map_ok_item)

section \<open>Quoting\<close>

lemma read_quoted_tail_double_quotes:
  "(rest = [] \<or> hd rest \<noteq> CHR 0x22) \<Longrightarrow>
     read_quoted_tail (double_quotes s @ CHR 0x22 # rest) = Some (s, rest)"
proof (induction s)
  case Nil
  then show ?case by (cases rest) auto
next
  case (Cons c s)
  show ?case
  proof (cases "c = CHR 0x22")
    case True
    then show ?thesis using Cons by simp
  next
    case False
    obtain d ds where "double_quotes s @ CHR 0x22 # rest = d # ds"
      by (cases "double_quotes s @ CHR 0x22 # rest") auto
    then show ?thesis using Cons False by simp
  qed
qed

section \<open>The interface of column arithmetic\<close>

text \<open>
  What the analyses need of column sets: an overlap test that decides whether two sets can
  name the same column, and an accumulator whose coverage is the union of what was put in.
  Clients reason in this locale; the concrete arithmetic is its model.
\<close>

locale column_arithmetic =
  fixes overlap :: "'s \<Rightarrow> 's \<Rightarrow> 's"
    and nonempty :: "'s \<Rightarrow> bool"
    and denote :: "'s \<Rightarrow> 'c set"
  assumes denote_overlap: "denote (overlap a b) = denote a \<inter> denote b"
    and nonempty_denote: "nonempty a \<longleftrightarrow> denote a \<noteq> {}"
begin

lemma overlap_iff: "nonempty (overlap a b) \<longleftrightarrow> (\<exists>c. c \<in> denote a \<and> c \<in> denote b)"
  by (auto simp: nonempty_denote denote_overlap)

lemma overlap_sym: "nonempty (overlap a b) \<longleftrightarrow> nonempty (overlap b a)"
  by (auto simp: overlap_iff)

lemma overlap_mono:
  "denote a \<subseteq> denote a' \<Longrightarrow> denote b \<subseteq> denote b' \<Longrightarrow> nonempty (overlap a b) \<Longrightarrow> nonempty (overlap a' b')"
  by (auto simp: overlap_iff)

end

interpretation cols: column_arithmetic column_overlap "\<lambda>c. c \<noteq> {}" covers
  by unfold_locales (auto simp: column_simps)

section \<open>Properties\<close>

text \<open>
  Overlap of two column sets means exactly that they can name a common column, with
  \<open>'*'\<close> naming every column; and what the overlap covers is the intersection of what the
  two sets cover.
\<close>

lemma column_overlap_is_intersection:
  "covers (column_overlap left right) = covers left \<inter> covers right \<and>
   ((column_overlap left right \<noteq> {}) = (\<exists>c. c \<in> covers left \<and> c \<in> covers right))"
  using cols.denote_overlap cols.overlap_iff by auto

text \<open>
  Merging one table/column map into another covers, for every table, exactly the
  columns either map covered: the wildcard is never lost and nothing else appears.
\<close>

lemma add_columns_by_table_is_union:
  assumes "dict_ok extra"
  shows "map_covers (add_columns_by_table m extra) t = map_covers m t \<union> map_covers extra t"
  using assms by (rule map_covers_add_columns_by_table)

lemma add_columns_by_table_is_union_witness:
  "map_covers (add_columns_by_table [(''t'', {''a''})] [(''t'', {''*''}), (''u'', {''b''})]) ''t'' = UNIV"
proof -
  have "map_covers (add_columns_by_table [(''t'', {''a''})] [(''t'', {''*''}), (''u'', {''b''})]) ''t''
      = map_covers [(''t'', {''a''})] ''t'' \<union> map_covers [(''t'', {''*''}), (''u'', {''b''})] ''t''"
    by (rule add_columns_by_table_is_union) (simp add: dict_ok_def)
  then show ?thesis by (simp add: map_covers_def dict_get_def covers_def ALL_COLUMNS_def)
qed

text \<open>
  A quoted identifier reads back as the identifier itself and nothing of it leaks out
  of the quotes: quoting is injective and safe against embedded quotes.
\<close>

lemma quote_identifier_roundtrip:
  assumes "rest = [] \<or> hd rest \<noteq> CHR 0x22"
  shows "read_quoted (quote_identifier identifier @ rest) = Some (identifier, rest)"
  using assms by (simp add: quote_identifier_def read_quoted_tail_double_quotes)

lemma quote_identifier_roundtrip_witness:
  "read_quoted (quote_identifier [CHR ''a'', CHR 0x22, CHR ''b''] @ '' WHERE'') =
     Some ([CHR ''a'', CHR 0x22, CHR ''b''], '' WHERE'')"
  by (rule quote_identifier_roundtrip) simp

end
