(* ===== verification/Cascade.thy ===== *)
theory Cascade
  imports Column_Maps
begin

text \<open>
  Foreign-key cascades: \<open>src/merge/cascade_types.py\<close> and
  \<open>src/merge/cascade_metadata.py\<close>. Loading of the foreign-key edges from the rows of
  \<open>PRAGMA foreign_key_list\<close>, grouping of the edges by table, and the breadth-first walk
  that collects the hidden reads and writes of one parent-table event, with its depth
  bound and its conservative answer when the bound is passed.
\<close>

datatype cascade_event_kind = Delete_Event | Update_Event

datatype foreign_key_action = No_Action | Restrict | Cascade | Set_Null | Set_Default

record cascade_write_event =
  event_table :: string
  event_columns :: "string set"
  event_kind :: cascade_event_kind

record foreign_key_edge =
  child_table :: string
  child_columns :: "string list"
  parent_table :: string
  parent_columns :: "string list"
  on_update :: foreign_key_action
  on_delete :: foreign_key_action

type_synonym edge_map = "(string, foreign_key_edge list) dict"

record cascade_effects =
  effects_updated :: column_map
  effects_referenced :: column_map
  effects_write_events :: "cascade_write_event list"

definition has_effects :: "cascade_effects \<Rightarrow> bool" where
  "has_effects e \<longleftrightarrow> effects_updated e \<noteq> [] \<or> effects_referenced e \<noteq> []"

definition MAX_CASCADE_METADATA_DEPTH :: nat where
  "MAX_CASCADE_METADATA_DEPTH = 64"

section \<open>Loading and grouping the edges\<close>

datatype table_role = Parent_Role | Child_Role

fun role_table :: "table_role \<Rightarrow> foreign_key_edge \<Rightarrow> string" where
  "role_table Parent_Role edge = parent_table edge"
| "role_table Child_Role edge = child_table edge"

definition group_foreign_key_edges_by_table ::
    "foreign_key_edge list \<Rightarrow> table_role \<Rightarrow> edge_map" where
  "group_foreign_key_edges_by_table edges role =
     foldl (\<lambda>grouped edge.
        dict_set (role_table role edge)
          (dict_get grouped (role_table role edge) [] @ [edge]) grouped)
       [] edges"

text \<open>One row of \<open>PRAGMA foreign_key_list\<close>; \<open>fk_to\<close> is \<open>None\<close> for a NULL.\<close>

record fk_row =
  fk_id :: int
  fk_seq :: int
  fk_table :: string
  fk_from :: string
  fk_to :: "string option"
  fk_on_update :: string
  fk_on_delete :: string

definition foreign_key_action :: "string \<Rightarrow> foreign_key_action" where
  "foreign_key_action text =
     (let action = ascii_upper text
      in if action = ''NO ACTION'' then No_Action
         else if action = ''RESTRICT'' then Restrict
         else if action = ''CASCADE'' then Cascade
         else if action = ''SET NULL'' then Set_Null
         else if action = ''SET DEFAULT'' then Set_Default
         else No_Action)"

definition group_fk_rows :: "fk_row list \<Rightarrow> (int, fk_row list) dict" where
  "group_fk_rows rows =
     foldl (\<lambda>grouped row. dict_set (fk_id row) (dict_get grouped (fk_id row) [] @ [row]) grouped)
       [] rows"

text \<open>
  One group of rows (one constraint) to at most one edge. A group is never empty. The rows
  are sorted by \<open>seq\<close>; a missing parent column is taken from the parent's primary key.
\<close>

definition edge_of_rows ::
    "(string, string list) dict \<Rightarrow> string \<Rightarrow> fk_row list \<Rightarrow> foreign_key_edge option" where
  "edge_of_rows primary_key_columns child edge_rows =
     (let ordered_rows = sort_key fk_seq edge_rows in
      case ordered_rows of
        [] \<Rightarrow> None
      | first # _ \<Rightarrow>
          (let parent = fk_table first;
               parent_pk_columns = dict_get primary_key_columns parent [];
               uses_parent_pk_shorthand = list_ex (\<lambda>row. fk_to row = None) ordered_rows
           in if uses_parent_pk_shorthand \<and> length ordered_rows \<noteq> length parent_pk_columns
              then None
              else Some
                \<lparr>child_table = child,
                 child_columns = map fk_from ordered_rows,
                 parent_table = parent,
                 parent_columns =
                   map (\<lambda>(index, row).
                      case fk_to row of None \<Rightarrow> parent_pk_columns ! index | Some c \<Rightarrow> c)
                     (enumerate 0 ordered_rows),
                 on_update = foreign_key_action (fk_on_update first),
                 on_delete = foreign_key_action (fk_on_delete first)\<rparr>))"

definition load_foreign_key_edges ::
    "(string \<Rightarrow> fk_row list) \<Rightarrow> string list \<Rightarrow> (string, string list) dict \<Rightarrow> foreign_key_edge list"
where
  "load_foreign_key_edges foreign_key_list tables primary_key_columns =
     concat (map (\<lambda>child.
        List.map_filter (\<lambda>(_, edge_rows). edge_of_rows primary_key_columns child edge_rows)
          (group_fk_rows (foreign_key_list child)))
       tables)"

section \<open>The walk over cascade events\<close>

definition action_for_parent_event ::
    "foreign_key_edge \<Rightarrow> cascade_write_event \<Rightarrow> foreign_key_action option" where
  "action_for_parent_event edge event =
     (if event_kind event = Delete_Event then Some (on_delete edge)
      else if column_overlap (event_columns event) (set (parent_columns edge)) \<noteq> {}
      then Some (on_update edge)
      else None)"

definition cascade_child_event ::
    "foreign_key_edge \<Rightarrow> foreign_key_action \<Rightarrow> cascade_event_kind \<Rightarrow> cascade_write_event option" where
  "cascade_child_event edge action parent_event_kind =
     (if action = Cascade \<and> parent_event_kind = Delete_Event
      then Some \<lparr>event_table = child_table edge, event_columns = {ALL_COLUMNS},
                 event_kind = Delete_Event\<rparr>
      else if action \<in> {Cascade, Set_Null, Set_Default}
      then Some \<lparr>event_table = child_table edge, event_columns = set (child_columns edge),
                 event_kind = Update_Event\<rparr>
      else None)"

definition cascade_event_may_create_or_change_key ::
    "cascade_write_event \<Rightarrow> string \<Rightarrow> string set \<Rightarrow> bool" where
  "cascade_event_may_create_or_change_key event table key_columns \<longleftrightarrow>
     event_kind event = Update_Event \<and> event_table event = table \<and>
     column_overlap (event_columns event) key_columns \<noteq> {}"

definition cascade_event_may_remove_or_change_key ::
    "cascade_write_event \<Rightarrow> string \<Rightarrow> string set \<Rightarrow> bool" where
  "cascade_event_may_remove_or_change_key event table key_columns =
     (if event_table event \<noteq> table then False
      else if event_kind event = Delete_Event then True
      else column_overlap (event_columns event) key_columns \<noteq> {})"

text \<open>The locals of \<open>_cascade_effects_for_event\<close>.\<close>

record cascade_state =
  cs_updated :: column_map
  cs_referenced :: column_map
  cs_events :: "cascade_write_event list"
  cs_queue :: "(cascade_write_event \<times> nat) list"
  cs_visited :: "cascade_write_event set"

text \<open>
  A visited key is \<open>(table, kind, columns)\<close>, that is all the fields of an event, so the
  event itself is the key. One pass of the inner loop over the edges:
\<close>

definition expand_edge ::
    "cascade_write_event \<Rightarrow> nat \<Rightarrow> cascade_state \<Rightarrow> foreign_key_edge \<Rightarrow> cascade_state" where
  "expand_edge event depth st edge =
     (case action_for_parent_event edge event of
        None \<Rightarrow> st
      | Some action \<Rightarrow>
          (let st1 = st\<lparr>cs_referenced :=
                 add_columns_to_column_map (child_table edge) (set (child_columns edge))
                   (cs_referenced st)\<rparr>
           in case cascade_child_event edge action (event_kind event) of
                None \<Rightarrow> st1
              | Some child \<Rightarrow>
                  st1\<lparr>cs_updated :=
                        add_columns_to_column_map (event_table child) (event_columns child)
                          (cs_updated st1),
                      cs_events := cs_events st1 @ [child],
                      cs_queue := cs_queue st1 @ [(child, depth + 1)]\<rparr>))"

definition mark_unknown_cascade_effects :: "string list \<Rightarrow> cascade_state \<Rightarrow> cascade_state" where
  "mark_unknown_cascade_effects tables st =
     foldl (\<lambda>s table. s\<lparr>
         cs_updated := add_columns_to_column_map table {ALL_COLUMNS} (cs_updated s),
         cs_referenced := add_columns_to_column_map table {ALL_COLUMNS} (cs_referenced s),
         cs_events := cs_events s @
           [\<lparr>event_table = table, event_columns = {ALL_COLUMNS}, event_kind = Update_Event\<rparr>]\<rparr>)
       st tables"

definition edges_of :: "edge_map \<Rightarrow> cascade_write_event \<Rightarrow> foreign_key_edge list" where
  "edges_of by_parent event = dict_get by_parent (event_table event) []"

subsection \<open>Termination: a popped event outweighs the events it can add\<close>

definition edge_bound :: "edge_map \<Rightarrow> nat" where
  "edge_bound by_parent = sum_list (map (length \<circ> snd) by_parent)"

definition queue_weight :: "nat \<Rightarrow> (cascade_write_event \<times> nat) list \<Rightarrow> nat" where
  "queue_weight b q =
     sum_list (map (\<lambda>(_, d). (Suc b) ^ (Suc MAX_CASCADE_METADATA_DEPTH - d)) q)"

lemma queue_weight_append [simp]: "queue_weight b (p @ q) = queue_weight b p + queue_weight b q"
  by (simp add: queue_weight_def)

lemma queue_weight_Cons [simp]:
  "queue_weight b ((e, d) # q) = (Suc b) ^ (Suc MAX_CASCADE_METADATA_DEPTH - d) + queue_weight b q"
  by (simp add: queue_weight_def)

lemma queue_weight_Nil [simp]: "queue_weight b [] = 0"
  by (simp add: queue_weight_def)

lemma expand_edge_weight:
  "queue_weight b (cs_queue (expand_edge event d st edge))
     \<le> queue_weight b (cs_queue st) + (Suc b) ^ (MAX_CASCADE_METADATA_DEPTH - d)"
  by (auto simp: expand_edge_def Let_def split: option.splits)

lemma expand_edges_weight:
  "queue_weight b (cs_queue (foldl (expand_edge event d) st edges))
     \<le> queue_weight b (cs_queue st) + length edges * (Suc b) ^ (MAX_CASCADE_METADATA_DEPTH - d)"
proof (induction edges arbitrary: st)
  case Nil
  then show ?case by simp
next
  case (Cons edge edges)
  show ?case
    using Cons.IH [of "expand_edge event d st edge"] expand_edge_weight [of b event d st edge]
    by simp
qed

lemma edges_of_bound: "length (edges_of by_parent event) \<le> edge_bound by_parent"
proof (cases "map_of by_parent (event_table event)")
  case None
  then show ?thesis by (simp add: edges_of_def dict_get_def)
next
  case (Some es)
  then have "length es \<in> set (map (length \<circ> snd) by_parent)"
    by (force dest: map_of_SomeD)
  then have "length es \<le> edge_bound by_parent"
    unfolding edge_bound_def by (rule member_le_sum_list) simp
  with Some show ?thesis by (simp add: edges_of_def dict_get_def)
qed

function cascade_loop :: "edge_map \<Rightarrow> string list \<Rightarrow> cascade_state \<Rightarrow> cascade_state" where
  "cascade_loop by_parent tables st =
     (case cs_queue st of
        [] \<Rightarrow> st
      | (event, depth) # rest \<Rightarrow>
          (if MAX_CASCADE_METADATA_DEPTH < depth
           then mark_unknown_cascade_effects tables (st\<lparr>cs_queue := rest\<rparr>)
           else if event \<in> cs_visited st
           then cascade_loop by_parent tables (st\<lparr>cs_queue := rest\<rparr>)
           else cascade_loop by_parent tables
                  (foldl (expand_edge event depth)
                     (st\<lparr>cs_queue := rest, cs_visited := insert event (cs_visited st)\<rparr>)
                     (edges_of by_parent event))))"
  by pat_completeness auto
termination
proof (relation "measure (\<lambda>(by_parent, tables, st). queue_weight (edge_bound by_parent) (cs_queue st))")
  fix by_parent :: edge_map and tables :: "string list" and st :: cascade_state
    and p event depth rest
  assume q: "cs_queue st = p # rest" and p: "(event, depth) = p"
    and small: "\<not> MAX_CASCADE_METADATA_DEPTH < depth"
  let ?b = "edge_bound by_parent"
  let ?st = "st\<lparr>cs_queue := rest, cs_visited := insert event (cs_visited st)\<rparr>"
  let ?w = "(Suc ?b) ^ (MAX_CASCADE_METADATA_DEPTH - depth)"
  have "queue_weight ?b (cs_queue (foldl (expand_edge event depth) ?st (edges_of by_parent event)))
      \<le> queue_weight ?b rest + length (edges_of by_parent event) * ?w"
    using expand_edges_weight [of ?b event depth ?st "edges_of by_parent event"] by simp
  also have "\<dots> \<le> queue_weight ?b rest + ?b * ?w"
    by (intro add_left_mono mult_le_mono1 edges_of_bound)
  also have "\<dots> < queue_weight ?b (cs_queue st)"
    using small by (simp add: q p [symmetric] Suc_diff_le)
  finally show "((by_parent, tables,
        foldl (expand_edge event depth) ?st (edges_of by_parent event)), by_parent, tables, st)
      \<in> measure (\<lambda>(by_parent, tables, st). queue_weight (edge_bound by_parent) (cs_queue st))"
    by simp
qed auto

declare cascade_loop.simps [simp del]

definition initial_state :: "cascade_write_event \<Rightarrow> cascade_state" where
  "initial_state event =
     \<lparr>cs_updated = [], cs_referenced = [], cs_events = [], cs_queue = [(event, 0)],
      cs_visited = {}\<rparr>"

definition cascade_effects_for_event ::
    "edge_map \<Rightarrow> string list \<Rightarrow> cascade_write_event \<Rightarrow> cascade_effects" where
  "cascade_effects_for_event by_parent tables initial_event =
     (let st = cascade_loop by_parent tables (initial_state initial_event)
      in \<lparr>effects_updated = cs_updated st, effects_referenced = cs_referenced st,
          effects_write_events = cs_events st\<rparr>)"

section \<open>What the walk finds\<close>

text \<open>The hidden write one edge causes for an event, if any.\<close>

definition child_of :: "cascade_write_event \<Rightarrow> foreign_key_edge \<Rightarrow> cascade_write_event option" where
  "child_of event edge =
     Option.bind (action_for_parent_event edge event)
       (\<lambda>action. cascade_child_event edge action (event_kind event))"

text \<open>
  The specification: the writes that foreign-key actions cause, directly or through other
  hidden writes, whatever their depth.
\<close>

inductive hidden_write :: "edge_map \<Rightarrow> cascade_write_event \<Rightarrow> cascade_write_event \<Rightarrow> bool"
  for by_parent event where
  direct: "edge \<in> set (edges_of by_parent event) \<Longrightarrow> child_of event edge = Some c \<Longrightarrow>
     hidden_write by_parent event c"
| step: "hidden_write by_parent event e \<Longrightarrow> edge \<in> set (edges_of by_parent e) \<Longrightarrow>
     child_of e edge = Some c \<Longrightarrow> hidden_write by_parent event c"

definition children :: "cascade_write_event \<Rightarrow> foreign_key_edge list \<Rightarrow> cascade_write_event list" where
  "children event edges = List.map_filter (child_of event) edges"

lemma children_simps [simp]:
  "children event [] = []"
  "children event (edge # edges) =
     (case child_of event edge of None \<Rightarrow> children event edges | Some c \<Rightarrow> c # children event edges)"
  by (simp_all add: children_def map_filter_def split: option.splits)

lemma set_children: "set (children event edges) = {c. \<exists>edge \<in> set edges. child_of event edge = Some c}"
  by (induction edges) (auto split: option.splits)

lemma expand_edge_fields [simp]:
  "cs_visited (expand_edge e d st edge) = cs_visited st"
  "cs_queue (expand_edge e d st edge) = cs_queue st @ map (\<lambda>c. (c, d + 1)) (children e [edge])"
  "cs_events (expand_edge e d st edge) = cs_events st @ children e [edge]"
  by (auto simp: expand_edge_def child_of_def Let_def split: option.splits)

lemma expand_edges_fields [simp]:
  "cs_visited (foldl (expand_edge e d) st edges) = cs_visited st"
  "cs_queue (foldl (expand_edge e d) st edges) = cs_queue st @ map (\<lambda>c. (c, d + 1)) (children e edges)"
  "cs_events (foldl (expand_edge e d) st edges) = cs_events st @ children e edges"
  by (induction edges arbitrary: st) (auto split: option.splits)

lemma expand_edge_covers:
  "map_covers (cs_updated st) t \<subseteq> map_covers (cs_updated (expand_edge e d st edge)) t"
  "map_covers (cs_referenced st) t \<subseteq> map_covers (cs_referenced (expand_edge e d st edge)) t"
  "child_of e edge = Some c \<Longrightarrow> covers (event_columns c)
     \<subseteq> map_covers (cs_updated (expand_edge e d st edge)) (event_table c)"
  "action_for_parent_event edge e = Some a \<Longrightarrow> covers (set (child_columns edge))
     \<subseteq> map_covers (cs_referenced (expand_edge e d st edge)) (child_table edge)"
  by (auto simp: expand_edge_def child_of_def Let_def split: option.splits)

lemma expand_edges_covers_mono:
  "map_covers (cs_updated st) t \<subseteq> map_covers (cs_updated (foldl (expand_edge e d) st edges)) t"
  "map_covers (cs_referenced st) t \<subseteq> map_covers (cs_referenced (foldl (expand_edge e d) st edges)) t"
  by (induction edges arbitrary: st) (use expand_edge_covers in \<open>fastforce+\<close>)

lemma expand_edges_covers_child:
  "edge \<in> set edges \<Longrightarrow> child_of e edge = Some c \<Longrightarrow> covers (event_columns c)
     \<subseteq> map_covers (cs_updated (foldl (expand_edge e d) st edges)) (event_table c)"
proof (induction edges arbitrary: st)
  case (Cons x edges)
  show ?case
  proof (cases "edge = x")
    case True
    show ?thesis
      using expand_edge_covers(3) [OF Cons.prems(2), of d st]
        expand_edges_covers_mono(1) [of "expand_edge e d st x" "event_table c" e d edges] True
      by auto
  next
    case False
    with Cons show ?thesis by simp
  qed
qed simp

lemma expand_edges_covers_reference:
  "edge \<in> set edges \<Longrightarrow> action_for_parent_event edge e = Some a \<Longrightarrow> covers (set (child_columns edge))
     \<subseteq> map_covers (cs_referenced (foldl (expand_edge e d) st edges)) (child_table edge)"
proof (induction edges arbitrary: st)
  case (Cons x edges)
  show ?case
  proof (cases "edge = x")
    case True
    show ?thesis
      using expand_edge_covers(4) [OF Cons.prems(2), of d st]
        expand_edges_covers_mono(2) [of "expand_edge e d st x" "child_table edge" e d edges] True
      by auto
  next
    case False
    with Cons show ?thesis by simp
  qed
qed simp

definition cascade_effects_for_parsed_statement ::
    "edge_map \<Rightarrow> string list \<Rightarrow> cascade_event_kind \<Rightarrow> string \<Rightarrow> string set \<Rightarrow> cascade_effects" where
  "cascade_effects_for_parsed_statement by_parent tables statement_kind table columns =
     cascade_effects_for_event by_parent tables
       (if statement_kind = Delete_Event
        then \<lparr>event_table = table, event_columns = {ALL_COLUMNS}, event_kind = Delete_Event\<rparr>
        else \<lparr>event_table = table, event_columns = columns, event_kind = Update_Event\<rparr>)"

end
