(* ===== verification/Cascade_Correct.thy ===== *)
theory Cascade_Correct
  imports Cascade
begin

text \<open>
  Correctness of the cascade walk of \<open>Cascade\<close>: completeness (no hidden write or read is
  missed, at any depth), exactness below the depth bound, and the shape of the loaded
  foreign-key edges.
\<close>

section \<open>The loop invariant\<close>

definition known :: "cascade_state \<Rightarrow> cascade_write_event set" where
  "known st = cs_visited st \<union> fst ` set (cs_queue st)"

definition expanded :: "edge_map \<Rightarrow> cascade_state \<Rightarrow> cascade_write_event \<Rightarrow> bool" where
  "expanded by_parent st e \<longleftrightarrow>
     (\<forall>edge \<in> set (edges_of by_parent e).
        (\<forall>a. action_for_parent_event edge e = Some a \<longrightarrow>
           covers (set (child_columns edge)) \<subseteq> map_covers (cs_referenced st) (child_table edge)) \<and>
        (\<forall>c. child_of e edge = Some c \<longrightarrow> c \<in> known st \<and> c \<in> set (cs_events st)))"

definition loop_inv :: "edge_map \<Rightarrow> cascade_write_event \<Rightarrow> cascade_state \<Rightarrow> bool" where
  "loop_inv by_parent e0 st \<longleftrightarrow>
     e0 \<in> known st \<and>
     (\<forall>e \<in> cs_visited st. expanded by_parent st e) \<and>
     (\<forall>c \<in> set (cs_events st). covers (event_columns c) \<subseteq> map_covers (cs_updated st) (event_table c))"

lemma loop_inv_initial: "loop_inv by_parent e0 (initial_state e0)"
  by (simp add: loop_inv_def known_def initial_state_def)

lemma loop_inv_skip:
  assumes "loop_inv by_parent e0 st" "cs_queue st = (e, d) # rest" "e \<in> cs_visited st"
  shows "loop_inv by_parent e0 (st\<lparr>cs_queue := rest\<rparr>)"
proof -
  have "known (st\<lparr>cs_queue := rest\<rparr>) = known st"
    using assms(2,3) by (auto simp: known_def)
  with assms(1) show ?thesis by (simp add: loop_inv_def expanded_def)
qed

lemma loop_inv_expand:
  assumes inv: "loop_inv by_parent e0 st" and q: "cs_queue st = (e, d) # rest"
  shows "loop_inv by_parent e0
     (foldl (expand_edge e d) (st\<lparr>cs_queue := rest, cs_visited := insert e (cs_visited st)\<rparr>)
       (edges_of by_parent e))"
    (is "loop_inv _ _ ?st'")
proof -
  let ?st1 = "st\<lparr>cs_queue := rest, cs_visited := insert e (cs_visited st)\<rparr>"
  let ?es = "edges_of by_parent e"
  have known1: "known ?st1 = known st" using q by (auto simp: known_def)
  have known': "known ?st' = known st \<union> set (children e ?es)"
    by (auto simp: known_def q image_Un image_image)
  have mono: "map_covers (cs_updated st) t \<subseteq> map_covers (cs_updated ?st') t"
      "map_covers (cs_referenced st) t \<subseteq> map_covers (cs_referenced ?st') t" for t
    using expand_edges_covers_mono [of ?st1 t e d ?es] by simp_all
  have new: "expanded by_parent ?st' e"
    using expand_edges_covers_reference [of _ ?es e _ d ?st1]
    by (auto simp: expanded_def known' set_children)
  have old: "expanded by_parent ?st' x" if "x \<in> cs_visited st" for x
    using inv that mono(2) unfolding loop_inv_def expanded_def known' by fastforce
  have events: "covers (event_columns c) \<subseteq> map_covers (cs_updated ?st') (event_table c)"
    if "c \<in> set (cs_events ?st')" for c
  proof (cases "c \<in> set (cs_events st)")
    case True
    then show ?thesis using inv mono(1) unfolding loop_inv_def by blast
  next
    case False
    with that obtain edge where "edge \<in> set ?es" "child_of e edge = Some c"
      by (auto simp: set_children)
    then show ?thesis by (rule expand_edges_covers_child)
  qed
  show ?thesis
    using inv new old events unfolding loop_inv_def by (simp add: known')
qed

text \<open>How the loop can end: with everything expanded, or with every table marked.\<close>

definition overflowed :: "string list \<Rightarrow> cascade_state \<Rightarrow> bool" where
  "overflowed tables st \<longleftrightarrow>
     (\<forall>t \<in> set tables. map_covers (cs_updated st) t = UNIV \<and> map_covers (cs_referenced st) t = UNIV \<and>
        \<lparr>event_table = t, event_columns = {ALL_COLUMNS}, event_kind = Update_Event\<rparr> \<in> set (cs_events st))"

lemma mark_unknown_snoc:
  "mark_unknown_cascade_effects (ts @ [t]) st =
     (mark_unknown_cascade_effects ts st)\<lparr>
         cs_updated := add_columns_to_column_map t {ALL_COLUMNS} (cs_updated (mark_unknown_cascade_effects ts st)),
         cs_referenced := add_columns_to_column_map t {ALL_COLUMNS} (cs_referenced (mark_unknown_cascade_effects ts st)),
         cs_events := cs_events (mark_unknown_cascade_effects ts st) @
           [\<lparr>event_table = t, event_columns = {ALL_COLUMNS}, event_kind = Update_Event\<rparr>]\<rparr>"
  by (simp add: mark_unknown_cascade_effects_def)

lemma overflowed_mark_unknown: "overflowed tables (mark_unknown_cascade_effects tables st)"
proof (induction tables rule: rev_induct)
  case Nil
  then show ?case by (simp add: overflowed_def)
next
  case (snoc t ts)
  then show ?case by (auto simp: overflowed_def mark_unknown_snoc)
qed

lemma cascade_loop_result:
  "loop_inv by_parent e0 st \<Longrightarrow>
     overflowed tables (cascade_loop by_parent tables st) \<or>
     (loop_inv by_parent e0 (cascade_loop by_parent tables st) \<and>
      cs_queue (cascade_loop by_parent tables st) = [])"
proof (induction by_parent tables st rule: cascade_loop.induct)
  case (1 by_parent tables st)
  show ?case
  proof (cases "cs_queue st")
    case Nil
    then show ?thesis using "1.prems" by (subst (1 2 3) cascade_loop.simps) simp
  next
    case (Cons p rest)
    obtain e d where p: "p = (e, d)" by (cases p)
    consider "MAX_CASCADE_METADATA_DEPTH < d" | "\<not> MAX_CASCADE_METADATA_DEPTH < d" "e \<in> cs_visited st"
      | "\<not> MAX_CASCADE_METADATA_DEPTH < d" "e \<notin> cs_visited st" by blast
    then show ?thesis
    proof cases
      case 1
      then show ?thesis
        by (simp add: cascade_loop.simps [of by_parent tables st] Cons p overflowed_mark_unknown)
    next
      case 2
      then show ?thesis
        using "1.IH"(1) [OF Cons p [symmetric] 2] loop_inv_skip [OF "1.prems"] Cons p
        by (simp add: cascade_loop.simps [of by_parent tables st])
    next
      case 3
      then show ?thesis
        using "1.IH"(2) [OF Cons p [symmetric] 3] loop_inv_expand [OF "1.prems"] Cons p
        by (simp add: cascade_loop.simps [of by_parent tables st])
    qed
  qed
qed

section \<open>Completeness\<close>

lemma finished_closure:
  assumes inv: "loop_inv by_parent e0 st" and emptied: "cs_queue st = []"
  shows "hidden_write by_parent e0 c \<Longrightarrow> c \<in> cs_visited st \<and> c \<in> set (cs_events st)"
proof (induction rule: hidden_write.induct)
  case (direct edge c)
  have "expanded by_parent st e0" using inv emptied by (simp add: loop_inv_def known_def)
  with direct show ?case using emptied by (auto simp: expanded_def known_def)
next
  case (step e edge c)
  then have "expanded by_parent st e" using inv by (simp add: loop_inv_def)
  with step show ?case using emptied by (auto simp: expanded_def known_def)
qed

lemma child_of_table: "child_of e edge = Some c \<Longrightarrow> event_table c = child_table edge"
  by (auto simp: child_of_def cascade_child_event_def bind_eq_Some_conv split: if_splits)

lemma edges_of_item:
  "edge \<in> set (edges_of by_parent e) \<Longrightarrow> \<exists>t es. (t, es) \<in> set by_parent \<and> edge \<in> set es"
  by (cases "map_of by_parent (event_table e)")
    (auto simp: edges_of_def dict_get_def dest: map_of_SomeD)

lemma hidden_write_table:
  "hidden_write by_parent e0 c \<Longrightarrow>
     \<exists>t es. (t, es) \<in> set by_parent \<and> event_table c \<in> child_table ` set es"
  by (induction rule: hidden_write.induct) (use child_of_table edges_of_item in \<open>fastforce+\<close>)

definition child_tables_known :: "edge_map \<Rightarrow> string list \<Rightarrow> bool" where
  "child_tables_known by_parent tables \<longleftrightarrow>
     (\<forall>(t, es) \<in> set by_parent. \<forall>edge \<in> set es. child_table edge \<in> set tables)"

lemma effects_cases:
  obtains (Overflow) st where "overflowed tables st"
      "cascade_effects_for_event by_parent tables e0 =
        \<lparr>effects_updated = cs_updated st, effects_referenced = cs_referenced st,
         effects_write_events = cs_events st\<rparr>"
  | (Finished) st where "loop_inv by_parent e0 st" "cs_queue st = []"
      "cascade_effects_for_event by_parent tables e0 =
        \<lparr>effects_updated = cs_updated st, effects_referenced = cs_referenced st,
         effects_write_events = cs_events st\<rparr>"
  using cascade_loop_result [OF loop_inv_initial [of by_parent e0], of tables]
  by (auto simp: cascade_effects_for_event_def Let_def)

text \<open>
  C22. No hidden write is missed: for every write a foreign-key action can cause, directly
  or through other hidden writes and at whatever depth, the update map covers its columns
  on its table. Past the depth bound this holds because every table is then marked as
  wholly written.
\<close>

theorem cascade_updates_complete:
  assumes "child_tables_known by_parent tables"
    and "hidden_write by_parent event c"
  shows "covers (event_columns c)
    \<subseteq> map_covers (effects_updated (cascade_effects_for_event by_parent tables event)) (event_table c)"
proof (cases rule: effects_cases [of tables by_parent event])
  case (Overflow st)
  have "event_table c \<in> set tables"
    using hidden_write_table [OF assms(2)] assms(1) by (fastforce simp: child_tables_known_def)
  then show ?thesis using Overflow by (simp add: overflowed_def)
next
  case (Finished st)
  then show ?thesis
    using finished_closure [OF Finished(1,2) assms(2)] by (simp add: loop_inv_def)
qed

text \<open>
  C24. The recorded write events are enough for the key checks: whenever some hidden write
  may create or change, or may remove or change, a (non-empty) key of a table, some
  recorded event passes the same test.
\<close>

theorem cascade_events_decide_keys:
  assumes "child_tables_known by_parent tables"
    and "hidden_write by_parent event c" and "keys \<noteq> {}"
  shows "(cascade_event_may_create_or_change_key c table keys \<longrightarrow>
      (\<exists>ev \<in> set (effects_write_events (cascade_effects_for_event by_parent tables event)).
        cascade_event_may_create_or_change_key ev table keys)) \<and>
    (cascade_event_may_remove_or_change_key c table keys \<longrightarrow>
      (\<exists>ev \<in> set (effects_write_events (cascade_effects_for_event by_parent tables event)).
        cascade_event_may_remove_or_change_key ev table keys))"
proof (cases rule: effects_cases [of tables by_parent event])
  case (Overflow st)
  let ?u = "\<lparr>event_table = event_table c, event_columns = {ALL_COLUMNS}, event_kind = Update_Event\<rparr>"
  have "event_table c \<in> set tables"
    using hidden_write_table [OF assms(2)] assms(1) by (fastforce simp: child_tables_known_def)
  then have u: "?u \<in> set (cs_events st)" using Overflow(1) by (auto simp: overflowed_def)
  have "column_overlap {ALL_COLUMNS} keys \<noteq> {}" using assms(3) by (simp add: column_simps)
  then show ?thesis
    using u Overflow(2)
    by (auto simp: cascade_event_may_create_or_change_key_def
        cascade_event_may_remove_or_change_key_def split: if_splits intro!: bexI [of _ ?u])
next
  case (Finished st)
  then show ?thesis using finished_closure [OF Finished(1,2) assms(2)] by auto
qed

section \<open>Exactness below the depth bound\<close>

definition bounded_inv :: "edge_map \<Rightarrow> cascade_write_event \<Rightarrow> cascade_state \<Rightarrow> bool" where
  "bounded_inv by_parent e0 st \<longleftrightarrow>
     finite (cs_visited st) \<and>
     known st \<subseteq> insert e0 {c. hidden_write by_parent e0 c} \<and>
     set (cs_events st) \<subseteq> {c. hidden_write by_parent e0 c} \<and>
     (\<forall>(e, d) \<in> set (cs_queue st). d \<le> card (cs_visited st))"

lemma bounded_inv_expand:
  assumes inv: "bounded_inv by_parent e0 st" and q: "cs_queue st = (e, d) # rest"
    and fresh: "e \<notin> cs_visited st"
  shows "bounded_inv by_parent e0
     (foldl (expand_edge e d) (st\<lparr>cs_queue := rest, cs_visited := insert e (cs_visited st)\<rparr>)
       (edges_of by_parent e))"
proof -
  have e: "e = e0 \<or> hidden_write by_parent e0 e" and d: "d \<le> card (cs_visited st)"
    using inv q by (auto simp: bounded_inv_def known_def)
  have ch: "hidden_write by_parent e0 c" if "c \<in> set (children e (edges_of by_parent e))" for c
    using that e by (auto simp: set_children intro: hidden_write.intros)
  have fin: "finite (cs_visited st)" and
    old: "x = e0 \<or> hidden_write by_parent e0 x" if "x \<in> known st" for x
    using inv that by (auto simp: bounded_inv_def)
  show ?thesis
    using inv q fresh d ch e unfolding bounded_inv_def known_def
    by (fastforce simp: le_SucI)
qed

lemma bounded_inv_skip:
  "bounded_inv by_parent e0 st \<Longrightarrow> cs_queue st = (e, d) # rest \<Longrightarrow>
     bounded_inv by_parent e0 (st\<lparr>cs_queue := rest\<rparr>)"
  by (auto simp: bounded_inv_def known_def)

lemma cascade_loop_bounded:
  assumes "finite {c. hidden_write by_parent e0 c}"
    and "card (insert e0 {c. hidden_write by_parent e0 c}) \<le> MAX_CASCADE_METADATA_DEPTH"
  shows "bounded_inv by_parent e0 st \<Longrightarrow> loop_inv by_parent e0 st \<Longrightarrow>
    bounded_inv by_parent e0 (cascade_loop by_parent tables st) \<and>
    loop_inv by_parent e0 (cascade_loop by_parent tables st) \<and>
    cs_queue (cascade_loop by_parent tables st) = []"
  using assms
proof (induction by_parent tables st rule: cascade_loop.induct)
  case (1 by_parent tables st)
  show ?case
  proof (cases "cs_queue st")
    case Nil
    then show ?thesis using "1.prems" by (simp add: cascade_loop.simps [of by_parent tables st])
  next
    case (Cons p rest)
    obtain e d where p: "p = (e, d)" by (cases p)
    have "d \<le> card (cs_visited st)" "cs_visited st \<subseteq> insert e0 {c. hidden_write by_parent e0 c}"
      using "1.prems"(1) Cons p by (auto simp: bounded_inv_def known_def)
    moreover from this(2) have
      "card (cs_visited st) \<le> card (insert e0 {c. hidden_write by_parent e0 c})"
      using "1.prems"(3) by (intro card_mono) auto
    ultimately have small: "\<not> MAX_CASCADE_METADATA_DEPTH < d"
      using "1.prems"(4) by simp
    note q = Cons [unfolded p]
    show ?thesis
    proof (cases "e \<in> cs_visited st")
      case True
      then show ?thesis
        using "1.IH"(1) [OF Cons p [symmetric] small True] "1.prems" q
          loop_inv_skip [OF "1.prems"(2) q True] bounded_inv_skip [OF "1.prems"(1) q] small
        by (simp add: cascade_loop.simps [of by_parent tables st])
    next
      case False
      then show ?thesis
        using "1.IH"(2) [OF Cons p [symmetric] small False] "1.prems" q
          loop_inv_expand [OF "1.prems"(2) q] bounded_inv_expand [OF "1.prems"(1) q False] small
        by (simp add: cascade_loop.simps [of by_parent tables st])
    qed
  qed
qed

text \<open>
  C23. Below the depth bound the walk is exact: when the event and its hidden writes are at
  most 64 in number, the recorded write events are precisely the hidden writes.
\<close>

theorem cascade_events_exact:
  assumes "finite {c. hidden_write by_parent event c}"
    and "card (insert event {c. hidden_write by_parent event c}) \<le> MAX_CASCADE_METADATA_DEPTH"
  shows "set (effects_write_events (cascade_effects_for_event by_parent tables event)) =
    {c. hidden_write by_parent event c}"
proof -
  have init: "bounded_inv by_parent event (initial_state event)"
    by (simp add: bounded_inv_def known_def initial_state_def)
  note final = cascade_loop_bounded [OF assms init loop_inv_initial, of tables]
  show ?thesis
    using final finished_closure [of by_parent event "cascade_loop by_parent tables (initial_state event)"]
    by (auto simp: cascade_effects_for_event_def Let_def bounded_inv_def)
qed

text \<open>
  C25. No hidden read is missed: whenever a foreign-key action is triggered by the event or
  by any of its hidden writes, the child's foreign-key columns are in the read map.
\<close>

theorem cascade_reads_complete:
  assumes "child_tables_known by_parent tables"
    and "e = event \<or> hidden_write by_parent event e"
    and "edge \<in> set (edges_of by_parent e)"
    and "action_for_parent_event edge e = Some action"
  shows "covers (set (child_columns edge))
    \<subseteq> map_covers (effects_referenced (cascade_effects_for_event by_parent tables event)) (child_table edge)"
proof (cases rule: effects_cases [of tables by_parent event])
  case (Overflow st)
  have "child_table edge \<in> set tables"
    using edges_of_item [OF assms(3)] assms(1) by (fastforce simp: child_tables_known_def)
  then show ?thesis using Overflow by (simp add: overflowed_def)
next
  case (Finished st)
  have "e \<in> cs_visited st"
    using assms(2) Finished(1,2) finished_closure [OF Finished(1,2)]
    by (auto simp: loop_inv_def known_def)
  then have "expanded by_parent st e" using Finished(1) by (simp add: loop_inv_def)
  then show ?thesis using assms(3,4) Finished(3) by (auto simp: expanded_def)
qed

section \<open>A concrete schema\<close>

text \<open>
  Table \<open>b\<close> references \<open>a\<close> with \<open>ON DELETE CASCADE\<close>, table \<open>c\<close> references
  \<open>b\<close> with \<open>ON DELETE SET NULL\<close>.
\<close>

definition demo_ab :: foreign_key_edge where
  "demo_ab = \<lparr>child_table = ''b'', child_columns = [''a_id''], parent_table = ''a'',
     parent_columns = [''id''], on_update = No_Action, on_delete = Cascade\<rparr>"

definition demo_bc :: foreign_key_edge where
  "demo_bc = \<lparr>child_table = ''c'', child_columns = [''b_id''], parent_table = ''b'',
     parent_columns = [''id''], on_update = No_Action, on_delete = Set_Null\<rparr>"

definition demo_by_parent :: edge_map where
  "demo_by_parent = group_foreign_key_edges_by_table [demo_ab, demo_bc] Parent_Role"

definition delete_a :: cascade_write_event where
  "delete_a = \<lparr>event_table = ''a'', event_columns = {ALL_COLUMNS}, event_kind = Delete_Event\<rparr>"

definition delete_b :: cascade_write_event where
  "delete_b = \<lparr>event_table = ''b'', event_columns = {ALL_COLUMNS}, event_kind = Delete_Event\<rparr>"

definition update_c :: cascade_write_event where
  "update_c = \<lparr>event_table = ''c'', event_columns = {''b_id''}, event_kind = Update_Event\<rparr>"

lemmas demo_defs = demo_ab_def demo_bc_def delete_a_def delete_b_def update_c_def

lemma demo_edges:
  "edges_of demo_by_parent delete_a = [demo_ab]"
  "edges_of demo_by_parent delete_b = [demo_bc]"
  "edges_of demo_by_parent update_c = []"
  by (simp_all add: edges_of_def demo_by_parent_def group_foreign_key_edges_by_table_def dict_get_def
      demo_defs)

lemma demo_children:
  "child_of delete_a demo_ab = Some delete_b" "child_of delete_b demo_bc = Some update_c"
  by (simp_all add: child_of_def action_for_parent_event_def cascade_child_event_def demo_defs)

lemma demo_known: "child_tables_known demo_by_parent [''a'', ''b'', ''c'']"
  by (simp add: child_tables_known_def demo_by_parent_def group_foreign_key_edges_by_table_def
      dict_get_def demo_defs)

lemma demo_hidden: "{e. hidden_write demo_by_parent delete_a e} = {delete_b, update_c}"
proof -
  have "hidden_write demo_by_parent delete_a e \<Longrightarrow> e \<in> {delete_b, update_c}" for e
    by (induction rule: hidden_write.induct) (auto simp: demo_edges demo_children)
  moreover have b: "hidden_write demo_by_parent delete_a delete_b"
    by (rule hidden_write.direct [where edge = demo_ab]) (simp_all add: demo_edges demo_children)
  moreover have "hidden_write demo_by_parent delete_a update_c"
    by (rule hidden_write.step [OF b, where edge = demo_bc]) (simp_all add: demo_edges demo_children)
  ultimately show ?thesis by blast
qed

lemma demo_hidden_c: "hidden_write demo_by_parent delete_a update_c"
  using demo_hidden by blast

theorem cascade_updates_complete_witness:
  "covers {''b_id''} \<subseteq> map_covers
     (effects_updated (cascade_effects_for_event demo_by_parent [''a'', ''b'', ''c''] delete_a)) ''c''"
  using cascade_updates_complete [OF demo_known demo_hidden_c] by (simp add: update_c_def)

theorem cascade_events_decide_keys_witness:
  "\<exists>ev \<in> set (effects_write_events
      (cascade_effects_for_event demo_by_parent [''a'', ''b'', ''c''] delete_a)).
    cascade_event_may_create_or_change_key ev ''c'' {''b_id''}"
proof -
  have "cascade_event_may_create_or_change_key update_c ''c'' {''b_id''}"
    by (simp add: cascade_event_may_create_or_change_key_def update_c_def column_overlap_def
        ALL_COLUMNS_def)
  then show ?thesis
    using cascade_events_decide_keys [OF demo_known demo_hidden_c, of "{''b_id''}" "''c''"] by simp
qed

theorem cascade_events_exact_witness:
  "set (effects_write_events (cascade_effects_for_event demo_by_parent [''a'', ''b'', ''c''] delete_a)) =
     {delete_b, update_c}"
proof -
  have "card (insert delete_a {e. hidden_write demo_by_parent delete_a e}) \<le> 3"
    unfolding demo_hidden using card_length [of "[delete_a, delete_b, update_c]"] by simp
  then have "card (insert delete_a {e. hidden_write demo_by_parent delete_a e})
      \<le> MAX_CASCADE_METADATA_DEPTH"
    by (simp add: MAX_CASCADE_METADATA_DEPTH_def)
  with cascade_events_exact [of demo_by_parent delete_a "[''a'', ''b'', ''c'']"] demo_hidden
  show ?thesis by simp
qed

theorem cascade_reads_complete_witness:
  "covers {''b_id''} \<subseteq> map_covers
     (effects_referenced (cascade_effects_for_event demo_by_parent [''a'', ''b'', ''c''] delete_a)) ''c''"
proof -
  have "delete_b = delete_a \<or> hidden_write demo_by_parent delete_a delete_b"
    using demo_hidden by blast
  moreover have "demo_bc \<in> set (edges_of demo_by_parent delete_b)" by (simp add: demo_edges)
  moreover have "action_for_parent_event demo_bc delete_b = Some Set_Null"
    by (simp add: demo_bc_def action_for_parent_event_def delete_b_def)
  ultimately show ?thesis
    using cascade_reads_complete [OF demo_known, of delete_b delete_a demo_bc Set_Null]
    by (simp add: demo_bc_def)
qed

section \<open>Loaded edges\<close>

lemma map_of_group_edges:
  "map_of (group_foreign_key_edges_by_table edges role) t =
     (let es = filter (\<lambda>edge. role_table role edge = t) edges
      in if es = [] then None else Some es)"
proof (induction edges rule: rev_induct)
  case Nil
  then show ?case by (simp add: group_foreign_key_edges_by_table_def)
next
  case (snoc edge edges)
  have "group_foreign_key_edges_by_table (edges @ [edge]) role =
     (let g = group_foreign_key_edges_by_table edges role
      in dict_set (role_table role edge) (dict_get g (role_table role edge) [] @ [edge]) g)"
    by (simp add: group_foreign_key_edges_by_table_def Let_def)
  then show ?case using snoc by (auto simp: Let_def dict_get_def)
qed

lemma group_fk_rows_nonempty: "(i, g) \<in> set (group_fk_rows rows) \<Longrightarrow> g \<noteq> []"
proof (induction rows arbitrary: i g rule: rev_induct)
  case Nil
  then show ?case by (simp add: group_fk_rows_def)
next
  case (snoc r rows)
  have step: "group_fk_rows (rows @ [r]) =
      dict_set (fk_id r) (dict_get (group_fk_rows rows) (fk_id r) [] @ [r]) (group_fk_rows rows)"
    by (simp add: group_fk_rows_def)
  have upd: "(i, g) \<in> set (dict_set k v d) \<Longrightarrow> (i, g) \<in> set d \<or> g = v" for k v and d :: "(int, fk_row list) dict"
    by (induction d) (auto split: if_splits)
  show ?case using snoc upd unfolding step by blast
qed

lemma edge_of_rows_wellformed:
  "edge_of_rows pks child rows = Some edge \<Longrightarrow>
     child_table edge = child \<and> child_columns edge \<noteq> [] \<and>
     length (parent_columns edge) = length (child_columns edge)"
  by (auto simp: edge_of_rows_def Let_def split: list.splits if_splits)

lemma load_edges_wellformed:
  "edge \<in> set (load_foreign_key_edges foreign_key_list tables pks) \<Longrightarrow>
     child_table edge \<in> set tables \<and> child_columns edge \<noteq> [] \<and> parent_columns edge \<noteq> [] \<and>
     length (parent_columns edge) = length (child_columns edge)"
  by (fastforce simp: load_foreign_key_edges_def map_filter_def dest: edge_of_rows_wellformed)

lemma dict_get_group_edges:
  "dict_get (group_foreign_key_edges_by_table edges role) t [] =
     filter (\<lambda>edge. role_table role edge = t) edges"
  by (simp add: dict_get_def map_of_group_edges Let_def)



end
