(* ===== verification/Conflict_Resolution.thy ===== *)
theory Conflict_Resolution
  imports Prelude
begin

text \<open>
  The SQLite conflict-resolution helpers of \<open>src/sqlite_conflict_resolution.py\<close>: a
  scanner that finds the keywords of a statement outside parentheses, literals and
  comments, the matchers for \<open>INSERT OR\<close>, \<open>UPDATE OR\<close>, \<open>REPLACE INTO\<close> and
  \<open>ON CONFLICT\<close>, and the rewrites built on them. SQL text is ASCII here; the module's
  regular expressions are written out as matchers (a keyword in any case, then one or more
  blanks), each at a given index, as \<open>pattern.match(sql, index)\<close>.
\<close>

section \<open>The top-level keyword scanner\<close>

definition identifier_char :: "char \<Rightarrow> bool" where
  "identifier_char c \<longleftrightarrow> is_alpha c \<or> is_digit c \<or> c = CHR ''_''"

record scan_state =
  depth :: nat
  quote :: "char option"
  bracket_quote :: bool
  line_comment :: bool
  block_comment :: bool

definition scan_start :: scan_state where
  "scan_start = \<lparr>depth = 0, quote = None, bracket_quote = False, line_comment = False,
     block_comment = False\<rparr>"

definition next_char :: "string \<Rightarrow> nat \<Rightarrow> char option" where
  "next_char sql index = (if index + 1 < length sql then Some (sql ! (index + 1)) else None)"

definition skip_identifier :: "string \<Rightarrow> nat \<Rightarrow> nat" where
  "skip_identifier sql index = index + length (takeWhile identifier_char (drop index sql))"

definition starts_keyword :: "string \<Rightarrow> nat \<Rightarrow> bool" where
  "starts_keyword sql index \<longleftrightarrow>
     (is_alpha (sql ! index) \<or> sql ! index = CHR ''_'') \<and>
     (index = 0 \<or> \<not> identifier_char (sql ! (index - 1)))"

lemma skip_identifier_progress:
  "index < length sql \<Longrightarrow> starts_keyword sql index \<Longrightarrow> index < skip_identifier sql index"
  by (auto simp: skip_identifier_def starts_keyword_def identifier_char_def Cons_nth_drop_Suc [symmetric])

text \<open>
  One pass of the scanner's loop: whether the index is yielded, and the index and the
  state of the next pass.
\<close>

definition scan_step :: "string \<Rightarrow> nat \<Rightarrow> scan_state \<Rightarrow> bool \<times> nat \<times> scan_state" where
  "scan_step sql index s =
     (let char = sql ! index; nxt = next_char sql index in
      if line_comment s then
        (False, index + 1,
         if char = CHR 0x0D \<or> char = CHR 0x0A then s\<lparr>line_comment := False\<rparr> else s)
      else if block_comment s then
        (if char = CHR ''*'' \<and> nxt = Some (CHR ''/'')
         then (False, index + 2, s\<lparr>block_comment := False\<rparr>)
         else (False, index + 1, s))
      else if quote s \<noteq> None then
        (if bracket_quote s \<and> char = CHR '']''
         then (False, index + 1, s\<lparr>quote := None, bracket_quote := False\<rparr>)
         else if \<not> bracket_quote s \<and> Some char = quote s
         then if nxt = quote s then (False, index + 2, s) else (False, index + 1, s\<lparr>quote := None\<rparr>)
         else (False, index + 1, s))
      else if char = CHR ''-'' \<and> nxt = Some (CHR ''-'')
      then (False, index + 2, s\<lparr>line_comment := True\<rparr>)
      else if char = CHR ''/'' \<and> nxt = Some (CHR ''*'')
      then (False, index + 2, s\<lparr>block_comment := True\<rparr>)
      else if char = CHR 0x27 \<or> char = CHR 0x22 \<or> char = CHR 0x60
      then (False, index + 1, s\<lparr>quote := Some char\<rparr>)
      else if char = CHR ''[''
      then (False, index + 1, s\<lparr>quote := Some char, bracket_quote := True\<rparr>)
      else if char = CHR ''('' then (False, index + 1, s\<lparr>depth := depth s + 1\<rparr>)
      else if char = CHR '')'' then (False, index + 1, s\<lparr>depth := depth s - 1\<rparr>)
      else if depth s = 0 \<and> starts_keyword sql index then (True, skip_identifier sql index, s)
      else (False, index + 1, s))"

lemma scan_step_progress:
  "scan_step sql index s = (y, i, s') \<Longrightarrow> index < length sql \<Longrightarrow> index < i"
  by (auto simp: scan_step_def Let_def split: if_splits dest: skip_identifier_progress)

lemma scan_step_yield: "scan_step sql index s = (True, i, s') \<Longrightarrow> starts_keyword sql index"
  by (auto simp: scan_step_def Let_def split: if_splits)

function top_level_keyword_indexes :: "string \<Rightarrow> nat \<Rightarrow> scan_state \<Rightarrow> nat list" where
  "top_level_keyword_indexes sql index s =
     (if index < length sql then
        (case scan_step sql index s of
           (yielded, index', s') \<Rightarrow>
             (if yielded then [index] else []) @ top_level_keyword_indexes sql index' s')
      else [])"
  by pat_completeness auto
termination
  by (relation "measure (\<lambda>(sql, index, s). length sql - index)")
    (auto intro!: diff_less_mono2 dest: scan_step_progress [OF sym])

declare top_level_keyword_indexes.simps [simp del]

abbreviation keyword_indexes :: "string \<Rightarrow> nat list" where
  "keyword_indexes sql \<equiv> top_level_keyword_indexes sql 0 scan_start"

section \<open>Matching at an index\<close>

definition upper_at :: "string \<Rightarrow> nat \<Rightarrow> nat \<Rightarrow> string" where
  "upper_at sql index n = ascii_upper (take n (drop index sql))"

text \<open>A keyword in any case: the index after it.\<close>

definition match_word :: "string \<Rightarrow> string \<Rightarrow> nat \<Rightarrow> nat option" where
  "match_word word sql index =
     (if upper_at sql index (length word) = word then Some (index + length word) else None)"

text \<open>\<open>\s+\<close>.\<close>

definition match_spaces :: "string \<Rightarrow> nat \<Rightarrow> nat option" where
  "match_spaces sql index =
     (let n = length (takeWhile is_space (drop index sql))
      in if n = 0 then None else Some (index + n))"

record clause_match =
  match_start :: nat
  match_end :: nat
  group1 :: string
  group2 :: string

definition slice :: "string \<Rightarrow> nat \<Rightarrow> nat \<Rightarrow> string" where
  "slice sql i j = take (j - i) (drop i sql)"

fun match_algorithm :: "string list \<Rightarrow> string \<Rightarrow> nat \<Rightarrow> (nat \<times> nat) option" where
  "match_algorithm [] sql index = None"
| "match_algorithm (a # algs) sql index =
     (case Option.bind (match_word a sql index)
         (\<lambda>i. map_option (\<lambda>j. (i, j)) (match_spaces sql i)) of
        Some r \<Rightarrow> Some r
      | None \<Rightarrow> match_algorithm algs sql index)"

text \<open>\<open>(KEYWORD)\s+OR\s+(A|B|..)\s+\<close>.\<close>

definition or_pattern :: "string \<Rightarrow> string list \<Rightarrow> string \<Rightarrow> nat \<Rightarrow> clause_match option" where
  "or_pattern keyword algs sql index =
     Option.bind (match_word keyword sql index) (\<lambda>i1.
     Option.bind (match_spaces sql i1) (\<lambda>i2.
     Option.bind (match_word ''OR'' sql i2) (\<lambda>i3.
     Option.bind (match_spaces sql i3) (\<lambda>i4.
     Option.bind (match_algorithm algs sql i4) (\<lambda>(i5, i6).
       Some \<lparr>match_start = index, match_end = i6, group1 = slice sql index i1,
             group2 = slice sql i4 i5\<rparr>)))))"

definition CONFLICT_ALGORITHMS :: "string list" where
  "CONFLICT_ALGORITHMS = [''ROLLBACK'', ''ABORT'', ''FAIL'', ''IGNORE'', ''REPLACE'']"

definition REVIEWABLE_ALGORITHMS :: "string list" where
  "REVIEWABLE_ALGORITHMS = [''IGNORE'', ''REPLACE'']"

definition INSERT_OR_PATTERN where "INSERT_OR_PATTERN = or_pattern ''INSERT'' CONFLICT_ALGORITHMS"
definition UPDATE_OR_PATTERN where "UPDATE_OR_PATTERN = or_pattern ''UPDATE'' CONFLICT_ALGORITHMS"
definition INSERT_OR_ROLLBACK_PATTERN where
  "INSERT_OR_ROLLBACK_PATTERN = or_pattern ''INSERT'' [''ROLLBACK'']"
definition UPDATE_OR_ROLLBACK_PATTERN where
  "UPDATE_OR_ROLLBACK_PATTERN = or_pattern ''UPDATE'' [''ROLLBACK'']"
definition REVIEWABLE_INSERT_OR_PATTERN where
  "REVIEWABLE_INSERT_OR_PATTERN = or_pattern ''INSERT'' REVIEWABLE_ALGORITHMS"
definition REVIEWABLE_UPDATE_OR_PATTERN where
  "REVIEWABLE_UPDATE_OR_PATTERN = or_pattern ''UPDATE'' REVIEWABLE_ALGORITHMS"

text \<open>\<open>(REPLACE)(\s+INTO\s+)\<close>.\<close>

definition REPLACE_INTO_PATTERN :: "string \<Rightarrow> nat \<Rightarrow> clause_match option" where
  "REPLACE_INTO_PATTERN sql index =
     Option.bind (match_word ''REPLACE'' sql index) (\<lambda>i1.
     Option.bind (match_spaces sql i1) (\<lambda>i2.
     Option.bind (match_word ''INTO'' sql i2) (\<lambda>i3.
     Option.bind (match_spaces sql i3) (\<lambda>i4.
       Some \<lparr>match_start = index, match_end = i4, group1 = slice sql index i1,
             group2 = slice sql i1 i4\<rparr>))))"

text \<open>\<open>(UPDATE)\s+\<close>.\<close>

definition UPDATE_KEYWORD_PATTERN :: "string \<Rightarrow> nat \<Rightarrow> clause_match option" where
  "UPDATE_KEYWORD_PATTERN sql index =
     Option.bind (match_word ''UPDATE'' sql index) (\<lambda>i1.
     Option.bind (match_spaces sql i1) (\<lambda>i2.
       Some \<lparr>match_start = index, match_end = i2, group1 = slice sql index i1, group2 = []\<rparr>))"

fun first_some :: "('a \<Rightarrow> 'b option) \<Rightarrow> 'a list \<Rightarrow> 'b option" where
  "first_some f [] = None"
| "first_some f (x # xs) = (case f x of Some y \<Rightarrow> Some y | None \<Rightarrow> first_some f xs)"

definition top_level_pattern_match ::
    "string \<Rightarrow> (string \<Rightarrow> nat \<Rightarrow> clause_match option) \<Rightarrow> clause_match option" where
  "top_level_pattern_match sql pattern = first_some (pattern sql) (keyword_indexes sql)"

section \<open>Rewrites\<close>

datatype resolution_kind = Insert_Resolution | Update_Resolution

record conflict_resolution =
  resolution_statement_kind :: resolution_kind
  algorithm :: string

record compatible_sql =
  compat_sql :: string
  compat_resolution :: "conflict_resolution option"
  stripped_upsert :: bool

record strict_replay_rewrite =
  strict_sql :: string
  strict_label :: string

definition remove_top_level_or_clause ::
    "string \<Rightarrow> (string \<Rightarrow> nat \<Rightarrow> clause_match option) \<Rightarrow> string \<times> conflict_resolution option" where
  "remove_top_level_or_clause sql pattern =
     (case top_level_pattern_match sql pattern of
        None \<Rightarrow> (sql, None)
      | Some m \<Rightarrow>
          (take (match_start m) sql @ group1 m @ '' '' @ drop (match_end m) sql,
           Some \<lparr>resolution_statement_kind =
                   (if ascii_upper (group1 m) = ''INSERT'' then Insert_Resolution else Update_Resolution),
                 algorithm = ascii_upper (group2 m)\<rparr>))"

definition resolution_label :: "conflict_resolution \<Rightarrow> string" where
  "resolution_label r =
     (case resolution_statement_kind r of Insert_Resolution \<Rightarrow> ''INSERT'' | Update_Resolution \<Rightarrow> ''UPDATE'')
       @ '' OR '' @ algorithm r"

definition insert_or_resolution :: "string \<Rightarrow> conflict_resolution option" where
  "insert_or_resolution sql =
     map_option (\<lambda>m. \<lparr>resolution_statement_kind = Insert_Resolution, algorithm = ascii_upper (group2 m)\<rparr>)
       (top_level_pattern_match sql INSERT_OR_PATTERN)"

definition replace_resolution :: conflict_resolution where
  "replace_resolution = \<lparr>resolution_statement_kind = Insert_Resolution, algorithm = ''REPLACE''\<rparr>"

definition normalize_top_level_replace_into :: "string \<Rightarrow> string \<times> conflict_resolution option" where
  "normalize_top_level_replace_into sql =
     (case top_level_pattern_match sql REPLACE_INTO_PATTERN of
        None \<Rightarrow> (sql, None)
      | Some m \<Rightarrow>
          (take (match_start m) sql @ ''INSERT OR REPLACE'' @ group2 m @ drop (match_end m) sql,
           Some replace_resolution))"

definition strip_top_level_replace_into :: "string \<Rightarrow> string \<times> conflict_resolution option" where
  "strip_top_level_replace_into sql =
     (case top_level_pattern_match sql REPLACE_INTO_PATTERN of
        None \<Rightarrow> (sql, None)
      | Some m \<Rightarrow>
          (take (match_start m) sql @ ''INSERT'' @ group2 m @ drop (match_end m) sql,
           Some replace_resolution))"

definition starts_with_insert_like_statement :: "string \<Rightarrow> bool" where
  "starts_with_insert_like_statement sql \<longleftrightarrow>
     (let upper = ascii_upper (lstrip sql) in starts_with upper ''INSERT'' \<or> starts_with upper ''WITH'')"

definition keyword_at :: "string \<Rightarrow> nat \<Rightarrow> string \<Rightarrow> bool" where
  "keyword_at sql index keyword \<longleftrightarrow>
     (let e = index + length keyword in
      upper_at sql index (length keyword) = keyword \<and>
      (index = 0 \<or> \<not> identifier_char (sql ! (index - 1))) \<and>
      (length sql \<le> e \<or> \<not> identifier_char (sql ! e)))"

definition next_keyword_after :: "string \<Rightarrow> nat \<Rightarrow> string option" where
  "next_keyword_after sql index =
     (let word = takeWhile identifier_char (dropWhile is_space (drop index sql))
      in if word = [] then None else Some (ascii_upper word))"

definition find_top_level_on_conflict :: "string \<Rightarrow> nat option" where
  "find_top_level_on_conflict sql =
     List.find (\<lambda>index. keyword_at sql index ''ON'' \<and> next_keyword_after sql (index + 2) = Some ''CONFLICT'')
       (keyword_indexes sql)"

definition strip_top_level_upsert :: "string \<Rightarrow> string option" where
  "strip_top_level_upsert sql =
     (if \<not> starts_with_insert_like_statement sql then None
      else case find_top_level_on_conflict sql of
             None \<Rightarrow> None
           | Some index \<Rightarrow>
               (let stripped = rstrip (take index sql)
                in Some (if ends_with (rstrip sql) '';'' then stripped @ '';'' else stripped)))"

definition normalize_sql_for_sqlglot :: "string \<Rightarrow> compatible_sql" where
  "normalize_sql_for_sqlglot sql =
     (let resolution0 = insert_or_resolution sql;
          (update_normalized, update_resolution) = remove_top_level_or_clause sql UPDATE_OR_PATTERN;
          (normalized1, resolution1) =
            (if update_resolution \<noteq> None then (update_normalized, update_resolution)
             else (sql, resolution0));
          (normalized2, resolution2) =
            (if resolution1 = None
             then (case normalize_top_level_replace_into normalized1 of
                     (_, None) \<Rightarrow> (normalized1, resolution1)
                   | (replace_normalized, Some r) \<Rightarrow> (replace_normalized, Some r))
             else (normalized1, resolution1));
          without_upsert = strip_top_level_upsert normalized2
      in if without_upsert \<noteq> None \<and> without_upsert \<noteq> Some normalized2
         then \<lparr>compat_sql = the without_upsert, compat_resolution = resolution2, stripped_upsert = True\<rparr>
         else \<lparr>compat_sql = normalized2, compat_resolution = resolution2, stripped_upsert = False\<rparr>)"

definition neutralize_rollback_conflict_resolution :: "string \<Rightarrow> string" where
  "neutralize_rollback_conflict_resolution sql =
     fst (remove_top_level_or_clause
            (fst (remove_top_level_or_clause sql INSERT_OR_ROLLBACK_PATTERN))
            UPDATE_OR_ROLLBACK_PATTERN)"

fun join_with :: "string \<Rightarrow> string list \<Rightarrow> string" where
  "join_with sep [] = []"
| "join_with sep [x] = x"
| "join_with sep (x # y # xs) = x @ sep @ join_with sep (y # xs)"

definition strict_conflict_resolution_rewrite :: "string \<Rightarrow> strict_replay_rewrite option" where
  "strict_conflict_resolution_rewrite sql =
     (let (sql1, label1) = remove_top_level_or_clause sql REVIEWABLE_INSERT_OR_PATTERN;
          labels1 = (case label1 of None \<Rightarrow> [] | Some r \<Rightarrow> [resolution_label r]);
          (sql2, label2) = remove_top_level_or_clause sql1 REVIEWABLE_UPDATE_OR_PATTERN;
          labels2 = labels1 @ (case label2 of None \<Rightarrow> [] | Some r \<Rightarrow> [resolution_label r]);
          (sql3, label3) = strip_top_level_replace_into sql2;
          labels3 = labels2 @ (case label3 of None \<Rightarrow> [] | Some _ \<Rightarrow> [''REPLACE INTO'']);
          without_upsert = strip_top_level_upsert sql3;
          (sql4, labels4) =
            (if without_upsert \<noteq> None \<and> without_upsert \<noteq> Some sql3
             then (the without_upsert, labels3 @ [''UPSERT'']) else (sql3, labels3))
      in if labels4 \<noteq> [] then Some \<lparr>strict_sql = sql4, strict_label = join_with '' / '' labels4\<rparr>
         else None)"

definition restore_update_conflict_resolution :: "string \<Rightarrow> conflict_resolution option \<Rightarrow> string" where
  "restore_update_conflict_resolution sql resolution =
     (case resolution of
        None \<Rightarrow> sql
      | Some r \<Rightarrow>
          if resolution_statement_kind r \<noteq> Update_Resolution then sql
          else case top_level_pattern_match sql UPDATE_KEYWORD_PATTERN of
                 None \<Rightarrow> sql
               | Some m \<Rightarrow>
                   take (match_start m) sql @ group1 m @ '' OR '' @ algorithm r @ '' ''
                     @ drop (match_end m) sql)"

end
