(* ===== verification/Conflict_Resolution_Props.thy ===== *)
theory Conflict_Resolution_Props
  imports Conflict_Resolution
begin

text \<open>
  What the scanner and the rewrites of \<open>Conflict_Resolution\<close> guarantee: positions in
  range and in order, nothing found inside literals and comments, the round trip of
  \<open>UPDATE OR\<close>, and the agreement of the strict rewrite with the normal form.
\<close>

lemmas scan = top_level_keyword_indexes.simps

section \<open>Positions\<close>

lemma scan_induct [consumes 0, case_names stop pass]:
  assumes "\<And>k s. length sql \<le> k \<Longrightarrow> P k s []"
    and "\<And>k s y k' s' ix. k < length sql \<Longrightarrow> scan_step sql k s = (y, k', s') \<Longrightarrow> k < k' \<Longrightarrow>
      ix = top_level_keyword_indexes sql k' s' \<Longrightarrow> P k' s' ix \<Longrightarrow> P k s ((if y then [k] else []) @ ix)"
  shows "P k s (top_level_keyword_indexes sql k s)"
proof (induction "length sql - k" arbitrary: k s rule: less_induct)
  case less
  show ?case
  proof (cases "k < length sql")
    case False
    then show ?thesis by (simp add: scan [of sql k s] assms(1))
  next
    case True
    obtain y k' s' where st: "scan_step sql k s = (y, k', s')" by (cases "scan_step sql k s")
    have "k < k'" using scan_step_progress [OF st True] .
    then have "P k' s' (top_level_keyword_indexes sql k' s')" using True by (intro less) simp
    from assms(2) [OF True st \<open>k < k'\<close> refl this] show ?thesis
      using True st by (simp add: scan [of sql k s])
  qed
qed

lemma scan_lower_bound: "i \<in> set (top_level_keyword_indexes sql k s) \<Longrightarrow> k \<le> i"
proof -
  have "\<forall>i \<in> set (top_level_keyword_indexes sql k s). k \<le> i"
    by (rule scan_induct) auto
  then show "i \<in> set (top_level_keyword_indexes sql k s) \<Longrightarrow> k \<le> i" by blast
qed

lemma scan_positions:
  "i \<in> set (top_level_keyword_indexes sql k s) \<Longrightarrow> i < length sql \<and> starts_keyword sql i"
proof -
  have "\<forall>i \<in> set (top_level_keyword_indexes sql k s). i < length sql \<and> starts_keyword sql i"
    by (rule scan_induct) (auto dest: scan_step_yield split: if_splits)
  then show "i \<in> set (top_level_keyword_indexes sql k s) \<Longrightarrow> i < length sql \<and> starts_keyword sql i"
    by blast
qed

lemma scan_sorted: "sorted_wrt (<) (top_level_keyword_indexes sql k s)"
  by (rule scan_induct) (auto dest: scan_lower_bound)



section \<open>Literals and comments\<close>

definition in_code :: "scan_state \<Rightarrow> bool" where
  "in_code s \<longleftrightarrow> quote s = None \<and> \<not> bracket_quote s \<and> \<not> line_comment s \<and> \<not> block_comment s"

lemma clear_quote [simp]: "quote s = None \<Longrightarrow> s\<lparr>quote := None\<rparr> = s"
  by (cases s) simp

lemma drop_ConsD:
  assumes "drop i sql = c # cs"
  shows "i < length sql" "sql ! i = c" "drop (Suc i) sql = cs"
    "next_char sql i = (case cs of [] \<Rightarrow> None | d # _ \<Rightarrow> Some d)"
proof -
  show len: "i < length sql" using assms by (metis drop_all linorder_not_le list.simps(3))
  then have split: "sql ! i # drop (Suc i) sql = c # cs" using assms by (simp add: Cons_nth_drop_Suc)
  then show "sql ! i = c" "drop (Suc i) sql = cs" by simp_all
  show "next_char sql i = (case cs of [] \<Rightarrow> None | d # _ \<Rightarrow> Some d)"
  proof (cases cs)
    case Nil
    with split have "length sql \<le> Suc i" by simp
    with Nil show ?thesis by (simp add: next_char_def)
  next
    case (Cons d ds)
    with split have "Suc i < length sql" "sql ! Suc i = d"
      by (metis drop_eq_Nil linorder_not_less list.inject list.simps(3), metis list.inject list.sel(1)
          hd_drop_conv_nth drop_eq_Nil linorder_not_less list.simps(3))
    with Cons show ?thesis by (simp add: next_char_def)
  qed
qed

text \<open>The body of a literal, its quotes doubled.\<close>

fun escape_quote :: "char \<Rightarrow> string \<Rightarrow> string" where
  "escape_quote q [] = []"
| "escape_quote q (c # cs) = (if c = q then [q, q] @ escape_quote q cs else c # escape_quote q cs)"

lemma scan_literal_body:
  assumes "drop i sql = escape_quote q body @ q # rest" and "rest = [] \<or> hd rest \<noteq> q"
    and "quote s = Some q" "\<not> bracket_quote s" "\<not> line_comment s" "\<not> block_comment s"
  shows "top_level_keyword_indexes sql i s =
     top_level_keyword_indexes sql (i + length (escape_quote q body) + 1) (s\<lparr>quote := None\<rparr>)"
  using assms
proof (induction body arbitrary: i)
  case Nil
  then have d: "drop i sql = q # rest" by simp
  note f = drop_ConsD [OF d]
  have "next_char sql i \<noteq> Some q" using Nil.prems(2) f(4) by (auto split: list.splits)
  then show ?case using f Nil.prems by (simp add: scan [of sql i s] scan_step_def Let_def)
next
  case (Cons c body)
  show ?case
  proof (cases "c = q")
    case True
    have d: "drop i sql = q # q # escape_quote q body @ q # rest" using Cons.prems(1) True by simp
    note f = drop_ConsD [OF d]
    have "drop (Suc (Suc i)) sql = escape_quote q body @ q # rest"
      using drop_ConsD(3) [OF f(3)] .
    then have "drop (i + 2) sql = escape_quote q body @ q # rest" by simp
    from Cons.IH [OF this Cons.prems(2-)] show ?thesis
      using f True Cons.prems by (simp add: scan [of sql i s] scan_step_def Let_def)
  next
    case False
    have d: "drop i sql = c # escape_quote q body @ q # rest" using Cons.prems(1) False by simp
    note f = drop_ConsD [OF d]
    have "drop (i + 1) sql = escape_quote q body @ q # rest" using f(3) by simp
    from Cons.IH [OF this Cons.prems(2-)] show ?thesis
      using f False Cons.prems by (simp add: scan [of sql i s] scan_step_def Let_def)
  qed
qed

lemma scan_literal:
  assumes d: "drop i sql = q # escape_quote q body @ q # rest" and "rest = [] \<or> hd rest \<noteq> q"
    and q: "q = CHR 0x27 \<or> q = CHR 0x22 \<or> q = CHR 0x60" and s: "in_code s"
  shows "top_level_keyword_indexes sql i s =
     top_level_keyword_indexes sql (i + length (escape_quote q body) + 2) s"
proof -
  note f = drop_ConsD [OF d]
  have enter: "top_level_keyword_indexes sql i s =
      top_level_keyword_indexes sql (i + 1) (s\<lparr>quote := Some q\<rparr>)"
    using f q s by (auto simp: scan [of sql i s] scan_step_def in_code_def Let_def)
  have "drop (i + 1) sql = escape_quote q body @ q # rest" using f(3) by simp
  from scan_literal_body [OF this assms(2), of "s\<lparr>quote := Some q\<rparr>"] s enter
  show ?thesis by (simp add: in_code_def)
qed

lemma scan_block_comment_body:
  assumes "drop i sql = body @ ''*/'' @ rest" and "\<not> (\<exists>a b. body @ [CHR ''*''] = a @ ''*/'' @ b)"
    and "block_comment s" "\<not> line_comment s"
  shows "top_level_keyword_indexes sql i s =
     top_level_keyword_indexes sql (i + length body + 2) (s\<lparr>block_comment := False\<rparr>)"
  using assms
proof (induction body arbitrary: i)
  case Nil
  then have d: "drop i sql = CHR ''*'' # CHR ''/'' # rest" by simp
  note f = drop_ConsD [OF d]
  show ?case using f Nil.prems by (simp add: scan [of sql i s] scan_step_def Let_def)
next
  case (Cons c body)
  have d: "drop i sql = c # body @ ''*/'' @ rest" using Cons.prems(1) by simp
  note f = drop_ConsD [OF d]
  have no: "\<not> (\<exists>a b. body @ [CHR ''*''] = a @ ''*/'' @ b)"
    using Cons.prems(2) by (metis append_Cons)
  have "\<not> (c = CHR ''*'' \<and> next_char sql i = Some (CHR ''/''))"
  proof (cases body)
    case Nil
    then show ?thesis using f(4) by simp
  next
    case (Cons d ds)
    have "(c # body) @ [CHR ''*''] = [] @ ''*/'' @ (ds @ [CHR ''*''])"
      if "c = CHR ''*''" "d = CHR ''/''" using that Cons by simp
    then show ?thesis using Cons.prems(2) f(4) Cons by auto
  qed
  moreover have "drop (i + 1) sql = body @ ''*/'' @ rest" using f(3) by simp
  ultimately show ?case
    using Cons.IH [OF _ no Cons.prems(3,4)] f(1,2) Cons.prems(3,4) by (auto simp add: scan [of sql i s] scan_step_def Let_def)
qed

text \<open>
  Nothing inside a quoted literal is ever taken for a keyword: scanning code that
  reaches a literal (its quotes doubled inside, and not followed by a further quote)
  continues after its closing quote, and so no position between the quotes is yielded.
\<close>

lemma scanner_skips_literals:
  assumes "drop i sql = q # escape_quote q body @ q # rest" and "rest = [] \<or> hd rest \<noteq> q"
    and "q = CHR 0x27 \<or> q = CHR 0x22 \<or> q = CHR 0x60" and "in_code s"
    and "k \<in> set (top_level_keyword_indexes sql i s)"
  shows "i + length (escape_quote q body) + 2 \<le> k"
  using assms(5) scan_literal [OF assms(1-4)] scan_lower_bound by metis

lemma scanner_skips_literals_witness:
  "1 \<notin> set (keyword_indexes [CHR 0x27, CHR ''o'', CHR ''n'', CHR 0x27, CHR '' '', CHR ''o'', CHR ''n''])"
proof
  let ?sql = "[CHR 0x27, CHR ''o'', CHR ''n'', CHR 0x27, CHR '' '', CHR ''o'', CHR ''n'']"
  assume k: "1 \<in> set (keyword_indexes ?sql)"
  have d: "drop 0 ?sql = CHR 0x27 # escape_quote CHR 0x27 ''on'' @ CHR 0x27 # '' on''" by simp
  have c: "in_code scan_start" by (simp add: in_code_def scan_start_def)
  have "0 + length (escape_quote CHR 0x27 ''on'') + 2 \<le> 1"
    by (rule scanner_skips_literals [OF d _ _ c k]) simp_all
  then show False by simp
qed

text \<open>
  A comment is skipped as well: after \<open>/*\<close> the scan continues behind the first
  \<open>*/\<close>, in the state it was in before.
\<close>

lemma scanner_skips_block_comments:
  assumes "drop i sql = ''/*'' @ body @ ''*/'' @ rest" and "\<not> (\<exists>a b. body @ ''*'' = a @ ''*/'' @ b)"
    and "in_code s" and "k \<in> set (top_level_keyword_indexes sql i s)"
  shows "i + length body + 4 \<le> k"
proof -
  have d: "drop i sql = CHR ''/'' # CHR ''*'' # body @ ''*/'' @ rest" using assms(1) by simp
  note f = drop_ConsD [OF d]
  have "drop (i + 2) sql = body @ ''*/'' @ rest" using drop_ConsD(3) [OF f(3)] by simp
  from scan_block_comment_body [OF this assms(2), of "s\<lparr>block_comment := True\<rparr>"] assms(3)
  have "top_level_keyword_indexes sql (i + 2) (s\<lparr>block_comment := True\<rparr>) =
      top_level_keyword_indexes sql (i + length body + 4) (s\<lparr>block_comment := False\<rparr>)"
    by (simp add: in_code_def numeral_eq_Suc)
  moreover have "top_level_keyword_indexes sql i s =
      top_level_keyword_indexes sql (i + 2) (s\<lparr>block_comment := True\<rparr>)"
    using f assms(3) by (simp add: scan [of sql i s] scan_step_def in_code_def Let_def)
  ultimately show ?thesis using assms(4) scan_lower_bound by metis
qed

lemma scanner_skips_block_comments_witness:
  "2 \<notin> set (keyword_indexes ''/*on*/ on'')"
proof
  assume k: "2 \<in> set (keyword_indexes ''/*on*/ on'')"
  have d: "drop 0 ''/*on*/ on'' = ''/*'' @ ''on'' @ ''*/'' @ '' on''" by simp
  have n: "\<not> (\<exists>a b. ''on'' @ ''*'' = a @ ''*/'' @ b)"
    by (auto simp: Cons_eq_append_conv)
  have c: "in_code scan_start" by (simp add: in_code_def scan_start_def)
  from scanner_skips_block_comments [OF d n c k] show False by simp
qed

section \<open>Matching\<close>

lemma drop_shift: "drop i sql = u @ v \<Longrightarrow> drop (i + length u) sql = v"
  by (metis add.commute append_eq_conv_conj drop_drop)

lemma ascii_upper_append [simp]: "ascii_upper (u @ v) = ascii_upper u @ ascii_upper v"
  by (simp add: ascii_upper_def)

lemma match_word_hit:
  assumes "drop i sql = w @ rest" "ascii_upper w = word"
  shows "match_word word sql i = Some (i + length w)"
proof -
  have "length w = length word" using assms(2) by auto
  then show ?thesis using assms by (auto simp: match_word_def upper_at_def)
qed

lemma match_word_miss:
  assumes "drop i sql = w @ rest" "take (length word) (ascii_upper w @ ascii_upper rest) \<noteq> word"
  shows "match_word word sql i = None"
  using assms by (simp add: match_word_def upper_at_def ascii_upper_def take_map)

definition blanks :: "string \<Rightarrow> bool" where
  "blanks sp \<longleftrightarrow> sp \<noteq> [] \<and> list_all is_space sp"

definition no_blank_first :: "string \<Rightarrow> bool" where
  "no_blank_first rest \<longleftrightarrow> rest = [] \<or> \<not> is_space (hd rest)"

lemma takeWhile_blanks:
  "list_all is_space sp \<Longrightarrow> no_blank_first rest \<Longrightarrow> takeWhile is_space (sp @ rest) = sp"
proof (induction sp)
  case Nil
  then show ?case by (cases rest) (auto simp: no_blank_first_def)
qed simp

lemma match_spaces_hit:
  "drop i sql = sp @ rest \<Longrightarrow> blanks sp \<Longrightarrow> no_blank_first rest \<Longrightarrow>
     match_spaces sql i = Some (i + length sp)"
  by (simp add: match_spaces_def blanks_def takeWhile_blanks Let_def)

lemma alpha_upper: "is_alpha (ascii_upper_char c) \<Longrightarrow> is_alpha c"
  by (auto simp: ascii_upper_char_def is_alpha_def Let_def split: if_splits)

lemma alpha_not_space: "is_alpha c \<Longrightarrow> \<not> is_space c"
  by (auto simp: is_alpha_def is_space_def Let_def)

lemma word_head_alpha:
  "ascii_upper w = c # cs \<Longrightarrow> is_alpha c \<Longrightarrow> w \<noteq> [] \<and> is_alpha (hd w)"
  by (cases w) (auto simp: ascii_upper_def dest: alpha_upper)

lemma word_no_blank_first:
  "ascii_upper w = c # cs \<Longrightarrow> is_alpha c \<Longrightarrow> no_blank_first (w @ rest)"
  using word_head_alpha [of w c cs] by (auto simp: no_blank_first_def dest: alpha_not_space)

lemma match_algorithm_hit:
  assumes "drop i sql = a @ sp @ rest" "blanks sp" "no_blank_first rest"
    and "ascii_upper a \<in> set CONFLICT_ALGORITHMS"
  shows "match_algorithm CONFLICT_ALGORITHMS sql i = Some (i + length a, i + length a + length sp)"
proof -
  have sp: "match_spaces sql (i + length a) = Some (i + length a + length sp)"
    by (rule match_spaces_hit [OF drop_shift [OF assms(1)] assms(2,3)])
  have hit: "match_word (ascii_upper a) sql i = Some (i + length a)"
    by (rule match_word_hit [OF assms(1) refl])
  have miss: "match_word b sql i = None"
    if "take (length b) (ascii_upper a @ ascii_upper (sp @ rest)) \<noteq> b" for b
    by (rule match_word_miss [OF assms(1) that])
  from assms(4) show ?thesis
    unfolding CONFLICT_ALGORITHMS_def using hit sp miss by (auto simp del: ascii_upper_append)
qed

section \<open>The round trip of UPDATE OR\<close>

lemma scan_blanks:
  "drop i sql = ws @ rest \<Longrightarrow> list_all is_space ws \<Longrightarrow> in_code s \<Longrightarrow>
     top_level_keyword_indexes sql i s = top_level_keyword_indexes sql (i + length ws) s"
proof (induction ws arbitrary: i)
  case (Cons c ws)
  have d: "drop i sql = c # ws @ rest" using Cons.prems(1) by simp
  note f = drop_ConsD [OF d]
  have c: "is_space c" using Cons.prems(2) by simp
  then have "\<not> is_alpha c" "c \<noteq> CHR ''_''" "c \<notin> {CHR ''-'', CHR ''/'', CHR 0x27, CHR 0x22, CHR 0x60,
      CHR ''['', CHR ''('', CHR '')''}"
    using alpha_not_space by (auto simp: is_space_def)
  then have "top_level_keyword_indexes sql i s = top_level_keyword_indexes sql (i + 1) s"
    using f(1,2) Cons.prems(3)
    by (simp add: scan [of sql i s] scan_step_def in_code_def starts_keyword_def Let_def)
  moreover have "drop (i + 1) sql = ws @ rest" using f(3) by simp
  ultimately show ?case using Cons.IH [of "i + 1"] Cons.prems by simp
qed simp

lemma space_not_identifier: "is_space c \<Longrightarrow> \<not> identifier_char c"
  by (auto simp: is_space_def identifier_char_def is_alpha_def is_digit_def Let_def)

text \<open>The first keyword of a statement is the first position the scanner yields.\<close>

lemma scan_first_word:
  assumes "list_all is_space ws" "w \<noteq> []" "is_alpha (hd w)"
  shows "\<exists>js. keyword_indexes (ws @ w @ rest) = length ws # js"
proof -
  let ?sql = "ws @ w @ rest"
  have code: "in_code scan_start" by (simp add: in_code_def scan_start_def)
  have start: "keyword_indexes ?sql = top_level_keyword_indexes ?sql (length ws) scan_start"
    using scan_blanks [of 0 ?sql ws "w @ rest" scan_start] assms(1) code by simp
  obtain c cs where w: "w = c # cs" using assms(2) by (cases w) auto
  have len: "length ws < length ?sql" and c: "?sql ! length ws = c" using w by simp_all
  have prev: "length ws = 0 \<or> \<not> identifier_char (?sql ! (length ws - 1))"
  proof (cases "ws = []")
    case False
    then have "?sql ! (length ws - 1) = last ws" by (simp add: last_conv_nth nth_append)
    moreover have "is_space (last ws)" using False assms(1) by (simp add: list_all_iff)
    ultimately show ?thesis using space_not_identifier by simp
  qed simp
  have a: "is_alpha c" using assms(3) w by simp
  then have other: "c \<notin> {CHR ''-'', CHR ''/'', CHR 0x27, CHR 0x22, CHR 0x60, CHR ''['', CHR ''('', CHR '')''}"
    by (auto simp: is_alpha_def)
  have "starts_keyword ?sql (length ws)" unfolding starts_keyword_def c using a prev by simp
  then have "scan_step ?sql (length ws) scan_start =
      (True, skip_identifier ?sql (length ws), scan_start)"
    using other by (simp add: scan_step_def c scan_start_def Let_def)
  then show ?thesis using start len by (simp add: scan [of ?sql "length ws"])
qed

lemma or_pattern_hit:
  assumes d: "drop i sql = w @ sp1 @ r @ sp2 @ a @ sp3 @ post"
    and w: "ascii_upper w = keyword" and r: "ascii_upper r = ''OR''"
    and a: "ascii_upper a \<in> set CONFLICT_ALGORITHMS"
    and sp: "blanks sp1" "blanks sp2" "blanks sp3" and post: "no_blank_first post"
  shows "or_pattern keyword CONFLICT_ALGORITHMS sql i =
    Some \<lparr>match_start = i, match_end = i + length (w @ sp1 @ r @ sp2 @ a @ sp3), group1 = w, group2 = a\<rparr>"
proof -
  note d1 = drop_shift [OF d]
  note d2 = drop_shift [OF d1]
  note d3 = drop_shift [OF d2]
  note d4 = drop_shift [OF d3]
  have ra: "is_alpha CHR ''O''" by (simp add: is_alpha_def)
  have aa: "no_blank_first (a @ sp3 @ post)"
    using a by (auto simp: CONFLICT_ALGORITHMS_def is_alpha_def intro: word_no_blank_first)
  have m: "match_word keyword sql i = Some (i + length w)"
      "match_spaces sql (i + length w) = Some (i + length w + length sp1)"
      "match_word ''OR'' sql (i + length w + length sp1) = Some (i + length w + length sp1 + length r)"
      "match_spaces sql (i + length w + length sp1 + length r) =
         Some (i + length w + length sp1 + length r + length sp2)"
      "match_algorithm CONFLICT_ALGORITHMS sql (i + length w + length sp1 + length r + length sp2) =
         Some (i + length w + length sp1 + length r + length sp2 + length a,
               i + length w + length sp1 + length r + length sp2 + length a + length sp3)"
    by (rule match_word_hit [OF d w], rule match_spaces_hit [OF d1 sp(1) word_no_blank_first [OF r ra]],
        rule match_word_hit [OF d2 r], rule match_spaces_hit [OF d3 sp(2) aa],
        rule match_algorithm_hit [OF d4 sp(3) post a])
  show ?thesis
    unfolding or_pattern_def by (simp add: m slice_def d d4)
qed

lemma update_keyword_hit:
  assumes "drop i sql = w @ sp @ post" "ascii_upper w = ''UPDATE''" "blanks sp" "no_blank_first post"
  shows "UPDATE_KEYWORD_PATTERN sql i =
    Some \<lparr>match_start = i, match_end = i + length (w @ sp), group1 = w, group2 = []\<rparr>"
  using match_word_hit [OF assms(1,2)] match_spaces_hit [OF drop_shift [OF assms(1)] assms(3,4)]
  by (simp add: UPDATE_KEYWORD_PATTERN_def slice_def assms(1) add.assoc)

text \<open>
  C34. Round trip of \<open>UPDATE OR <algorithm>\<close>: taking the clause out of an UPDATE (in any
  letter case and spacing) gives the plain UPDATE and the algorithm, and restoring it puts
  the same clause back in canonical form, leaving every other character of the text alone.
\<close>

theorem update_or_roundtrip:
  assumes "list_all is_space ws" and "ascii_upper w = ''UPDATE''" and "ascii_upper r = ''OR''"
    and "ascii_upper a \<in> set CONFLICT_ALGORITHMS"
    and "blanks sp1" and "blanks sp2" and "blanks sp3" and "no_blank_first post"
  shows "remove_top_level_or_clause (ws @ w @ sp1 @ r @ sp2 @ a @ sp3 @ post) UPDATE_OR_PATTERN =
      (ws @ w @ '' '' @ post,
       Some \<lparr>resolution_statement_kind = Update_Resolution, algorithm = ascii_upper a\<rparr>) \<and>
    restore_update_conflict_resolution (ws @ w @ '' '' @ post)
      (Some \<lparr>resolution_statement_kind = Update_Resolution, algorithm = ascii_upper a\<rparr>) =
      ws @ w @ '' OR '' @ ascii_upper a @ '' '' @ post"
proof -
  let ?sql = "ws @ w @ sp1 @ r @ sp2 @ a @ sp3 @ post"
  have alpha: "w \<noteq> [] \<and> is_alpha (hd w)"
    by (rule word_head_alpha [OF assms(2)]) (simp add: is_alpha_def)
  obtain js where js: "keyword_indexes (ws @ w @ sp1 @ r @ sp2 @ a @ sp3 @ post) = length ws # js"
    using scan_first_word [OF assms(1)] alpha by blast
  obtain ks where ks: "keyword_indexes (ws @ w @ '' '' @ post) = length ws # ks"
    using scan_first_word [OF assms(1)] alpha by blast
  have d: "drop (length ws) ?sql = w @ sp1 @ r @ sp2 @ a @ sp3 @ post"
      "drop (length ws) (ws @ w @ '' '' @ post) = w @ '' '' @ post" by simp_all
  have blank: "blanks '' ''" by (simp add: blanks_def is_space_def)
  show ?thesis
    using or_pattern_hit [OF d(1) assms(2-8)] update_keyword_hit [OF d(2) assms(2) blank assms(8)] js ks
      assms(2)
    by (simp add: remove_top_level_or_clause_def restore_update_conflict_resolution_def
        top_level_pattern_match_def UPDATE_OR_PATTERN_def)
qed

theorem update_or_roundtrip_witness:
  "remove_top_level_or_clause ''update  or ignore t SET a=1'' UPDATE_OR_PATTERN =
     (''update t SET a=1'',
      Some \<lparr>resolution_statement_kind = Update_Resolution, algorithm = ''IGNORE''\<rparr>)"
proof -
  have h: "ascii_upper ''update'' = ''UPDATE''" "ascii_upper ''or'' = ''OR''"
      "ascii_upper ''ignore'' = ''IGNORE''" by code_simp+
  have b: "blanks ''  ''" "blanks '' ''" "no_blank_first ''t SET a=1''" by code_simp+
  have a: "ascii_upper ''ignore'' \<in> set CONFLICT_ALGORITHMS" by (simp add: h CONFLICT_ALGORITHMS_def)
  show ?thesis
    using update_or_roundtrip [of "[]", OF _ h(1,2) a b(1,2,2,3)] by (simp add: h)
qed

section \<open>Reviewable clauses\<close>

lemma first_some_SomeE:
  assumes "first_some f xs = Some y" obtains x where "x \<in> set xs" "f x = Some y"
  using assms by (induction xs) (auto split: option.splits)

lemma first_some_ex: "x \<in> set xs \<Longrightarrow> f x \<noteq> None \<Longrightarrow> first_some f xs \<noteq> None"
  by (induction xs) (auto split: option.splits)

lemma match_algorithm_SomeE:
  assumes "match_algorithm algs sql i = Some (j, k)"
  obtains a where "a \<in> set algs" "match_word a sql i = Some j" "match_spaces sql j = Some k"
  using assms
  by (induction algs) (auto simp: bind_eq_Some_conv bind_eq_None_conv split: option.splits)

lemma match_word_slice: "match_word a sql i = Some j \<Longrightarrow> ascii_upper (slice sql i j) = a"
  by (auto simp: match_word_def upper_at_def slice_def split: if_splits)

lemma match_algorithm_ex:
  "a \<in> set algs \<Longrightarrow> match_word a sql i = Some j \<Longrightarrow> match_spaces sql j = Some k \<Longrightarrow>
     match_algorithm algs sql i \<noteq> None"
  by (induction algs) (auto split: option.splits)

lemma or_pattern_restrict:
  assumes "or_pattern kw algs sql i = Some m" "ascii_upper (group2 m) \<in> set algs'"
  shows "or_pattern kw algs' sql i \<noteq> None"
proof -
  obtain i1 i2 i3 i4 i5 i6 where steps: "match_word kw sql i = Some i1" "match_spaces sql i1 = Some i2"
      "match_word ''OR'' sql i2 = Some i3" "match_spaces sql i3 = Some i4"
      "match_algorithm algs sql i4 = Some (i5, i6)" and m: "group2 m = slice sql i4 i5"
    using assms(1) by (auto simp: or_pattern_def bind_eq_Some_conv)
  obtain a where "match_word a sql i4 = Some i5" "match_spaces sql i5 = Some i6"
    using steps(5) by (rule match_algorithm_SomeE)
  moreover from this(1) m assms(2) have "a \<in> set algs'" by (simp add: match_word_slice)
  ultimately obtain r where "match_algorithm algs' sql i4 = Some r"
    using match_algorithm_ex by fastforce
  then show ?thesis using steps by (simp add: or_pattern_def split: prod.split)
qed

lemma top_level_or_restrict:
  assumes "top_level_pattern_match sql (or_pattern kw algs) = Some m" "ascii_upper (group2 m) \<in> set algs'"
  shows "top_level_pattern_match sql (or_pattern kw algs') \<noteq> None"
proof -
  obtain i where "i \<in> set (keyword_indexes sql)" "or_pattern kw algs sql i = Some m"
    using assms(1) unfolding top_level_pattern_match_def by (rule first_some_SomeE)
  then show ?thesis
    using or_pattern_restrict [OF _ assms(2)] first_some_ex unfolding top_level_pattern_match_def by metis
qed

lemma remove_clause_None:
  "snd (remove_top_level_or_clause sql p) = None \<longleftrightarrow> top_level_pattern_match sql p = None"
  "top_level_pattern_match sql p = None \<Longrightarrow> remove_top_level_or_clause sql p = (sql, None)"
  by (simp_all add: remove_top_level_or_clause_def split: option.splits)

text \<open>The algorithms that hide a violation, as \<open>_is_reviewable_conflict_resolution\<close> lists them.\<close>

definition is_reviewable_conflict_resolution :: "conflict_resolution option \<Rightarrow> bool" where
  "is_reviewable_conflict_resolution resolution =
     (case resolution of None \<Rightarrow> False | Some r \<Rightarrow> ascii_upper (algorithm r) \<in> {''IGNORE'', ''REPLACE''})"

lemma upper_upper_char: "ascii_upper_char (ascii_upper_char c) = ascii_upper_char c"
  by (auto simp: ascii_upper_char_def Let_def)

lemma upper_upper [simp]: "ascii_upper (ascii_upper s) = ascii_upper s"
  by (simp add: ascii_upper_def upper_upper_char)

lemma reviewable_insert_or:
  assumes "insert_or_resolution sql = Some r" "is_reviewable_conflict_resolution (Some r)"
  shows "top_level_pattern_match sql REVIEWABLE_INSERT_OR_PATTERN \<noteq> None"
  using assms
  by (auto simp: insert_or_resolution_def INSERT_OR_PATTERN_def REVIEWABLE_INSERT_OR_PATTERN_def
      REVIEWABLE_ALGORITHMS_def is_reviewable_conflict_resolution_def
      dest!: top_level_or_restrict [where algs' = "[''IGNORE'', ''REPLACE'']"])

lemma reviewable_update_or:
  assumes "snd (remove_top_level_or_clause sql UPDATE_OR_PATTERN) = Some r"
    "is_reviewable_conflict_resolution (Some r)"
  shows "top_level_pattern_match sql REVIEWABLE_UPDATE_OR_PATTERN \<noteq> None"
  using assms
  by (auto simp: remove_top_level_or_clause_def UPDATE_OR_PATTERN_def REVIEWABLE_UPDATE_OR_PATTERN_def
      REVIEWABLE_ALGORITHMS_def is_reviewable_conflict_resolution_def split: option.splits
      dest!: top_level_or_restrict [where algs' = "[''IGNORE'', ''REPLACE'']"])

lemma strict_rewrite_SomeI:
  assumes "snd (remove_top_level_or_clause sql REVIEWABLE_INSERT_OR_PATTERN) \<noteq> None \<or>
      snd (remove_top_level_or_clause sql REVIEWABLE_UPDATE_OR_PATTERN) \<noteq> None \<or>
      snd (strip_top_level_replace_into sql) \<noteq> None \<or>
      (\<exists>u. strip_top_level_upsert sql = Some u \<and> u \<noteq> sql)"
  shows "strict_conflict_resolution_rewrite sql \<noteq> None"
proof (cases "top_level_pattern_match sql REVIEWABLE_INSERT_OR_PATTERN")
  case (Some m)
  then show ?thesis
    by (auto simp: strict_conflict_resolution_rewrite_def remove_top_level_or_clause_def [of sql]
        Let_def split: prod.splits)
next
  case None
  note insert = remove_clause_None(2) [OF None]
  show ?thesis
  proof (cases "top_level_pattern_match sql REVIEWABLE_UPDATE_OR_PATTERN")
    case (Some m)
    then show ?thesis
      by (auto simp: strict_conflict_resolution_rewrite_def insert
          remove_top_level_or_clause_def [of sql REVIEWABLE_UPDATE_OR_PATTERN] Let_def split: prod.splits)
  next
    case None
    note update = remove_clause_None(2) [OF None]
    have cases: "snd (strip_top_level_replace_into sql) \<noteq> None \<or>
        (\<exists>u. strip_top_level_upsert sql = Some u \<and> u \<noteq> sql)"
      using assms insert update by simp
    show ?thesis
    proof (cases "snd (strip_top_level_replace_into sql)")
      case None
      then have "strip_top_level_replace_into sql = (sql, None)"
        by (auto simp: strip_top_level_replace_into_def split: option.splits)
      then show ?thesis
        using cases by (auto simp: strict_conflict_resolution_rewrite_def insert update Let_def)
    next
      case (Some r)
      then show ?thesis
        by (auto simp: strict_conflict_resolution_rewrite_def insert update Let_def split: prod.splits)
    qed
  qed
qed

text \<open>
  C33. The strict replay never misses a clause the metadata calls reviewable: if the normal
  form of a statement records \<open>IGNORE\<close>, \<open>REPLACE\<close> or a stripped UPSERT, then the strict
  rewrite exists (unless the text also carries a top-level \<open>UPDATE OR\<close> with another
  algorithm, which no single SQLite statement does).
\<close>

theorem strict_rewrite_covers_reviewable:
  assumes "stripped_upsert (normalize_sql_for_sqlglot sql) \<or>
      is_reviewable_conflict_resolution (compat_resolution (normalize_sql_for_sqlglot sql))"
    and "snd (remove_top_level_or_clause sql UPDATE_OR_PATTERN) = None \<or>
      is_reviewable_conflict_resolution (snd (remove_top_level_or_clause sql UPDATE_OR_PATTERN))"
  shows "strict_conflict_resolution_rewrite sql \<noteq> None"
proof (rule strict_rewrite_SomeI, cases "snd (remove_top_level_or_clause sql UPDATE_OR_PATTERN)")
  case (Some r)
  then have "top_level_pattern_match sql REVIEWABLE_UPDATE_OR_PATTERN \<noteq> None"
    using assms(2) reviewable_update_or by simp
  then show "snd (remove_top_level_or_clause sql REVIEWABLE_INSERT_OR_PATTERN) \<noteq> None \<or>
      snd (remove_top_level_or_clause sql REVIEWABLE_UPDATE_OR_PATTERN) \<noteq> None \<or>
      snd (strip_top_level_replace_into sql) \<noteq> None \<or>
      (\<exists>u. strip_top_level_upsert sql = Some u \<and> u \<noteq> sql)"
    by (simp add: remove_clause_None)
next
  case None
  then have update: "remove_top_level_or_clause sql UPDATE_OR_PATTERN = (sql, None)"
    using remove_clause_None by metis
  show "snd (remove_top_level_or_clause sql REVIEWABLE_INSERT_OR_PATTERN) \<noteq> None \<or>
      snd (remove_top_level_or_clause sql REVIEWABLE_UPDATE_OR_PATTERN) \<noteq> None \<or>
      snd (strip_top_level_replace_into sql) \<noteq> None \<or>
      (\<exists>u. strip_top_level_upsert sql = Some u \<and> u \<noteq> sql)"
  proof (cases "top_level_pattern_match sql REPLACE_INTO_PATTERN")
    case (Some m)
    then show ?thesis by (simp add: strip_top_level_replace_into_def)
  next
    case None
    then have "normalize_top_level_replace_into sql = (sql, None)"
      by (simp add: normalize_top_level_replace_into_def)
    then have "normalize_sql_for_sqlglot sql =
        (let without_upsert = strip_top_level_upsert sql in
         if without_upsert \<noteq> None \<and> without_upsert \<noteq> Some sql
         then \<lparr>compat_sql = the without_upsert, compat_resolution = insert_or_resolution sql,
               stripped_upsert = True\<rparr>
         else \<lparr>compat_sql = sql, compat_resolution = insert_or_resolution sql,
               stripped_upsert = False\<rparr>)"
      by (auto simp: normalize_sql_for_sqlglot_def update Let_def)
    then show ?thesis
      using assms(1) reviewable_insert_or [of sql]
      by (cases "insert_or_resolution sql")
        (auto simp: Let_def remove_clause_None is_reviewable_conflict_resolution_def split: if_splits)
  qed
qed

theorem strict_rewrite_covers_reviewable_witness:
  "strict_conflict_resolution_rewrite ''REPLACE INTO t VALUES (1)'' \<noteq> None"
proof (rule strict_rewrite_covers_reviewable)
  show "stripped_upsert (normalize_sql_for_sqlglot ''REPLACE INTO t VALUES (1)'') \<or>
      is_reviewable_conflict_resolution
        (compat_resolution (normalize_sql_for_sqlglot ''REPLACE INTO t VALUES (1)''))"
    by code_simp
  show "snd (remove_top_level_or_clause ''REPLACE INTO t VALUES (1)'' UPDATE_OR_PATTERN) = None \<or>
      is_reviewable_conflict_resolution
        (snd (remove_top_level_or_clause ''REPLACE INTO t VALUES (1)'' UPDATE_OR_PATTERN))"
    by code_simp
qed

end
