(* ===== verification/Sql_References.thy ===== *)
theory Sql_References
  imports Column_Maps
begin

text \<open>
  The reads of a statement: column resolution of \<open>src/merge/sql_metadata.py\<close>. The parser
  (sqlglot) is not part of the repository; what the code reads from its trees is given as
  data: for every \<open>SELECT\<close> scope its direct columns, its sources and its child scopes, for
  every other fragment its direct columns. Resolution itself, with its frames, ignored CTE
  relations, output aliases and the wildcard rule, is modelled in full.
\<close>

section \<open>What is read from a parsed statement\<close>

datatype expression_class = Insert_Expr | Update_Expr | Delete_Expr | Select_Expr | Other_Expr

record sql_table =
  table_ident :: string
  table_db :: string
  table_alias_or_name :: string

record sql_column =
  column_ident :: string
  column_table :: string

text \<open>
  A source of a scope (\<open>scope.selected_sources\<close>): a table, or another scope with its
  \<open>outer_column_list\<close> and the \<open>named_selects\<close> of its expression.
\<close>

datatype scope_source =
    Table_Source sql_table
  | Scope_Source "string list" "string list"
  | Other_Source

datatype sql_scope = Scope
  (scope_columns: "sql_column list")
  (scope_bare_star: bool)
  (scope_select_aliases: "string list")
  (scope_selected_sources: "(string \<times> scope_source) list")
  (scope_is_cte: bool)
  (scope_is_derived_table: bool)
  (cte_scopes: "sql_scope list")
  (union_scopes: "sql_scope list")
  (table_scopes: "sql_scope list")
  (subquery_scopes: "sql_scope list")

text \<open>
  A fragment of a statement outside any \<open>SELECT\<close>: the root scopes of its outermost
  \<open>SELECT\<close>s, its own direct columns, and the output names it exposes.
\<close>

record sql_fragment =
  fragment_scopes :: "sql_scope list"
  fragment_is_subqueryable :: bool
  fragment_columns :: "sql_column list"
  fragment_bare_star :: bool
  fragment_named_selects :: "string list"

record sql_cte =
  cte_alias :: string
  cte_alias_columns :: "string list"
  cte_body :: sql_fragment

record sql_assignment =
  assignment_is_eq :: bool
  assignment_left :: "string option"
  assignment_right :: sql_fragment
  assignment_whole :: sql_fragment

datatype sql_target =
    Table_Target sql_table
  | Schema_Target "sql_table option" "string list"
  | Other_Target

record parsed_sql =
  parsed_class :: expression_class
  parsed_target :: sql_target
  parsed_assignments :: "sql_assignment list"
  parsed_from :: "(sql_fragment \<times> sql_table list) option"
  parsed_where :: "sql_fragment option"
  parsed_expression :: "sql_fragment option"
  parsed_whole :: sql_fragment
  parsed_ctes :: "sql_cte list"

fun table_expression :: "sql_target \<Rightarrow> sql_table option" where
  "table_expression (Table_Target t) = Some t"
| "table_expression (Schema_Target t _) = t"
| "table_expression Other_Target = None"

definition table_name :: "sql_target \<Rightarrow> string option" where
  "table_name target = map_option table_ident (table_expression target)"

section \<open>Sources and frames\<close>

record source_map =
  alias_to_table :: "(string, string) dict"
  ignored_aliases :: "string set"
  ignored_columns :: "(string, string set) dict"
  output_aliases :: "string set"

text \<open>A frame with its parents: innermost first, \<open>[]\<close> for \<open>None\<close>.\<close>

type_synonym resolution_frame = "source_map list"

type_synonym ignored_relations = "(string, string set) dict"

definition new_source_map :: "string set \<Rightarrow> source_map" where
  "new_source_map aliases =
     \<lparr>alias_to_table = [], ignored_aliases = {}, ignored_columns = [], output_aliases = aliases\<rparr>"

definition add_table_source ::
    "bool \<Rightarrow> ignored_relations \<Rightarrow> source_map \<Rightarrow> sql_table \<Rightarrow> source_map" where
  "add_table_source allow_cte_shadowing ignored sources table =
     (let name = table_ident table; alias = table_alias_or_name table in
      if name = [] then sources
      else case (if allow_cte_shadowing \<and> table_db table = [] then map_of ignored name else None) of
        Some columns \<Rightarrow>
          sources\<lparr>ignored_aliases := insert name (insert alias (ignored_aliases sources)),
                  ignored_columns := dict_set name columns (dict_set alias columns (ignored_columns sources))\<rparr>
      | None \<Rightarrow>
          sources\<lparr>alias_to_table := dict_set name name (dict_set alias name (alias_to_table sources))\<rparr>)"

definition names_or_all :: "string list \<Rightarrow> string set" where
  "names_or_all names = (if names = [] then {ALL_COLUMNS} else set names)"

definition scope_output_columns :: "string list \<Rightarrow> string list \<Rightarrow> string set" where
  "scope_output_columns outer_column_list named_selects =
     (if outer_column_list \<noteq> [] then set outer_column_list else names_or_all named_selects)"

definition add_scope_source ::
    "ignored_relations \<Rightarrow> source_map \<Rightarrow> string \<times> scope_source \<Rightarrow> source_map" where
  "add_scope_source ignored sources entry =
     (case entry of
        (alias, Table_Source table) \<Rightarrow> add_table_source True ignored sources table
      | (alias, Scope_Source outer named) \<Rightarrow>
          sources\<lparr>ignored_aliases := insert alias (ignored_aliases sources),
                  ignored_columns := dict_set alias (scope_output_columns outer named) (ignored_columns sources)\<rparr>
      | (alias, Other_Source) \<Rightarrow> sources)"

definition scope_sources :: "ignored_relations \<Rightarrow> sql_scope \<Rightarrow> source_map" where
  "scope_sources ignored scope =
     foldl (add_scope_source ignored)
       (new_source_map (set (filter (\<lambda>a. a \<noteq> []) (scope_select_aliases scope))))
       (scope_selected_sources scope)"

definition dml_outer_sources :: "ignored_relations \<Rightarrow> parsed_sql \<Rightarrow> source_map" where
  "dml_outer_sources ignored parsed =
     (let sources0 = new_source_map {};
          sources1 =
            (if parsed_class parsed \<in> {Update_Expr, Delete_Expr}
             then case table_expression (parsed_target parsed) of
                    None \<Rightarrow> sources0
                  | Some table \<Rightarrow> add_table_source False ignored sources0 table
             else sources0)
      in if parsed_class parsed = Update_Expr
         then foldl (add_table_source True ignored) sources1
                (case parsed_from parsed of None \<Rightarrow> [] | Some (_, tables) \<Rightarrow> tables)
         else sources1)"

definition cte_output_columns :: "parsed_sql \<Rightarrow> ignored_relations" where
  "cte_output_columns parsed =
     foldl (\<lambda>d cte. dict_set (cte_alias cte)
          (if cte_alias_columns cte \<noteq> [] then set (cte_alias_columns cte)
           else names_or_all (fragment_named_selects (cte_body cte))) d)
       [] (filter (\<lambda>cte. cte_alias cte \<noteq> []) (parsed_ctes parsed))"

section \<open>Resolution\<close>

fun resolve_qualified_table :: "resolution_frame \<Rightarrow> string \<Rightarrow> string option" where
  "resolve_qualified_table [] qualifier = None"
| "resolve_qualified_table (sources # parent) qualifier =
     (if qualifier \<in> ignored_aliases sources then None
      else case map_of (alias_to_table sources) qualifier of
        Some table \<Rightarrow> Some table
      | None \<Rightarrow> resolve_qualified_table parent qualifier)"

definition real_tables :: "source_map \<Rightarrow> string list" where
  "real_tables sources = remdups (map snd (alias_to_table sources))"

definition real_table_candidates ::
    "source_map \<Rightarrow> string \<Rightarrow> column_map option \<Rightarrow> string list" where
  "real_table_candidates sources column table_columns =
     (case table_columns of
        None \<Rightarrow> real_tables sources
      | Some tc \<Rightarrow> filter (\<lambda>table. column \<in> dict_get tc table {}) (real_tables sources))"

definition ignored_source_may_provide_column :: "source_map \<Rightarrow> string \<Rightarrow> bool" where
  "ignored_source_may_provide_column sources column \<longleftrightarrow>
     list_ex (\<lambda>(_, columns). ALL_COLUMNS \<in> columns \<or> column \<in> columns) (ignored_columns sources)"

fun resolve_unqualified_table ::
    "resolution_frame \<Rightarrow> string \<Rightarrow> column_map option \<Rightarrow> string option" where
  "resolve_unqualified_table [] column table_columns = None"
| "resolve_unqualified_table (sources # parent) column table_columns =
     (case real_table_candidates sources column table_columns of
        [table] \<Rightarrow> Some table
      | _ \<Rightarrow>
          if column \<in> output_aliases sources then None
          else if ignored_source_may_provide_column sources column then None
          else resolve_unqualified_table parent column table_columns)"

definition add_reference :: "column_map \<Rightarrow> string \<Rightarrow> string \<Rightarrow> column_map" where
  "add_reference references table column =
     (if column = ALL_COLUMNS then dict_set table {ALL_COLUMNS} references
      else if ALL_COLUMNS \<notin> dict_get references table {}
      then dict_set table (insert column (dict_get references table {})) references
      else references)"

definition add_star_reference ::
    "resolution_frame \<Rightarrow> string option \<Rightarrow> column_map \<Rightarrow> column_map" where
  "add_star_reference frame table_or_alias references =
     (case table_or_alias of
        Some q \<Rightarrow>
          (case resolve_qualified_table frame q of
             Some table \<Rightarrow> add_reference references table ALL_COLUMNS
           | None \<Rightarrow> references)
      | None \<Rightarrow>
          (case frame of
             [] \<Rightarrow> references
           | sources # _ \<Rightarrow>
               foldl (\<lambda>r table. add_reference r table ALL_COLUMNS) references (real_tables sources)))"

definition resolve_column ::
    "resolution_frame \<Rightarrow> column_map option \<Rightarrow> sql_column \<Rightarrow> string option" where
  "resolve_column frame table_columns column =
     (if column_table column \<noteq> [] then resolve_qualified_table frame (column_table column)
      else resolve_unqualified_table frame (column_ident column) table_columns)"

definition add_column_reference ::
    "resolution_frame \<Rightarrow> column_map option \<Rightarrow> column_map \<Rightarrow> sql_column \<Rightarrow> column_map" where
  "add_column_reference frame table_columns references column =
     (if column_ident column = ALL_COLUMNS
      then add_star_reference frame
             (if column_table column = [] then None else Some (column_table column)) references
      else case resolve_column frame table_columns column of
             Some table \<Rightarrow> add_reference references table (column_ident column)
           | None \<Rightarrow> references)"

definition collect_direct_references ::
    "sql_column list \<Rightarrow> bool \<Rightarrow> resolution_frame \<Rightarrow> column_map option \<Rightarrow> column_map \<Rightarrow> column_map" where
  "collect_direct_references columns bare_star frame table_columns references =
     (let r = foldl (add_column_reference frame table_columns) references columns
      in if bare_star then add_star_reference frame None r else r)"

definition scope_children :: "sql_scope \<Rightarrow> sql_scope list" where
  "scope_children scope =
     cte_scopes scope @ union_scopes scope @ table_scopes scope @ subquery_scopes scope"

definition outer_frame_for_child_scope ::
    "sql_scope \<Rightarrow> resolution_frame \<Rightarrow> resolution_frame \<Rightarrow> resolution_frame" where
  "outer_frame_for_child_scope child current outer =
     (if scope_is_cte child \<or> scope_is_derived_table child then outer else current)"

lemma scope_child_size: "child \<in> set (scope_children scope) \<Longrightarrow> size child < size scope"
  by (cases scope) (auto simp: scope_children_def dest: size_list_estimation' [OF _ order_refl, where f = size])

function collect_scope_tree_references ::
    "ignored_relations \<Rightarrow> column_map option \<Rightarrow> sql_scope \<Rightarrow> resolution_frame \<Rightarrow> column_map \<Rightarrow> column_map" where
  "collect_scope_tree_references ignored table_columns scope outer references =
     (let frame = scope_sources ignored scope # outer
      in foldl (\<lambda>r child.
            collect_scope_tree_references ignored table_columns child
              (outer_frame_for_child_scope child frame outer) r)
           (collect_direct_references (scope_columns scope) (scope_bare_star scope) frame
             table_columns references)
           (scope_children scope))"
  by pat_completeness auto
termination
  by (relation "measure (\<lambda>(_, _, scope, _, _). size scope)") (auto dest: scope_child_size)

declare collect_scope_tree_references.simps [simp del]

definition collect_select_scope_references ::
    "ignored_relations \<Rightarrow> column_map option \<Rightarrow> resolution_frame \<Rightarrow> column_map \<Rightarrow> sql_fragment \<Rightarrow> column_map"
where
  "collect_select_scope_references ignored table_columns outer references fragment =
     foldl (\<lambda>r scope. collect_scope_tree_references ignored table_columns scope outer r)
       references (fragment_scopes fragment)"

definition collect_non_select_column_references ::
    "column_map option \<Rightarrow> resolution_frame \<Rightarrow> column_map \<Rightarrow> sql_fragment \<Rightarrow> column_map" where
  "collect_non_select_column_references table_columns frame references fragment =
     (if fragment_is_subqueryable fragment then references
      else collect_direct_references (fragment_columns fragment) (fragment_bare_star fragment) frame
             table_columns references)"

definition read_roots :: "parsed_sql \<Rightarrow> sql_fragment list" where
  "read_roots parsed =
     (case parsed_class parsed of
        Insert_Expr \<Rightarrow> (case parsed_expression parsed of None \<Rightarrow> [] | Some e \<Rightarrow> [e])
      | Update_Expr \<Rightarrow>
          map (\<lambda>a. if assignment_is_eq a then assignment_right a else assignment_whole a)
            (parsed_assignments parsed)
          @ (case parsed_from parsed of None \<Rightarrow> [] | Some (f, _) \<Rightarrow> [f])
          @ (case parsed_where parsed of None \<Rightarrow> [] | Some w \<Rightarrow> [w])
      | Delete_Expr \<Rightarrow> (case parsed_where parsed of None \<Rightarrow> [] | Some w \<Rightarrow> [w])
      | _ \<Rightarrow> [parsed_whole parsed])"

definition collect_root_references ::
    "ignored_relations \<Rightarrow> column_map option \<Rightarrow> resolution_frame \<Rightarrow> column_map \<Rightarrow> sql_fragment \<Rightarrow> column_map"
where
  "collect_root_references ignored table_columns frame references root =
     collect_non_select_column_references table_columns frame
       (collect_select_scope_references ignored table_columns frame references root) root"

definition referenced_tables_to_columns :: "parsed_sql \<Rightarrow> column_map option \<Rightarrow> column_map" where
  "referenced_tables_to_columns parsed table_columns =
     (let ignored = cte_output_columns parsed;
          statement_outer_frame = [dml_outer_sources ignored parsed];
          cte_definition_frame = [new_source_map {}];
          references =
            foldl (collect_root_references ignored table_columns cte_definition_frame)
              [] (map cte_body (parsed_ctes parsed))
      in foldl (collect_root_references ignored table_columns statement_outer_frame)
           references (read_roots parsed))"

end
