(* ===== verification/Sql_References_Props.thy ===== *)
theory Sql_References_Props
  imports Sql_References
begin

text \<open>
  Correctness of column resolution: innermost frames win, references only grow, and no
  column read of any scope of a statement is lost from the read map.
\<close>

section \<open>References only grow\<close>

lemma map_covers_dict_set [simp, column_simps]:
  "map_covers (dict_set t c m) t' = (if t' = t then covers c else map_covers m t')"
  by (simp add: map_covers_def)

lemma map_covers_add_reference [simp]:
  "map_covers (add_reference r t c) t' =
     (if t' = t then (if c = ALL_COLUMNS then UNIV else insert c (map_covers r t)) else map_covers r t')"
  by (auto simp: add_reference_def map_covers_def covers_def)

lemma add_stars_mono: "map_covers r t \<subseteq> map_covers (foldl (\<lambda>r t. add_reference r t ALL_COLUMNS) r ts) t"
  by (induction ts arbitrary: r) (fastforce split: if_splits)+

lemma add_stars_all:
  "t \<in> set ts \<Longrightarrow> map_covers (foldl (\<lambda>r t. add_reference r t ALL_COLUMNS) r ts) t = UNIV"
proof (induction ts arbitrary: r)
  case (Cons x ts)
  then show ?case
    using add_stars_mono [of "add_reference r x ALL_COLUMNS" x ts] by (cases "t \<in> set ts") auto
qed simp

lemma add_star_reference_mono: "map_covers r t \<subseteq> map_covers (add_star_reference f q r) t"
  using add_stars_mono by (auto simp: add_star_reference_def split: option.splits list.splits)

lemma add_column_reference_mono: "map_covers r t \<subseteq> map_covers (add_column_reference f tc r c) t"
  using add_star_reference_mono by (auto simp: add_column_reference_def split: option.splits)

lemma foldl_mono_covers:
  assumes "\<And>r x. x \<in> set xs \<Longrightarrow> map_covers r t \<subseteq> map_covers (g r x) t"
  shows "map_covers r t \<subseteq> map_covers (foldl g r xs) t"
  using assms by (induction xs arbitrary: r) (simp, fastforce)

lemma foldl_hits_covers:
  assumes "x \<in> set xs" and "\<And>r x. x \<in> set xs \<Longrightarrow> map_covers r t \<subseteq> map_covers (g r x) t"
    and "\<And>r. c \<in> map_covers (g r x) t"
  shows "c \<in> map_covers (foldl g r xs) t"
  using assms(1,2)
proof (induction xs arbitrary: r)
  case (Cons y ys)
  show ?case
  proof (cases "y = x")
    case True
    have "map_covers (g r y) t \<subseteq> map_covers (foldl g (g r y) ys) t"
      by (rule foldl_mono_covers) (use Cons.prems in auto)
    then show ?thesis using assms(3) True by auto
  next
    case False
    with Cons show ?thesis by simp
  qed
qed simp

lemma collect_direct_mono:
  "map_covers r t \<subseteq> map_covers (collect_direct_references cs b f tc r) t"
  using foldl_mono_covers [of cs t "add_column_reference f tc" r, OF add_column_reference_mono]
    add_star_reference_mono [of "foldl (add_column_reference f tc) r cs" t f None]
  by (auto simp: collect_direct_references_def Let_def)

lemma collect_tree_mono:
  "map_covers r t \<subseteq> map_covers (collect_scope_tree_references ig tc s outer r) t"
proof (induction ig tc s outer r rule: collect_scope_tree_references.induct)
  case (1 ig tc s outer r)
  show ?case
    unfolding collect_scope_tree_references.simps [of ig tc s outer r] Let_def
    by (rule order_trans [OF collect_direct_mono foldl_mono_covers]) (rule "1.IH" [OF refl], assumption)
qed

lemma collect_select_mono:
  "map_covers r t \<subseteq> map_covers (collect_select_scope_references ig tc outer r fr) t"
  unfolding collect_select_scope_references_def by (rule foldl_mono_covers) (rule collect_tree_mono)

lemma collect_non_select_mono:
  "map_covers r t \<subseteq> map_covers (collect_non_select_column_references tc f r fr) t"
  by (simp add: collect_non_select_column_references_def collect_direct_mono)

lemma collect_root_mono: "map_covers r t \<subseteq> map_covers (collect_root_references ig tc f r root) t"
  unfolding collect_root_references_def
  by (rule order_trans [OF collect_select_mono collect_non_select_mono])

section \<open>No direct read is lost\<close>

text \<open>The scopes of a scope tree, each with the frame its columns are resolved in.\<close>

inductive scope_at ::
    "ignored_relations \<Rightarrow> sql_scope \<Rightarrow> resolution_frame \<Rightarrow> sql_scope \<Rightarrow> resolution_frame \<Rightarrow> bool"
  for ignored where
  here: "scope_at ignored root outer root (scope_sources ignored root # outer)"
| below: "child \<in> set (scope_children root) \<Longrightarrow>
     scope_at ignored child
       (outer_frame_for_child_scope child (scope_sources ignored root # outer) outer) s f \<Longrightarrow>
     scope_at ignored root outer s f"


text \<open>
  What a column node reads: a named column of the table it resolves to, every column of the table
  its qualifier names in \<open>t.*\<close>, or every column of the tables of the scope for a star alone.
\<close>

definition tables_in_scope :: "resolution_frame \<Rightarrow> string set" where
  "tables_in_scope frame = (case frame of [] \<Rightarrow> {} | sources # _ \<Rightarrow> set (real_tables sources))"

definition column_reads ::
    "resolution_frame \<Rightarrow> column_map option \<Rightarrow> sql_column \<Rightarrow> string \<Rightarrow> string \<Rightarrow> bool" where
  "column_reads frame tc c table column \<longleftrightarrow>
     (if column_ident c \<noteq> ALL_COLUMNS then column_ident c = column \<and> resolve_column frame tc c = Some table
      else if column_table c \<noteq> [] then resolve_qualified_table frame (column_table c) = Some table
      else table \<in> tables_in_scope frame)"

definition reads_column ::
    "sql_column list \<Rightarrow> bool \<Rightarrow> resolution_frame \<Rightarrow> column_map option \<Rightarrow> string \<Rightarrow> string \<Rightarrow> bool" where
  "reads_column columns bare_star frame tc table column \<longleftrightarrow>
     (\<exists>c \<in> set columns. column_reads frame tc c table column) \<or> bare_star \<and> table \<in> tables_in_scope frame"

lemma add_star_reference_all:
  "table \<in> tables_in_scope frame \<Longrightarrow> map_covers (add_star_reference frame None r) table = UNIV"
  using add_stars_all by (auto simp: tables_in_scope_def add_star_reference_def split: list.splits)

lemma column_reads_hit:
  "column_reads frame tc c table column \<Longrightarrow> column \<in> map_covers (add_column_reference frame tc r c) table"
  using add_star_reference_all
  by (auto simp: column_reads_def add_column_reference_def add_star_reference_def split: if_splits)

lemma reads_column_covered:
  assumes "reads_column cs b f tc t c"
  shows "c \<in> map_covers (collect_direct_references cs b f tc r) t"
proof -
  let ?r = "foldl (add_column_reference f tc) r cs"
  have "c \<in> map_covers ?r t" if "x \<in> set cs" "column_reads f tc x t c" for x
    by (rule foldl_hits_covers [OF that(1)]) (rule add_column_reference_mono, rule column_reads_hit [OF that(2)])
  then show ?thesis
    using assms add_star_reference_all [of t f ?r] subsetD [OF add_star_reference_mono [of ?r t f None]]
    by (auto simp: reads_column_def collect_direct_references_def Let_def)
qed

lemma collect_tree_covers:
  "scope_at ig root outer s f \<Longrightarrow> reads_column (scope_columns s) (scope_bare_star s) f tc t c \<Longrightarrow>
     c \<in> map_covers (collect_scope_tree_references ig tc root outer r) t"
proof (induction arbitrary: r rule: scope_at.induct)
  case (here root outer)
  let ?f = "scope_sources ig root # outer"
  have "c \<in> map_covers (collect_direct_references (scope_columns root) (scope_bare_star root) ?f tc r) t"
    using here by (rule reads_column_covered)
  moreover have "map_covers q t \<subseteq> map_covers (foldl (\<lambda>r child. collect_scope_tree_references ig tc child
      (outer_frame_for_child_scope child ?f outer) r) q (scope_children root)) t" for q
    by (rule foldl_mono_covers) (rule collect_tree_mono)
  ultimately show ?case
    by (auto simp: collect_scope_tree_references.simps [of ig tc root outer r] Let_def)
next
  case (below child root outer s f)
  show ?case
    unfolding collect_scope_tree_references.simps [of ig tc root outer r] Let_def
    by (rule foldl_hits_covers [OF below.hyps(1)]) (rule collect_tree_mono, rule below.IH [OF below.prems])
qed

text \<open>
  C28. No read is lost: whatever column a scope of the statement names, in a CTE body or a
  read root and at whatever nesting, if it resolves to a real table in the frame of that
  scope then the statement's read map covers it; a qualified star covers every column of the table
  its qualifier resolves to, a bare star every column of every real table of its scope; and the
  direct columns outside any SELECT are covered too.
\<close>

definition frame_of_root :: "parsed_sql \<Rightarrow> sql_fragment \<Rightarrow> resolution_frame \<Rightarrow> bool" where
  "frame_of_root parsed root outer \<longleftrightarrow>
     (root \<in> set (map cte_body (parsed_ctes parsed)) \<and> outer = [new_source_map {}]) \<or>
     (root \<in> set (read_roots parsed) \<and> outer = [dml_outer_sources (cte_output_columns parsed) parsed])"

lemma root_covered:
  assumes "frame_of_root parsed root outer"
    and "\<And>r. c \<in> map_covers (collect_root_references (cte_output_columns parsed) tc outer r root) t"
  shows "c \<in> map_covers (referenced_tables_to_columns parsed tc) t"
proof -
  let ?g = "collect_root_references (cte_output_columns parsed) tc"
  let ?cte = "foldl (?g [new_source_map {}]) [] (map cte_body (parsed_ctes parsed))"
  from assms(1) consider "root \<in> set (map cte_body (parsed_ctes parsed))" "outer = [new_source_map {}]"
    | "root \<in> set (read_roots parsed)" "outer = [dml_outer_sources (cte_output_columns parsed) parsed]"
    unfolding frame_of_root_def by blast
  then show ?thesis
  proof cases
    case 1
    have "c \<in> map_covers ?cte t"
      by (rule foldl_hits_covers [OF 1(1)]) (rule collect_root_mono, use assms(2) 1(2) in simp)
    then show ?thesis
      using foldl_mono_covers [of "read_roots parsed" t "?g [dml_outer_sources (cte_output_columns parsed) parsed]",
          OF collect_root_mono]
      by (auto simp: referenced_tables_to_columns_def Let_def)
  next
    case 2
    have "c \<in> map_covers (foldl (?g outer) ?cte (read_roots parsed)) t"
      by (rule foldl_hits_covers [OF 2(1)]) (rule collect_root_mono, rule assms(2))
    then show ?thesis by (simp add: referenced_tables_to_columns_def Let_def 2(2))
  qed
qed

theorem references_complete:
  assumes "frame_of_root parsed root outer"
    and "(\<exists>tree s f. tree \<in> set (fragment_scopes root) \<and> scope_at (cte_output_columns parsed) tree outer s f \<and>
            reads_column (scope_columns s) (scope_bare_star s) f tc table column) \<or>
         (\<not> fragment_is_subqueryable root \<and>
            reads_column (fragment_columns root) (fragment_bare_star root) outer tc table column)"
  shows "column \<in> map_covers (referenced_tables_to_columns parsed tc) table"
proof (rule root_covered [OF assms(1)])
  fix r
  let ?sel = "collect_select_scope_references (cte_output_columns parsed) tc outer r root"
  from assms(2) show "column \<in> map_covers (collect_root_references (cte_output_columns parsed) tc outer r root) table"
  proof
    assume "\<exists>tree s f. tree \<in> set (fragment_scopes root) \<and> scope_at (cte_output_columns parsed) tree outer s f \<and>
        reads_column (scope_columns s) (scope_bare_star s) f tc table column"
    then obtain tree s f where tree: "tree \<in> set (fragment_scopes root)"
      and at: "scope_at (cte_output_columns parsed) tree outer s f"
      and reads: "reads_column (scope_columns s) (scope_bare_star s) f tc table column" by blast
    have "column \<in> map_covers ?sel table"
      unfolding collect_select_scope_references_def
      by (rule foldl_hits_covers [OF tree]) (rule collect_tree_mono, rule collect_tree_covers [OF at reads])
    then show ?thesis
      unfolding collect_root_references_def by (rule subsetD [OF collect_non_select_mono])
  next
    assume "\<not> fragment_is_subqueryable root \<and>
        reads_column (fragment_columns root) (fragment_bare_star root) outer tc table column"
    then show ?thesis
      by (simp add: collect_root_references_def collect_non_select_column_references_def reads_column_covered)
  qed
qed

text \<open>A join read: \<open>SELECT a.x FROM t AS a WHERE EXISTS (SELECT * FROM u WHERE u.y = a.z)\<close>.\<close>

definition demo_inner_scope :: sql_scope where
  "demo_inner_scope =
     Scope [\<lparr>column_ident = ''y'', column_table = ''u''\<rparr>, \<lparr>column_ident = ''z'', column_table = ''a''\<rparr>]
       True [] [(''u'', Table_Source \<lparr>table_ident = ''u'', table_db = [], table_alias_or_name = ''u''\<rparr>)]
       False False [] [] [] []"

definition demo_outer_scope :: sql_scope where
  "demo_outer_scope =
     Scope [\<lparr>column_ident = ''x'', column_table = ''a''\<rparr>] False []
       [(''a'', Table_Source \<lparr>table_ident = ''t'', table_db = [], table_alias_or_name = ''a''\<rparr>)]
       False False [] [] [] [demo_inner_scope]"

definition demo_fragment :: sql_fragment where
  "demo_fragment =
     \<lparr>fragment_scopes = [demo_outer_scope], fragment_is_subqueryable = True, fragment_columns = [],
      fragment_bare_star = False, fragment_named_selects = [''x'']\<rparr>"

definition demo_select :: parsed_sql where
  "demo_select =
     \<lparr>parsed_class = Select_Expr, parsed_target = Other_Target, parsed_assignments = [],
      parsed_from = None, parsed_where = None, parsed_expression = None,
      parsed_whole = demo_fragment, parsed_ctes = []\<rparr>"

lemma demo_column_resolves:
  "resolve_column
     (scope_sources (cte_output_columns demo_select) demo_inner_scope #
      scope_sources (cte_output_columns demo_select) demo_outer_scope #
      [dml_outer_sources (cte_output_columns demo_select) demo_select]) None
     \<lparr>column_ident = ''z'', column_table = ''a''\<rparr> = Some ''t''"
  by code_simp

lemma demo_reads_column:
  "reads_column (scope_columns demo_inner_scope) (scope_bare_star demo_inner_scope)
     (scope_sources (cte_output_columns demo_select) demo_inner_scope #
      scope_sources (cte_output_columns demo_select) demo_outer_scope #
      [dml_outer_sources (cte_output_columns demo_select) demo_select]) None ''t'' ''z''"
  unfolding reads_column_def
  by (rule disjI1, rule bexI [of _ "\<lparr>column_ident = ''z'', column_table = ''a''\<rparr>"])
    (use demo_column_resolves in \<open>simp_all add: column_reads_def ALL_COLUMNS_def demo_inner_scope_def\<close>)

theorem references_complete_witness:
  "''z'' \<in> map_covers (referenced_tables_to_columns demo_select None) ''t''"
proof (rule references_complete)
  let ?outer = "[dml_outer_sources (cte_output_columns demo_select) demo_select]"
  let ?f = "scope_sources (cte_output_columns demo_select) demo_outer_scope # ?outer"
  let ?g = "scope_sources (cte_output_columns demo_select) demo_inner_scope # ?f"
  show "frame_of_root demo_select demo_fragment ?outer"
    by (simp add: frame_of_root_def demo_select_def read_roots_def)
  have inner: "outer_frame_for_child_scope demo_inner_scope ?f ?outer = ?f"
    by (simp add: demo_inner_scope_def outer_frame_for_child_scope_def)
  have child: "demo_inner_scope \<in> set (scope_children demo_outer_scope)"
    by (simp add: demo_outer_scope_def scope_children_def)
  have at: "scope_at (cte_output_columns demo_select) demo_outer_scope ?outer demo_inner_scope ?g"
    by (rule scope_at.below [OF child]) (simp only: inner scope_at.here)
  have tree: "demo_outer_scope \<in> set (fragment_scopes demo_fragment)" by (simp add: demo_fragment_def)
  show "(\<exists>tree s f. tree \<in> set (fragment_scopes demo_fragment) \<and>
        scope_at (cte_output_columns demo_select) tree ?outer s f \<and>
        reads_column (scope_columns s) (scope_bare_star s) f None ''t'' ''z'') \<or>
      (\<not> fragment_is_subqueryable demo_fragment \<and>
        reads_column (fragment_columns demo_fragment) (fragment_bare_star demo_fragment) ?outer None ''t'' ''z'')"
    by (rule disjI1, intro exI conjI, rule tree, rule at, rule demo_reads_column)
qed

section \<open>Innermost frames win\<close>

definition knows_qualifier :: "source_map \<Rightarrow> string \<Rightarrow> bool" where
  "knows_qualifier sm q \<longleftrightarrow> q \<in> ignored_aliases sm \<or> map_of (alias_to_table sm) q \<noteq> None"

lemma resolve_qualified_skips:
  "\<forall>sm \<in> set inner. \<not> knows_qualifier sm q \<Longrightarrow>
     resolve_qualified_table (inner @ frame) q = resolve_qualified_table frame q"
  by (induction inner) (auto simp: knows_qualifier_def)

lemma resolve_qualified_split:
  assumes "resolve_qualified_table frame q = Some table"
  obtains inner sources outer where "frame = inner @ sources # outer"
    and "q \<notin> ignored_aliases sources" and "map_of (alias_to_table sources) q = Some table"
    and "\<forall>sm \<in> set inner. \<not> knows_qualifier sm q"
  using assms
proof (induction frame arbitrary: thesis)
  case (Cons sm frame)
  show ?case
  proof (cases "knows_qualifier sm q")
    case True
    then show ?thesis
      using Cons.prems(1) [of "[]" sm frame] Cons.prems(2)
      by (auto simp: knows_qualifier_def split: if_splits option.splits)
  next
    case False
    with Cons.prems(2) have "resolve_qualified_table frame q = Some table"
      by (auto simp: knows_qualifier_def)
    then show ?thesis
      using Cons.IH Cons.prems(1) [of "sm # _"] False by (metis append_Cons set_ConsD)
  qed
qed simp

lemma resolve_qualified_Some:
  "resolve_qualified_table frame q = Some table \<longleftrightarrow>
     (\<exists>inner sources outer. frame = inner @ sources # outer \<and>
        q \<notin> ignored_aliases sources \<and> map_of (alias_to_table sources) q = Some table \<and>
        (\<forall>sm \<in> set inner. \<not> knows_qualifier sm q))"
proof
  assume "resolve_qualified_table frame q = Some table"
  then show "\<exists>inner sources outer. frame = inner @ sources # outer \<and>
        q \<notin> ignored_aliases sources \<and> map_of (alias_to_table sources) q = Some table \<and>
        (\<forall>sm \<in> set inner. \<not> knows_qualifier sm q)"
    by (rule resolve_qualified_split) blast
qed (auto simp: resolve_qualified_skips)

text \<open>
  C29. A qualified column belongs to the table its qualifier names in the innermost scope
  that knows the qualifier, and to no table when an inner scope uses the name for a CTE or
  a derived table; every table a column resolves to is a real table of a visible frame.
\<close>

theorem resolution_innermost:
  "(resolve_qualified_table frame q = Some table \<longleftrightarrow>
     (\<exists>inner sources outer. frame = inner @ sources # outer \<and>
        q \<notin> ignored_aliases sources \<and> map_of (alias_to_table sources) q = Some table \<and>
        list_all (\<lambda>sm. \<not> knows_qualifier sm q) inner)) \<and>
   {t. resolve_column frame tc column = Some t} \<subseteq> (\<Union>sm \<in> set frame. set (real_tables sm))"
proof -
  have "\<exists>sm \<in> set frame. t \<in> set (real_tables sm)" if "resolve_qualified_table frame q = Some t" for q t
    using that by (rule resolve_qualified_split) (force simp: real_tables_def dest: map_of_SomeD)
  moreover have "\<exists>sm \<in> set frame. t \<in> set (real_tables sm)"
    if "resolve_unqualified_table frame c tc = Some t" for c t
    using that
  proof (induction frame)
    case (Cons sm frame)
    show ?case
    proof (cases "real_table_candidates sm c tc = [t]")
      case True
      then have "t \<in> set (real_table_candidates sm c tc)" by simp
      then show ?thesis by (auto simp: real_table_candidates_def split: option.splits)
    next
      case False
      then show ?thesis using Cons by (auto split: list.splits if_splits)
    qed
  qed simp
  ultimately have "{t. resolve_column frame tc column = Some t} \<subseteq> (\<Union>sm \<in> set frame. set (real_tables sm))"
    by (auto simp: resolve_column_def split: if_splits)
  then show ?thesis
    using resolve_qualified_Some [of frame q table] by (simp add: list_all_iff)
qed

end
