(* ===== verification/Schema.thy ===== *)
theory Schema
  imports Cascade "HOL-Library.List_Lexorder" "HOL-Library.Product_Lexorder" "HOL-Library.Char_ord"
begin

text \<open>
  Schema introspection: the key loaders of \<open>src/merge/utils.py\<close>, the schema cache of
  \<open>src/merge/models.py\<close> with its loader in \<open>src/merge/log_merge.py\<close>, and the memoised
  foreign-key accessors of \<open>src/merge/cascade_metadata.py\<close>. The database is given by the
  rows its PRAGMAs return (\<open>catalog\<close>); NULL is \<open>None\<close>.
\<close>

section \<open>The catalog\<close>

record table_info_row =
  ti_name :: string
  ti_type :: "string option"
  ti_pk :: "int option"

record index_list_row =
  il_name :: string
  il_unique :: "int option"
  il_partial :: "int option"

record index_xinfo_row =
  xi_cid :: "int option"
  xi_name :: "string option"
  xi_key :: "int option"

text \<open>
  \<open>cat_index_sql\<close> is the row of an index in \<open>sqlite_schema\<close>: no row, a row with a NULL text,
  or the text. \<open>cat_index_columns\<close> is the SQL parser applied to that text: \<open>None\<close> for a
  parse error, otherwise the names of the columns in the tree.
\<close>

record catalog =
  cat_tables :: "string list"
  cat_table_info :: "string \<Rightarrow> table_info_row list"
  cat_index_list :: "string \<Rightarrow> index_list_row list"
  cat_index_xinfo :: "string \<Rightarrow> index_xinfo_row list"
  cat_index_sql :: "string \<Rightarrow> string option option"
  cat_index_columns :: "string \<Rightarrow> string set option"
  cat_foreign_key_list :: "string \<Rightarrow> fk_row list"

text \<open>\<open>int(value or 0)\<close>.\<close>

definition int_or_0 :: "int option \<Rightarrow> int" where
  "int_or_0 v = (case v of None \<Rightarrow> 0 | Some n \<Rightarrow> n)"

text \<open>\<open>name LIKE 'sqlite_%'\<close>: the prefix in any case and at least one more character.\<close>

definition like_sqlite_name :: "string \<Rightarrow> bool" where
  "like_sqlite_name name \<longleftrightarrow>
     ascii_lower (take 6 name) = ''sqlite'' \<and> 7 \<le> length name"

definition load_table_columns :: "catalog \<Rightarrow> string list \<Rightarrow> column_map" where
  "load_table_columns cat ignored_tables =
     foldl (\<lambda>d table. dict_set table (set (map ti_name (cat_table_info cat table))) d) []
       (filter (\<lambda>table. table \<notin> set ignored_tables)
         (filter (\<lambda>table. \<not> like_sqlite_name table) (cat_tables cat)))"

section \<open>Keys\<close>

definition primary_key_rows :: "catalog \<Rightarrow> string \<Rightarrow> table_info_row list" where
  "primary_key_rows cat table = filter (\<lambda>row. 0 < int_or_0 (ti_pk row)) (cat_table_info cat table)"

definition primary_key_columns :: "catalog \<Rightarrow> string option \<Rightarrow> string list" where
  "primary_key_columns cat table =
     (case table of
        None \<Rightarrow> []
      | Some t \<Rightarrow>
          map snd (sort (map (\<lambda>row. (int_or_0 (ti_pk row), ti_name row)) (primary_key_rows cat t))))"

definition integer_primary_key_column :: "catalog \<Rightarrow> string \<Rightarrow> string option" where
  "integer_primary_key_column cat table =
     (case primary_key_rows cat table of
        [row] \<Rightarrow>
          (if ascii_upper (str_or (ti_type row) []) = ''INTEGER'' then Some (ti_name row) else None)
      | _ \<Rightarrow> None)"

definition columns_referenced_by_index_sql :: "catalog \<Rightarrow> string \<Rightarrow> string set option" where
  "columns_referenced_by_index_sql cat index_name =
     (case cat_index_sql cat index_name of
        None \<Rightarrow> None
      | Some None \<Rightarrow> None
      | Some (Some sql_text) \<Rightarrow>
          (case cat_index_columns cat sql_text of
             None \<Rightarrow> None
           | Some names \<Rightarrow>
               (let columns = names - {[]} in if columns = {} then None else Some columns)))"

text \<open>One row of \<open>index_xinfo\<close>: \<open>(needs_sql_parse, columns)\<close> after it.\<close>

definition add_xinfo_row :: "bool \<times> string set \<Rightarrow> index_xinfo_row \<Rightarrow> bool \<times> string set" where
  "add_xinfo_row acc row =
     (case acc of (needs_sql_parse, columns) \<Rightarrow>
        if int_or_0 (xi_key row) \<noteq> 1 then (needs_sql_parse, columns)
        else case xi_name row of
          None \<Rightarrow> (True, columns)
        | Some name \<Rightarrow>
            if int_or_0 (xi_cid row) < 0 then (True, columns)
            else (needs_sql_parse, insert name columns))"

definition unique_index_key_columns :: "catalog \<Rightarrow> string \<Rightarrow> bool \<Rightarrow> string set" where
  "unique_index_key_columns cat index_name is_partial =
     (case foldl add_xinfo_row (is_partial, {}) (cat_index_xinfo cat index_name) of
        (needs_sql_parse, columns) \<Rightarrow>
          if \<not> needs_sql_parse then columns
          else case columns_referenced_by_index_sql cat index_name of
            Some parsed_columns \<Rightarrow> parsed_columns
          | None \<Rightarrow> {ALL_COLUMNS})"

definition key_column_sets :: "catalog \<Rightarrow> string \<Rightarrow> string set list" where
  "key_column_sets cat table =
     (let pk_columns = set (map ti_name (primary_key_rows cat table));
          index_columns =
            map (\<lambda>row. unique_index_key_columns cat (il_name row) (int_or_0 (il_partial row) \<noteq> 0))
              (filter (\<lambda>row. int_or_0 (il_unique row) = 1) (cat_index_list cat table))
      in (if pk_columns = {} then [] else [pk_columns]) @ filter (\<lambda>c. c \<noteq> {}) index_columns)"

definition key_columns :: "catalog \<Rightarrow> string option \<Rightarrow> string set" where
  "key_columns cat table =
     (case table of None \<Rightarrow> {} | Some t \<Rightarrow> \<Union> (set (key_column_sets cat t)))"

definition per_table :: "string list \<Rightarrow> (string \<Rightarrow> 'a) \<Rightarrow> (string, 'a) dict" where
  "per_table tables f = foldl (\<lambda>d table. dict_set table (f table) d) [] tables"

definition load_primary_key_columns :: "catalog \<Rightarrow> string list \<Rightarrow> (string, string list) dict" where
  "load_primary_key_columns cat tables = per_table tables (\<lambda>t. primary_key_columns cat (Some t))"

definition load_integer_primary_key_columns ::
    "catalog \<Rightarrow> string list \<Rightarrow> (string, string option) dict" where
  "load_integer_primary_key_columns cat tables = per_table tables (integer_primary_key_column cat)"

definition load_key_column_sets :: "catalog \<Rightarrow> string list \<Rightarrow> (string, string set list) dict" where
  "load_key_column_sets cat tables = per_table tables (key_column_sets cat)"

section \<open>The schema cache\<close>

record schema_cache =
  cache_table_columns :: column_map
  cache_primary_keys :: "(string, string list) dict"
  cache_key_sets :: "(string, string set list) dict"
  cache_integer_keys :: "(string, string option) dict"
  cached_edges :: "foreign_key_edge list option"
  cached_edges_by_parent :: "edge_map option"
  cached_edges_by_child :: "edge_map option"

text \<open>The parts of \<open>ConflictCheckContext\<close> that analysis reads: the base database and the cache.\<close>

record check_context =
  ctx_catalog :: catalog
  ctx_cache :: schema_cache

text \<open>\<open>load_table_columns\<close> of \<open>log_merge.py\<close>: the two log tables are not user tables.\<close>

definition MERGE_LOG_TABLES :: "string list" where
  "MERGE_LOG_TABLES = [''_sqlite_merge_log'', ''_sqlite_merge_transactions'']"

definition load_user_table_columns :: "catalog \<Rightarrow> column_map" where
  "load_user_table_columns cat = load_table_columns cat MERGE_LOG_TABLES"

definition load_schema_metadata ::
    "catalog \<Rightarrow> column_map \<times> (string, string list) dict \<times> (string, string set list) dict" where
  "load_schema_metadata cat =
     (let tables = load_user_table_columns cat
      in (tables, load_primary_key_columns cat (map fst tables), load_key_column_sets cat (map fst tables)))"

definition load_schema_cache :: "catalog \<Rightarrow> schema_cache" where
  "load_schema_cache cat =
     (case load_schema_metadata cat of (tables, pks, keys) \<Rightarrow>
        let edges = load_foreign_key_edges (cat_foreign_key_list cat) (map fst tables) pks
        in \<lparr>cache_table_columns = tables, cache_primary_keys = pks, cache_key_sets = keys,
            cache_integer_keys = load_integer_primary_key_columns cat (map fst tables),
            cached_edges = Some edges,
            cached_edges_by_parent = Some (group_foreign_key_edges_by_table edges Parent_Role),
            cached_edges_by_child = Some (group_foreign_key_edges_by_table edges Child_Role)\<rparr>)"

text \<open>The computations behind the memoised fields.\<close>

definition compute_edges :: "catalog \<Rightarrow> schema_cache \<Rightarrow> foreign_key_edge list" where
  "compute_edges cat cache =
     load_foreign_key_edges (cat_foreign_key_list cat) (map fst (cache_table_columns cache)) (cache_primary_keys cache)"

text \<open>
  The memo pattern of the accessors: the stored value when there is one, otherwise the
  computed value, which is stored. A computation may itself use the cache.
\<close>

definition memo :: "('c \<Rightarrow> 'v option) \<Rightarrow> ('v \<Rightarrow> 'c \<Rightarrow> 'c) \<Rightarrow> ('c \<Rightarrow> 'v \<times> 'c) \<Rightarrow> 'c \<Rightarrow> 'v \<times> 'c" where
  "memo get put compute c =
     (case get c of
        Some v \<Rightarrow> (v, c)
      | None \<Rightarrow> (case compute c of (v, c') \<Rightarrow> (v, put v c')))"

definition put_edges :: "foreign_key_edge list \<Rightarrow> schema_cache \<Rightarrow> schema_cache" where
  "put_edges v c = c\<lparr>cached_edges := Some v\<rparr>"

definition put_edges_by_parent :: "edge_map \<Rightarrow> schema_cache \<Rightarrow> schema_cache" where
  "put_edges_by_parent v c = c\<lparr>cached_edges_by_parent := Some v\<rparr>"

definition put_edges_by_child :: "edge_map \<Rightarrow> schema_cache \<Rightarrow> schema_cache" where
  "put_edges_by_child v c = c\<lparr>cached_edges_by_child := Some v\<rparr>"

definition foreign_key_edges ::
    "catalog \<Rightarrow> schema_cache \<Rightarrow> foreign_key_edge list \<times> schema_cache" where
  "foreign_key_edges cat = memo cached_edges put_edges (\<lambda>c. (compute_edges cat c, c))"

definition foreign_key_edges_by_parent :: "catalog \<Rightarrow> schema_cache \<Rightarrow> edge_map \<times> schema_cache" where
  "foreign_key_edges_by_parent cat =
     memo cached_edges_by_parent put_edges_by_parent
       (\<lambda>c. case foreign_key_edges cat c of
          (edges, c') \<Rightarrow> (group_foreign_key_edges_by_table edges Parent_Role, c'))"

definition foreign_key_edges_by_child :: "catalog \<Rightarrow> schema_cache \<Rightarrow> edge_map \<times> schema_cache" where
  "foreign_key_edges_by_child cat =
     memo cached_edges_by_child put_edges_by_child
       (\<lambda>c. case foreign_key_edges cat c of
          (edges, c') \<Rightarrow> (group_foreign_key_edges_by_table edges Child_Role, c'))"

text \<open>\<open>_integer_primary_key_column\<close> of \<open>static_analysis.py\<close>, a memo per table.\<close>

definition get_integer_key :: "string \<Rightarrow> schema_cache \<Rightarrow> string option option" where
  "get_integer_key table c = map_of (cache_integer_keys c) table"

definition put_integer_key :: "string \<Rightarrow> string option \<Rightarrow> schema_cache \<Rightarrow> schema_cache" where
  "put_integer_key table v c =
     c\<lparr>cache_integer_keys := dict_set table v (cache_integer_keys c)\<rparr>"

definition integer_primary_key_lookup ::
    "catalog \<Rightarrow> string \<Rightarrow> schema_cache \<Rightarrow> string option \<times> schema_cache" where
  "integer_primary_key_lookup cat table =
     memo (get_integer_key table) (put_integer_key table)
       (\<lambda>c. (integer_primary_key_column cat table, c))"

end
