(* ===== verification/Schema_Props.thy ===== *)
theory Schema_Props
  imports Schema "HOL-Library.Multiset"
begin

text \<open>
  The schema loaders and their memo: every enforced unique key is covered by a key set, the
  primary key comes in key order, and reading through the cache is reading the catalog.
\<close>

section \<open>Keys\<close>

lemma map_of_per_table [simp]:
  "map_of (per_table tables f) t = (if t \<in> set tables then Some (f t) else None)"
proof -
  have "map_of (foldl (\<lambda>d table. dict_set table (f table) d) d tables) t =
      (if t \<in> set tables then Some (f t) else map_of d t)" for d
    by (induction tables arbitrary: d) auto
  then show ?thesis by (simp add: per_table_def)
qed

text \<open>The named key entries of an index: what \<open>index_xinfo\<close> lists with \<open>key = 1\<close>.\<close>

definition named_key_columns :: "catalog \<Rightarrow> string \<Rightarrow> string set" where
  "named_key_columns cat index_name =
     {name. \<exists>row \<in> set (cat_index_xinfo cat index_name).
        int_or_0 (xi_key row) = 1 \<and> xi_name row = Some name \<and> \<not> int_or_0 (xi_cid row) < 0}"

lemma add_xinfo_rows:
  "snd (foldl add_xinfo_row (b, cs) rows) = cs \<union> {name. \<exists>row \<in> set rows.
      int_or_0 (xi_key row) = 1 \<and> xi_name row = Some name \<and> \<not> int_or_0 (xi_cid row) < 0}"
proof (induction rows arbitrary: b cs)
  case (Cons row rows)
  then show ?case
    by (cases "xi_name row") (auto simp: add_xinfo_row_def)
qed simp

lemma unique_index_columns_cover:
  assumes "\<And>sql names. cat_index_sql cat i = Some (Some sql) \<Longrightarrow> cat_index_columns cat sql = Some names \<Longrightarrow>
      named_key_columns cat i \<subseteq> names - {[]}"
  shows "named_key_columns cat i \<subseteq> covers (unique_index_key_columns cat i partial)"
proof -
  obtain n cs where fold: "foldl add_xinfo_row (partial, {}) (cat_index_xinfo cat i) = (n, cs)" by fastforce
  have cs: "cs = named_key_columns cat i"
    using add_xinfo_rows [of partial "{}" "cat_index_xinfo cat i"] by (simp add: fold named_key_columns_def)
  show ?thesis
    using assms by (fastforce simp: unique_index_key_columns_def fold cs covers_def
        columns_referenced_by_index_sql_def Let_def split: option.splits if_splits)
qed


definition demo_catalog :: catalog where
  "demo_catalog =
     \<lparr>cat_tables = [''t'', ''sqlite_sequence''],
      cat_table_info = (\<lambda>table. if table = ''t''
        then [\<lparr>ti_name = ''a'', ti_type = Some ''integer'', ti_pk = Some 1\<rparr>,
              \<lparr>ti_name = ''b'', ti_type = None, ti_pk = None\<rparr>] else []),
      cat_index_list = (\<lambda>table. if table = ''t''
        then [\<lparr>il_name = ''i'', il_unique = Some 1, il_partial = Some 1\<rparr>] else []),
      cat_index_xinfo = (\<lambda>index. if index = ''i''
        then [\<lparr>xi_cid = Some 1, xi_name = Some ''b'', xi_key = Some 1\<rparr>,
              \<lparr>xi_cid = Some (-1), xi_name = None, xi_key = Some 0\<rparr>] else []),
      cat_index_sql = (\<lambda>index. if index = ''i''
        then Some (Some ''CREATE UNIQUE INDEX i ON t(b) WHERE a > 0'') else None),
      cat_index_columns = (\<lambda>_. Some {''a'', ''b''}),
      cat_foreign_key_list = (\<lambda>_. [])\<rparr>"

lemma demo_catalog_index:
  "named_key_columns demo_catalog ''i'' = {''b''}"
  "cat_index_columns demo_catalog = (\<lambda>_. Some {''a'', ''b''})"
  "cat_index_list demo_catalog ''t'' = [\<lparr>il_name = ''i'', il_unique = Some 1, il_partial = Some 1\<rparr>]"
  by (auto simp: demo_catalog_def named_key_columns_def int_or_0_def)


text \<open>
  The primary-key columns come in key order: they are the names of the rows with a
  positive \<open>pk\<close>, each once, and a row with a smaller \<open>pk\<close> comes first; a rowid-alias
  column is reported only when it is the whole primary key and declared \<open>INTEGER\<close>.
\<close>

lemma primary_key_columns_ordered:
  "\<exists>rows. mset rows = mset (primary_key_rows cat table) \<and>
     sorted (map (\<lambda>row. int_or_0 (ti_pk row)) rows) \<and>
     primary_key_columns cat (Some table) = map ti_name rows \<and>
     (\<forall>column. integer_primary_key_column cat table = Some column \<longleftrightarrow>
        (\<exists>row. rows = [row] \<and> ti_name row = column \<and>
           ascii_upper (str_or (ti_type row) []) = ''INTEGER''))"
proof -
  let ?key = "\<lambda>row. (int_or_0 (ti_pk row), ti_name row)"
  let ?rows = "sort_key ?key (primary_key_rows cat table)"
  have eq: "sort (map ?key (primary_key_rows cat table)) = map ?key ?rows"
    by (rule properties_for_sort) simp_all
  have "sorted_wrt (\<lambda>x y. ?key x \<le> ?key y) ?rows"
    using sorted_sort_key [of ?key "primary_key_rows cat table"] by (simp only: sorted_map)
  then have "sorted_wrt (\<lambda>x y. int_or_0 (ti_pk x) \<le> int_or_0 (ti_pk y)) ?rows"
    by (rule sorted_wrt_mono_rel [rotated]) (auto simp: less_eq_prod_def)
  then have "sorted (map (\<lambda>row. int_or_0 (ti_pk row)) ?rows)" by (simp only: sorted_map)
  moreover have "(primary_key_rows cat table = [row]) = (?rows = [row])" for row
    by (metis length_sort mset_sort size_mset mset_single_iff_right mset_single_iff)
  moreover have "integer_primary_key_column cat table = Some column \<longleftrightarrow>
      (\<exists>row. primary_key_rows cat table = [row] \<and> ti_name row = column \<and>
         ascii_upper (str_or (ti_type row) []) = ''INTEGER'')" for column
    by (auto simp: integer_primary_key_column_def split: list.splits if_splits)
  ultimately show ?thesis
    by (intro exI [of _ ?rows]) (simp add: primary_key_columns_def eq comp_def)
qed

section \<open>The memo\<close>

locale memo_field =
  fixes get :: "'c \<Rightarrow> 'v option"
    and put :: "'v \<Rightarrow> 'c \<Rightarrow> 'c"
    and compute :: "'c \<Rightarrow> 'v \<times> 'c"
    and val :: 'v
    and valid :: "'c \<Rightarrow> bool"
  assumes hit: "valid c \<Longrightarrow> get c = Some v \<Longrightarrow> v = val"
    and miss: "valid c \<Longrightarrow> get c = None \<Longrightarrow> fst (compute c) = val \<and> valid (put val (snd (compute c)))"
begin

lemma memo_val: "valid c \<Longrightarrow> fst (memo get put compute c) = val"
  by (auto simp: memo_def hit dest: miss split: option.splits prod.splits)

lemma memo_valid: "valid c \<Longrightarrow> valid (snd (memo get put compute c))"
  using miss [of c] by (auto simp: memo_def split: option.splits prod.splits)

end

text \<open>A cache whose memoised fields are empty or hold what they stand for.\<close>

definition cache_valid :: "catalog \<Rightarrow> schema_cache \<Rightarrow> bool" where
  "cache_valid cat c \<longleftrightarrow>
     (\<forall>v. cached_edges c = Some v \<longrightarrow> v = compute_edges cat c) \<and>
     (\<forall>v. cached_edges_by_parent c = Some v \<longrightarrow>
        v = group_foreign_key_edges_by_table (compute_edges cat c) Parent_Role) \<and>
     (\<forall>v. cached_edges_by_child c = Some v \<longrightarrow>
        v = group_foreign_key_edges_by_table (compute_edges cat c) Child_Role) \<and>
     (\<forall>t v. map_of (cache_integer_keys c) t = Some v \<longrightarrow> v = integer_primary_key_column cat t)"

text \<open>The same, with the edges that the cache's tables determine.\<close>

definition cache_for :: "catalog \<Rightarrow> foreign_key_edge list \<Rightarrow> schema_cache \<Rightarrow> bool" where
  "cache_for cat edges c \<longleftrightarrow> cache_valid cat c \<and> compute_edges cat c = edges"

lemma compute_edges_update [simp]:
  "compute_edges cat (c\<lparr>cached_edges := x\<rparr>) = compute_edges cat c"
  "compute_edges cat (c\<lparr>cached_edges_by_parent := p\<rparr>) = compute_edges cat c"
  "compute_edges cat (c\<lparr>cached_edges_by_child := p\<rparr>) = compute_edges cat c"
  "compute_edges cat (c\<lparr>cache_integer_keys := i\<rparr>) = compute_edges cat c"
  by (simp_all add: compute_edges_def)

interpretation edges_memo: memo_field cached_edges put_edges "\<lambda>c. (compute_edges cat c, c)" edges
    "cache_for cat edges" for cat edges
  by unfold_locales (auto simp: cache_for_def cache_valid_def put_edges_def)

lemma foreign_key_edges_for:
  "cache_for cat edges c \<Longrightarrow> \<exists>c'. foreign_key_edges cat c = (edges, c') \<and> cache_for cat edges c'"
  by (rule exI [of _ "snd (foreign_key_edges cat c)"])
    (simp add: prod_eq_iff foreign_key_edges_def edges_memo.memo_val [of cat edges]
      edges_memo.memo_valid [of cat edges])

lemma cache_for_puts [simp, intro]:
  "cache_for cat edges c \<Longrightarrow>
     cache_for cat edges (put_edges_by_parent (group_foreign_key_edges_by_table edges Parent_Role) c)"
  "cache_for cat edges c \<Longrightarrow>
     cache_for cat edges (put_edges_by_child (group_foreign_key_edges_by_table edges Child_Role) c)"
  "cache_for cat edges c \<Longrightarrow>
     cache_for cat edges (put_integer_key t (integer_primary_key_column cat t) c)"
  by (auto simp: cache_for_def cache_valid_def put_edges_by_parent_def put_edges_by_child_def
      put_integer_key_def)

lemma cache_for_hits:
  "cache_for cat edges c \<Longrightarrow> cached_edges_by_parent c = Some v \<Longrightarrow>
     v = group_foreign_key_edges_by_table edges Parent_Role"
  "cache_for cat edges c \<Longrightarrow> cached_edges_by_child c = Some v \<Longrightarrow>
     v = group_foreign_key_edges_by_table edges Child_Role"
  by (auto simp: cache_for_def cache_valid_def)

interpretation parent_memo: memo_field cached_edges_by_parent put_edges_by_parent
    "\<lambda>c. case foreign_key_edges cat c of
       (edges, c') \<Rightarrow> (group_foreign_key_edges_by_table edges Parent_Role, c')"
    "group_foreign_key_edges_by_table edges Parent_Role" "cache_for cat edges" for cat edges
proof unfold_locales
  fix c assume "cache_for cat edges c"
  from foreign_key_edges_for [OF this] obtain c'
    where "foreign_key_edges cat c = (edges, c')" "cache_for cat edges c'" by blast
  then show "fst (case foreign_key_edges cat c of
        (edges, c') \<Rightarrow> (group_foreign_key_edges_by_table edges Parent_Role, c')) =
      group_foreign_key_edges_by_table edges Parent_Role \<and>
    cache_for cat edges (put_edges_by_parent (group_foreign_key_edges_by_table edges Parent_Role)
      (snd (case foreign_key_edges cat c of
        (edges, c') \<Rightarrow> (group_foreign_key_edges_by_table edges Parent_Role, c'))))"
    by simp
qed (rule cache_for_hits)

interpretation child_memo: memo_field cached_edges_by_child put_edges_by_child
    "\<lambda>c. case foreign_key_edges cat c of
       (edges, c') \<Rightarrow> (group_foreign_key_edges_by_table edges Child_Role, c')"
    "group_foreign_key_edges_by_table edges Child_Role" "cache_for cat edges" for cat edges
proof unfold_locales
  fix c assume "cache_for cat edges c"
  from foreign_key_edges_for [OF this] obtain c'
    where "foreign_key_edges cat c = (edges, c')" "cache_for cat edges c'" by blast
  then show "fst (case foreign_key_edges cat c of
        (edges, c') \<Rightarrow> (group_foreign_key_edges_by_table edges Child_Role, c')) =
      group_foreign_key_edges_by_table edges Child_Role \<and>
    cache_for cat edges (put_edges_by_child (group_foreign_key_edges_by_table edges Child_Role)
      (snd (case foreign_key_edges cat c of
        (edges, c') \<Rightarrow> (group_foreign_key_edges_by_table edges Child_Role, c'))))"
    by simp
qed (rule cache_for_hits)

interpretation integer_key_memo: memo_field "get_integer_key t" "put_integer_key t"
    "\<lambda>c. (integer_primary_key_column cat t, c)" "integer_primary_key_column cat t" "cache_for cat edges"
    for cat edges t
  by unfold_locales (auto simp: cache_for_def cache_valid_def get_integer_key_def put_integer_key_def)

text \<open>
  C38. The schema cache is transparent: from a cache whose memoised fields are consistent
  with the catalog, in particular from the one the loader builds, every accessor returns
  what it would compute afresh and leaves a consistent cache over the same tables behind.
\<close>

theorem schema_cache_transparent:
  assumes "cache = load_schema_cache cat \<or> cache_valid cat cache"
  shows "fst (foreign_key_edges cat cache) = compute_edges cat cache \<and>
    fst (foreign_key_edges_by_parent cat cache) =
      group_foreign_key_edges_by_table (compute_edges cat cache) Parent_Role \<and>
    fst (foreign_key_edges_by_child cat cache) =
      group_foreign_key_edges_by_table (compute_edges cat cache) Child_Role \<and>
    fst (integer_primary_key_lookup cat table cache) = integer_primary_key_column cat table \<and>
    list_all (\<lambda>c. cache_valid cat c \<and> compute_edges cat c = compute_edges cat cache)
      [snd (foreign_key_edges cat cache), snd (foreign_key_edges_by_parent cat cache),
       snd (foreign_key_edges_by_child cat cache), snd (integer_primary_key_lookup cat table cache)]"
proof -
  have "cache_valid cat (load_schema_cache cat)"
    by (auto simp: cache_valid_def load_schema_cache_def load_schema_metadata_def Let_def
        compute_edges_def load_integer_primary_key_columns_def split: if_splits)
  with assms have "cache_for cat (compute_edges cat cache) cache" by (auto simp: cache_for_def)
  note valid = this
  have "cache_for cat (compute_edges cat cache) c \<Longrightarrow>
      cache_valid cat c \<and> compute_edges cat c = compute_edges cat cache" for c
    by (simp add: cache_for_def)
  then show ?thesis
    using edges_memo.memo_val [OF valid] edges_memo.memo_valid [OF valid]
      parent_memo.memo_val [OF valid] parent_memo.memo_valid [OF valid]
      child_memo.memo_val [OF valid] child_memo.memo_valid [OF valid]
      integer_key_memo.memo_val [OF valid, of table] integer_key_memo.memo_valid [OF valid, of table]
    by (simp add: foreign_key_edges_def foreign_key_edges_by_parent_def
        foreign_key_edges_by_child_def integer_primary_key_lookup_def)
qed

theorem schema_cache_transparent_witness:
  "fst (integer_primary_key_lookup demo_catalog ''t'' (load_schema_cache demo_catalog)) = Some ''a''"
proof -
  have "integer_primary_key_column demo_catalog ''t'' = Some ''a''" by code_simp
  then show ?thesis
    using schema_cache_transparent [of "load_schema_cache demo_catalog" demo_catalog "''t''"] by simp
qed

end
