(* ===== verification/Sql_Metadata.thy ===== *)
theory Sql_Metadata
  imports Sql_References Schema Conflict_Resolution_Props Cascade_Correct
begin

text \<open>
  Statement and transaction metadata of \<open>src/merge/sql_metadata.py\<close>: from the parsed
  statement to its read and write maps, with the foreign-key effects of the schema, and the
  aggregation over a transaction. The SQL parser is the parameter \<open>parse\<close>: \<open>None\<close> is a
  \<open>ParseError\<close>. A failed \<open>assert\<close> is the error \<open>Assertion_Failed\<close>.
\<close>

datatype statement_kind = Insert_Kind | Update_Kind | Delete_Kind | Other_Kind

datatype metadata_error = Parse_Failed | Assertion_Failed

record statement_metadata =
  parsed_sql_text :: parsed_sql
  sm_compatible_sql :: compatible_sql
  statement_kind :: statement_kind
  sm_conflict_resolution :: "conflict_resolution option"
  has_reviewable_constraint_resolution :: bool
  table_updated :: "string option"
  columns_updated :: "string set"
  updated_map :: column_map
  referenced_map :: column_map
  cascade_write_events :: "cascade_write_event list"
  has_cascade_effects :: bool

record transaction_metadata =
  tm_statements :: "statement_metadata list"
  has_insert :: bool
  has_update :: bool
  has_delete :: bool
  tm_updated_map :: column_map
  tm_referenced_map :: column_map
  tm_cascade_write_events :: "cascade_write_event list"
  tm_has_cascade_effects :: bool

section \<open>Parsing, with the DEFAULT VALUES fallback\<close>

text \<open>\<open>\bDEFAULT\s+VALUES\b\<close> at an index: the index after it.\<close>

definition word_boundary :: "string \<Rightarrow> nat \<Rightarrow> bool" where
  "word_boundary sql i \<longleftrightarrow>
     (0 < i \<and> i \<le> length sql \<and> identifier_char (sql ! (i - 1))) \<noteq>
     (i < length sql \<and> identifier_char (sql ! i))"

definition DEFAULT_VALUES_INSERT_PATTERN :: "string \<Rightarrow> nat \<Rightarrow> nat option" where
  "DEFAULT_VALUES_INSERT_PATTERN sql i =
     (if \<not> word_boundary sql i then None
      else Option.bind (match_word ''DEFAULT'' sql i) (\<lambda>j.
           Option.bind (match_spaces sql j) (\<lambda>k.
           Option.bind (match_word ''VALUES'' sql k) (\<lambda>e.
             if word_boundary sql e then Some e else None))))"

definition normalize_default_values_insert :: "string \<Rightarrow> string" where
  "normalize_default_values_insert sql_text =
     (let stripped = ascii_lower (lstrip sql_text) in
      if \<not> (starts_with stripped ''insert'' \<or> starts_with stripped ''with'') then sql_text
      else case first_some
             (\<lambda>i. map_option (\<lambda>e. (i, e)) (DEFAULT_VALUES_INSERT_PATTERN sql_text i))
             [0..<length sql_text] of
        None \<Rightarrow> sql_text
      | Some (i, e) \<Rightarrow> take i sql_text @ ''() VALUES ()'' @ drop e sql_text)"

definition parse_one :: "(string \<Rightarrow> parsed_sql option) \<Rightarrow> string \<Rightarrow> metadata_error + parsed_sql" where
  "parse_one parse sql_text =
     (case parse sql_text of
        Some parsed \<Rightarrow> Inr parsed
      | None \<Rightarrow>
          (let normalized = normalize_default_values_insert sql_text in
           if normalized = sql_text then Inl Parse_Failed
           else case parse normalized of
             Some parsed \<Rightarrow> Inr parsed
           | None \<Rightarrow> Inl Parse_Failed))"

section \<open>One statement\<close>

definition statement_kind_of :: "parsed_sql \<Rightarrow> statement_kind" where
  "statement_kind_of parsed =
     (case parsed_class parsed of
        Insert_Expr \<Rightarrow> Insert_Kind
      | Update_Expr \<Rightarrow> Update_Kind
      | Delete_Expr \<Rightarrow> Delete_Kind
      | _ \<Rightarrow> Other_Kind)"

definition target_table_name :: "parsed_sql \<Rightarrow> string option" where
  "target_table_name parsed =
     (if parsed_class parsed \<in> {Insert_Expr, Update_Expr, Delete_Expr}
      then table_name (parsed_target parsed) else None)"

definition updated_columns :: "parsed_sql \<Rightarrow> string set" where
  "updated_columns parsed =
     (if parsed_class parsed \<noteq> Update_Expr then {ALL_COLUMNS}
      else set (List.map_filter assignment_left
             (filter assignment_is_eq (parsed_assignments parsed))))"

definition written_tables_to_columns ::
    "statement_kind \<Rightarrow> string option \<Rightarrow> string set \<Rightarrow> metadata_error + column_map" where
  "written_tables_to_columns kind table columns =
     (case (kind, table) of
        (Other_Kind, None) \<Rightarrow> Inr []
      | (Other_Kind, Some _) \<Rightarrow> Inl Assertion_Failed
      | (_, None) \<Rightarrow> Inl Assertion_Failed
      | (_, Some t) \<Rightarrow> Inr [(t, columns)])"

definition no_effects :: cascade_effects where
  "no_effects = \<lparr>effects_updated = [], effects_referenced = [], effects_write_events = []\<rparr>"

definition edges_by_parent :: "check_context \<Rightarrow> edge_map" where
  "edges_by_parent ctx = fst (foreign_key_edges_by_parent (ctx_catalog ctx) (ctx_cache ctx))"

definition edges_by_child :: "check_context \<Rightarrow> edge_map" where
  "edges_by_child ctx = fst (foreign_key_edges_by_child (ctx_catalog ctx) (ctx_cache ctx))"

definition context_tables :: "check_context \<Rightarrow> string list" where
  "context_tables ctx = map fst (cache_table_columns (ctx_cache ctx))"

definition cascade_effects_for_metadata ::
    "check_context option \<Rightarrow> statement_kind \<Rightarrow> string option \<Rightarrow> string set \<Rightarrow>
     metadata_error + cascade_effects" where
  "cascade_effects_for_metadata context kind table columns =
     (case context of
        None \<Rightarrow> Inr no_effects
      | Some ctx \<Rightarrow>
          (if kind \<noteq> Delete_Kind \<and> kind \<noteq> Update_Kind then Inr no_effects
           else case table of
             None \<Rightarrow> Inl Assertion_Failed
           | Some t \<Rightarrow> Inr (cascade_effects_for_parsed_statement (edges_by_parent ctx)
               (context_tables ctx)
               (if kind = Delete_Kind then Delete_Event else Update_Event) t columns)))"

definition parse_statement_metadata ::
    "(string \<Rightarrow> parsed_sql option) \<Rightarrow> string \<Rightarrow> column_map option \<Rightarrow> check_context option \<Rightarrow>
     metadata_error + statement_metadata" where
  "parse_statement_metadata parse sql_text table_columns context =
     (let compatible = normalize_sql_for_sqlglot sql_text in
      result_bind (parse_one parse (compat_sql compatible)) (\<lambda>parsed.
      let kind = statement_kind_of parsed;
          table = target_table_name parsed;
          columns = updated_columns parsed in
      result_bind (written_tables_to_columns kind table columns) (\<lambda>updated.
      let referenced = referenced_tables_to_columns parsed table_columns in
      result_bind (cascade_effects_for_metadata context kind table columns) (\<lambda>effects.
      let merge = (\<lambda>m extra. if has_effects effects then add_columns_by_table m extra else m) in
      Inr \<lparr>parsed_sql_text = parsed,
           sm_compatible_sql = compatible,
           statement_kind = kind,
           sm_conflict_resolution = compat_resolution compatible,
           has_reviewable_constraint_resolution =
             stripped_upsert compatible \<or>
             is_reviewable_conflict_resolution (compat_resolution compatible),
           table_updated = table,
           columns_updated = columns,
           updated_map = merge updated (effects_updated effects),
           referenced_map = merge referenced (effects_referenced effects),
           cascade_write_events = effects_write_events effects,
           has_cascade_effects = has_effects effects\<rparr>))))"

definition parse_statement_metadata_for_context ::
    "(string \<Rightarrow> parsed_sql option) \<Rightarrow> string \<Rightarrow> check_context \<Rightarrow> metadata_error + statement_metadata"
where
  "parse_statement_metadata_for_context parse sql_text ctx =
     parse_statement_metadata parse sql_text (Some (cache_table_columns (ctx_cache ctx))) (Some ctx)"

definition unsupported_fragment :: sql_fragment where
  "unsupported_fragment =
     \<lparr>fragment_scopes = [], fragment_is_subqueryable = False, fragment_columns = [],
      fragment_bare_star = False, fragment_named_selects = []\<rparr>"

definition unsupported_sql :: parsed_sql where
  "unsupported_sql =
     \<lparr>parsed_class = Other_Expr, parsed_target = Other_Target, parsed_assignments = [],
      parsed_from = None, parsed_where = None, parsed_expression = None,
      parsed_whole = unsupported_fragment, parsed_ctes = []\<rparr>"

definition unsupported_statement_metadata :: "string \<Rightarrow> statement_metadata" where
  "unsupported_statement_metadata sql_text =
     \<lparr>parsed_sql_text = unsupported_sql,
      sm_compatible_sql =
        \<lparr>compat_sql = sql_text, compat_resolution = None, stripped_upsert = False\<rparr>,
      statement_kind = Other_Kind, sm_conflict_resolution = None,
      has_reviewable_constraint_resolution = False, table_updated = None,
      columns_updated = {}, updated_map = [], referenced_map = [],
      cascade_write_events = [], has_cascade_effects = False\<rparr>"

definition required_updated_table :: "statement_metadata \<Rightarrow> metadata_error + string" where
  "required_updated_table metadata =
     (case table_updated metadata of None \<Rightarrow> Inl Assertion_Failed | Some t \<Rightarrow> Inr t)"

text \<open>\<open>isinstance(metadata.parsed_sql_text, exp.Delete)\<close> and the two like it.\<close>

definition is_delete_statement :: "statement_metadata \<Rightarrow> bool" where
  "is_delete_statement metadata \<longleftrightarrow> parsed_class (parsed_sql_text metadata) = Delete_Expr"

definition is_insert_statement :: "statement_metadata \<Rightarrow> bool" where
  "is_insert_statement metadata \<longleftrightarrow> parsed_class (parsed_sql_text metadata) = Insert_Expr"

definition is_update_statement :: "statement_metadata \<Rightarrow> bool" where
  "is_update_statement metadata \<longleftrightarrow> parsed_class (parsed_sql_text metadata) = Update_Expr"

section \<open>A transaction\<close>

text \<open>\<open>d[table].update(columns)\<close> on a \<open>defaultdict(set)\<close>, for every item of a map.\<close>

definition update_columns :: "column_map \<Rightarrow> column_map \<Rightarrow> column_map" where
  "update_columns d extra =
     foldl (\<lambda>d (table, columns). dict_set table (dict_get d table {} \<union> columns) d) d extra"

definition transaction_metadata :: "statement_metadata list \<Rightarrow> transaction_metadata" where
  "transaction_metadata statements =
     \<lparr>tm_statements = statements,
      has_insert = list_ex (\<lambda>s. statement_kind s = Insert_Kind) statements,
      has_update = list_ex (\<lambda>s. statement_kind s = Update_Kind) statements,
      has_delete = list_ex (\<lambda>s. statement_kind s = Delete_Kind) statements,
      tm_updated_map = foldl (\<lambda>d s. update_columns d (updated_map s)) [] statements,
      tm_referenced_map = foldl (\<lambda>d s. update_columns d (referenced_map s)) [] statements,
      tm_cascade_write_events = concat (map cascade_write_events statements),
      tm_has_cascade_effects = list_ex has_cascade_effects statements\<rparr>"

end
