(* ===== verification/Sql_Metadata_Props.thy ===== *)
theory Sql_Metadata_Props
  imports Sql_Metadata Sql_References_Props Schema_Props
begin

text \<open>
  What the analyses may assume of metadata: the well-formedness of a parsed statement, the
  errors that parsing can end in, the coverage of the schema's hidden writes, and the
  aggregation over a transaction.
\<close>

section \<open>Dictionaries stay dictionaries\<close>

lemma map_ok_add_reference [simp, intro]: "column_map_ok r \<Longrightarrow> column_map_ok (add_reference r t c)"
  by (simp add: add_reference_def)

lemma map_ok_add_star [simp, intro]: "column_map_ok r \<Longrightarrow> column_map_ok (add_star_reference f q r)"
  by (auto simp: add_star_reference_def intro!: column_map_ok_foldl split: option.splits list.splits)

lemma map_ok_add_column [simp, intro]: "column_map_ok r \<Longrightarrow> column_map_ok (add_column_reference f tc r c)"
  by (auto simp: add_column_reference_def split: option.splits)

lemma map_ok_direct [simp, intro]: "column_map_ok r \<Longrightarrow> column_map_ok (collect_direct_references cs b f tc r)"
  by (auto simp: collect_direct_references_def Let_def intro!: column_map_ok_foldl)

lemma map_ok_tree: "column_map_ok r \<Longrightarrow> column_map_ok (collect_scope_tree_references ig tc s outer r)"
proof (induction ig tc s outer r rule: collect_scope_tree_references.induct)
  case (1 ig tc s outer r)
  have "column_map_ok (foldl (\<lambda>r child. collect_scope_tree_references ig tc child
      (outer_frame_for_child_scope child (scope_sources ig s # outer) outer) r) d children)"
    if "column_map_ok d" "set children \<subseteq> set (scope_children s)" for d children
    using that "1.IH" [OF refl] by (induction children arbitrary: d) auto
  then show ?case
    using "1.prems" by (simp add: collect_scope_tree_references.simps [of ig tc s outer r] Let_def)
qed

lemma map_ok_root [simp, intro]: "column_map_ok r \<Longrightarrow> column_map_ok (collect_root_references ig tc f r root)"
  by (auto simp: collect_root_references_def collect_non_select_column_references_def
      collect_select_scope_references_def intro!: column_map_ok_foldl map_ok_tree)

lemma map_ok_referenced [simp]: "column_map_ok (referenced_tables_to_columns parsed tc)"
  by (auto simp: referenced_tables_to_columns_def Let_def intro!: column_map_ok_foldl)

section \<open>The events of the effects are in its update map\<close>

definition event_ok :: "cascade_write_event \<Rightarrow> bool" where
  "event_ok e \<longleftrightarrow>
     finite (event_columns e) \<and> (event_kind e = Delete_Event \<longrightarrow> event_columns e = {ALL_COLUMNS})"

definition effects_ok :: "cascade_state \<Rightarrow> bool" where
  "effects_ok st \<longleftrightarrow> column_map_ok (cs_updated st) \<and> column_map_ok (cs_referenced st) \<and>
     (\<forall>c \<in> set (cs_events st). event_ok c \<and> covers (event_columns c) \<subseteq> map_covers (cs_updated st) (event_table c))"

lemma effects_ok_expand: "effects_ok st \<Longrightarrow> effects_ok (expand_edge e d st edge)"
proof -
  assume ok: "effects_ok st"
  have fin: "event_ok c" if "child_of e edge = Some c" for c
    using that by (auto simp: event_ok_def child_of_def cascade_child_event_def bind_eq_Some_conv split: if_splits)
  then have "column_map_ok (cs_updated (expand_edge e d st edge)) \<and>
      column_map_ok (cs_referenced (expand_edge e d st edge))"
    using ok by (auto simp: effects_ok_def event_ok_def expand_edge_def Let_def child_of_def split: option.splits)
  moreover have "event_ok c \<and> covers (event_columns c) \<subseteq> map_covers (cs_updated (expand_edge e d st edge)) (event_table c)"
    if "c \<in> set (cs_events (expand_edge e d st edge))" for c
  proof (cases "c \<in> set (cs_events st)")
    case True
    then show ?thesis using ok expand_edge_covers(1) [of st "event_table c" e d edge]
      by (auto simp: effects_ok_def)
  next
    case False
    with that have "child_of e edge = Some c" by (auto split: option.splits)
    then show ?thesis using fin expand_edge_covers(3) by blast
  qed
  ultimately show ?thesis by (simp add: effects_ok_def)
qed

lemma effects_ok_expands: "effects_ok st \<Longrightarrow> effects_ok (foldl (expand_edge e d) st edges)"
  by (induction edges arbitrary: st) (simp_all add: effects_ok_expand)

lemma effects_ok_mark: "effects_ok st \<Longrightarrow> effects_ok (mark_unknown_cascade_effects tables st)"
proof (induction tables rule: rev_induct)
  case (snoc t ts)
  have "event_ok \<lparr>event_table = t, event_columns = {ALL_COLUMNS}, event_kind = Update_Event\<rparr>"
    by (simp add: event_ok_def)
  with snoc show ?case by (auto simp: effects_ok_def mark_unknown_snoc)
qed (simp add: mark_unknown_cascade_effects_def)

lemma effects_ok_queue [simp]:
  "effects_ok (st\<lparr>cs_queue := q\<rparr>) = effects_ok st"
  "effects_ok (st\<lparr>cs_queue := q, cs_visited := v\<rparr>) = effects_ok st"
  by (simp_all add: effects_ok_def)

lemma effects_ok_loop: "effects_ok st \<Longrightarrow> effects_ok (cascade_loop by_parent tables st)"
proof (induction by_parent tables st rule: cascade_loop.induct)
  case (1 by_parent tables st)
  show ?case
  proof (cases "cs_queue st")
    case Nil
    then show ?thesis using "1.prems" by (simp add: cascade_loop.simps [of by_parent tables st])
  next
    case (Cons p rest)
    obtain e d where p: "p = (e, d)" by (cases p)
    show ?thesis
      using "1.IH" [OF Cons p [symmetric]] "1.prems" Cons p
      by (auto simp: cascade_loop.simps [of by_parent tables st] effects_ok_expands
          intro: effects_ok_mark)
  qed
qed

lemma effects_wellformed:
  "column_map_ok (effects_updated (cascade_effects_for_event by_parent tables e))"
  "column_map_ok (effects_referenced (cascade_effects_for_event by_parent tables e))"
  "c \<in> set (effects_write_events (cascade_effects_for_event by_parent tables e)) \<Longrightarrow>
     event_ok c \<and> covers (event_columns c) \<subseteq>
       map_covers (effects_updated (cascade_effects_for_event by_parent tables e)) (event_table c)"
proof -
  have "effects_ok (cascade_loop by_parent tables (initial_state e))"
    by (rule effects_ok_loop) (simp add: effects_ok_def initial_state_def)
  then show "column_map_ok (effects_updated (cascade_effects_for_event by_parent tables e))"
    "column_map_ok (effects_referenced (cascade_effects_for_event by_parent tables e))"
    "c \<in> set (effects_write_events (cascade_effects_for_event by_parent tables e)) \<Longrightarrow>
     event_ok c \<and> covers (event_columns c) \<subseteq>
       map_covers (effects_updated (cascade_effects_for_event by_parent tables e)) (event_table c)"
    by (auto simp: effects_ok_def cascade_effects_for_event_def Let_def)
qed

section \<open>Metadata is well formed\<close>

definition metadata_wellformed :: "statement_metadata \<Rightarrow> bool" where
  "metadata_wellformed m \<longleftrightarrow>
     statement_kind m = statement_kind_of (parsed_sql_text m) \<and>
     table_updated m = target_table_name (parsed_sql_text m) \<and>
     (statement_kind m = Other_Kind \<longleftrightarrow> table_updated m = None) \<and>
     (statement_kind m \<in> {Insert_Kind, Delete_Kind} \<longrightarrow> columns_updated m = {ALL_COLUMNS}) \<and>
     column_map_ok (updated_map m) \<and> column_map_ok (referenced_map m) \<and> finite (columns_updated m) \<and>
     (\<forall>t. table_updated m = Some t \<longrightarrow>
        t \<in> fst ` set (updated_map m) \<and> covers (columns_updated m) \<subseteq> map_covers (updated_map m) t) \<and>
     (\<forall>event \<in> set (cascade_write_events m). event_ok event \<and>
        covers (event_columns event) \<subseteq> map_covers (updated_map m) (event_table event)) \<and>
     (has_cascade_effects m \<longrightarrow> statement_kind m \<in> {Update_Kind, Delete_Kind}) \<and>
     (\<not> has_cascade_effects m \<longrightarrow>
        cascade_write_events m = [] \<and>
        updated_map m = (case table_updated m of None \<Rightarrow> [] | Some t \<Rightarrow> [(t, columns_updated m)]))"

lemma dict_keys_add_columns:
  "k \<in> fst ` set m \<Longrightarrow> k \<in> fst ` set (add_columns_by_table m extra)"
proof (induction extra arbitrary: m)
  case (Cons p extra)
  have "k \<in> fst ` set (add_columns_to_column_map t c m)" for t c
    using Cons.prems by (auto simp: add_columns_to_column_map_def Let_def dict_setdefault_def
        dom_update split: option.splits)
  with Cons.IH show ?case by (simp add: add_columns_by_table_def case_prod_beta)
qed (simp add: add_columns_by_table_def)

lemma effects_for_metadata_cases:
  assumes "cascade_effects_for_metadata context kind table columns = Inr effects"
  obtains "effects = no_effects"
  | by_parent tables event where "kind \<in> {Update_Kind, Delete_Kind}"
      "effects = cascade_effects_for_event by_parent tables event"
  using assms by (auto simp: cascade_effects_for_metadata_def cascade_effects_for_parsed_statement_def
      split: option.splits if_splits)

lemma effects_for_statement_wellformed:
  assumes "cascade_effects_for_metadata context kind table columns = Inr effects"
  shows "column_map_ok (effects_updated effects)" "column_map_ok (effects_referenced effects)"
    "c \<in> set (effects_write_events effects) \<Longrightarrow>
       event_ok c \<and> covers (event_columns c) \<subseteq> map_covers (effects_updated effects) (event_table c)"
    "has_effects effects \<Longrightarrow> kind \<in> {Update_Kind, Delete_Kind}"
  by (rule effects_for_metadata_cases [OF assms];
      simp add: effects_wellformed no_effects_def has_effects_def)+

lemma written_tables_Inr:
  "written_tables_to_columns kind table columns = Inr updated \<longleftrightarrow>
     (kind = Other_Kind \<and> table = None \<and> updated = []) \<or>
     (\<exists>t. kind \<noteq> Other_Kind \<and> table = Some t \<and> updated = [(t, columns)])"
  by (auto simp: written_tables_to_columns_def split: statement_kind.splits option.splits)

lemma parse_statement_metadata_Inr:
  assumes "parse_statement_metadata parse sql tc context = Inr m"
  obtains updated effects where
    "parse_one parse (compat_sql (normalize_sql_for_sqlglot sql)) = Inr (parsed_sql_text m)"
    "statement_kind m = statement_kind_of (parsed_sql_text m)"
    "table_updated m = target_table_name (parsed_sql_text m)"
    "columns_updated m = updated_columns (parsed_sql_text m)"
    "written_tables_to_columns (statement_kind m) (table_updated m) (columns_updated m) = Inr updated"
    "cascade_effects_for_metadata context (statement_kind m) (table_updated m) (columns_updated m) = Inr effects"
    "updated_map m = (if has_effects effects then add_columns_by_table updated (effects_updated effects) else updated)"
    "referenced_map m =
      (if has_effects effects
       then add_columns_by_table (referenced_tables_to_columns (parsed_sql_text m) tc) (effects_referenced effects)
       else referenced_tables_to_columns (parsed_sql_text m) tc)"
    "cascade_write_events m = effects_write_events effects"
    "has_cascade_effects m = has_effects effects"
    "sm_conflict_resolution m = compat_resolution (normalize_sql_for_sqlglot sql)"
    "has_reviewable_constraint_resolution m =
       (stripped_upsert (normalize_sql_for_sqlglot sql) \<or>
        is_reviewable_conflict_resolution (compat_resolution (normalize_sql_for_sqlglot sql)))"
  using assms
  by (auto simp: parse_statement_metadata_def Let_def result_bind_Inr)

text \<open>A parser for two statements, and a schema of two tables with a cascade.\<close>

definition demo_target :: "string \<Rightarrow> sql_target" where
  "demo_target t = Table_Target \<lparr>table_ident = t, table_db = [], table_alias_or_name = t\<rparr>"

definition demo_parse :: "string \<Rightarrow> parsed_sql option" where
  "demo_parse sql =
     (if sql = ''DELETE FROM a'' then Some (unsupported_sql
        \<lparr>parsed_class := Delete_Expr, parsed_target := demo_target ''a''\<rparr>)
      else if sql = ''INSERT INTO b () VALUES ()'' then Some (unsupported_sql
        \<lparr>parsed_class := Insert_Expr, parsed_target := demo_target ''b''\<rparr>)
      else None)"

definition cascade_catalog :: catalog where
  "cascade_catalog = demo_catalog
     \<lparr>cat_tables := [''a'', ''b''],
      cat_table_info := (\<lambda>_. [\<lparr>ti_name = ''id'', ti_type = Some ''INTEGER'', ti_pk = Some 1\<rparr>,
        \<lparr>ti_name = ''a_id'', ti_type = None, ti_pk = Some 0\<rparr>]),
      cat_index_list := (\<lambda>_. []),
      cat_foreign_key_list := (\<lambda>t. if t = ''b''
        then [\<lparr>fk_id = 0, fk_seq = 0, fk_table = ''a'', fk_from = ''a_id'', fk_to = None,
               fk_on_update = ''no action'', fk_on_delete = ''cascade''\<rparr>] else [])\<rparr>"

definition cascade_context :: check_context where
  "cascade_context =
     \<lparr>ctx_catalog = cascade_catalog, ctx_cache = load_schema_cache cascade_catalog\<rparr>"


lemma demo_delete_parses:
  "parse_one demo_parse (compat_sql (normalize_sql_for_sqlglot ''DELETE FROM a'')) =
     Inr (unsupported_sql\<lparr>parsed_class := Delete_Expr, parsed_target := demo_target ''a''\<rparr>)"
  by code_simp

definition demo_delete :: statement_metadata where
  "demo_delete = projr (parse_statement_metadata_for_context demo_parse ''DELETE FROM a'' cascade_context)"

lemma demo_delete_metadata:
  "parse_statement_metadata_for_context demo_parse ''DELETE FROM a'' cascade_context = Inr demo_delete"
  by (simp add: demo_delete_def parse_statement_metadata_for_context_def parse_statement_metadata_def
      Let_def demo_delete_parses statement_kind_of_def target_table_name_def demo_target_def
      table_name_def written_tables_to_columns_def cascade_effects_for_metadata_def)

text \<open>
  C35. How parsing a statement can end: a parse error exactly when the parser rejects the
  normalised text and either the \<open>DEFAULT VALUES\<close> fallback does not apply or its rewrite is
  rejected too; an assertion failure exactly when a DML statement has no plain table as its
  target; and metadata otherwise. In particular non-DML statements never fail an assertion.
\<close>

theorem parse_statement_metadata_outcomes:
  "(let text = compat_sql (normalize_sql_for_sqlglot sql);
        fallback = normalize_default_values_insert text;
        tree = (case parse text of
          Some parsed \<Rightarrow> Some parsed
        | None \<Rightarrow> if fallback = text then None else parse fallback);
        result = parse_statement_metadata parse sql tc context
    in (result = Inl Parse_Failed) = (tree = None) \<and>
       (result = Inl Assertion_Failed) =
         (\<exists>parsed. tree = Some parsed \<and>
            parsed_class parsed \<in> {Insert_Expr, Update_Expr, Delete_Expr} \<and>
            table_expression (parsed_target parsed) = None) \<and>
       (\<exists>m. result = Inr m) =
         (\<exists>parsed. tree = Some parsed \<and>
            (parsed_class parsed \<in> {Insert_Expr, Update_Expr, Delete_Expr} \<longrightarrow>
              table_expression (parsed_target parsed) \<noteq> None)))"
proof -
  let ?text = "compat_sql (normalize_sql_for_sqlglot sql)"
  let ?fallback = "normalize_default_values_insert ?text"
  let ?tree = "case parse ?text of
      Some parsed \<Rightarrow> Some parsed | None \<Rightarrow> if ?fallback = ?text then None else parse ?fallback"
  let ?result = "parse_statement_metadata parse sql tc context"
  have one: "parse_one parse ?text = (case ?tree of None \<Rightarrow> Inl Parse_Failed | Some p \<Rightarrow> Inr p)"
    by (simp add: parse_one_def Let_def split: option.splits)
  show ?thesis
  proof (cases ?tree)
    case None
    then show ?thesis using one by (simp add: parse_statement_metadata_def Let_def)
  next
    case (Some parsed)
    then have "parse_one parse ?text = Inr parsed" using one by simp
    then have "(\<exists>m. ?result = Inr m) \<or> ?result = Inl Assertion_Failed"
      "(?result = Inl Assertion_Failed) =
        (parsed_class parsed \<in> {Insert_Expr, Update_Expr, Delete_Expr} \<and>
         table_expression (parsed_target parsed) = None)"
      by (auto simp: parse_statement_metadata_def Let_def statement_kind_of_def target_table_name_def
          table_name_def written_tables_to_columns_def cascade_effects_for_metadata_def
          split: expression_class.splits option.splits)
    then show ?thesis using Some by (auto simp: Let_def)
  qed
qed

theorem parse_statement_metadata_outcomes_witness:
  "parse_statement_metadata demo_parse ''SELECT 1'' None None = Inl Parse_Failed"
proof -
  have "compat_sql (normalize_sql_for_sqlglot ''SELECT 1'') = ''SELECT 1''" by code_simp
  moreover have "normalize_default_values_insert ''SELECT 1'' = ''SELECT 1''" by code_simp
  ultimately show ?thesis
    using parse_statement_metadata_outcomes [of "''SELECT 1''" demo_parse None None]
    by (simp add: Let_def demo_parse_def)
qed

section \<open>Coverage of the schema's hidden writes\<close>

lemma edges_by_parent_valid:
  assumes "cache_valid (ctx_catalog ctx) (ctx_cache ctx)"
  shows "edges_by_parent ctx =
     group_foreign_key_edges_by_table (compute_edges (ctx_catalog ctx) (ctx_cache ctx)) Parent_Role"
    "edges_by_child ctx =
     group_foreign_key_edges_by_table (compute_edges (ctx_catalog ctx) (ctx_cache ctx)) Child_Role"
proof -
  have "cache_for (ctx_catalog ctx) (compute_edges (ctx_catalog ctx) (ctx_cache ctx)) (ctx_cache ctx)"
    using assms by (simp add: cache_for_def)
  from parent_memo.memo_val [OF this] child_memo.memo_val [OF this]
  show "edges_by_parent ctx =
     group_foreign_key_edges_by_table (compute_edges (ctx_catalog ctx) (ctx_cache ctx)) Parent_Role"
    "edges_by_child ctx =
     group_foreign_key_edges_by_table (compute_edges (ctx_catalog ctx) (ctx_cache ctx)) Child_Role"
    by (simp_all add: edges_by_parent_def edges_by_child_def foreign_key_edges_by_parent_def
        foreign_key_edges_by_child_def)
qed

lemma group_edges_items:
  "(t, es) \<in> set (group_foreign_key_edges_by_table edges role) \<Longrightarrow> set es \<subseteq> set edges"
proof (induction edges arbitrary: t es rule: rev_induct)
  case Nil
  then show ?case by (simp add: group_foreign_key_edges_by_table_def)
next
  case (snoc edge edges)
  let ?g = "group_foreign_key_edges_by_table edges role"
  have upd: "(k, v) \<in> set (dict_set k' v' d) \<Longrightarrow> (k, v) \<in> set d \<or> v = v'"
    for k v k' v' and d :: edge_map
    by (induction d) (auto split: if_splits)
  have "group_foreign_key_edges_by_table (edges @ [edge]) role =
      dict_set (role_table role edge) (dict_get ?g (role_table role edge) [] @ [edge]) ?g"
    by (simp add: group_foreign_key_edges_by_table_def)
  moreover have "set (dict_get ?g k []) \<subseteq> set edges" for k
    by (auto simp: dict_get_group_edges)
  ultimately show ?case using snoc upd by fastforce
qed

lemma context_tables_known:
  assumes "cache_valid (ctx_catalog ctx) (ctx_cache ctx)"
  shows "child_tables_known (edges_by_parent ctx) (context_tables ctx)"
  using load_edges_wellformed group_edges_items
  unfolding child_tables_known_def edges_by_parent_valid [OF assms] compute_edges_def context_tables_def
  by blast

definition edges_have_columns :: "edge_map \<Rightarrow> bool" where
  "edges_have_columns by_parent \<longleftrightarrow>
     (\<forall>(t, es) \<in> set by_parent. \<forall>edge \<in> set es. child_columns edge \<noteq> [])"

lemma context_edges_have_columns:
  assumes "cache_valid (ctx_catalog ctx) (ctx_cache ctx)"
  shows "edges_have_columns (edges_by_parent ctx)"
  using load_edges_wellformed group_edges_items
  unfolding edges_have_columns_def edges_by_parent_valid [OF assms] compute_edges_def by blast

definition events_nonempty :: "cascade_state \<Rightarrow> bool" where
  "events_nonempty st \<longleftrightarrow> (\<forall>c \<in> set (cs_events st). event_columns c \<noteq> {})"

lemma events_nonempty_expands:
  assumes "events_nonempty st" "\<forall>edge \<in> set edges. child_columns edge \<noteq> []"
  shows "events_nonempty (foldl (expand_edge e d) st edges)"
proof -
  have "event_columns c \<noteq> {}" if "edge \<in> set edges" "child_of e edge = Some c" for edge c
    using that assms(2)
    by (auto simp: child_of_def cascade_child_event_def bind_eq_Some_conv split: if_splits)
  then show ?thesis using assms(1) by (auto simp: events_nonempty_def set_children)
qed

lemma events_nonempty_mark: "events_nonempty st \<Longrightarrow> events_nonempty (mark_unknown_cascade_effects ts st)"
proof (induction ts rule: rev_induct)
  case (snoc t ts)
  then show ?case by (auto simp: events_nonempty_def mark_unknown_snoc)
qed (simp add: mark_unknown_cascade_effects_def)

lemma events_nonempty_queue [simp]:
  "events_nonempty (st\<lparr>cs_queue := q\<rparr>) = events_nonempty st"
  "events_nonempty (st\<lparr>cs_queue := q, cs_visited := v\<rparr>) = events_nonempty st"
  by (simp_all add: events_nonempty_def)

lemma edges_have_columns_of:
  "edges_have_columns by_parent \<Longrightarrow> \<forall>edge \<in> set (edges_of by_parent e). child_columns edge \<noteq> []"
  using edges_of_item by (fastforce simp: edges_have_columns_def)

lemma events_nonempty_loop:
  "edges_have_columns by_parent \<Longrightarrow> events_nonempty st \<Longrightarrow>
     events_nonempty (cascade_loop by_parent tables st)"
proof (induction by_parent tables st rule: cascade_loop.induct)
  case (1 by_parent tables st)
  show ?case
  proof (cases "cs_queue st")
    case Nil
    then show ?thesis using "1.prems" by (simp add: cascade_loop.simps [of by_parent tables st])
  next
    case (Cons p rest)
    obtain e d where p: "p = (e, d)" by (cases p)
    show ?thesis
      using "1.IH" [OF Cons p [symmetric]] "1.prems" Cons p edges_have_columns_of [of by_parent e]
      by (auto simp: cascade_loop.simps [of by_parent tables st] events_nonempty_expands
          intro: events_nonempty_mark)
  qed
qed

lemma no_effects_no_events:
  assumes "edges_have_columns by_parent"
    and "\<not> has_effects (cascade_effects_for_event by_parent tables e)"
  shows "effects_write_events (cascade_effects_for_event by_parent tables e) = []"
proof -
  let ?eff = "cascade_effects_for_event by_parent tables e"
  have "events_nonempty (cascade_loop by_parent tables (initial_state e))"
    by (rule events_nonempty_loop [OF assms(1)]) (simp add: events_nonempty_def initial_state_def)
  then have "event_columns c \<noteq> {}" if "c \<in> set (effects_write_events ?eff)" for c
    using that by (auto simp: events_nonempty_def cascade_effects_for_event_def Let_def)
  moreover have "covers (event_columns c) = {}" if "c \<in> set (effects_write_events ?eff)" for c
    using effects_wellformed(3) [OF that] assms(2) by (auto simp: has_effects_def)
  ultimately show ?thesis by (cases "effects_write_events ?eff") auto
qed

lemma context_no_cascade_no_events:
  assumes "parse_statement_metadata parse sql tc context = Inr m"
    and "\<forall>ctx. context = Some ctx \<longrightarrow> cache_valid (ctx_catalog ctx) (ctx_cache ctx)"
    and "\<not> has_cascade_effects m"
  shows "cascade_write_events m = []"
proof -
  from assms(1) obtain effects where
    e: "cascade_effects_for_metadata context (statement_kind m) (table_updated m) (columns_updated m) = Inr effects"
    and u: "cascade_write_events m = effects_write_events effects" "has_cascade_effects m = has_effects effects"
    by (rule parse_statement_metadata_Inr)
  show ?thesis
  proof (cases "context")
    case None
    then show ?thesis using e u by (auto simp: cascade_effects_for_metadata_def no_effects_def)
  next
    case (Some ctx)
    then show ?thesis
      using e u assms(2,3) no_effects_no_events [OF context_edges_have_columns]
      by (auto simp: cascade_effects_for_metadata_def no_effects_def
          cascade_effects_for_parsed_statement_def split: if_splits option.splits)
  qed
qed

definition statement_event :: "statement_metadata \<Rightarrow> string \<Rightarrow> cascade_write_event" where
  "statement_event m table =
     (if statement_kind m = Delete_Kind
      then \<lparr>event_table = table, event_columns = {ALL_COLUMNS}, event_kind = Delete_Event\<rparr>
      else \<lparr>event_table = table, event_columns = columns_updated m, event_kind = Update_Event\<rparr>)"

lemma metadata_effects:
  assumes "parse_statement_metadata_for_context parse sql ctx = Inr m"
    and "statement_kind m \<in> {Update_Kind, Delete_Kind}" "table_updated m = Some table"
  defines "eff \<equiv> cascade_effects_for_event (edges_by_parent ctx) (context_tables ctx) (statement_event m table)"
  shows "map_covers (updated_map m) t = map_covers [(table, columns_updated m)] t \<union> map_covers (effects_updated eff) t"
    and "map_covers (referenced_map m) t =
      map_covers (referenced_tables_to_columns (parsed_sql_text m) (Some (cache_table_columns (ctx_cache ctx)))) t
      \<union> map_covers (effects_referenced eff) t"
    and "cascade_write_events m = effects_write_events eff"
proof -
  from assms(1) obtain updated effects where
    w: "written_tables_to_columns (statement_kind m) (table_updated m) (columns_updated m) = Inr updated"
    and e: "cascade_effects_for_metadata (Some ctx) (statement_kind m) (table_updated m) (columns_updated m) = Inr effects"
    and u: "updated_map m = (if has_effects effects then add_columns_by_table updated (effects_updated effects) else updated)"
      "referenced_map m =
        (if has_effects effects
         then add_columns_by_table (referenced_tables_to_columns (parsed_sql_text m)
           (Some (cache_table_columns (ctx_cache ctx)))) (effects_referenced effects)
         else referenced_tables_to_columns (parsed_sql_text m) (Some (cache_table_columns (ctx_cache ctx))))"
      "cascade_write_events m = effects_write_events effects"
    unfolding parse_statement_metadata_for_context_def by (rule parse_statement_metadata_Inr)
  have eff: "effects = eff"
    using e assms(2,3) by (auto simp: cascade_effects_for_metadata_def
        cascade_effects_for_parsed_statement_def eff_def statement_event_def)
  have upd: "updated = [(table, columns_updated m)]" using w assms(3) by (auto simp: written_tables_Inr)
  have ok: "dict_ok (effects_updated eff)" "dict_ok (effects_referenced eff)"
    by (simp_all add: eff_def effects_wellformed column_map_ok_dict)
  show "map_covers (updated_map m) t = map_covers [(table, columns_updated m)] t \<union> map_covers (effects_updated eff) t"
    "map_covers (referenced_map m) t =
      map_covers (referenced_tables_to_columns (parsed_sql_text m) (Some (cache_table_columns (ctx_cache ctx)))) t
      \<union> map_covers (effects_referenced eff) t"
    "cascade_write_events m = effects_write_events eff"
    using ok by (auto simp: u eff upd has_effects_def map_covers_add_columns_by_table)
qed

lemma hidden_write_effects:
  assumes "child_tables_known by_parent tables" "hidden_write by_parent e c"
  shows "covers (event_columns c)
    \<subseteq> map_covers (effects_updated (cascade_effects_for_event by_parent tables e)) (event_table c)"
proof (cases rule: effects_cases [of tables by_parent e])
  case (Overflow st)
  have "event_table c \<in> set tables"
    using hidden_write_table [OF assms(2)] assms(1) by (fastforce simp: child_tables_known_def)
  then show ?thesis using Overflow by (simp add: overflowed_def)
next
  case (Finished st)
  then show ?thesis
    using finished_closure [OF Finished(1,2) assms(2)] by (simp add: loop_inv_def)
qed

text \<open>
  C26. Under a consistent schema cache, the update map of a parsed UPDATE or DELETE covers
  every write that the foreign-key actions of the schema can cause from it, at any depth,
  and its read map still covers everything the statement itself reads.
\<close>

theorem metadata_covers_schema_effects:
  assumes "cache_valid (ctx_catalog ctx) (ctx_cache ctx)"
    and "parse_statement_metadata_for_context parse sql ctx = Inr m"
    and "statement_kind m \<in> {Update_Kind, Delete_Kind}" and "table_updated m = Some table"
    and "hidden_write (edges_by_parent ctx) (statement_event m table) c"
  shows "covers (event_columns c) \<subseteq> map_covers (updated_map m) (event_table c) \<and>
    map_covers (referenced_tables_to_columns (parsed_sql_text m) (Some (cache_table_columns (ctx_cache ctx)))) t
      \<subseteq> map_covers (referenced_map m) t"
  using hidden_write_effects [OF context_tables_known [OF assms(1)] assms(5)]
    metadata_effects [OF assms(2-4)] by auto

lemma cascade_context_valid: "cache_valid (ctx_catalog cascade_context) (ctx_cache cascade_context)"
  by (auto simp: cascade_context_def cache_valid_def load_schema_cache_def load_schema_metadata_def
      Let_def compute_edges_def load_integer_primary_key_columns_def split: if_splits)

lemma demo_delete_fields:
  "statement_kind demo_delete = Delete_Kind" "table_updated demo_delete = Some ''a''"
  by (simp_all add: demo_delete_def parse_statement_metadata_for_context_def parse_statement_metadata_def
      Let_def demo_delete_parses statement_kind_of_def target_table_name_def demo_target_def
      table_name_def written_tables_to_columns_def cascade_effects_for_metadata_def)

text \<open>
  C36. Whatever statement parses under a consistent schema cache (or without a schema), its
  metadata is well formed: kind and table are those of
  the tree, exactly the non-DML statements have no written table, an INSERT or DELETE
  writes all columns, the update map covers the statement's own columns and every recorded
  cascade write, only UPDATE and DELETE have cascade effects, and without them nothing but
  the statement's own write is in the map. Metadata of unsupported SQL is well formed too.
\<close>

theorem metadata_is_wellformed:
  assumes "\<forall>ctx. context = Some ctx \<longrightarrow> cache_valid (ctx_catalog ctx) (ctx_cache ctx)"
    and "parse_statement_metadata parse sql tc context = Inr m \<or>
      m = unsupported_statement_metadata sql"
  shows "metadata_wellformed m"
  using assms(2)
proof
  assume "m = unsupported_statement_metadata sql"
  then show ?thesis
    by (simp add: metadata_wellformed_def unsupported_statement_metadata_def unsupported_sql_def
        statement_kind_of_def target_table_name_def)
next
  assume parsed: "parse_statement_metadata parse sql tc context = Inr m"
  then obtain updated effects where
    f: "statement_kind m = statement_kind_of (parsed_sql_text m)"
      "table_updated m = target_table_name (parsed_sql_text m)"
      "columns_updated m = updated_columns (parsed_sql_text m)"
    and w: "written_tables_to_columns (statement_kind m) (table_updated m) (columns_updated m) = Inr updated"
    and e: "cascade_effects_for_metadata context (statement_kind m) (table_updated m) (columns_updated m) = Inr effects"
    and u: "updated_map m = (if has_effects effects then add_columns_by_table updated (effects_updated effects) else updated)"
      "referenced_map m =
        (if has_effects effects
         then add_columns_by_table (referenced_tables_to_columns (parsed_sql_text m) tc) (effects_referenced effects)
         else referenced_tables_to_columns (parsed_sql_text m) tc)"
      "cascade_write_events m = effects_write_events effects" "has_cascade_effects m = has_effects effects"
    by (rule parse_statement_metadata_Inr)
  note eff = effects_for_statement_wellformed [OF e]
  have fin: "finite (columns_updated m)" by (simp add: f updated_columns_def)
  then have ok: "column_map_ok updated" using w by (auto simp: written_tables_Inr column_map_ok_def dict_ok_def)
  have cov: "map_covers (updated_map m) t = map_covers updated t \<union> map_covers (effects_updated effects) t" for t
    using eff(1) by (auto simp: u has_effects_def map_covers_add_columns_by_table dest: column_map_ok_dict)
  have own: "t \<in> fst ` set (updated_map m) \<and> covers (columns_updated m) \<subseteq> map_covers (updated_map m) t"
    if "table_updated m = Some t" for t
  proof -
    have upd: "updated = [(t, columns_updated m)]" using w that by (auto simp: written_tables_Inr)
    then have "t \<in> fst ` set (updated_map m)"
      using dict_keys_add_columns [of t updated "effects_updated effects"] by (auto simp: u)
    moreover have "map_covers updated t = covers (columns_updated m)"
      by (simp add: upd map_covers_def dict_get_def)
    ultimately show ?thesis using cov by auto
  qed
  have "statement_kind m \<in> {Insert_Kind, Delete_Kind} \<longrightarrow> columns_updated m = {ALL_COLUMNS}"
    by (auto simp: f updated_columns_def statement_kind_of_def split: expression_class.splits)
  moreover have "statement_kind m = Other_Kind \<longleftrightarrow> table_updated m = None"
    using w by (auto simp: written_tables_Inr)
  moreover have "\<not> has_cascade_effects m \<longrightarrow> cascade_write_events m = []"
    using context_no_cascade_no_events [OF parsed assms(1)] by blast
  moreover have "\<not> has_cascade_effects m \<longrightarrow>
      updated_map m = (case table_updated m of None \<Rightarrow> [] | Some t \<Rightarrow> [(t, columns_updated m)])"
    using w by (auto simp: written_tables_Inr u)
  moreover have "event_ok event \<and>
      covers (event_columns event) \<subseteq> map_covers (updated_map m) (event_table event)"
    if "event \<in> set (cascade_write_events m)" for event
    using eff(3) [of event] that by (auto simp only: cov u(3))
  moreover have "column_map_ok (updated_map m)" "column_map_ok (referenced_map m)"
    using ok eff(1,2) by (simp_all add: u)
  moreover have "has_cascade_effects m \<longrightarrow> statement_kind m \<in> {Update_Kind, Delete_Kind}"
    using eff(4) by (simp add: u)
  ultimately show ?thesis
    unfolding metadata_wellformed_def using f(1,2) own fin by (intro conjI ballI allI impI) blast+
qed

theorem metadata_is_wellformed_witness: "metadata_wellformed demo_delete"
proof -
  have "\<forall>ctx. Some cascade_context = Some ctx \<longrightarrow> cache_valid (ctx_catalog ctx) (ctx_cache ctx)"
    using cascade_context_valid by simp
  from metadata_is_wellformed [OF this] show ?thesis
    using demo_delete_metadata [unfolded parse_statement_metadata_for_context_def] by blast
qed

lemma cascade_context_edges:
  "edges_by_parent cascade_context = [(''a'', [\<lparr>child_table = ''b'', child_columns = [''a_id''],
     parent_table = ''a'', parent_columns = [''id''], on_update = No_Action, on_delete = Cascade\<rparr>])]"
  by code_simp

theorem metadata_covers_schema_effects_witness:
  "map_covers (updated_map demo_delete) ''b'' = UNIV"
proof -
  let ?c = "\<lparr>event_table = ''b'', event_columns = {ALL_COLUMNS}, event_kind = Delete_Event\<rparr>"
  have "hidden_write (edges_by_parent cascade_context) (statement_event demo_delete ''a'') ?c"
    by (rule hidden_write.direct [where edge = "\<lparr>child_table = ''b'', child_columns = [''a_id''],
       parent_table = ''a'', parent_columns = [''id''], on_update = No_Action, on_delete = Cascade\<rparr>"])
      (simp_all add: edges_of_def cascade_context_edges statement_event_def demo_delete_fields dict_get_def
        child_of_def action_for_parent_event_def cascade_child_event_def)
  from metadata_covers_schema_effects [OF cascade_context_valid demo_delete_metadata _ _ this]
  show ?thesis by (auto simp: demo_delete_fields)
qed

section \<open>Aggregation\<close>

lemma dict_ok_update_columns: "dict_ok d \<Longrightarrow> dict_ok (update_columns d extra)"
  unfolding update_columns_def by (rule foldl_induct_inv) (auto split: prod.splits)

lemma map_covers_update_columns:
  "dict_ok extra \<Longrightarrow> map_covers (update_columns d extra) t = map_covers d t \<union> map_covers extra t"
proof (induction extra arbitrary: d)
  case Nil
  then show ?case by (simp add: update_columns_def)
next
  case (Cons p extra)
  obtain t1 c1 where p: "p = (t1, c1)" by (cases p)
  have ok: "dict_ok extra" and new: "t1 \<notin> fst ` set extra"
    using Cons.prems by (auto simp: dict_ok_def p)
  have step: "update_columns d ((t1, c1) # extra) = update_columns (dict_set t1 (dict_get d t1 {} \<union> c1) d) extra"
    by (simp add: update_columns_def)
  have "covers (dict_get d t1 {} \<union> c1) = map_covers d t1 \<union> covers c1"
    by (simp add: covers_union map_covers_def)
  then show ?case
    using map_covers_fresh [OF new] by (auto simp: p step Cons.IH [OF ok] map_covers_Cons [OF new])
qed

lemma keys_update_columns:
  "fst ` set (update_columns d extra) = fst ` set d \<union> fst ` set extra"
proof (induction extra arbitrary: d)
  case (Cons p extra)
  have "update_columns d (p # extra) = update_columns (dict_set (fst p) (dict_get d (fst p) {} \<union> snd p) d) extra"
    by (simp add: update_columns_def case_prod_beta)
  then show ?case using Cons by (auto simp: dom_update)
qed (simp add: update_columns_def)

lemma aggregate_map:
  assumes "\<forall>s \<in> set statements. dict_ok (f s)"
  shows "map_covers (foldl (\<lambda>d s. update_columns d (f s)) d statements) t =
      map_covers d t \<union> (\<Union>s \<in> set statements. map_covers (f s) t)"
    "dict_ok d \<Longrightarrow> dict_ok (foldl (\<lambda>d s. update_columns d (f s)) d statements)"
    "fst ` set (foldl (\<lambda>d s. update_columns d (f s)) d statements) =
      fst ` set d \<union> (\<Union>s \<in> set statements. fst ` set (f s))"
  using assms
  by (induction statements arbitrary: d)
    (auto simp: map_covers_update_columns dict_ok_update_columns keys_update_columns)

text \<open>
  Transaction metadata is the exact union of its statements': for every table it covers
  the columns some statement covers and no others, has an entry for the tables some
  statement has one for, lists all cascade events in order, and its flags say whether some
  statement is of the kind.
\<close>

lemma transaction_metadata_is_union:
  assumes "\<forall>s \<in> set statements. metadata_wellformed s"
  shows "map_covers (tm_updated_map (transaction_metadata statements)) t =
      (\<Union>s \<in> set statements. map_covers (updated_map s) t) \<and>
    map_covers (tm_referenced_map (transaction_metadata statements)) t =
      (\<Union>s \<in> set statements. map_covers (referenced_map s) t) \<and>
    (t \<in> fst ` set (tm_updated_map (transaction_metadata statements)) \<longleftrightarrow>
      (\<exists>s \<in> set statements. t \<in> fst ` set (updated_map s))) \<and>
    dict_ok (tm_updated_map (transaction_metadata statements)) \<and>
    dict_ok (tm_referenced_map (transaction_metadata statements)) \<and>
    tm_cascade_write_events (transaction_metadata statements) = concat (map cascade_write_events statements) \<and>
    tm_has_cascade_effects (transaction_metadata statements) = (\<exists>s \<in> set statements. has_cascade_effects s)"
proof -
  have ok: "\<forall>s \<in> set statements. dict_ok (updated_map s)" "\<forall>s \<in> set statements. dict_ok (referenced_map s)"
    using assms by (auto simp: metadata_wellformed_def)
  show ?thesis
    using aggregate_map [OF ok(1), of "[]"] aggregate_map [OF ok(2), of "[]"]
    by (auto simp: transaction_metadata_def list_ex_iff)
qed

lemma transaction_metadata_is_union_witness:
  "map_covers (tm_updated_map (transaction_metadata [unsupported_statement_metadata ''x''])) ''t'' = {}"
proof -
  have "metadata_wellformed (unsupported_statement_metadata ''x'')"
    by (simp add: metadata_wellformed_def unsupported_statement_metadata_def unsupported_sql_def
        statement_kind_of_def target_table_name_def)
  then show ?thesis
    using transaction_metadata_is_union [of "[unsupported_statement_metadata ''x'']" "''t''"]
    by (simp add: unsupported_statement_metadata_def)
qed

end
