(* ===== verification/Models.thy ===== *)
theory Models
  imports Sql_Metadata
begin

text \<open>
  The data model of the merge: \<open>src/merge/models.py\<close> and \<open>src/merge/conflict_kinds.py\<close>.
  Logged statements and transactions, conflicts and the conflict result that is grouped by
  kind in insertion order, and the labels shown to the user.
\<close>

datatype branch = Ours | Theirs

datatype conflict_scope = Pair_Scope | Ours_Scope | Theirs_Scope | Both_Scope

datatype conflict_kind =
    Write_Write | Write_Read | Implicit_Insert_Key | Integrity | Constraint_Resolution | Replay_Error

record logged_statement =
  ls_branch :: branch
  ls_branch_index :: int
  ls_transaction_id :: int
  ls_committed_at :: string
  ls_original_sql_text :: string
  to_replay_sql_text :: string
  is_replay_safe :: bool
  replay_block_reason :: "string option"
  ls_metadata :: statement_metadata
  replay_warnings :: "string list"
  accepted_replay_warnings :: "string set"

definition statement_sql_text :: "logged_statement \<Rightarrow> string" where
  "statement_sql_text statement = to_replay_sql_text statement"

record logged_transaction =
  lt_branch :: branch
  lt_branch_index :: int
  lt_transaction_id :: int
  lt_committed_at :: string
  lt_statements :: "logged_statement list"
  lt_metadata :: transaction_metadata

definition transaction_sql_text :: "logged_transaction \<Rightarrow> string" where
  "transaction_sql_text t = join_with ''; '' (map statement_sql_text (lt_statements t))"

definition transaction_original_sql_text :: "logged_transaction \<Rightarrow> string" where
  "transaction_original_sql_text t =
     join_with ('';'' @ [CHR 0x0A]) (map ls_original_sql_text (lt_statements t))"

record statement_conflict =
  conflict_kind :: conflict_kind
  conflict_message :: string
  conflict_scope :: conflict_scope
  conflict_details :: "(string \<times> string) list"

section \<open>Grouped conflict results\<close>

type_synonym check_result = "(conflict_kind, statement_conflict list) dict"

definition append_conflict :: "check_result \<Rightarrow> statement_conflict \<Rightarrow> check_result" where
  "append_conflict grouped conflict =
     dict_set (conflict_kind conflict) (dict_get grouped (conflict_kind conflict) [] @ [conflict]) grouped"

text \<open>The constructor, from a sequence of conflicts and from a mapping.\<close>

definition check_result_of :: "statement_conflict list \<Rightarrow> check_result" where
  "check_result_of conflicts = foldl append_conflict [] conflicts"

definition check_result_by_kind :: "(conflict_kind, statement_conflict list) dict \<Rightarrow> check_result" where
  "check_result_by_kind by_kind =
     foldl (\<lambda>grouped (kind, cs). if cs \<noteq> [] then dict_set kind cs grouped else grouped) [] by_kind"

definition conflicts :: "check_result \<Rightarrow> statement_conflict list" where
  "conflicts result = concat (map snd result)"

definition has_conflict :: "check_result \<Rightarrow> bool" where
  "has_conflict result \<longleftrightarrow> result \<noteq> []"

definition of_kind :: "check_result \<Rightarrow> conflict_kind \<Rightarrow> statement_conflict list" where
  "of_kind result kind = dict_get result kind []"

definition has_kind :: "check_result \<Rightarrow> conflict_kind \<Rightarrow> bool" where
  "has_kind result kind \<longleftrightarrow> map_of result kind \<noteq> None"

definition without_kind :: "check_result \<Rightarrow> conflict_kind \<Rightarrow> check_result" where
  "without_kind result kind = dict_pop kind result"

definition replace_kind ::
    "check_result \<Rightarrow> conflict_kind \<Rightarrow> statement_conflict list \<Rightarrow> check_result" where
  "replace_kind result kind cs =
     (let popped = dict_pop kind result in if cs \<noteq> [] then dict_set kind cs popped else popped)"

definition add_conflicts :: "check_result \<Rightarrow> statement_conflict list \<Rightarrow> check_result" where
  "add_conflicts result cs = foldl append_conflict result cs"

definition kind_enabled :: "conflict_kind set option \<Rightarrow> conflict_kind \<Rightarrow> bool" where
  "kind_enabled enabled_kinds kind \<longleftrightarrow>
     (case enabled_kinds of None \<Rightarrow> True | Some kinds \<Rightarrow> kind \<in> kinds)"

section \<open>Pairs of conflicting transactions\<close>

text \<open>
  The key of an accepted pair: identity, statement positions and SQL of both sides, and the
  conflicts seen. In \<open>models.py\<close> it is a tuple of objects, built in \<open>conflict_detection.py\<close>.
\<close>

record transaction_key =
  key_transaction_id :: int
  key_branch_indexes :: "int list"
  key_sql_texts :: "string list"

record resolution_key =
  key_ours :: transaction_key
  key_theirs :: transaction_key
  key_conflicts :: "(conflict_kind \<times> conflict_scope \<times> string) list"

record conflict_pair =
  pair_current_branch :: branch
  pair_other_index :: "nat option"
  pair_ours_sql :: string
  pair_theirs_sql :: string
  pair_conflicts :: "statement_conflict list"
  pair_resolution_key :: "resolution_key option"
  pair_is_standalone :: bool

text \<open>\<open>index_for_branch\<close>; \<open>None\<close> is the \<open>ValueError\<close> of a standalone conflict.\<close>

definition index_for_branch :: "conflict_pair \<Rightarrow> branch \<Rightarrow> nat option" where
  "index_for_branch pair branch =
     (if branch = pair_current_branch pair then Some 0 else pair_other_index pair)"

section \<open>Labels\<close>

text \<open>\<open>str(n)\<close> of a natural number.\<close>

fun decimal :: "nat \<Rightarrow> string" where
  "decimal n =
     (if n < 10 then [char_of (48 + n)] else decimal (n div 10) @ [char_of (48 + n mod 10)])"

declare decimal.simps [simp del]

definition statement_label :: "logged_statement \<Rightarrow> string" where
  "statement_label s =
     (if ls_branch_index s < 0
      then (if ls_branch s = Ours then ''LN'' else ''RN'') @ decimal (nat \<bar>ls_branch_index s\<bar>)
      else (if ls_branch s = Ours then ''L'' else ''R'') @ decimal (nat (ls_branch_index s + 1)))"

text \<open>\<open>str(n)\<close> of an integer, as the f-string of \<open>transaction_label\<close> prints it.\<close>

definition decimal_int :: "int \<Rightarrow> string" where
  "decimal_int n = (if n < 0 then ''-'' @ decimal (nat (- n)) else decimal (nat n))"

definition transaction_label :: "logged_transaction \<Rightarrow> string" where
  "transaction_label t =
     (if lt_branch t = Ours then ''L'' else ''R'') @ decimal_int (lt_branch_index t + 1)"

section \<open>The error of an inapplicable database\<close>

definition merge_not_applicable_message ::
    "string \<Rightarrow> string \<Rightarrow> string list \<Rightarrow> string option \<Rightarrow> string list \<Rightarrow> string" where
  "merge_not_applicable_message db_path role missing_tables reason details =
     (let reason_text = (case reason of
            None \<Rightarrow> ''is missing '' @ join_with '', '' missing_tables | Some r \<Rightarrow> r);
          detail_text = (if details = [] then [] else '': '' @ join_with ''; '' details)
      in role @ '' database is not applicable for log-based SQLite merge: '' @ db_path @ '' ''
           @ reason_text @ detail_text)"

section \<open>Facts the analyses use\<close>

definition result_ok :: "check_result \<Rightarrow> bool" where
  "result_ok result \<longleftrightarrow> dict_ok result \<and> (\<forall>(kind, cs) \<in> set result. cs \<noteq> [])"

lemma result_ok_lookup: "result_ok r \<Longrightarrow> map_of r k = Some cs \<Longrightarrow> cs \<noteq> []"
  by (auto simp: result_ok_def dest: map_of_SomeD)

lemma result_ok_Nil [simp, intro]: "result_ok []"
  by (simp add: result_ok_def)

lemma set_dict_set_items: "(k, v) \<in> set (dict_set k' v' d) \<Longrightarrow> (k, v) \<in> set d \<or> v = v'"
  by (induction d) (auto split: if_splits)

lemma result_ok_set [simp, intro]: "result_ok r \<Longrightarrow> cs \<noteq> [] \<Longrightarrow> result_ok (dict_set k cs r)"
  using set_dict_set_items by (fastforce simp: result_ok_def)

lemma result_ok_pop [simp, intro]: "result_ok r \<Longrightarrow> result_ok (dict_pop k r)"
  unfolding result_ok_def by (rule conjI, simp) (auto simp: AList.delete_eq)

lemma result_ok_append [simp, intro]: "result_ok r \<Longrightarrow> result_ok (append_conflict r c)"
  by (simp add: append_conflict_def)

lemma result_ok_add_conflicts [simp, intro]: "result_ok r \<Longrightarrow> result_ok (add_conflicts r cs)"
  unfolding add_conflicts_def by (rule foldl_induct_inv) auto

lemma of_kind_append [simp, result_simps]:
  "of_kind (append_conflict r c) k = of_kind r k @ (if conflict_kind c = k then [c] else [])"
  by (simp add: append_conflict_def of_kind_def)

lemma of_kind_add_conflicts [simp, result_simps]:
  "of_kind (add_conflicts r cs) k = of_kind r k @ filter (\<lambda>c. conflict_kind c = k) cs"
  by (induction cs arbitrary: r) (simp_all add: add_conflicts_def)

lemma of_kind_without [simp, result_simps]:
  "of_kind (without_kind r k) k' = (if k' = k then [] else of_kind r k')"
  by (simp add: of_kind_def without_kind_def dict_get_def)

lemma of_kind_replace [simp, result_simps]:
  "of_kind (replace_kind r k cs) k' = (if k' = k then cs else of_kind r k')"
  by (simp add: of_kind_def replace_kind_def dict_get_def Let_def)

lemma of_kind_Nil [simp, result_simps]: "of_kind [] k = []"
  by (simp add: of_kind_def)

lemma has_kind_of_kind: "result_ok r \<Longrightarrow> has_kind r k \<longleftrightarrow> of_kind r k \<noteq> []"
  by (auto simp: has_kind_def of_kind_def dict_get_def dest: result_ok_lookup split: option.splits)

lemma has_conflict_iff: "result_ok r \<Longrightarrow> has_conflict r \<longleftrightarrow> (\<exists>k. of_kind r k \<noteq> [])"
proof -
  assume ok: "result_ok r"
  have "has_conflict r \<longleftrightarrow> (\<exists>k. has_kind r k)"
    by (cases r) (auto simp: has_conflict_def has_kind_def)
  then show ?thesis using has_kind_of_kind [OF ok] by simp
qed

lemma set_conflicts:
  assumes "dict_ok r"
  shows "set (conflicts r) = (\<Union>k. set (of_kind r k))"
proof -
  have "(\<exists>k cs. (k, cs) \<in> set r \<and> c \<in> set cs) \<longleftrightarrow> (\<exists>k. c \<in> set (dict_get r k []))" for c
    unfolding dict_items_lookup [OF assms] dict_get_def
    by (metis empty_iff empty_set option.case_eq_if option.exhaust_sel option.sel option.simps(5))
  then show ?thesis by (force simp: conflicts_def of_kind_def)
qed

lemma has_conflict_conflicts: "result_ok r \<Longrightarrow> has_conflict r \<longleftrightarrow> conflicts r \<noteq> []"
  by (cases r) (auto simp: has_conflict_def conflicts_def result_ok_def)

end
