(* ===== verification/Models_Props.thy ===== *)
theory Models_Props
  imports Models
begin

text \<open>Grouped results behave like a map of lists, and labels identify statements.\<close>

text \<open>
  Grouped conflict results: every way to build one leaves no empty group, adding appends
  to the group of each conflict's kind and touches no other, replacing and removing a kind
  affect that kind only, and a result has a conflict exactly when one is listed.
\<close>

lemma check_result_operations:
  assumes "result_ok result"
  shows "result_ok (check_result_of cs) \<and> result_ok (check_result_by_kind result) \<and>
    check_result_by_kind result = result \<and>
    of_kind (check_result_of cs) kind = filter (\<lambda>c. conflict_kind c = kind) cs \<and>
    list_all result_ok [add_conflicts result cs, replace_kind result kind cs, without_kind result kind] \<and>
    of_kind (add_conflicts result cs) kind = of_kind result kind @ filter (\<lambda>c. conflict_kind c = kind) cs \<and>
    of_kind (replace_kind result kind cs) kind' = (if kind' = kind then cs else of_kind result kind') \<and>
    of_kind (without_kind result kind) kind' = (if kind' = kind then [] else of_kind result kind') \<and>
    (has_conflict result \<longleftrightarrow> conflicts result \<noteq> []) \<and>
    (has_kind result kind \<longleftrightarrow> (\<exists>c. c \<in> set (of_kind result kind))) \<and>
    set (conflicts result) = (\<Union>k. set (of_kind result k))"
proof -
  have new: "check_result_of cs = add_conflicts [] cs"
    by (simp add: check_result_of_def add_conflicts_def)
  have fresh: "k \<notin> fst ` set d \<Longrightarrow> dict_set k v d = d @ [(k, v)]" for k v and d :: check_result
    by (induction d) auto
  have copy: "foldl (\<lambda>grouped (kind, cs). if cs \<noteq> [] then dict_set kind cs grouped else grouped) d r = d @ r"
    if "result_ok (d @ r)" for d r :: check_result
    using that
  proof (induction r arbitrary: d)
    case (Cons p r)
    obtain k cs where p: "p = (k, cs)" by (cases p)
    have "cs \<noteq> []" "k \<notin> fst ` set d" using Cons.prems by (auto simp: p result_ok_def dict_ok_def)
    then show ?case using Cons.IH [of "d @ [p]"] Cons.prems fresh by (simp add: p)
  qed simp
  have "check_result_by_kind result = result"
    using copy [of "[]" result] assms by (simp add: check_result_by_kind_def)
  moreover have "result_ok (replace_kind result kind cs)" "result_ok (without_kind result kind)"
    using assms by (auto simp: replace_kind_def without_kind_def Let_def)
  moreover have "has_kind result kind \<longleftrightarrow> (\<exists>c. c \<in> set (of_kind result kind))"
    using has_kind_of_kind [OF assms] by (cases "of_kind result kind") auto
  ultimately show ?thesis
    using assms has_conflict_conflicts [OF assms] set_conflicts [of result]
    by (simp add: new) (simp add: result_ok_def)
qed

lemma check_result_operations_witness:
  "of_kind (add_conflicts (check_result_of [\<lparr>conflict_kind = Integrity, conflict_message = ''m'',
     conflict_scope = Pair_Scope, conflict_details = []\<rparr>]) []) Integrity \<noteq> []"
  using check_result_operations [of "check_result_of [\<lparr>conflict_kind = Integrity, conflict_message = ''m'',
     conflict_scope = Pair_Scope, conflict_details = []\<rparr>]" "[]" Integrity]
  by (simp add: check_result_of_def)

section \<open>Labels\<close>

definition undecimal :: "string \<Rightarrow> nat" where
  "undecimal s = foldl (\<lambda>a c. 10 * a + (of_char c - 48)) 0 s"

lemma of_char_digit: "d < 10 \<Longrightarrow> of_char (char_of (48 + d) :: char) = (48 + d :: nat)"
  by (simp add: of_char_of)

lemma undecimal_decimal: "undecimal (decimal n) = n"
proof (induction n rule: decimal.induct)
  case (1 n)
  then show ?case
    by (subst decimal.simps) (auto simp: undecimal_def of_char_of)
qed

lemma decimal_injective: "decimal m = decimal n \<longleftrightarrow> m = n"
  by (metis undecimal_decimal)

lemma decimal_digits: "decimal n \<noteq> [] \<and> (\<forall>c \<in> set (decimal n). is_digit c)"
proof (induction n rule: decimal.induct)
  case (1 n)
  then show ?case
    by (subst (1 2) decimal.simps) (auto simp: is_digit_def of_char_of Let_def)
qed

lemma decimal_not_letter: "decimal n \<noteq> c # s" if "\<not> is_digit c"
  using decimal_digits [of n] that by auto

lemma decimal_not_sign: "decimal n \<noteq> CHR ''N'' # s" "CHR ''N'' # s \<noteq> decimal n"
    "decimal n \<noteq> CHR ''-'' # s" "CHR ''-'' # s \<noteq> decimal n"
proof -
  have "\<not> is_digit (CHR ''N'')" "\<not> is_digit (CHR ''-'')" by (simp_all add: is_digit_def)
  then show "decimal n \<noteq> CHR ''N'' # s" "CHR ''N'' # s \<noteq> decimal n"
    "decimal n \<noteq> CHR ''-'' # s" "CHR ''-'' # s \<noteq> decimal n"
    using decimal_not_letter by metis+
qed

text \<open>
  Labels identify what they label: two statements carry the same label only when they
  are of the same branch and index, statements added during the merge (negative indexes)
  included; and likewise for transactions.
\<close>

lemma labels_identify:
  "(statement_label s = statement_label s' \<longleftrightarrow>
      ls_branch s = ls_branch s' \<and> ls_branch_index s = ls_branch_index s') \<and>
   (transaction_label t = transaction_label t' \<longleftrightarrow>
      lt_branch t = lt_branch t' \<and> lt_branch_index t = lt_branch_index t')"
proof
  show "statement_label s = statement_label s' \<longleftrightarrow>
      ls_branch s = ls_branch s' \<and> ls_branch_index s = ls_branch_index s'"
    by (cases "ls_branch s"; cases "ls_branch s'")
      (auto simp: statement_label_def decimal_injective decimal_not_sign nat_eq_iff)
  have "decimal_int m = decimal_int n \<longleftrightarrow> m = n" for m n
    by (auto simp: decimal_int_def decimal_injective decimal_not_sign)
  then show "transaction_label t = transaction_label t' \<longleftrightarrow>
      lt_branch t = lt_branch t' \<and> lt_branch_index t = lt_branch_index t'"
    by (cases "lt_branch t"; cases "lt_branch t'") (auto simp: transaction_label_def)
qed

end
