(* ===== verification/Static_Analysis.thy ===== *)
theory Static_Analysis
  imports Models
begin

text \<open>
  Pairwise static analysis: \<open>src/merge/static_analysis.py\<close>. From the metadata of two
  transactions to the conflicts their tables and columns allow: overlapping writes, writes
  read by the other side, hidden INTEGER PRIMARY KEY assignment, and constraints that only
  fail when both sides are replayed.
\<close>

definition CASCADE_CONFLICT_DETAIL :: "string \<times> string" where
  "CASCADE_CONFLICT_DETAIL = (''metadata_source'', ''cascade'')"

text \<open>
  The value of \<open>required_updated_table\<close>. Its assertion cannot fail on a DML statement whose
  metadata is well formed, which is what every caller below passes.
\<close>

definition written_table :: "statement_metadata \<Rightarrow> string" where
  "written_table metadata = (case table_updated metadata of Some t \<Rightarrow> t | None \<Rightarrow> [])"

lemma required_updated_table_wellformed:
  "table_updated m \<noteq> None \<Longrightarrow> required_updated_table m = Inr (written_table m)"
  by (auto simp: required_updated_table_def written_table_def)

section \<open>Writes and reads of one statement\<close>

definition same_written_table :: "statement_metadata \<Rightarrow> statement_metadata \<Rightarrow> bool" where
  "same_written_table left right \<longleftrightarrow>
     table_updated left \<noteq> None \<and> table_updated left = table_updated right"

definition metadata_write_overlap :: "statement_metadata \<Rightarrow> string \<Rightarrow> string set \<Rightarrow> string set" where
  "metadata_write_overlap metadata table columns =
     (if table_updated metadata \<noteq> Some table then {}
      else column_overlap (columns_updated metadata) columns)"

definition metadata_read_overlap :: "statement_metadata \<Rightarrow> string \<Rightarrow> string set \<Rightarrow> string set" where
  "metadata_read_overlap metadata table columns =
     column_overlap (dict_get (referenced_map metadata) table {}) columns"

definition columns_by_table_overlap :: "column_map \<Rightarrow> column_map \<Rightarrow> bool" where
  "columns_by_table_overlap left right =
     list_ex (\<lambda>(table, left_columns).
        case map_of right table of
          None \<Rightarrow> False
        | Some right_columns \<Rightarrow> column_overlap left_columns right_columns \<noteq> {}) left"

definition direct_write_write_overlap :: "statement_metadata \<Rightarrow> statement_metadata \<Rightarrow> bool" where
  "direct_write_write_overlap ours theirs =
     (if \<not> same_written_table ours theirs then False
      else if is_delete_statement ours \<and> is_delete_statement theirs then False
      else if is_insert_statement ours \<or> is_insert_statement theirs then False
      else metadata_write_overlap theirs (written_table ours) (columns_updated ours) \<noteq> {})"

definition metadata_write_write_overlap :: "statement_metadata \<Rightarrow> statement_metadata \<Rightarrow> bool" where
  "metadata_write_write_overlap ours theirs =
     (if direct_write_write_overlap ours theirs then True
      else if \<not> (has_cascade_effects ours \<or> has_cascade_effects theirs) then False
      else columns_by_table_overlap (updated_map ours) (updated_map theirs))"

definition metadata_reads_any :: "statement_metadata \<Rightarrow> column_map \<Rightarrow> bool" where
  "metadata_reads_any metadata columns_by_table =
     columns_by_table_overlap (referenced_map metadata) columns_by_table"

section \<open>Hidden INTEGER PRIMARY KEY assignment\<close>

definition context_integer_key :: "check_context \<Rightarrow> string \<Rightarrow> string option" where
  "context_integer_key ctx table =
     fst (integer_primary_key_lookup (ctx_catalog ctx) table (ctx_cache ctx))"

definition insert_explicit_columns :: "statement_metadata \<Rightarrow> string set" where
  "insert_explicit_columns metadata =
     (case parsed_target (parsed_sql_text metadata) of
        Schema_Target _ names \<Rightarrow> set (filter (\<lambda>n. n \<noteq> []) names)
      | _ \<Rightarrow> if statement_kind metadata = Insert_Kind then {ALL_COLUMNS} else {})"

definition omitted_integer_primary_key_column ::
    "check_context \<Rightarrow> statement_metadata \<Rightarrow> string option" where
  "omitted_integer_primary_key_column ctx metadata =
     (if \<not> is_insert_statement metadata then None
      else case context_integer_key ctx (written_table metadata) of
        None \<Rightarrow> None
      | Some key_column \<Rightarrow>
          (let explicit_columns = insert_explicit_columns metadata in
           if ALL_COLUMNS \<in> explicit_columns \<or> key_column \<in> explicit_columns then None
           else Some key_column))"

definition implicit_insert_key_conflict ::
    "string \<Rightarrow> string \<Rightarrow> string \<Rightarrow> string \<Rightarrow> statement_conflict" where
  "implicit_insert_key_conflict insert_label other_label table key_column =
     \<lparr>conflict_kind = Implicit_Insert_Key,
      conflict_message = insert_label @ '' INSERT omits '' @ table @ ''.'' @ key_column @ ''; ''
        @ other_label @ '' INSERT also omits the same key'',
      conflict_scope = Pair_Scope, conflict_details = []\<rparr>"

definition implicit_insert_key_update_conflict ::
    "string \<Rightarrow> statement_metadata \<Rightarrow> string \<Rightarrow> statement_metadata \<Rightarrow> string \<Rightarrow> statement_conflict option"
where
  "implicit_insert_key_update_conflict insert_label insert_stmt other_label other omitted_key =
     (if \<not> same_written_table insert_stmt other \<or> \<not> is_update_statement other then None
      else if metadata_write_overlap other (written_table insert_stmt) {omitted_key} = {} then None
      else Some
        \<lparr>conflict_kind = Implicit_Insert_Key,
         conflict_message = insert_label @ '' INSERT omits '' @ written_table insert_stmt @ ''.''
           @ omitted_key @ ''; '' @ other_label @ '' UPDATE assigns to the same key column'',
         conflict_scope = Pair_Scope, conflict_details = []\<rparr>)"

text \<open>One pass of the loop over the two directions: its conflicts, and whether it breaks.\<close>

definition implicit_insert_key_pass ::
    "check_context \<Rightarrow> string \<Rightarrow> statement_metadata \<Rightarrow> string \<Rightarrow> statement_metadata \<Rightarrow>
     statement_conflict list \<times> bool" where
  "implicit_insert_key_pass ctx insert_label insert_stmt other_label other =
     (case omitted_integer_primary_key_column ctx insert_stmt of
        None \<Rightarrow> ([], False)
      | Some omitted_key \<Rightarrow>
          if \<not> same_written_table insert_stmt other then ([], False)
          else if omitted_integer_primary_key_column ctx other \<noteq> None
          then ([implicit_insert_key_conflict insert_label other_label (written_table insert_stmt)
                   omitted_key], True)
          else (case implicit_insert_key_update_conflict insert_label insert_stmt other_label other
                  omitted_key of
                  None \<Rightarrow> []
                | Some conflict \<Rightarrow> [conflict], False))"

definition implicit_insert_key_conflicts ::
    "check_context \<Rightarrow> statement_metadata \<Rightarrow> statement_metadata \<Rightarrow> statement_conflict list" where
  "implicit_insert_key_conflicts ctx ours theirs =
     (case implicit_insert_key_pass ctx ''ours'' ours ''theirs'' theirs of
        (first, breaks) \<Rightarrow>
          if breaks then first
          else first @ fst (implicit_insert_key_pass ctx ''theirs'' theirs ''ours'' ours))"

definition transaction_implicit_insert_key_conflicts ::
    "check_context \<Rightarrow> transaction_metadata \<Rightarrow> transaction_metadata \<Rightarrow> statement_conflict list" where
  "transaction_implicit_insert_key_conflicts ctx ours theirs =
     concat (map (\<lambda>ours_statement.
       concat (map (implicit_insert_key_conflicts ctx ours_statement) (tm_statements theirs)))
     (tm_statements ours))"

section \<open>Overlap of two transactions\<close>

definition transaction_write_write_overlap :: "transaction_metadata \<Rightarrow> transaction_metadata \<Rightarrow> bool" where
  "transaction_write_write_overlap ours theirs =
     list_ex (\<lambda>ours_statement.
       list_ex (metadata_write_write_overlap ours_statement) (tm_statements theirs)) (tm_statements ours)"

definition transaction_write_read_overlap :: "transaction_metadata \<Rightarrow> transaction_metadata \<Rightarrow> bool" where
  "transaction_write_read_overlap writer reader =
     columns_by_table_overlap (tm_updated_map writer) (tm_referenced_map reader)"

definition write_write_candidate_pairs ::
    "transaction_metadata \<Rightarrow> transaction_metadata \<Rightarrow> (nat \<times> nat) list" where
  "write_write_candidate_pairs ours theirs =
     concat (map (\<lambda>(ours_index, ours_statement).
       List.map_filter (\<lambda>(theirs_index, theirs_statement).
         if metadata_write_write_overlap ours_statement theirs_statement
         then Some (ours_index, theirs_index) else None)
       (enumerate 0 (tm_statements theirs)))
     (enumerate 0 (tm_statements ours)))"

definition write_read_candidate_indexes ::
    "transaction_metadata \<Rightarrow> transaction_metadata \<Rightarrow> nat list" where
  "write_read_candidate_indexes writer reader =
     List.map_filter (\<lambda>(index, reader_statement).
       if metadata_reads_any reader_statement (tm_updated_map writer) then Some index else None)
     (enumerate 0 (tm_statements reader))"

section \<open>Constraints\<close>

definition statement_may_create_or_change_key ::
    "statement_metadata \<Rightarrow> string \<Rightarrow> string set \<Rightarrow> bool" where
  "statement_may_create_or_change_key metadata table keys =
     (if table_updated metadata \<noteq> Some table then False
      else if is_insert_statement metadata then True
      else if is_update_statement metadata then metadata_write_overlap metadata table keys \<noteq> {}
      else False)"

definition may_create_or_change_key ::
    "transaction_metadata \<Rightarrow> string \<Rightarrow> string set \<Rightarrow> bool" where
  "may_create_or_change_key metadata table keys \<longleftrightarrow>
     list_ex (\<lambda>s. statement_may_create_or_change_key s table keys) (tm_statements metadata) \<or>
     list_ex (\<lambda>e. cascade_event_may_create_or_change_key e table keys)
       (tm_cascade_write_events metadata)"

definition may_remove_or_change_key ::
    "transaction_metadata \<Rightarrow> string \<Rightarrow> string set \<Rightarrow> bool" where
  "may_remove_or_change_key metadata table keys \<longleftrightarrow>
     list_ex (\<lambda>s. table_updated s = Some table \<and>
        (is_delete_statement s \<or>
         is_update_statement s \<and> metadata_write_overlap s table keys \<noteq> {}))
       (tm_statements metadata) \<or>
     list_ex (\<lambda>e. cascade_event_may_remove_or_change_key e table keys)
       (tm_cascade_write_events metadata)"

definition key_column_sets_by_table :: "check_context \<Rightarrow> (string, string set list) dict" where
  "key_column_sets_by_table ctx = filter (\<lambda>(_, sets). sets \<noteq> []) (cache_key_sets (ctx_cache ctx))"

definition key_constraint_conflict_possible ::
    "check_context \<Rightarrow> transaction_metadata \<Rightarrow> transaction_metadata \<Rightarrow> bool" where
  "key_constraint_conflict_possible ctx first second =
     list_ex (\<lambda>(table, sets).
       list_ex (\<lambda>keys. may_create_or_change_key first table keys \<and>
          may_create_or_change_key second table keys) sets)
     (key_column_sets_by_table ctx)"

definition foreign_key_constraint_conflict_possible ::
    "check_context \<Rightarrow> transaction_metadata \<Rightarrow> transaction_metadata \<Rightarrow> bool" where
  "foreign_key_constraint_conflict_possible ctx first second =
     list_ex (\<lambda>(table, _).
       list_ex (\<lambda>edge.
          may_remove_or_change_key first (parent_table edge) (set (parent_columns edge)) \<and>
          may_create_or_change_key second (child_table edge) (set (child_columns edge)))
         (dict_get (edges_by_parent ctx) table []) \<or>
       list_ex (\<lambda>edge.
          may_create_or_change_key first (child_table edge) (set (child_columns edge)) \<and>
          may_remove_or_change_key second (parent_table edge) (set (parent_columns edge)))
         (dict_get (edges_by_child ctx) table []))
     (tm_updated_map first)"

definition constraint_conflict_possible ::
    "check_context \<Rightarrow> transaction_metadata \<Rightarrow> transaction_metadata \<Rightarrow> bool" where
  "constraint_conflict_possible ctx first second \<longleftrightarrow>
     key_constraint_conflict_possible ctx first second \<or>
     foreign_key_constraint_conflict_possible ctx first second"

section \<open>Conflicts\<close>

definition branch_name :: "branch \<Rightarrow> string" where
  "branch_name b = (case b of Ours \<Rightarrow> ''ours'' | Theirs \<Rightarrow> ''theirs'')"

definition branch_display_label :: "branch \<Rightarrow> string option \<Rightarrow> string option \<Rightarrow> string" where
  "branch_display_label branch ours_label theirs_label =
     (if branch = Ours then str_or ours_label ''local transaction''
      else str_or theirs_label ''remote transaction'')"

definition write_read_message :: "branch \<Rightarrow> branch \<Rightarrow> string option \<Rightarrow> string option \<Rightarrow> string" where
  "write_read_message writer reader ours_label theirs_label =
     branch_display_label writer ours_label theirs_label @ '' writes columns read by ''
       @ branch_display_label reader ours_label theirs_label"

definition cascade_conflict_details :: "bool \<Rightarrow> (string \<times> string) list" where
  "cascade_conflict_details has_cascade = (if has_cascade then [CASCADE_CONFLICT_DETAIL] else [])"

definition write_read_details :: "branch \<Rightarrow> branch \<Rightarrow> bool \<Rightarrow> (string \<times> string) list" where
  "write_read_details writer reader is_cascade =
     [(''writer'', branch_name writer), (''reader'', branch_name reader)]
       @ (if is_cascade then [CASCADE_CONFLICT_DETAIL] else [])"

definition write_read_conflict ::
    "branch \<Rightarrow> branch \<Rightarrow> string option \<Rightarrow> string option \<Rightarrow> bool \<Rightarrow> statement_conflict" where
  "write_read_conflict writer reader ours_label theirs_label has_cascade =
     \<lparr>conflict_kind = Write_Read,
      conflict_message = write_read_message writer reader ours_label theirs_label,
      conflict_scope = Pair_Scope,
      conflict_details = write_read_details writer reader has_cascade\<rparr>"

definition static_analysis_matching ::
    "check_context \<Rightarrow> transaction_metadata \<Rightarrow> transaction_metadata \<Rightarrow> conflict_kind set option \<Rightarrow>
     branch option \<Rightarrow> string option \<Rightarrow> string option \<Rightarrow> check_result" where
  "static_analysis_matching ctx ours theirs kinds current ours_label theirs_label =
     (let has_cascade = tm_has_cascade_effects ours \<or> tm_has_cascade_effects theirs;
          r0 = (if kind_enabled kinds Implicit_Insert_Key
                then add_conflicts [] (transaction_implicit_insert_key_conflicts ctx ours theirs)
                else []);
          r1 = (if kind_enabled kinds Write_Write \<and> transaction_write_write_overlap ours theirs
                then add_conflicts r0
                  [\<lparr>conflict_kind = Write_Write,
                    conflict_message = ''transactions write overlapping table columns'',
                    conflict_scope = Pair_Scope,
                    conflict_details = cascade_conflict_details has_cascade\<rparr>]
                else r0)
      in if \<not> kind_enabled kinds Write_Read then r1
         else
           let r2 = (if current \<in> {None, Some Ours} \<and> transaction_write_read_overlap ours theirs
                     then add_conflicts r1
                       [write_read_conflict Ours Theirs ours_label theirs_label has_cascade]
                     else r1)
           in if current \<in> {None, Some Theirs} \<and> transaction_write_read_overlap theirs ours
              then add_conflicts r2
                [write_read_conflict Theirs Ours ours_label theirs_label has_cascade]
              else r2)"

end
