(* ===== verification/Remaining_Metadata.thy ===== *)
theory Remaining_Metadata
  imports Static_Analysis
begin

text \<open>
  The index over the remaining transactions of a branch: \<open>src/merge/remaining_metadata.py\<close>.
  Per table and column it counts how many remaining statements read, write, create or
  remove; transactions are added and removed as the queue changes, and the index answers
  which pairwise checks the current transaction needs at all. Python sets are iterated in
  ascending order here; the counts do not depend on the order.
\<close>

type_synonym column_counts = "(string, int) dict"
type_synonym column_count_map = "(string, column_counts) dict"

record remaining_index =
  tables_referenced_to_column_counts :: column_count_map
  write_write_column_counts :: column_count_map
  create_or_change_key_column_counts :: column_count_map
  remove_or_change_key_column_counts :: column_count_map
  update_column_counts_of :: column_count_map
  omitted_integer_primary_key_counts :: column_count_map
  transaction_count :: int

definition empty_index :: remaining_index where
  "empty_index =
     \<lparr>tables_referenced_to_column_counts = [], write_write_column_counts = [],
      create_or_change_key_column_counts = [], remove_or_change_key_column_counts = [],
      update_column_counts_of = [], omitted_integer_primary_key_counts = [], transaction_count = 0\<rparr>"

section \<open>Counters\<close>

definition bump_column :: "int \<Rightarrow> column_counts \<Rightarrow> string \<Rightarrow> column_counts" where
  "bump_column delta table_counts column =
     (let next_count = dict_get table_counts column 0 + delta in
      if next_count \<le> 0 then dict_pop column table_counts
      else dict_set column next_count table_counts)"

definition update_column_counts ::
    "string \<Rightarrow> string set \<Rightarrow> int \<Rightarrow> column_count_map \<Rightarrow> column_count_map" where
  "update_column_counts table columns delta counts_by_table =
     (let by_table = dict_setdefault table [] counts_by_table;
          table_counts = foldl (bump_column delta) (dict_get counts_by_table table [])
            (sorted_list_of_set columns)
      in if table_counts = [] then dict_pop table by_table
         else dict_set table table_counts by_table)"

definition column_counter_overlap :: "column_count_map \<Rightarrow> string \<Rightarrow> string set \<Rightarrow> bool" where
  "column_counter_overlap counts_by_table table columns =
     (case map_of counts_by_table table of
        None \<Rightarrow> False
      | Some table_counts \<Rightarrow>
          if table_counts = [] \<or> columns = {} then False
          else if map_of table_counts ALL_COLUMNS \<noteq> None then True
          else if ALL_COLUMNS \<in> columns then table_counts \<noteq> []
          else (\<exists>column \<in> columns. map_of table_counts column \<noteq> None))"

definition column_sets_overlap_counter :: "column_map \<Rightarrow> column_count_map \<Rightarrow> bool" where
  "column_sets_overlap_counter columns_by_table counts_by_table =
     list_ex (\<lambda>(table, columns). column_counter_overlap counts_by_table table columns) columns_by_table"

section \<open>Adding and removing transactions\<close>

definition update_cascade_write_event :: "int \<Rightarrow> remaining_index \<Rightarrow> cascade_write_event \<Rightarrow> remaining_index"
where
  "update_cascade_write_event delta index event =
     (let bump = update_column_counts (event_table event) (event_columns event) delta;
          index1 = index
            \<lparr>write_write_column_counts := bump (write_write_column_counts index),
             remove_or_change_key_column_counts := bump (remove_or_change_key_column_counts index)\<rparr>
      in if event_kind event = Update_Event
         then index1
            \<lparr>create_or_change_key_column_counts := bump (create_or_change_key_column_counts index1),
             update_column_counts_of := bump (update_column_counts_of index1)\<rparr>
         else index1)"

definition update_own_write :: "int \<Rightarrow> remaining_index \<Rightarrow> statement_metadata \<Rightarrow> remaining_index" where
  "update_own_write delta index metadata =
     (let bump = update_column_counts (written_table metadata) (columns_updated metadata) delta in
      case statement_kind metadata of
        Insert_Kind \<Rightarrow> index
          \<lparr>create_or_change_key_column_counts := bump (create_or_change_key_column_counts index)\<rparr>
      | Update_Kind \<Rightarrow> index
          \<lparr>write_write_column_counts := bump (write_write_column_counts index),
           create_or_change_key_column_counts := bump (create_or_change_key_column_counts index),
           remove_or_change_key_column_counts := bump (remove_or_change_key_column_counts index),
           update_column_counts_of := bump (update_column_counts_of index)\<rparr>
      | Delete_Kind \<Rightarrow> index
          \<lparr>write_write_column_counts := bump (write_write_column_counts index),
           remove_or_change_key_column_counts := bump (remove_or_change_key_column_counts index)\<rparr>
      | Other_Kind \<Rightarrow> index)"

definition update_references :: "int \<Rightarrow> remaining_index \<Rightarrow> string \<times> string set \<Rightarrow> remaining_index" where
  "update_references delta index item =
     index\<lparr>tables_referenced_to_column_counts :=
       update_column_counts (fst item) (snd item) delta (tables_referenced_to_column_counts index)\<rparr>"

definition update_omitted_key ::
    "check_context \<Rightarrow> int \<Rightarrow> remaining_index \<Rightarrow> statement_metadata \<Rightarrow> remaining_index" where
  "update_omitted_key ctx delta index metadata =
     (if statement_kind metadata \<noteq> Insert_Kind then index
      else case omitted_integer_primary_key_column ctx metadata of
        None \<Rightarrow> index
      | Some omitted_key \<Rightarrow> index
          \<lparr>omitted_integer_primary_key_counts :=
             update_column_counts (written_table metadata) {omitted_key} delta
               (omitted_integer_primary_key_counts index)\<rparr>)"

definition update_statement ::
    "check_context \<Rightarrow> int \<Rightarrow> remaining_index \<Rightarrow> logged_statement \<Rightarrow> remaining_index" where
  "update_statement ctx delta index statement =
     (let metadata = ls_metadata statement;
          index1 = update_own_write delta index metadata;
          index2 = foldl (update_references delta) index1 (referenced_map metadata);
          index3 = foldl (update_cascade_write_event delta) index2 (cascade_write_events metadata)
      in update_omitted_key ctx delta index3 metadata)"

definition update_transaction ::
    "check_context \<Rightarrow> int \<Rightarrow> logged_transaction \<Rightarrow> remaining_index \<Rightarrow> remaining_index" where
  "update_transaction ctx delta transaction index =
     foldl (update_statement ctx delta) index (lt_statements transaction)"

definition add_transaction :: "check_context \<Rightarrow> logged_transaction \<Rightarrow> remaining_index \<Rightarrow> remaining_index" where
  "add_transaction ctx transaction index =
     (let index1 = update_transaction ctx 1 transaction index
      in index1\<lparr>transaction_count := transaction_count index1 + 1\<rparr>)"

definition remove_transaction :: "check_context \<Rightarrow> logged_transaction \<Rightarrow> remaining_index \<Rightarrow> remaining_index"
where
  "remove_transaction ctx transaction index =
     (let index1 = update_transaction ctx (- 1) transaction index
      in index1\<lparr>transaction_count := transaction_count index1 - 1\<rparr>)"

definition from_transactions :: "check_context \<Rightarrow> logged_transaction list \<Rightarrow> remaining_index" where
  "from_transactions ctx transactions = foldl (\<lambda>index t. add_transaction ctx t index) empty_index transactions"

definition index_is_empty :: "remaining_index \<Rightarrow> bool" where
  "index_is_empty index \<longleftrightarrow> transaction_count index = 0"

definition has_create_or_change_key :: "remaining_index \<Rightarrow> string \<Rightarrow> string set \<Rightarrow> bool" where
  "has_create_or_change_key index = column_counter_overlap (create_or_change_key_column_counts index)"

definition has_remove_or_change_key :: "remaining_index \<Rightarrow> string \<Rightarrow> string set \<Rightarrow> bool" where
  "has_remove_or_change_key index = column_counter_overlap (remove_or_change_key_column_counts index)"

definition has_update_write :: "remaining_index \<Rightarrow> string \<Rightarrow> string set \<Rightarrow> bool" where
  "has_update_write index = column_counter_overlap (update_column_counts_of index)"

definition has_omitted_integer_primary_key :: "remaining_index \<Rightarrow> string \<Rightarrow> string \<Rightarrow> bool" where
  "has_omitted_integer_primary_key index table column =
     column_counter_overlap (omitted_integer_primary_key_counts index) table {column}"

section \<open>Which checks the current transaction needs\<close>

definition statement_write_write_possible :: "remaining_index \<Rightarrow> statement_metadata \<Rightarrow> bool" where
  "statement_write_write_possible index metadata \<longleftrightarrow>
     statement_kind metadata = Update_Kind \<and>
       column_counter_overlap (write_write_column_counts index) (written_table metadata)
         (columns_updated metadata) \<or>
     statement_kind metadata = Delete_Kind \<and>
       column_counter_overlap (update_column_counts_of index) (written_table metadata) {ALL_COLUMNS} \<or>
     list_ex (\<lambda>event.
         event_kind event = Update_Event \<and>
           column_counter_overlap (write_write_column_counts index) (event_table event)
             (event_columns event) \<or>
         event_kind event = Delete_Event \<and>
           column_counter_overlap (update_column_counts_of index) (event_table event) {ALL_COLUMNS})
       (cascade_write_events metadata)"

definition write_write_conflict_possible :: "logged_transaction \<Rightarrow> remaining_index \<Rightarrow> bool" where
  "write_write_conflict_possible current index =
     list_ex (\<lambda>s. statement_write_write_possible index (ls_metadata s)) (lt_statements current)"

definition statement_implicit_key_possible ::
    "check_context \<Rightarrow> remaining_index \<Rightarrow> statement_metadata \<Rightarrow> bool" where
  "statement_implicit_key_possible ctx index metadata =
     (if statement_kind metadata = Update_Kind \<and>
         column_counter_overlap (omitted_integer_primary_key_counts index) (written_table metadata)
           (columns_updated metadata)
      then True
      else if statement_kind metadata \<noteq> Insert_Kind then False
      else if map_of (omitted_integer_primary_key_counts index) (written_table metadata) = None \<and>
              map_of (update_column_counts_of index) (written_table metadata) = None
      then False
      else case omitted_integer_primary_key_column ctx metadata of
        None \<Rightarrow> False
      | Some omitted_key \<Rightarrow>
          has_omitted_integer_primary_key index (written_table metadata) omitted_key \<or>
          has_update_write index (written_table metadata) {omitted_key})"

definition implicit_insert_key_conflict_possible ::
    "check_context \<Rightarrow> logged_transaction \<Rightarrow> remaining_index \<Rightarrow> bool" where
  "implicit_insert_key_conflict_possible ctx current index =
     list_ex (\<lambda>s. statement_implicit_key_possible ctx index (ls_metadata s)) (lt_statements current)"

definition key_constraint_conflict_possible_with_index ::
    "check_context \<Rightarrow> logged_transaction \<Rightarrow> remaining_index \<Rightarrow> bool" where
  "key_constraint_conflict_possible_with_index ctx current index =
     list_ex (\<lambda>(table, _).
       list_ex (\<lambda>keys. may_create_or_change_key (lt_metadata current) table keys \<and>
           has_create_or_change_key index table keys)
         (dict_get (cache_key_sets (ctx_cache ctx)) table []))
     (tm_updated_map (lt_metadata current))"

definition foreign_key_constraint_conflict_possible_with_index ::
    "check_context \<Rightarrow> logged_transaction \<Rightarrow> remaining_index \<Rightarrow> bool" where
  "foreign_key_constraint_conflict_possible_with_index ctx current index =
     list_ex (\<lambda>(table, _).
       list_ex (\<lambda>edge.
          may_remove_or_change_key (lt_metadata current) (parent_table edge) (set (parent_columns edge)) \<and>
          has_create_or_change_key index (child_table edge) (set (child_columns edge)))
         (dict_get (edges_by_parent ctx) table []) \<or>
       list_ex (\<lambda>edge.
          may_create_or_change_key (lt_metadata current) (child_table edge) (set (child_columns edge)) \<and>
          has_remove_or_change_key index (parent_table edge) (set (parent_columns edge)))
         (dict_get (edges_by_child ctx) table []))
     (tm_updated_map (lt_metadata current))"

definition constraint_conflict_possible_with_index ::
    "check_context \<Rightarrow> logged_transaction \<Rightarrow> remaining_index \<Rightarrow> bool" where
  "constraint_conflict_possible_with_index ctx current index \<longleftrightarrow>
     key_constraint_conflict_possible_with_index ctx current index \<or>
     foreign_key_constraint_conflict_possible_with_index ctx current index"

definition remaining_individual_check_kinds ::
    "check_context \<Rightarrow> logged_transaction \<Rightarrow> remaining_index \<Rightarrow> conflict_kind set" where
  "remaining_individual_check_kinds ctx current index =
     (if index_is_empty index then {}
      else (if write_write_conflict_possible current index then {Write_Write} else {})
         \<union> (if column_sets_overlap_counter (tm_updated_map (lt_metadata current))
                 (tables_referenced_to_column_counts index)
            then {Write_Read} else {})
         \<union> (if implicit_insert_key_conflict_possible ctx current index then {Implicit_Insert_Key} else {})
         \<union> (if constraint_conflict_possible_with_index ctx current index then {Integrity} else {}))"

end
