(* ===== verification/Remaining_Metadata_Props.thy ===== *)
theory Remaining_Metadata_Props
  imports Remaining_Metadata Sql_Metadata_Props
begin

text \<open>
  The index of remaining transactions is exact: whatever was added and removed, its counts
  are those of the transactions that are left. From that, what the index filter answers is
  compared with pairwise analysis.
\<close>

section \<open>Counters\<close>

definition count_at :: "column_count_map \<Rightarrow> string \<Rightarrow> string \<Rightarrow> int" where
  "count_at m table column = dict_get (dict_get m table []) column 0"

definition columns_ok :: "column_counts \<Rightarrow> bool" where
  "columns_ok tc \<longleftrightarrow> dict_ok tc \<and> (\<forall>(c, n) \<in> set tc. 0 < n)"

definition counts_ok :: "column_count_map \<Rightarrow> bool" where
  "counts_ok m \<longleftrightarrow> dict_ok m \<and> (\<forall>(t, tc) \<in> set m. tc \<noteq> [] \<and> columns_ok tc)"

lemma columns_ok_Nil [simp]: "columns_ok []"
  by (simp add: columns_ok_def)

lemma counts_ok_Nil [simp]: "counts_ok []"
  by (simp add: counts_ok_def)

lemma dict_set_item: "(k, v) \<in> set (dict_set k' v' d) \<Longrightarrow> (k, v) \<in> set d \<or> (k = k' \<and> v = v')"
  by (induction d) (auto split: if_splits)

lemma dict_pop_item: "(k, v) \<in> set (dict_pop k' d) \<Longrightarrow> (k, v) \<in> set d"
  by (auto simp: AList.delete_eq)

lemma columns_ok_bump: "columns_ok tc \<Longrightarrow> columns_ok (bump_column d tc c)"
  unfolding columns_ok_def bump_column_def Let_def
  by (auto dest: dict_set_item dict_pop_item)

lemma columns_ok_nonneg: "columns_ok tc \<Longrightarrow> 0 \<le> dict_get tc c 0"
  by (auto simp: columns_ok_def dict_get_def dest!: map_of_SomeD split: option.splits)

lemma columns_ok_positive: "columns_ok tc \<Longrightarrow> map_of tc c \<noteq> None \<longleftrightarrow> 0 < dict_get tc c 0"
  by (auto simp: columns_ok_def dict_get_def dest!: map_of_SomeD split: option.splits)

lemma bump_column_get:
  "columns_ok tc \<Longrightarrow> dict_get (bump_column d tc c) c' 0 =
     (if c' = c then max 0 (dict_get tc c 0 + d) else dict_get tc c' 0)"
  by (auto simp: bump_column_def Let_def dict_get_def max_def)

lemma bump_columns_get:
  "columns_ok tc \<Longrightarrow> distinct cs \<Longrightarrow>
     columns_ok (foldl (bump_column d) tc cs) \<and>
     dict_get (foldl (bump_column d) tc cs) c 0 =
       (if c \<in> set cs then max 0 (dict_get tc c 0 + d) else dict_get tc c 0)"
  by (induction cs arbitrary: tc) (auto simp: columns_ok_bump bump_column_get)

lemma counts_ok_get: "counts_ok m \<Longrightarrow> columns_ok (dict_get m t [])"
  by (auto simp: counts_ok_def dict_get_def dest!: map_of_SomeD split: option.splits)

lemma counts_ok_set: "counts_ok m \<Longrightarrow> tc \<noteq> [] \<Longrightarrow> columns_ok tc \<Longrightarrow> counts_ok (dict_set t tc m)"
  unfolding counts_ok_def by (auto dest: dict_set_item)

lemma dict_set_setdefault: "dict_ok m \<Longrightarrow> dict_set t v (dict_setdefault t w m) = dict_set t v m"
proof -
  have "map_of d t = None \<Longrightarrow> dict_set t v (d @ [(t, w)]) = dict_set t v d" for d
    by (induction d) (auto split: if_splits)
  then show ?thesis by (auto simp: dict_setdefault_def split: option.splits)
qed

lemma dict_pop_setdefault: "dict_pop t (dict_setdefault t w m) = dict_pop t m"
  by (auto simp: dict_setdefault_def AList.delete_eq split: option.splits)

lemma update_column_counts_correct:
  assumes "counts_ok m" "finite columns"
  shows "counts_ok (update_column_counts t columns d m) \<and>
    count_at (update_column_counts t columns d m) t' c =
      (if t' = t \<and> c \<in> columns then max 0 (count_at m t c + d) else count_at m t' c)"
proof -
  let ?tc = "foldl (bump_column d) (dict_get m t []) (sorted_list_of_set columns)"
  have ok: "dict_ok m" using assms(1) by (simp add: counts_ok_def)
  have tc: "columns_ok ?tc \<and> dict_get ?tc c 0 =
      (if c \<in> columns then max 0 (dict_get (dict_get m t []) c 0 + d) else dict_get (dict_get m t []) c 0)" for c
    using bump_columns_get [OF counts_ok_get [OF assms(1), of t], of "sorted_list_of_set columns" d c] assms(2)
    by simp
  have eq: "update_column_counts t columns d m = (if ?tc = [] then dict_pop t m else dict_set t ?tc m)"
    by (simp add: update_column_counts_def Let_def dict_set_setdefault [OF ok] dict_pop_setdefault)
  have pop: "counts_ok (dict_pop t m)"
    using assms(1) unfolding counts_ok_def by (auto dest: dict_pop_item)
  have get: "dict_get (if ?tc = [] then dict_pop t m else dict_set t ?tc m) t' [] =
      (if t' = t then ?tc else dict_get m t' [])"
    by (simp add: dict_get_def)
  have "counts_ok (update_column_counts t columns d m)"
    using tc pop counts_ok_set [OF assms(1), of ?tc t] by (simp add: eq)
  then show ?thesis using tc by (simp add: count_at_def eq get)
qed

definition counted :: "column_count_map \<Rightarrow> string \<Rightarrow> string set" where
  "counted m t = {c. 0 < count_at m t c}"

lemma column_counter_overlap_iff:
  assumes "counts_ok m"
  shows "column_counter_overlap m t columns \<longleftrightarrow> covers (counted m t) \<inter> covers columns \<noteq> {}"
proof (cases "map_of m t")
  case None
  then show ?thesis by (simp add: column_counter_overlap_def counted_def count_at_def dict_get_def)
next
  case (Some tc)
  then have tc: "tc \<noteq> []" "columns_ok tc" using assms by (auto simp: counts_ok_def dest: map_of_SomeD)
  have mem: "map_of tc c \<noteq> None \<longleftrightarrow> c \<in> counted m t" for c
    using columns_ok_positive [OF tc(2)] Some by (simp add: counted_def count_at_def dict_get_def)
  obtain p where "p \<in> set tc" using tc(1) by (cases tc) auto
  then have "map_of tc (fst p) \<noteq> None" by (metis weak_map_of_SomeI option.distinct(1) prod.collapse)
  then have ne: "counted m t \<noteq> {}" using mem by blast
  show ?thesis
  proof (cases "columns = {}")
    case True
    then show ?thesis using Some by (simp add: column_counter_overlap_def)
  next
    case False
    have "column_counter_overlap m t columns \<longleftrightarrow>
        ALL_COLUMNS \<in> counted m t \<or> ALL_COLUMNS \<in> columns \<or> (\<exists>c \<in> columns. c \<in> counted m t)"
      using Some tc(1) False unfolding column_counter_overlap_def mem [symmetric] by simp
    then show ?thesis using ne False by (auto simp: covers_def)
  qed
qed

section \<open>Lists of updates\<close>

definition apply_updates ::
    "int \<Rightarrow> (string \<times> string set) list \<Rightarrow> column_count_map \<Rightarrow> column_count_map" where
  "apply_updates d ops m = foldl (\<lambda>m (t, cs). update_column_counts t cs d m) m ops"

definition updates_weight :: "(string \<times> string set) list \<Rightarrow> string \<Rightarrow> string \<Rightarrow> int" where
  "updates_weight ops t c = int (length (filter (\<lambda>(t', cs). t' = t \<and> c \<in> cs) ops))"

lemma apply_updates_simps [simp]:
  "apply_updates d [] m = m"
  "apply_updates d ((t, cs) # ops) m = apply_updates d ops (update_column_counts t cs d m)"
  "apply_updates d (ops @ ops') m = apply_updates d ops' (apply_updates d ops m)"
  by (simp_all add: apply_updates_def)

lemma updates_weight_simps [simp]:
  "updates_weight [] t c = 0"
  "updates_weight ((t', cs) # ops) t c = (if t' = t \<and> c \<in> cs then 1 else 0) + updates_weight ops t c"
  "updates_weight (ops @ ops') t c = updates_weight ops t c + updates_weight ops' t c"
  by (simp_all add: updates_weight_def)

lemma updates_weight_nonneg [simp]: "0 \<le> updates_weight ops t c"
  by (simp add: updates_weight_def)

lemma updates_weight_positive: "0 < updates_weight ops t c \<longleftrightarrow> (\<exists>cs. (t, cs) \<in> set ops \<and> c \<in> cs)"
  by (induction ops) (auto, (smt (verit) updates_weight_nonneg)+)

lemma count_at_nonneg: "counts_ok m \<Longrightarrow> 0 \<le> count_at m t c"
  by (simp add: count_at_def columns_ok_nonneg counts_ok_get)

lemma apply_updates_add:
  "counts_ok m \<Longrightarrow> \<forall>(t, cs) \<in> set ops. finite cs \<Longrightarrow>
     counts_ok (apply_updates 1 ops m) \<and>
     count_at (apply_updates 1 ops m) t c = count_at m t c + updates_weight ops t c"
proof (induction ops arbitrary: m)
  case (Cons op ops)
  obtain t' cs where op: "op = (t', cs)" by (cases op)
  have fin: "finite cs" using Cons.prems by (simp add: op)
  show ?case
    using Cons.IH [of "update_column_counts t' cs 1 m"] Cons.prems
      update_column_counts_correct [OF Cons.prems(1) fin, of t' 1 t c]
      count_at_nonneg [OF Cons.prems(1), of t c]
    by (auto simp: op)
qed simp

lemma apply_updates_remove:
  "counts_ok m \<Longrightarrow> \<forall>(t, cs) \<in> set ops. finite cs \<Longrightarrow> \<forall>t c. updates_weight ops t c \<le> count_at m t c \<Longrightarrow>
     counts_ok (apply_updates (- 1) ops m) \<and>
     count_at (apply_updates (- 1) ops m) t c = count_at m t c - updates_weight ops t c"
proof (induction ops arbitrary: m)
  case (Cons op ops)
  obtain t' cs where op: "op = (t', cs)" by (cases op)
  have fin: "finite cs" using Cons.prems by (simp add: op)
  let ?m = "update_column_counts t' cs (- 1) m"
  note upd = update_column_counts_correct [OF Cons.prems(1) fin, of t' "- 1"]
  have le: "updates_weight ops a b \<le> count_at m a b - (if t' = a \<and> b \<in> cs then 1 else 0)" for a b
    using Cons.prems(3) [rule_format, of a b] by (simp add: op)
  have step: "count_at ?m a b = count_at m a b - (if t' = a \<and> b \<in> cs then 1 else 0)" for a b
  proof (cases "t' = a \<and> b \<in> cs")
    case True
    then have "updates_weight ops a b \<le> count_at m a b - 1" using le [of a b] by simp
    then have "1 \<le> count_at m a b" using updates_weight_nonneg [of ops a b] by linarith
    then show ?thesis using upd [of a b] True by simp
  qed (use upd [of a b] in auto)
  have "counts_ok ?m" using upd by simp
  moreover have "\<forall>t c. updates_weight ops t c \<le> count_at ?m t c" using le step by simp
  ultimately show ?case
    using Cons.IH [of ?m] Cons.prems(2) step [of t c] by (simp add: op)
qed simp

section \<open>What one statement contributes\<close>

datatype counter = Referenced_C | Write_Write_C | Create_C | Remove_C | Update_C | Omitted_C

fun counter_of :: "counter \<Rightarrow> remaining_index \<Rightarrow> column_count_map" where
  "counter_of Referenced_C i = tables_referenced_to_column_counts i"
| "counter_of Write_Write_C i = write_write_column_counts i"
| "counter_of Create_C i = create_or_change_key_column_counts i"
| "counter_of Remove_C i = remove_or_change_key_column_counts i"
| "counter_of Update_C i = update_column_counts_of i"
| "counter_of Omitted_C i = omitted_integer_primary_key_counts i"

fun own_counters :: "statement_kind \<Rightarrow> counter set" where
  "own_counters Insert_Kind = {Create_C}"
| "own_counters Update_Kind = {Write_Write_C, Create_C, Remove_C, Update_C}"
| "own_counters Delete_Kind = {Write_Write_C, Remove_C}"
| "own_counters Other_Kind = {}"

fun event_counters :: "cascade_event_kind \<Rightarrow> counter set" where
  "event_counters Update_Event = {Write_Write_C, Create_C, Remove_C, Update_C}"
| "event_counters Delete_Event = {Write_Write_C, Remove_C}"

definition omitted_updates :: "check_context \<Rightarrow> statement_metadata \<Rightarrow> (string \<times> string set) list" where
  "omitted_updates ctx m =
     (if statement_kind m \<noteq> Insert_Kind then []
      else case omitted_integer_primary_key_column ctx m of
        None \<Rightarrow> [] | Some key \<Rightarrow> [(written_table m, {key})])"

definition event_updates :: "counter \<Rightarrow> cascade_write_event list \<Rightarrow> (string \<times> string set) list" where
  "event_updates k events =
     map (\<lambda>e. (event_table e, event_columns e)) (filter (\<lambda>e. k \<in> event_counters (event_kind e)) events)"

definition contributions ::
    "check_context \<Rightarrow> counter \<Rightarrow> statement_metadata \<Rightarrow> (string \<times> string set) list" where
  "contributions ctx k m =
     (if k \<in> own_counters (statement_kind m) then [(written_table m, columns_updated m)] else [])
     @ (if k = Referenced_C then referenced_map m else [])
     @ event_updates k (cascade_write_events m)
     @ (if k = Omitted_C then omitted_updates ctx m else [])"

lemma counter_of_own:
  "counter_of k (update_own_write d i m) =
     apply_updates d (if k \<in> own_counters (statement_kind m) then [(written_table m, columns_updated m)] else [])
       (counter_of k i)"
  by (cases "statement_kind m"; cases k) (simp_all add: update_own_write_def Let_def)

lemma counter_of_references:
  "counter_of k (foldl (update_references d) i items) =
     apply_updates d (if k = Referenced_C then items else []) (counter_of k i)"
proof (induction items arbitrary: i)
  case (Cons item items)
  then show ?case by (cases item; cases k) (simp_all add: update_references_def)
qed simp

lemma counter_of_event:
  "counter_of k (update_cascade_write_event d i e) =
     apply_updates d (event_updates k [e]) (counter_of k i)"
  by (cases "event_kind e"; cases k)
    (simp_all add: update_cascade_write_event_def Let_def event_updates_def)

lemma counter_of_events:
  "counter_of k (foldl (update_cascade_write_event d) i events) =
     apply_updates d (event_updates k events) (counter_of k i)"
proof (induction events arbitrary: i)
  case (Cons e events)
  have "event_updates k (e # events) = event_updates k [e] @ event_updates k events"
    by (simp add: event_updates_def)
  then show ?case by (simp add: Cons counter_of_event)
qed (simp add: event_updates_def)

lemma counter_of_omitted:
  "counter_of k (update_omitted_key ctx d i m) =
     apply_updates d (if k = Omitted_C then omitted_updates ctx m else []) (counter_of k i)"
  by (cases k) (simp_all add: update_omitted_key_def omitted_updates_def split: option.splits)

lemma counter_of_statement:
  "counter_of k (update_statement ctx d i s) =
     apply_updates d (contributions ctx k (ls_metadata s)) (counter_of k i)"
  by (simp add: update_statement_def Let_def counter_of_omitted counter_of_events counter_of_references
      counter_of_own contributions_def)

definition transaction_contributions ::
    "check_context \<Rightarrow> counter \<Rightarrow> logged_transaction \<Rightarrow> (string \<times> string set) list" where
  "transaction_contributions ctx k t = concat (map (\<lambda>s. contributions ctx k (ls_metadata s)) (lt_statements t))"

lemma counter_of_transaction:
  "counter_of k (update_transaction ctx d t i) =
     apply_updates d (transaction_contributions ctx k t) (counter_of k i)"
proof -
  have "counter_of k (foldl (update_statement ctx d) i ss) =
      apply_updates d (concat (map (\<lambda>s. contributions ctx k (ls_metadata s)) ss)) (counter_of k i)" for ss
    by (induction ss arbitrary: i) (simp_all add: counter_of_statement)
  then show ?thesis by (simp add: update_transaction_def transaction_contributions_def)
qed

lemma transaction_count_update [simp]:
  "transaction_count (update_transaction ctx d t i) = transaction_count i"
proof -
  have [simp]: "transaction_count (update_own_write d i m) = transaction_count i" for i m
    by (cases "statement_kind m") (simp_all add: update_own_write_def Let_def)
  have [simp]: "transaction_count (foldl (update_references d) i items) = transaction_count i" for i items
    by (induction items arbitrary: i) (simp_all add: update_references_def)
  have [simp]: "transaction_count (foldl (update_cascade_write_event d) i events) = transaction_count i" for i events
    by (induction events arbitrary: i) (simp_all add: update_cascade_write_event_def Let_def)
  have [simp]: "transaction_count (update_omitted_key ctx d i m) = transaction_count i" for i m
    by (simp add: update_omitted_key_def split: option.splits)
  have "transaction_count (foldl (update_statement ctx d) i ss) = transaction_count i" for ss
    by (induction ss arbitrary: i) (simp_all add: update_statement_def Let_def)
  then show ?thesis by (simp add: update_transaction_def)
qed

section \<open>The interface of a counting index\<close>

text \<open>
  What the merge loop needs of an index over a queue: adding and removing an element changes
  every count by the element's weight, provided the element was counted. Then an index that
  started empty stands for the multiset of what was added and not yet removed, whatever the
  order of the operations.
\<close>

locale counting_index =
  fixes add remove :: "'t \<Rightarrow> 'i \<Rightarrow> 'i"
    and empty_i :: 'i
    and weight :: "'t \<Rightarrow> 'k \<Rightarrow> int"
    and cnt :: "'i \<Rightarrow> 'k \<Rightarrow> int"
    and ok :: "'i \<Rightarrow> bool"
    and good :: "'t \<Rightarrow> bool"
  assumes weight_nonneg: "0 \<le> weight t k"
    and ok_empty: "ok empty_i" and cnt_empty: "cnt empty_i k = 0"
    and add_law: "good t \<Longrightarrow> ok i \<Longrightarrow> ok (add t i) \<and> cnt (add t i) k = cnt i k + weight t k"
    and remove_law: "good t \<Longrightarrow> ok i \<Longrightarrow> \<forall>k. weight t k \<le> cnt i k \<Longrightarrow>
      ok (remove t i) \<and> cnt (remove t i) k = cnt i k - weight t k"
begin

lemma add_represents:
  assumes "ok i" "\<forall>k. cnt i k = (\<Sum>t\<in>#M. weight t k)" "good t"
  shows "ok (add t i) \<and> (\<forall>k. cnt (add t i) k = (\<Sum>t\<in>#add_mset t M. weight t k))"
  using add_law [OF assms(3,1)] assms(2) by simp

lemma remove_represents:
  assumes "ok i" "\<forall>k. cnt i k = (\<Sum>t\<in>#M. weight t k)" "good t" "t \<in># M"
  shows "ok (remove t i) \<and> (\<forall>k. cnt (remove t i) k = (\<Sum>t\<in>#M - {#t#}. weight t k))"
proof -
  obtain N where M: "M = add_mset t N" using assms(4) by (metis mset_add)
  have "0 \<le> (\<Sum>t\<in>#N. weight t k)" for k
    by (induction N) (auto simp: weight_nonneg)
  then have "\<forall>k. weight t k \<le> cnt i k" using assms(2) by (simp add: M)
  from remove_law [OF assms(3,1) this] assms(2) show ?thesis by (simp add: M)
qed

lemma list_represents:
  "\<forall>t \<in> set ts. good t \<Longrightarrow> ok i \<Longrightarrow> \<forall>k. cnt i k = (\<Sum>t\<in>#M. weight t k) \<Longrightarrow>
     ok (foldl (\<lambda>i t. add t i) i ts) \<and>
     (\<forall>k. cnt (foldl (\<lambda>i t. add t i) i ts) k = (\<Sum>t\<in>#M + mset ts. weight t k))"
proof (induction ts arbitrary: i M)
  case (Cons t ts)
  then show ?case using Cons.IH [of "add t i" "add_mset t M"] add_represents [of i M t] by simp
qed simp

end

text \<open>The transactions of a run: every statement's metadata is well formed, and the
  transaction's own metadata aggregates them.\<close>

definition transaction_wellformed :: "logged_transaction \<Rightarrow> bool" where
  "transaction_wellformed t \<longleftrightarrow>
     (\<forall>s \<in> set (lt_statements t). metadata_wellformed (ls_metadata s)) \<and>
     lt_metadata t = transaction_metadata (map ls_metadata (lt_statements t))"

lemma contributions_finite:
  assumes "metadata_wellformed m"
  shows "\<forall>(t, cs) \<in> set (contributions ctx k m). finite cs"
  using assms
  by (auto simp: contributions_def metadata_wellformed_def event_ok_def event_updates_def omitted_updates_def
      dest: column_map_ok_item split: option.splits if_splits)

lemma transaction_contributions_finite:
  "transaction_wellformed t \<Longrightarrow> \<forall>(t', cs) \<in> set (transaction_contributions ctx k t). finite cs"
  using contributions_finite by (fastforce simp: transaction_contributions_def transaction_wellformed_def)

text \<open>The counts of an index, with the number of transactions as one more.\<close>

fun index_count :: "remaining_index \<Rightarrow> (counter \<times> string \<times> string) option \<Rightarrow> int" where
  "index_count i None = transaction_count i"
| "index_count i (Some (k, t, c)) = count_at (counter_of k i) t c"

fun transaction_weight ::
    "check_context \<Rightarrow> logged_transaction \<Rightarrow> (counter \<times> string \<times> string) option \<Rightarrow> int" where
  "transaction_weight ctx t None = 1"
| "transaction_weight ctx t (Some (k, table, c)) = updates_weight (transaction_contributions ctx k t) table c"

definition index_ok :: "remaining_index \<Rightarrow> bool" where
  "index_ok i \<longleftrightarrow> (\<forall>k. counts_ok (counter_of k i))"

lemma counter_of_count_update [simp]:
  "counter_of k (i\<lparr>transaction_count := n\<rparr>) = counter_of k i"
  by (cases k) simp_all

lemma counter_of_empty [simp]: "counter_of k empty_index = []"
  by (cases k) (simp_all add: empty_index_def)

lemma transaction_count_empty [simp]: "transaction_count empty_index = 0"
  by (simp add: empty_index_def)

interpretation remaining: counting_index "add_transaction ctx" "remove_transaction ctx" empty_index
    "transaction_weight ctx" index_count index_ok transaction_wellformed for ctx
proof unfold_locales
  fix t k show "0 \<le> transaction_weight ctx t k" by (cases "(ctx, t, k)" rule: transaction_weight.cases) auto
next
  show "index_ok empty_index" by (simp add: index_ok_def)
next
  fix k show "index_count empty_index k = 0"
    by (cases "(empty_index, k)" rule: index_count.cases) (auto simp: count_at_def)
next
  fix t i k assume t: "transaction_wellformed t" and i: "index_ok i"
  show "index_ok (add_transaction ctx t i) \<and>
      index_count (add_transaction ctx t i) k = index_count i k + transaction_weight ctx t k"
    using apply_updates_add transaction_contributions_finite [OF t] i
    by (cases "(i, k)" rule: index_count.cases)
      (simp_all add: index_ok_def add_transaction_def Let_def counter_of_transaction)
next
  fix t i k assume t: "transaction_wellformed t" and i: "index_ok i"
    and le: "\<forall>k. transaction_weight ctx t k \<le> index_count i k"
  have "\<forall>a b. updates_weight (transaction_contributions ctx k t) a b \<le> count_at (counter_of k i) a b" for k
    using le by (metis index_count.simps(2) transaction_weight.simps(2))
  then show "index_ok (remove_transaction ctx t i) \<and>
      index_count (remove_transaction ctx t i) k = index_count i k - transaction_weight ctx t k"
    using apply_updates_remove transaction_contributions_finite [OF t] i
    by (cases "(i, k)" rule: index_count.cases)
      (simp_all add: index_ok_def remove_transaction_def Let_def counter_of_transaction)
qed

definition index_represents :: "check_context \<Rightarrow> remaining_index \<Rightarrow> logged_transaction multiset \<Rightarrow> bool" where
  "index_represents ctx i M \<longleftrightarrow>
     index_ok i \<and> (\<forall>k. index_count i k = (\<Sum>t\<in>#M. transaction_weight ctx t k))"

lemma from_transactions_represents:
  assumes "\<forall>t \<in> set ts. transaction_wellformed t"
  shows "index_represents ctx (from_transactions ctx ts) (mset ts)"
proof -
  have "\<forall>k. index_count empty_index k = (\<Sum>t\<in>#{#}. transaction_weight ctx t k)"
    by (simp add: remaining.cnt_empty)
  from remaining.list_represents [OF assms remaining.ok_empty this]
  show ?thesis by (simp add: index_represents_def from_transactions_def)
qed

lemma sum_weight_positive:
  "(0::int) < (\<Sum>t\<in>#M. updates_weight (f t) a c) \<longleftrightarrow> (\<exists>t \<in># M. 0 < updates_weight (f t) a c)"
proof (induction M)
  case (add x M)
  have "0 \<le> (\<Sum>t\<in>#M. updates_weight (f t) a c)" by (induction M) auto
  then have "0 < updates_weight (f x) a c + (\<Sum>t\<in>#M. updates_weight (f t) a c) \<longleftrightarrow>
      0 < updates_weight (f x) a c \<or> 0 < (\<Sum>t\<in>#M. updates_weight (f t) a c)"
    using updates_weight_nonneg [of "f x" a c] by linarith
  then show ?case using add by simp
qed simp

lemma covers_UN_nonempty: "covers (\<Union>A) \<inter> B \<noteq> {} \<longleftrightarrow> (\<exists>a \<in> A. covers a \<inter> B \<noteq> {})"
  by (auto simp: covers_def)

lemma overlap_represents:
  assumes "index_represents ctx i M"
  shows "column_counter_overlap (counter_of k i) t columns \<longleftrightarrow>
    (\<exists>tr \<in># M. \<exists>cs. (t, cs) \<in> set (transaction_contributions ctx k tr) \<and>
       covers cs \<inter> covers columns \<noteq> {})"
proof -
  have ok: "counts_ok (counter_of k i)" using assms by (simp add: index_represents_def index_ok_def)
  have "index_count i (Some (k, t, c)) = (\<Sum>tr\<in>#M. transaction_weight ctx tr (Some (k, t, c)))" for c
    using assms unfolding index_represents_def by blast
  then have "counted (counter_of k i) t =
      \<Union>{cs. \<exists>tr \<in># M. (t, cs) \<in> set (transaction_contributions ctx k tr)}"
    by (auto simp: counted_def sum_weight_positive updates_weight_positive)
  then show ?thesis
    unfolding column_counter_overlap_iff [OF ok] by (auto simp only: covers_UN_nonempty) blast+
qed

lemma index_is_empty_represents:
  assumes "index_represents ctx i M"
  shows "index_is_empty i \<longleftrightarrow> M = {#}"
proof -
  have "index_count i None = (\<Sum>t\<in>#M. transaction_weight ctx t None)"
    using assms unfolding index_represents_def by blast
  then show ?thesis by (simp add: index_is_empty_def)
qed

section \<open>Any history of the queue\<close>

datatype queue_op = Add_Op logged_transaction | Remove_Op logged_transaction

fun index_op :: "check_context \<Rightarrow> remaining_index \<Rightarrow> queue_op \<Rightarrow> remaining_index" where
  "index_op ctx i (Add_Op t) = add_transaction ctx t i"
| "index_op ctx i (Remove_Op t) = remove_transaction ctx t i"

fun queue_step :: "logged_transaction multiset option \<Rightarrow> queue_op \<Rightarrow> logged_transaction multiset option" where
  "queue_step (Some M) (Add_Op t) = (if transaction_wellformed t then Some (add_mset t M) else None)"
| "queue_step (Some M) (Remove_Op t) = (if t \<in># M \<and> transaction_wellformed t then Some (M - {#t#}) else None)"
| "queue_step None _ = None"

lemma queue_step_None [simp]: "foldl queue_step None ops = None"
  by (induction ops) auto

lemma history_represents:
  "foldl queue_step (Some M) ops = Some N \<Longrightarrow> index_represents ctx i M \<Longrightarrow>
     index_represents ctx (foldl (index_op ctx) i ops) N"
proof (induction ops arbitrary: i M)
  case (Cons op ops)
  show ?case
  proof (cases op)
    case (Add_Op t)
    with Cons.prems have "transaction_wellformed t" by (auto split: if_splits)
    then show ?thesis
      using Cons.IH [of "add_mset t M" "add_transaction ctx t i"] Cons.prems Add_Op
        remaining.add_represents [of i ctx M t] by (simp add: index_represents_def)
  next
    case (Remove_Op t)
    with Cons.prems have "transaction_wellformed t" "t \<in># M" by (auto split: if_splits)
    then show ?thesis
      using Cons.IH [of "M - {#t#}" "remove_transaction ctx t i"] Cons.prems Remove_Op
        remaining.remove_represents [of i ctx M t] by (simp add: index_represents_def)
  qed
qed simp

text \<open>Two indexes that stand for the same transactions answer every query alike.\<close>

lemma represents_same_counter:
  assumes "index_represents ctx i M" "index_represents ctx j M"
  shows "column_counter_overlap (counter_of k i) = column_counter_overlap (counter_of k j)"
  using overlap_represents [OF assms(1)] overlap_represents [OF assms(2)] by (intro ext) simp

lemma statement_implicit_key_possible_iff:
  "statement_implicit_key_possible ctx i m \<longleftrightarrow>
     statement_kind m = Update_Kind \<and>
       column_counter_overlap (counter_of Omitted_C i) (written_table m) (columns_updated m) \<or>
     statement_kind m = Insert_Kind \<and>
       (\<exists>key. omitted_integer_primary_key_column ctx m = Some key \<and>
         (column_counter_overlap (counter_of Omitted_C i) (written_table m) {key} \<or>
          column_counter_overlap (counter_of Update_C i) (written_table m) {key}))"
proof -
  have none: "map_of c t = None \<Longrightarrow> \<not> column_counter_overlap c t cs" for c t cs
    by (simp add: column_counter_overlap_def)
  then show ?thesis
    by (cases "omitted_integer_primary_key_column ctx m")
      (auto simp: statement_implicit_key_possible_def has_omitted_integer_primary_key_def
          has_update_write_def none)
qed

lemma represents_same_kinds:
  assumes "index_represents ctx i M" "index_represents ctx j M"
  shows "remaining_individual_check_kinds ctx current i = remaining_individual_check_kinds ctx current j"
proof -
  note same = represents_same_counter [OF assms]
  have c: "column_counter_overlap (counter i) = column_counter_overlap (counter j)"
    if "counter \<in> {tables_referenced_to_column_counts, write_write_column_counts,
      create_or_change_key_column_counts, remove_or_change_key_column_counts,
      update_column_counts_of, omitted_integer_primary_key_counts}" for counter
    using that same [of Referenced_C] same [of Write_Write_C] same [of Create_C] same [of Remove_C]
      same [of Update_C] same [of Omitted_C] by auto
  have "index_is_empty i = index_is_empty j"
    using index_is_empty_represents [OF assms(1)] index_is_empty_represents [OF assms(2)] by simp
  moreover have "statement_write_write_possible i = statement_write_write_possible j"
    by (intro ext) (simp add: statement_write_write_possible_def c)
  moreover have "statement_implicit_key_possible ctx i = statement_implicit_key_possible ctx j"
    by (intro ext) (simp only: statement_implicit_key_possible_iff same)
  moreover have "constraint_conflict_possible_with_index ctx current i = constraint_conflict_possible_with_index ctx current j"
    by (simp add: constraint_conflict_possible_with_index_def key_constraint_conflict_possible_with_index_def
        foreign_key_constraint_conflict_possible_with_index_def has_create_or_change_key_def
        has_remove_or_change_key_def c)
  moreover have "column_sets_overlap_counter m (tables_referenced_to_column_counts i) =
      column_sets_overlap_counter m (tables_referenced_to_column_counts j)" for m
    by (simp add: column_sets_overlap_counter_def c)
  ultimately show ?thesis
    by (simp add: remaining_individual_check_kinds_def write_write_conflict_possible_def
        implicit_insert_key_conflict_possible_def)
qed

text \<open>
  C7. The remaining index never drifts: after any sequence of additions and removals, where
  only transactions still in the queue are removed, the index has the counts of the index
  built afresh from the remaining queue, in whatever order, and answers the check filter
  the same.
\<close>

theorem remaining_index_exact:
  assumes "foldl queue_step (Some {#}) ops = Some (mset queue)"
    and "\<forall>t \<in> set queue. transaction_wellformed t"
  shows "index_count (foldl (index_op ctx) empty_index ops) k = index_count (from_transactions ctx queue) k \<and>
    remaining_individual_check_kinds ctx current (foldl (index_op ctx) empty_index ops) =
      remaining_individual_check_kinds ctx current (from_transactions ctx queue)"
proof -
  have "index_represents ctx empty_index {#}"
    using from_transactions_represents [of "[]" ctx] by (simp add: from_transactions_def)
  note run = history_represents [OF assms(1) this]
  note fresh = from_transactions_represents [OF assms(2), of ctx]
  have "index_count (foldl (index_op ctx) empty_index ops) k = index_count (from_transactions ctx queue) k"
    using run fresh unfolding index_represents_def by metis
  then show ?thesis using represents_same_kinds [OF run fresh] by blast
qed

text \<open>Two transactions of one statement each.\<close>

definition demo_statement :: "string \<Rightarrow> statement_metadata \<Rightarrow> logged_statement" where
  "demo_statement sql m =
     \<lparr>ls_branch = Ours, ls_branch_index = 0, ls_transaction_id = 1, ls_committed_at = [],
      ls_original_sql_text = sql, to_replay_sql_text = sql, is_replay_safe = True,
      replay_block_reason = None, ls_metadata = m, replay_warnings = [], accepted_replay_warnings = {}\<rparr>"

definition demo_transaction :: "string \<Rightarrow> statement_metadata \<Rightarrow> logged_transaction" where
  "demo_transaction sql m =
     \<lparr>lt_branch = Ours, lt_branch_index = 0, lt_transaction_id = 1, lt_committed_at = [],
      lt_statements = [demo_statement sql m], lt_metadata = transaction_metadata [m]\<rparr>"

definition demo_metadata :: "expression_class \<Rightarrow> string \<Rightarrow> string set \<Rightarrow> column_map \<Rightarrow> statement_metadata" where
  "demo_metadata cls t columns reads =
     (unsupported_statement_metadata [])
       \<lparr>parsed_sql_text := unsupported_sql\<lparr>parsed_class := cls, parsed_target := demo_target t\<rparr>,
        statement_kind := statement_kind_of (unsupported_sql\<lparr>parsed_class := cls\<rparr>),
        table_updated := Some t, columns_updated := columns,
        updated_map := [(t, columns)], referenced_map := reads\<rparr>"

definition demo_update :: logged_transaction where
  "demo_update = demo_transaction ''UPDATE t SET a = b'' (demo_metadata Update_Expr ''t'' {''a''} [(''t'', {''b''})])"

definition demo_other_update :: logged_transaction where
  "demo_other_update = demo_transaction ''UPDATE t SET b = a'' (demo_metadata Update_Expr ''t'' {''b''} [(''t'', {''a''})])"

lemma demo_metadata_wellformed:
  "cls \<in> {Insert_Expr, Update_Expr, Delete_Expr} \<Longrightarrow> finite columns \<Longrightarrow> column_map_ok reads \<Longrightarrow>
     (cls \<in> {Insert_Expr, Delete_Expr} \<longrightarrow> columns = {ALL_COLUMNS}) \<Longrightarrow>
     metadata_wellformed (demo_metadata cls t columns reads)"
  by (auto simp: demo_metadata_def metadata_wellformed_def unsupported_statement_metadata_def
      unsupported_sql_def statement_kind_of_def target_table_name_def demo_target_def table_name_def
      column_map_ok_def dict_ok_def map_covers_def dict_get_def)

lemma demo_transaction_wellformed:
  "metadata_wellformed m \<Longrightarrow> transaction_wellformed (demo_transaction sql m)"
  by (simp add: transaction_wellformed_def demo_transaction_def demo_statement_def)

lemma demo_updates_wellformed:
  "transaction_wellformed demo_update" "transaction_wellformed demo_other_update"
  unfolding demo_update_def demo_other_update_def
  by (rule demo_transaction_wellformed, rule demo_metadata_wellformed;
      simp add: column_map_ok_def dict_ok_def)+

theorem remaining_index_exact_witness:
  "index_count (foldl (index_op cascade_context) empty_index
      [Add_Op demo_update, Add_Op demo_other_update, Remove_Op demo_update]) None =
   index_count (from_transactions cascade_context [demo_other_update]) None"
  using remaining_index_exact [of "[Add_Op demo_update, Add_Op demo_other_update, Remove_Op demo_update]"
      "[demo_other_update]" cascade_context None]
  by (simp add: demo_updates_wellformed)

end
