(* ===== verification/Remaining_Filter.thy ===== *)
theory Remaining_Filter
  imports Remaining_Metadata_Props
begin

text \<open>
  The check filter of the remaining index against pairwise static analysis: the checks the
  filter enables are the ones some remaining transaction can need.
\<close>

section \<open>What contributions cover\<close>

lemma map_covers_items: "dict_ok m \<Longrightarrow> map_covers m t = \<Union>{covers cs |cs. (t, cs) \<in> set m}"
  by (auto simp: map_covers_def dict_get_def dict_items_lookup split: option.splits)

lemma columns_by_table_overlap_iff:
  assumes "dict_ok l" "dict_ok r"
  shows "columns_by_table_overlap l r \<longleftrightarrow> (\<exists>t. map_covers l t \<inter> map_covers r t \<noteq> {})"
proof -
  have right: "(case map_of r t of None \<Rightarrow> False | Some rc \<Rightarrow> column_overlap lc rc \<noteq> {}) \<longleftrightarrow>
      (\<exists>rc. map_of r t = Some rc \<and> covers lc \<inter> covers rc \<noteq> {})" for t lc
    by (cases "map_of r t") (auto simp: column_overlap_nonempty)
  have "columns_by_table_overlap l r \<longleftrightarrow>
      (\<exists>t lc rc. map_of l t = Some lc \<and> map_of r t = Some rc \<and> covers lc \<inter> covers rc \<noteq> {})"
    unfolding columns_by_table_overlap_def list_ex_dict_items [OF assms(1)] right by blast
  also have "\<dots> \<longleftrightarrow> (\<exists>t. map_covers l t \<inter> map_covers r t \<noteq> {})"
    by (force simp: map_covers_def dict_get_def split: option.splits)
  finally show ?thesis .
qed

definition contributes ::
    "check_context \<Rightarrow> counter \<Rightarrow> logged_transaction \<Rightarrow> string \<Rightarrow> string set \<Rightarrow> bool" where
  "contributes ctx k tr t columns \<longleftrightarrow>
     (\<exists>s \<in> set (lt_statements tr). \<exists>cs. (t, cs) \<in> set (contributions ctx k (ls_metadata s)) \<and>
        covers cs \<inter> covers columns \<noteq> {})"

lemma overlap_contributes:
  assumes "index_represents ctx i M"
  shows "column_counter_overlap (counter_of k i) t columns \<longleftrightarrow> (\<exists>tr \<in># M. contributes ctx k tr t columns)"
  unfolding overlap_represents [OF assms] contributes_def transaction_contributions_def by fastforce

lemma wellformed_statement:
  "transaction_wellformed tr \<Longrightarrow> s \<in> set (lt_statements tr) \<Longrightarrow> metadata_wellformed (ls_metadata s)"
  by (simp add: transaction_wellformed_def)

lemma wellformed_aggregate:
  assumes "transaction_wellformed tr"
  shows "tm_statements (lt_metadata tr) = map ls_metadata (lt_statements tr)"
    "tm_cascade_write_events (lt_metadata tr) = concat (map (\<lambda>s. cascade_write_events (ls_metadata s)) (lt_statements tr))"
    "map_covers (tm_updated_map (lt_metadata tr)) t = (\<Union>s \<in> set (lt_statements tr). map_covers (updated_map (ls_metadata s)) t)"
    "map_covers (tm_referenced_map (lt_metadata tr)) t = (\<Union>s \<in> set (lt_statements tr). map_covers (referenced_map (ls_metadata s)) t)"
    "fst ` set (tm_updated_map (lt_metadata tr)) = (\<Union>s \<in> set (lt_statements tr). fst ` set (updated_map (ls_metadata s)))"
    "dict_ok (tm_updated_map (lt_metadata tr))" "dict_ok (tm_referenced_map (lt_metadata tr))"
proof -
  have ok: "\<forall>m \<in> set (map ls_metadata (lt_statements tr)). dict_ok (updated_map m)"
      "\<forall>m \<in> set (map ls_metadata (lt_statements tr)). dict_ok (referenced_map m)"
    using assms by (auto simp: transaction_wellformed_def metadata_wellformed_def)
  have meta: "lt_metadata tr = transaction_metadata (map ls_metadata (lt_statements tr))"
    using assms by (simp add: transaction_wellformed_def)
  show "tm_statements (lt_metadata tr) = map ls_metadata (lt_statements tr)"
    "tm_cascade_write_events (lt_metadata tr) = concat (map (\<lambda>s. cascade_write_events (ls_metadata s)) (lt_statements tr))"
    "map_covers (tm_updated_map (lt_metadata tr)) t = (\<Union>s \<in> set (lt_statements tr). map_covers (updated_map (ls_metadata s)) t)"
    "map_covers (tm_referenced_map (lt_metadata tr)) t = (\<Union>s \<in> set (lt_statements tr). map_covers (referenced_map (ls_metadata s)) t)"
    "fst ` set (tm_updated_map (lt_metadata tr)) = (\<Union>s \<in> set (lt_statements tr). fst ` set (updated_map (ls_metadata s)))"
    "dict_ok (tm_updated_map (lt_metadata tr))" "dict_ok (tm_referenced_map (lt_metadata tr))"
    using aggregate_map [OF ok(1), of "[]"] aggregate_map [OF ok(2), of "[]"]
    by (simp_all add: meta transaction_metadata_def comp_def)
qed

section \<open>Reads\<close>

lemma contributes_referenced:
  assumes "transaction_wellformed tr"
  shows "contributes ctx Referenced_C tr t columns \<longleftrightarrow>
    map_covers (tm_referenced_map (lt_metadata tr)) t \<inter> covers columns \<noteq> {}"
proof -
  have refs: "contributions ctx Referenced_C m = referenced_map m" for m
  proof -
    have "Referenced_C \<notin> own_counters kind" "Referenced_C \<notin> event_counters ev" for kind ev
      by (cases kind; simp) (cases ev; simp)
    then show ?thesis by (simp add: contributions_def event_updates_def)
  qed
  have "map_covers (referenced_map (ls_metadata s)) t = \<Union>{covers cs |cs. (t, cs) \<in> set (referenced_map (ls_metadata s))}"
    if "s \<in> set (lt_statements tr)" for s
    using wellformed_statement [OF assms that] by (intro map_covers_items) (auto simp: metadata_wellformed_def)
  then show ?thesis
    unfolding contributes_def refs wellformed_aggregate(4) [OF assms] by auto blast+
qed

text \<open>
  C15. The write/read check is enabled exactly when pairwise analysis would find some
  remaining transaction that reads what the current transaction writes.
\<close>

theorem write_read_filter_exact:
  assumes "index_represents ctx index M" and "transaction_wellformed current"
    and "\<forall>tr \<in># M. transaction_wellformed tr"
  shows "Write_Read \<in> remaining_individual_check_kinds ctx current index \<longleftrightarrow>
    (\<exists>tr \<in># M. transaction_write_read_overlap (lt_metadata current) (lt_metadata tr))"
proof -
  let ?w = "tm_updated_map (lt_metadata current)"
  have "column_sets_overlap_counter ?w (tables_referenced_to_column_counts index) \<longleftrightarrow>
      (\<exists>t cs. map_of ?w t = Some cs \<and> (\<exists>tr \<in># M. contributes ctx Referenced_C tr t cs))"
    unfolding column_sets_overlap_counter_def list_ex_dict_items [OF wellformed_aggregate(6) [OF assms(2)]]
    using overlap_contributes [OF assms(1), of Referenced_C] by simp
  also have "\<dots> \<longleftrightarrow> (\<exists>tr \<in># M. \<exists>t. map_covers ?w t \<inter> map_covers (tm_referenced_map (lt_metadata tr)) t \<noteq> {})"
    using assms(3)
    by (force simp: contributes_referenced map_covers_def [of ?w] dict_get_def split: option.splits)
  also have "\<dots> \<longleftrightarrow> (\<exists>tr \<in># M. transaction_write_read_overlap (lt_metadata current) (lt_metadata tr))"
    using assms(3) columns_by_table_overlap_iff wellformed_aggregate(6) [OF assms(2)] wellformed_aggregate(7)
    unfolding transaction_write_read_overlap_def by blast
  finally have iff: "column_sets_overlap_counter ?w (tables_referenced_to_column_counts index) \<longleftrightarrow>
      (\<exists>tr \<in># M. transaction_write_read_overlap (lt_metadata current) (lt_metadata tr))" .
  show ?thesis
    using iff index_is_empty_represents [OF assms(1)]
    by (auto simp: remaining_individual_check_kinds_def)
qed

lemma demo_index: "index_represents cascade_context (from_transactions cascade_context [demo_other_update]) {#demo_other_update#}"
  using from_transactions_represents [of "[demo_other_update]" cascade_context] demo_updates_wellformed by simp

theorem write_read_filter_exact_witness:
  "Write_Read \<in> remaining_individual_check_kinds cascade_context demo_update
     (from_transactions cascade_context [demo_other_update])"
proof -
  have "transaction_write_read_overlap (lt_metadata demo_update) (lt_metadata demo_other_update)"
    by code_simp
  then show ?thesis
    using write_read_filter_exact [OF demo_index demo_updates_wellformed(1)] demo_updates_wellformed(2) by simp
qed

section \<open>Key changes\<close>

lemma kind_statement:
  assumes "metadata_wellformed m"
  shows "is_insert_statement m \<longleftrightarrow> statement_kind m = Insert_Kind"
    "is_update_statement m \<longleftrightarrow> statement_kind m = Update_Kind"
    "is_delete_statement m \<longleftrightarrow> statement_kind m = Delete_Kind"
  using assms
  by (auto simp: metadata_wellformed_def is_insert_statement_def is_update_statement_def
      is_delete_statement_def statement_kind_of_def split: expression_class.splits)

lemma written_table_wellformed:
  "metadata_wellformed m \<Longrightarrow> statement_kind m \<noteq> Other_Kind \<Longrightarrow> table_updated m = Some (written_table m)"
proof -
  assume "metadata_wellformed m" "statement_kind m \<noteq> Other_Kind"
  then have "table_updated m \<noteq> None" unfolding metadata_wellformed_def by blast
  then show "table_updated m = Some (written_table m)" by (auto simp: written_table_def)
qed

lemma contributions_create:
  "contributions ctx Create_C m =
     (if statement_kind m \<in> {Insert_Kind, Update_Kind} then [(written_table m, columns_updated m)] else [])
     @ map (\<lambda>e. (event_table e, event_columns e)) (filter (\<lambda>e. event_kind e = Update_Event) (cascade_write_events m))"
proof -
  have "Create_C \<in> event_counters k \<longleftrightarrow> k = Update_Event" for k by (cases k) simp_all
  then show ?thesis by (cases "statement_kind m") (simp_all add: contributions_def event_updates_def)
qed

lemma contributions_remove:
  "contributions ctx Remove_C m =
     (if statement_kind m \<in> {Update_Kind, Delete_Kind} then [(written_table m, columns_updated m)] else [])
     @ map (\<lambda>e. (event_table e, event_columns e)) (cascade_write_events m)"
proof -
  have "Remove_C \<in> event_counters k" for k by (cases k) simp_all
  then show ?thesis by (cases "statement_kind m") (simp_all add: contributions_def event_updates_def)
qed

lemma wellformed_all_columns:
  "metadata_wellformed m \<Longrightarrow> statement_kind m \<in> {Insert_Kind, Delete_Kind} \<Longrightarrow> columns_updated m = {ALL_COLUMNS}"
  unfolding metadata_wellformed_def by blast

lemma statement_create_iff:
  assumes "metadata_wellformed m" "keys \<noteq> {}"
  shows "statement_may_create_or_change_key m t keys \<longleftrightarrow>
    statement_kind m \<in> {Insert_Kind, Update_Kind} \<and> written_table m = t \<and>
    covers (columns_updated m) \<inter> covers keys \<noteq> {}"
  using kind_statement [OF assms(1)] written_table_wellformed [OF assms(1)]
    wellformed_all_columns [OF assms(1)] assms(2)
  by (cases "statement_kind m")
    (auto simp: statement_may_create_or_change_key_def metadata_write_overlap_def column_overlap_nonempty)

lemma contributes_create:
  assumes "transaction_wellformed tr" "keys \<noteq> {}"
  shows "contributes ctx Create_C tr t keys \<longleftrightarrow> may_create_or_change_key (lt_metadata tr) t keys"
proof -
  have "(\<exists>cs. (t, cs) \<in> set (contributions ctx Create_C m) \<and> covers cs \<inter> covers keys \<noteq> {}) \<longleftrightarrow>
      statement_may_create_or_change_key m t keys \<or>
      (\<exists>e \<in> set (cascade_write_events m). cascade_event_may_create_or_change_key e t keys)"
    if "metadata_wellformed m" for m
    unfolding statement_create_iff [OF that assms(2)] contributions_create
      cascade_event_may_create_or_change_key_def column_overlap_nonempty by auto
  then show ?thesis
    using wellformed_statement [OF assms(1)]
    unfolding contributes_def may_create_or_change_key_def wellformed_aggregate(1,2) [OF assms(1)]
    by (auto simp: list_ex_iff)
qed

lemma contributes_remove:
  assumes "transaction_wellformed tr" "keys \<noteq> {}"
  shows "contributes ctx Remove_C tr t keys \<longleftrightarrow> may_remove_or_change_key (lt_metadata tr) t keys"
proof -
  have st: "(table_updated m = Some t \<and> (is_delete_statement m \<or>
      is_update_statement m \<and> metadata_write_overlap m t keys \<noteq> {})) \<longleftrightarrow>
      statement_kind m \<in> {Update_Kind, Delete_Kind} \<and> written_table m = t \<and>
      covers (columns_updated m) \<inter> covers keys \<noteq> {}"
    if "metadata_wellformed m" for m
    using kind_statement [OF that] written_table_wellformed [OF that] wellformed_all_columns [OF that] assms(2)
    by (cases "statement_kind m") (auto simp: metadata_write_overlap_def column_overlap_nonempty)
  have "(\<exists>cs. (t, cs) \<in> set (contributions ctx Remove_C m) \<and> covers cs \<inter> covers keys \<noteq> {}) \<longleftrightarrow>
      (table_updated m = Some t \<and> (is_delete_statement m \<or>
        is_update_statement m \<and> metadata_write_overlap m t keys \<noteq> {})) \<or>
      (\<exists>e \<in> set (cascade_write_events m). cascade_event_may_remove_or_change_key e t keys)"
    if "metadata_wellformed m" for m
  proof -
    have del: "\<forall>e \<in> set (cascade_write_events m). event_ok e"
      using that unfolding metadata_wellformed_def by blast
    have "cascade_event_may_remove_or_change_key e t keys \<longleftrightarrow>
        event_table e = t \<and> covers (event_columns e) \<inter> covers keys \<noteq> {}"
      if "e \<in> set (cascade_write_events m)" for e
      using del that assms(2) by (auto simp: event_ok_def cascade_event_may_remove_or_change_key_def column_overlap_nonempty)
    then show ?thesis unfolding st [OF that] contributions_remove by auto
  qed
  then show ?thesis
    using wellformed_statement [OF assms(1)]
    unfolding contributes_def may_remove_or_change_key_def wellformed_aggregate(1,2) [OF assms(1)]
    by (auto simp: list_ex_iff)
qed

section \<open>Constraints\<close>

definition schema_ok :: "check_context \<Rightarrow> bool" where
  "schema_ok ctx \<longleftrightarrow> cache_valid (ctx_catalog ctx) (ctx_cache ctx) \<and> dict_ok (cache_key_sets (ctx_cache ctx)) \<and>
     (\<forall>(t, sets) \<in> set (cache_key_sets (ctx_cache ctx)). {} \<notin> set sets)"

lemma per_table_items: "(t, v) \<in> set (per_table tables f) \<Longrightarrow> v = f t"
proof -
  have "(t, v) \<in> set (foldl (\<lambda>d table. dict_set table (f table) d) d ts) \<Longrightarrow>
      (t, v) \<in> set d \<or> v = f t" for d ts
    by (induction ts arbitrary: d) (auto dest: dict_set_item)
  from this [of "[]"] show "(t, v) \<in> set (per_table tables f) \<Longrightarrow> ?thesis"
    by (simp add: per_table_def)
qed

lemma dict_ok_per_table: "dict_ok (per_table tables f)"
  unfolding per_table_def by (rule foldl_induct_inv) auto

text \<open>The loader's cache satisfies it.\<close>

lemma loaded_schema_ok: "schema_ok \<lparr>ctx_catalog = cat, ctx_cache = load_schema_cache cat\<rparr>"
proof -
  have "{} \<notin> set (key_column_sets cat t)" for t
    by (auto simp: key_column_sets_def Let_def)
  moreover have "cache_valid cat (load_schema_cache cat)"
    by (auto simp: cache_valid_def load_schema_cache_def load_schema_metadata_def Let_def
        compute_edges_def load_integer_primary_key_columns_def split: if_splits)
  moreover have "cache_key_sets (load_schema_cache cat) =
      per_table (map fst (load_user_table_columns cat)) (key_column_sets cat)"
    by (simp add: load_schema_cache_def load_schema_metadata_def Let_def load_key_column_sets_def)
  ultimately show ?thesis
    using dict_ok_per_table by (auto simp: schema_ok_def dest!: per_table_items)
qed

lemma context_edges:
  assumes "schema_ok ctx"
  shows "edge \<in> set (dict_get (edges_by_parent ctx) t []) \<Longrightarrow> child_columns edge \<noteq> [] \<and> parent_columns edge \<noteq> []"
    "edge \<in> set (dict_get (edges_by_child ctx) t []) \<Longrightarrow> child_columns edge \<noteq> [] \<and> parent_columns edge \<noteq> []"
proof -
  have valid: "cache_valid (ctx_catalog ctx) (ctx_cache ctx)" using assms by (simp add: schema_ok_def)
  show "edge \<in> set (dict_get (edges_by_parent ctx) t []) \<Longrightarrow> child_columns edge \<noteq> [] \<and> parent_columns edge \<noteq> []"
    "edge \<in> set (dict_get (edges_by_child ctx) t []) \<Longrightarrow> child_columns edge \<noteq> [] \<and> parent_columns edge \<noteq> []"
    unfolding edges_by_parent_valid [OF valid] dict_get_group_edges compute_edges_def
    using load_edges_wellformed by fastforce+
qed

lemma map_covers_key: "map_covers m t \<noteq> {} \<Longrightarrow> t \<in> fst ` set m"
  using map_covers_fresh by fastforce

lemma create_in_updated:
  assumes "transaction_wellformed tr" "may_create_or_change_key (lt_metadata tr) t keys"
  shows "t \<in> fst ` set (tm_updated_map (lt_metadata tr))"
proof -
  from assms(2) consider s where "s \<in> set (lt_statements tr)" "statement_may_create_or_change_key (ls_metadata s) t keys"
    | s e where "s \<in> set (lt_statements tr)" "e \<in> set (cascade_write_events (ls_metadata s))"
        "cascade_event_may_create_or_change_key e t keys"
    unfolding may_create_or_change_key_def wellformed_aggregate(1,2) [OF assms(1)] by (auto simp: list_ex_iff)
  then obtain s where "s \<in> set (lt_statements tr)" "t \<in> fst ` set (updated_map (ls_metadata s))"
  proof cases
    case 1
    have "metadata_wellformed (ls_metadata s)" using assms(1) 1(1) by (rule wellformed_statement)
    moreover have "table_updated (ls_metadata s) = Some t"
      using 1(2) by (auto simp: statement_may_create_or_change_key_def split: if_splits)
    ultimately show ?thesis using that 1(1) unfolding metadata_wellformed_def by blast
  next
    case 2
    have "metadata_wellformed (ls_metadata s)" using assms(1) 2(1) by (rule wellformed_statement)
    then have "covers (event_columns e) \<subseteq> map_covers (updated_map (ls_metadata s)) (event_table e)"
      using 2(2) unfolding metadata_wellformed_def by blast
    moreover have "event_table e = t" "covers (event_columns e) \<noteq> {}"
      using 2(3) by (auto simp: cascade_event_may_create_or_change_key_def column_overlap_def split: if_splits)
    ultimately have "map_covers (updated_map (ls_metadata s)) t \<noteq> {}" by auto
    then show ?thesis using that 2(1) map_covers_key by blast
  qed
  then show ?thesis unfolding wellformed_aggregate(5) [OF assms(1)] by blast
qed

lemma index_create_remove:
  assumes "index_represents ctx index M" "\<forall>tr \<in># M. transaction_wellformed tr" "keys \<noteq> {}"
  shows "has_create_or_change_key index t keys \<longleftrightarrow> (\<exists>tr \<in># M. may_create_or_change_key (lt_metadata tr) t keys)"
    "has_remove_or_change_key index t keys \<longleftrightarrow> (\<exists>tr \<in># M. may_remove_or_change_key (lt_metadata tr) t keys)"
  using overlap_contributes [OF assms(1), of Create_C t keys] overlap_contributes [OF assms(1), of Remove_C t keys]
    contributes_create [OF _ assms(3)] contributes_remove [OF _ assms(3)] assms(2)
  by (auto simp: has_create_or_change_key_def has_remove_or_change_key_def)

lemma key_constraint_with_index_iff:
  assumes "schema_ok ctx" "index_represents ctx index M" "transaction_wellformed current"
    and "\<forall>tr \<in># M. transaction_wellformed tr"
  shows "key_constraint_conflict_possible_with_index ctx current index \<longleftrightarrow>
    (\<exists>tr \<in># M. key_constraint_conflict_possible ctx (lt_metadata current) (lt_metadata tr))"
proof -
  let ?ks = "cache_key_sets (ctx_cache ctx)"
  have nonempty: "keys \<noteq> {}" if "map_of ?ks t = Some sets" "keys \<in> set sets" for t sets keys
    using assms(1) that by (auto simp: schema_ok_def dest!: map_of_SomeD)
  have item: "(t, sets) \<in> set ?ks \<longleftrightarrow> map_of ?ks t = Some sets" for t sets
    using assms(1) by (simp add: schema_ok_def dict_items_lookup)
  have eq: "(t \<in> fst ` set (tm_updated_map (lt_metadata current)) \<and> map_of ?ks t = Some sets \<and> keys \<in> set sets \<and>
        may_create_or_change_key (lt_metadata current) t keys \<and> has_create_or_change_key index t keys) \<longleftrightarrow>
      (map_of ?ks t = Some sets \<and> keys \<in> set sets \<and> may_create_or_change_key (lt_metadata current) t keys \<and>
        (\<exists>tr \<in># M. may_create_or_change_key (lt_metadata tr) t keys))" for t sets keys
    using create_in_updated [OF assms(3), of t keys] index_create_remove(1) [OF assms(2,4), of keys t]
      nonempty [of t sets keys] by argo
  have "key_constraint_conflict_possible_with_index ctx current index \<longleftrightarrow>
      (\<exists>t \<in> fst ` set (tm_updated_map (lt_metadata current)). \<exists>sets keys. map_of ?ks t = Some sets \<and> keys \<in> set sets \<and>
        may_create_or_change_key (lt_metadata current) t keys \<and> has_create_or_change_key index t keys)"
    by (force simp: key_constraint_conflict_possible_with_index_def list_ex_iff dict_get_def split: option.splits)
  also have "\<dots> \<longleftrightarrow> (\<exists>t sets keys. map_of ?ks t = Some sets \<and> keys \<in> set sets \<and>
        may_create_or_change_key (lt_metadata current) t keys \<and>
        (\<exists>tr \<in># M. may_create_or_change_key (lt_metadata tr) t keys))"
    using eq by blast
  also have "\<dots> \<longleftrightarrow> (\<exists>tr \<in># M. key_constraint_conflict_possible ctx (lt_metadata current) (lt_metadata tr))"
    unfolding key_constraint_conflict_possible_def key_column_sets_by_table_def list_ex_iff item [symmetric]
    by fastforce
  finally show ?thesis .
qed

lemma bex_commute_pairs:
  "(\<exists>t \<in> U. (\<exists>e \<in> A t. P e \<and> (\<exists>r \<in> M. Q r e)) \<or> (\<exists>e \<in> B t. P' e \<and> (\<exists>r \<in> M. Q' r e))) \<longleftrightarrow>
   (\<exists>r \<in> M. \<exists>t \<in> U. (\<exists>e \<in> A t. P e \<and> Q r e) \<or> (\<exists>e \<in> B t. P' e \<and> Q' r e))"
  by blast

lemma foreign_key_constraint_with_index_iff:
  assumes "schema_ok ctx" "index_represents ctx index M" "\<forall>tr \<in># M. transaction_wellformed tr"
  shows "foreign_key_constraint_conflict_possible_with_index ctx current index \<longleftrightarrow>
    (\<exists>tr \<in># M. foreign_key_constraint_conflict_possible ctx (lt_metadata current) (lt_metadata tr))"
proof -
  let ?u = "fst ` set (tm_updated_map (lt_metadata current))"
  have create: "has_create_or_change_key index (child_table edge) (set (child_columns edge)) \<longleftrightarrow>
      (\<exists>tr \<in># M. may_create_or_change_key (lt_metadata tr) (child_table edge) (set (child_columns edge)))"
    if "edge \<in> set (dict_get (edges_by_parent ctx) t [])" for edge t
    using context_edges(1) [OF assms(1) that] by (intro index_create_remove(1) [OF assms(2,3)]) simp
  have remove: "has_remove_or_change_key index (parent_table edge) (set (parent_columns edge)) \<longleftrightarrow>
      (\<exists>tr \<in># M. may_remove_or_change_key (lt_metadata tr) (parent_table edge) (set (parent_columns edge)))"
    if "edge \<in> set (dict_get (edges_by_child ctx) t [])" for edge t
    using context_edges(2) [OF assms(1) that] by (intro index_create_remove(2) [OF assms(2,3)]) simp
  have "foreign_key_constraint_conflict_possible_with_index ctx current index \<longleftrightarrow>
      (\<exists>t \<in> ?u. (\<exists>edge \<in> set (dict_get (edges_by_parent ctx) t []).
          may_remove_or_change_key (lt_metadata current) (parent_table edge) (set (parent_columns edge)) \<and>
          has_create_or_change_key index (child_table edge) (set (child_columns edge))) \<or>
        (\<exists>edge \<in> set (dict_get (edges_by_child ctx) t []).
          may_create_or_change_key (lt_metadata current) (child_table edge) (set (child_columns edge)) \<and>
          has_remove_or_change_key index (parent_table edge) (set (parent_columns edge))))"
    by (force simp: foreign_key_constraint_conflict_possible_with_index_def list_ex_iff)
  also have "\<dots> \<longleftrightarrow>
      (\<exists>t \<in> ?u. (\<exists>edge \<in> set (dict_get (edges_by_parent ctx) t []).
          may_remove_or_change_key (lt_metadata current) (parent_table edge) (set (parent_columns edge)) \<and>
          (\<exists>tr \<in># M. may_create_or_change_key (lt_metadata tr) (child_table edge) (set (child_columns edge)))) \<or>
        (\<exists>edge \<in> set (dict_get (edges_by_child ctx) t []).
          may_create_or_change_key (lt_metadata current) (child_table edge) (set (child_columns edge)) \<and>
          (\<exists>tr \<in># M. may_remove_or_change_key (lt_metadata tr) (parent_table edge) (set (parent_columns edge)))))"
    by (intro bex_cong refl disj_cong conj_cong create remove) assumption+
  also have "\<dots> \<longleftrightarrow> (\<exists>tr \<in># M. \<exists>t \<in> ?u. (\<exists>edge \<in> set (dict_get (edges_by_parent ctx) t []).
          may_remove_or_change_key (lt_metadata current) (parent_table edge) (set (parent_columns edge)) \<and>
          may_create_or_change_key (lt_metadata tr) (child_table edge) (set (child_columns edge))) \<or>
        (\<exists>edge \<in> set (dict_get (edges_by_child ctx) t []).
          may_create_or_change_key (lt_metadata current) (child_table edge) (set (child_columns edge)) \<and>
          may_remove_or_change_key (lt_metadata tr) (parent_table edge) (set (parent_columns edge))))"
    by (rule bex_commute_pairs)
  also have "\<dots> \<longleftrightarrow> (\<exists>tr \<in># M. foreign_key_constraint_conflict_possible ctx (lt_metadata current) (lt_metadata tr))"
    by (force simp: foreign_key_constraint_conflict_possible_def list_ex_iff)
  finally show ?thesis .
qed

text \<open>
  C14. The integrity check is enabled exactly when some remaining transaction passes the
  pairwise constraint test against the current one, for primary and unique keys as for both
  directions of every foreign key, cascades included.
\<close>

theorem integrity_filter_exact:
  assumes "schema_ok ctx" and "index_represents ctx index M" and "transaction_wellformed current"
    and "\<forall>tr \<in># M. transaction_wellformed tr"
  shows "Integrity \<in> remaining_individual_check_kinds ctx current index \<longleftrightarrow>
    (\<exists>tr \<in># M. constraint_conflict_possible ctx (lt_metadata current) (lt_metadata tr))"
  using key_constraint_with_index_iff [OF assms] foreign_key_constraint_with_index_iff [OF assms(1,2,4)]
    index_is_empty_represents [OF assms(2)]
  by (auto simp: remaining_individual_check_kinds_def constraint_conflict_possible_with_index_def
      constraint_conflict_possible_def)

definition demo_insert :: logged_transaction where
  "demo_insert = demo_transaction ''INSERT INTO a VALUES (1)''
     (demo_metadata Insert_Expr ''a'' {ALL_COLUMNS} [])"

lemma demo_insert_wellformed: "transaction_wellformed demo_insert"
  unfolding demo_insert_def by (rule demo_transaction_wellformed, rule demo_metadata_wellformed) simp_all

lemma demo_insert_index:
  "index_represents cascade_context (from_transactions cascade_context [demo_insert]) {#demo_insert#}"
  using from_transactions_represents [of "[demo_insert]" cascade_context] demo_insert_wellformed by simp

lemma cascade_schema_ok: "schema_ok cascade_context"
  unfolding cascade_context_def by (rule loaded_schema_ok)

theorem integrity_filter_exact_witness:
  "Integrity \<in> remaining_individual_check_kinds cascade_context demo_insert
     (from_transactions cascade_context [demo_insert])"
proof -
  have "constraint_conflict_possible cascade_context (lt_metadata demo_insert) (lt_metadata demo_insert)"
    by code_simp
  then show ?thesis
    using integrity_filter_exact [OF cascade_schema_ok demo_insert_index demo_insert_wellformed]
      demo_insert_wellformed by simp
qed

section \<open>Hidden keys\<close>

definition implicit_key_direction :: "check_context \<Rightarrow> statement_metadata \<Rightarrow> statement_metadata \<Rightarrow> bool" where
  "implicit_key_direction ctx a b \<longleftrightarrow>
     (\<exists>key. omitted_integer_primary_key_column ctx a = Some key \<and> same_written_table a b \<and>
        (omitted_integer_primary_key_column ctx b \<noteq> None \<or>
         is_update_statement b \<and> metadata_write_overlap b (written_table a) {key} \<noteq> {}))"

lemma implicit_pass_iff:
  "fst (implicit_insert_key_pass ctx x a y b) \<noteq> [] \<longleftrightarrow> implicit_key_direction ctx a b"
  "snd (implicit_insert_key_pass ctx x a y b) \<Longrightarrow> implicit_key_direction ctx a b"
  by (auto simp: implicit_insert_key_pass_def implicit_key_direction_def
      implicit_insert_key_update_conflict_def split: option.splits if_splits)

lemma implicit_conflicts_iff:
  "implicit_insert_key_conflicts ctx a b \<noteq> [] \<longleftrightarrow>
     implicit_key_direction ctx a b \<or> implicit_key_direction ctx b a"
  using implicit_pass_iff(1) [of ctx "''ours''" a "''theirs''" b] implicit_pass_iff(2) [of ctx "''ours''" a "''theirs''" b]
    implicit_pass_iff(1) [of ctx "''theirs''" b "''ours''" a]
  by (auto simp: implicit_insert_key_conflicts_def split: prod.splits)

lemma omitted_key_of_table:
  "omitted_integer_primary_key_column ctx a = Some key \<Longrightarrow>
     is_insert_statement a \<and> context_integer_key ctx (written_table a) = Some key"
  by (auto simp: omitted_integer_primary_key_column_def Let_def split: if_splits option.splits)

lemma contributes_omitted:
  assumes "transaction_wellformed tr"
  shows "contributes ctx Omitted_C tr t columns \<longleftrightarrow>
    (\<exists>s \<in> set (lt_statements tr). \<exists>key. omitted_integer_primary_key_column ctx (ls_metadata s) = Some key \<and>
       written_table (ls_metadata s) = t \<and> covers {key} \<inter> covers columns \<noteq> {})"
proof -
  have no: "Omitted_C \<notin> own_counters kind" "Omitted_C \<notin> event_counters ev" for kind ev
    by (cases kind; simp) (cases ev; simp)
  have c: "contributions ctx Omitted_C m = omitted_updates ctx m" for m
    by (simp add: contributions_def event_updates_def no)
  have "(\<exists>cs. (t, cs) \<in> set (omitted_updates ctx (ls_metadata s)) \<and> covers cs \<inter> covers columns \<noteq> {}) \<longleftrightarrow>
      (\<exists>key. omitted_integer_primary_key_column ctx (ls_metadata s) = Some key \<and>
       written_table (ls_metadata s) = t \<and> covers {key} \<inter> covers columns \<noteq> {})"
    if "s \<in> set (lt_statements tr)" for s
  proof -
    have "statement_kind (ls_metadata s) = Insert_Kind"
      if "omitted_integer_primary_key_column ctx (ls_metadata s) = Some key" for key
      using omitted_key_of_table [OF that] kind_statement(1) wellformed_statement [OF assms] \<open>s \<in> _\<close> by blast
    then show ?thesis
      by (cases "omitted_integer_primary_key_column ctx (ls_metadata s)") (auto simp: omitted_updates_def)
  qed
  then show ?thesis unfolding contributes_def c by blast
qed

lemma contributions_update:
  "contributions ctx Update_C m =
     (if statement_kind m = Update_Kind then [(written_table m, columns_updated m)] else [])
     @ map (\<lambda>e. (event_table e, event_columns e)) (filter (\<lambda>e. event_kind e = Update_Event) (cascade_write_events m))"
proof -
  have "Update_C \<in> event_counters k \<longleftrightarrow> k = Update_Event" for k by (cases k) simp_all
  then show ?thesis by (cases "statement_kind m") (simp_all add: contributions_def event_updates_def)
qed

lemma contributions_write_write:
  "contributions ctx Write_Write_C m =
     (if statement_kind m \<in> {Update_Kind, Delete_Kind} then [(written_table m, columns_updated m)] else [])
     @ map (\<lambda>e. (event_table e, event_columns e)) (cascade_write_events m)"
proof -
  have "Write_Write_C \<in> event_counters k" for k by (cases k) simp_all
  then show ?thesis by (cases "statement_kind m") (simp_all add: contributions_def event_updates_def)
qed

definition no_cascades :: "logged_transaction \<Rightarrow> bool" where
  "no_cascades tr \<longleftrightarrow> \<not> tm_has_cascade_effects (lt_metadata tr)"

lemma no_cascades_statement:
  assumes "transaction_wellformed tr" "no_cascades tr" "s \<in> set (lt_statements tr)"
  shows "\<not> has_cascade_effects (ls_metadata s)" "cascade_write_events (ls_metadata s) = []"
proof -
  show none: "\<not> has_cascade_effects (ls_metadata s)"
    using assms by (auto simp: no_cascades_def transaction_wellformed_def transaction_metadata_def list_ex_iff)
  have "metadata_wellformed (ls_metadata s)" using assms(1,3) by (rule wellformed_statement)
  with none show "cascade_write_events (ls_metadata s) = []" unfolding metadata_wellformed_def by blast
qed

lemma same_table_wellformed:
  assumes "metadata_wellformed a" "metadata_wellformed b" "statement_kind a \<noteq> Other_Kind" "statement_kind b \<noteq> Other_Kind"
  shows "same_written_table a b \<longleftrightarrow> written_table a = written_table b"
  using written_table_wellformed [OF assms(1,3)] written_table_wellformed [OF assms(2,4)]
  by (simp add: same_written_table_def)

lemma implicit_direction_iff:
  assumes "metadata_wellformed a" "metadata_wellformed b"
  shows "implicit_key_direction ctx a b \<longleftrightarrow>
    (\<exists>key. omitted_integer_primary_key_column ctx a = Some key \<and> written_table a = written_table b \<and>
       (omitted_integer_primary_key_column ctx b = Some key \<or>
        statement_kind b = Update_Kind \<and> covers (columns_updated b) \<inter> covers {key} \<noteq> {}))"
proof -
  have ins: "statement_kind m = Insert_Kind" if "metadata_wellformed m" "omitted_integer_primary_key_column ctx m = Some key" for m key
    using omitted_key_of_table [OF that(2)] kind_statement(1) [OF that(1)] by blast
  have same: "omitted_integer_primary_key_column ctx b = Some key"
    if "omitted_integer_primary_key_column ctx a = Some key" "omitted_integer_primary_key_column ctx b = Some key'"
      "written_table a = written_table b" for key key'
    using omitted_key_of_table [OF that(1)] omitted_key_of_table [OF that(2)] that by simp
  have tab: "same_written_table a b \<longleftrightarrow> written_table a = written_table b"
    if "omitted_integer_primary_key_column ctx a = Some key"
      "statement_kind b = Insert_Kind \<or> statement_kind b = Update_Kind" for key
    using same_table_wellformed [OF assms] ins [OF assms(1) that(1)] that(2) by auto
  have upd: "metadata_write_overlap b t cs \<noteq> {} \<longleftrightarrow> t = written_table b \<and> covers (columns_updated b) \<inter> covers cs \<noteq> {}"
    if "statement_kind b = Update_Kind" for t cs
    using written_table_wellformed [OF assms(2)] that
    by (auto simp: metadata_write_overlap_def column_overlap_nonempty)
  show ?thesis
    unfolding implicit_key_direction_def
    using ins [OF assms(2)] same tab upd kind_statement(2) [OF assms(2)] by (metis not_Some_eq)
qed

lemma pairwise_implicit_iff:
  assumes "transaction_wellformed a" "transaction_wellformed b"
  shows "transaction_implicit_insert_key_conflicts ctx (lt_metadata a) (lt_metadata b) \<noteq> [] \<longleftrightarrow>
    (\<exists>s \<in> set (lt_statements a). \<exists>s' \<in> set (lt_statements b).
       implicit_key_direction ctx (ls_metadata s) (ls_metadata s') \<or>
       implicit_key_direction ctx (ls_metadata s') (ls_metadata s))"
  unfolding transaction_implicit_insert_key_conflicts_def wellformed_aggregate(1) [OF assms(1)]
    wellformed_aggregate(1) [OF assms(2)]
  by (auto simp: implicit_conflicts_iff)

lemma covers_single_commute: "covers a \<inter> covers b \<noteq> {} \<longleftrightarrow> covers b \<inter> covers a \<noteq> {}"
  by blast

lemma implicit_possible_of_direction:
  assumes "index_represents ctx index M" "\<forall>tr \<in># M. transaction_wellformed tr" "tr \<in># M"
    and "metadata_wellformed m" "s \<in> set (lt_statements tr)"
    and "implicit_key_direction ctx m (ls_metadata s) \<or> implicit_key_direction ctx (ls_metadata s) m"
  shows "statement_implicit_key_possible ctx index m"
proof -
  have wf: "transaction_wellformed tr" "metadata_wellformed (ls_metadata s)"
    using assms(2,3,5) wellformed_statement by blast+
  have ins: "statement_kind m = Insert_Kind" if "omitted_integer_primary_key_column ctx m = Some key" for key
    using omitted_key_of_table [OF that] kind_statement(1) [OF assms(4)] by blast
  have omitted: "column_counter_overlap (counter_of Omitted_C index) t columns"
    if "omitted_integer_primary_key_column ctx (ls_metadata s) = Some key"
      "written_table (ls_metadata s) = t" "covers {key} \<inter> covers columns \<noteq> {}" for t columns key
    using that assms(3,5) unfolding overlap_contributes [OF assms(1)] contributes_omitted [OF wf(1)]
    using contributes_omitted [OF wf(1)] by blast
  have update: "column_counter_overlap (counter_of Update_C index) t columns"
    if "statement_kind (ls_metadata s) = Update_Kind" "written_table (ls_metadata s) = t"
      "covers (columns_updated (ls_metadata s)) \<inter> covers columns \<noteq> {}" for t columns
    using that assms(3,5) unfolding overlap_contributes [OF assms(1)] contributes_def contributions_update
    by (intro bexI [of _ tr] bexI [of _ s] exI [of _ "columns_updated (ls_metadata s)"]) auto
  have self: "covers {key} \<inter> covers {key} \<noteq> {}" for key by simp
  show ?thesis
    using assms(6) ins omitted update self covers_single_commute
    unfolding implicit_direction_iff [OF assms(4) wf(2)] implicit_direction_iff [OF wf(2) assms(4)]
      statement_implicit_key_possible_iff
    by metis
qed

lemma direction_of_implicit_possible:
  assumes "index_represents ctx index M" "\<forall>tr \<in># M. transaction_wellformed tr \<and> no_cascades tr"
    and "metadata_wellformed m" "statement_implicit_key_possible ctx index m"
  shows "\<exists>tr \<in># M. \<exists>s \<in> set (lt_statements tr).
    implicit_key_direction ctx m (ls_metadata s) \<or> implicit_key_direction ctx (ls_metadata s) m"
proof -
  have wf: "metadata_wellformed (ls_metadata s)" "cascade_write_events (ls_metadata s) = []"
    if "tr \<in># M" "s \<in> set (lt_statements tr)" for tr s
    using assms(2) that wellformed_statement no_cascades_statement(2) by blast+
  have omitted: "\<exists>tr \<in># M. \<exists>s \<in> set (lt_statements tr). \<exists>key.
      omitted_integer_primary_key_column ctx (ls_metadata s) = Some key \<and>
      written_table (ls_metadata s) = t \<and> covers {key} \<inter> covers columns \<noteq> {}"
    if "column_counter_overlap (counter_of Omitted_C index) t columns" for t columns
    using that assms(2) contributes_omitted unfolding overlap_contributes [OF assms(1)] by blast
  have update: "\<exists>tr \<in># M. \<exists>s \<in> set (lt_statements tr). statement_kind (ls_metadata s) = Update_Kind \<and>
      written_table (ls_metadata s) = t \<and> covers (columns_updated (ls_metadata s)) \<inter> covers columns \<noteq> {}"
    if "column_counter_overlap (counter_of Update_C index) t columns" for t columns
  proof -
    from that obtain tr s cs where m: "tr \<in># M" "s \<in> set (lt_statements tr)"
        "(t, cs) \<in> set (contributions ctx Update_C (ls_metadata s))" "covers cs \<inter> covers columns \<noteq> {}"
      unfolding overlap_contributes [OF assms(1)] contributes_def by blast
    then show ?thesis
      using wf(2) [OF m(1,2)] by (auto simp: contributions_update split: if_splits)
  qed
  have ins: "statement_kind a \<noteq> Update_Kind"
    if "metadata_wellformed a" "omitted_integer_primary_key_column ctx a = Some key" for a key
    using omitted_key_of_table [OF that(2)] kind_statement(1) [OF that(1)] by auto
  have same: "omitted_integer_primary_key_column ctx a = Some key \<Longrightarrow>
      omitted_integer_primary_key_column ctx b = Some key' \<Longrightarrow> written_table a = written_table b \<Longrightarrow> key = key'"
    for a b key key'
    using omitted_key_of_table [of ctx a key] omitted_key_of_table [of ctx b key'] by auto
  from assms(4) [unfolded statement_implicit_key_possible_iff] show ?thesis
  proof (elim disjE conjE exE)
    assume "statement_kind m = Update_Kind"
      "column_counter_overlap (counter_of Omitted_C index) (written_table m) (columns_updated m)"
    from this(1) omitted [OF this(2)] wf(1) show ?thesis
      using implicit_direction_iff [OF _ assms(3)] covers_single_commute by metis
  next
    fix key assume key: "omitted_integer_primary_key_column ctx m = Some key"
      and "column_counter_overlap (counter_of Omitted_C index) (written_table m) {key}"
    from omitted [OF this(2)] wf(1) show ?thesis
      using implicit_direction_iff [OF assms(3)] same key by metis
  next
    fix key assume key: "omitted_integer_primary_key_column ctx m = Some key"
      and "column_counter_overlap (counter_of Update_C index) (written_table m) {key}"
    from update [OF this(2)] wf(1) show ?thesis
      using implicit_direction_iff [OF assms(3)] key by metis
  qed
qed

text \<open>
  C20. The hidden-key check is enabled for every remaining transaction whose INTEGER PRIMARY
  KEY assignment can clash with the current one in pairwise analysis; and when no remaining
  transaction has cascade effects it is enabled only then.
\<close>

theorem implicit_key_filter_sound:
  assumes "index_represents ctx index M" and "transaction_wellformed current"
    and "\<forall>tr \<in># M. transaction_wellformed tr"
  shows "((\<exists>tr \<in># M. transaction_implicit_insert_key_conflicts ctx (lt_metadata current) (lt_metadata tr) \<noteq> []) \<longrightarrow>
      Implicit_Insert_Key \<in> remaining_individual_check_kinds ctx current index) \<and>
    ((\<forall>tr \<in># M. no_cascades tr) \<longrightarrow>
      Implicit_Insert_Key \<in> remaining_individual_check_kinds ctx current index \<longrightarrow>
      (\<exists>tr \<in># M. transaction_implicit_insert_key_conflicts ctx (lt_metadata current) (lt_metadata tr) \<noteq> []))"
proof -
  have mem: "Implicit_Insert_Key \<in> remaining_individual_check_kinds ctx current index \<longleftrightarrow>
      M \<noteq> {#} \<and> (\<exists>s \<in> set (lt_statements current). statement_implicit_key_possible ctx index (ls_metadata s))"
    using index_is_empty_represents [OF assms(1)]
    by (auto simp: remaining_individual_check_kinds_def implicit_insert_key_conflict_possible_def list_ex_iff)
  have pair: "transaction_implicit_insert_key_conflicts ctx (lt_metadata current) (lt_metadata tr) \<noteq> [] \<longleftrightarrow>
    (\<exists>s \<in> set (lt_statements current). \<exists>s' \<in> set (lt_statements tr).
       implicit_key_direction ctx (ls_metadata s) (ls_metadata s') \<or>
       implicit_key_direction ctx (ls_metadata s') (ls_metadata s))" if "tr \<in># M" for tr
    using assms(2,3) that by (intro pairwise_implicit_iff) auto
  have wf: "metadata_wellformed (ls_metadata s)" if "s \<in> set (lt_statements current)" for s
    using assms(2) that by (rule wellformed_statement)
  show ?thesis
  proof (intro conjI impI)
    assume "\<exists>tr \<in># M. transaction_implicit_insert_key_conflicts ctx (lt_metadata current) (lt_metadata tr) \<noteq> []"
    then obtain tr s s' where d: "tr \<in># M" "s \<in> set (lt_statements current)" "s' \<in> set (lt_statements tr)"
        "implicit_key_direction ctx (ls_metadata s) (ls_metadata s') \<or>
         implicit_key_direction ctx (ls_metadata s') (ls_metadata s)"
      using pair by blast
    from implicit_possible_of_direction [OF assms(1,3) d(1) wf [OF d(2)] d(3,4)] d(1,2) mem
    show "Implicit_Insert_Key \<in> remaining_individual_check_kinds ctx current index" by auto
  next
    assume no: "\<forall>tr \<in># M. no_cascades tr"
      and "Implicit_Insert_Key \<in> remaining_individual_check_kinds ctx current index"
    then obtain s where s: "s \<in> set (lt_statements current)"
        "statement_implicit_key_possible ctx index (ls_metadata s)" using mem by blast
    have "\<forall>tr \<in># M. transaction_wellformed tr \<and> no_cascades tr" using assms(3) no by blast
    from direction_of_implicit_possible [OF assms(1) this wf [OF s(1)] s(2)] s(1)
    show "\<exists>tr \<in># M. transaction_implicit_insert_key_conflicts ctx (lt_metadata current) (lt_metadata tr) \<noteq> []"
      using pair by blast
  qed
qed

definition demo_keyless_metadata :: statement_metadata where
  "demo_keyless_metadata =
     (demo_metadata Insert_Expr ''a'' {ALL_COLUMNS} [])
       \<lparr>parsed_sql_text := unsupported_sql\<lparr>parsed_class := Insert_Expr, parsed_target :=
         Schema_Target (Some \<lparr>table_ident = ''a'', table_db = [], table_alias_or_name = ''a''\<rparr>) [''a_id'']\<rparr>\<rparr>"

definition demo_keyless :: logged_transaction where
  "demo_keyless = demo_transaction ''INSERT INTO a (a_id) VALUES (1)'' demo_keyless_metadata"

lemma demo_keyless_wellformed: "transaction_wellformed demo_keyless"
  unfolding demo_keyless_def
  by (rule demo_transaction_wellformed)
    (auto simp: demo_keyless_metadata_def demo_metadata_def metadata_wellformed_def
      unsupported_statement_metadata_def unsupported_sql_def statement_kind_of_def target_table_name_def
      table_name_def column_map_ok_def dict_ok_def map_covers_def dict_get_def)

theorem implicit_key_filter_sound_witness:
  "Implicit_Insert_Key \<in> remaining_individual_check_kinds cascade_context demo_keyless
     (from_transactions cascade_context [demo_keyless])"
proof -
  have "index_represents cascade_context (from_transactions cascade_context [demo_keyless]) {#demo_keyless#}"
    using from_transactions_represents [of "[demo_keyless]" cascade_context] demo_keyless_wellformed by simp
  moreover have "transaction_implicit_insert_key_conflicts cascade_context (lt_metadata demo_keyless)
      (lt_metadata demo_keyless) \<noteq> []"
    by code_simp
  ultimately show ?thesis
    using implicit_key_filter_sound [of cascade_context _ "{#demo_keyless#}" demo_keyless] demo_keyless_wellformed
    by simp
qed

section \<open>Overlapping writes\<close>

lemma direct_overlap_iff:
  assumes "metadata_wellformed a" "metadata_wellformed b"
  shows "direct_write_write_overlap a b \<longleftrightarrow>
    statement_kind a \<in> {Update_Kind, Delete_Kind} \<and> statement_kind b \<in> {Update_Kind, Delete_Kind} \<and>
    (statement_kind a = Update_Kind \<or> statement_kind b = Update_Kind) \<and>
    written_table a = written_table b \<and> covers (columns_updated b) \<inter> covers (columns_updated a) \<noteq> {}"
proof -
  have other: "table_updated m = None" if "metadata_wellformed m" "statement_kind m = Other_Kind" for m
    using that unfolding metadata_wellformed_def by blast
  show ?thesis
    using kind_statement [OF assms(1)] kind_statement [OF assms(2)] other [OF assms(1)] other [OF assms(2)]
      written_table_wellformed [OF assms(1)] written_table_wellformed [OF assms(2)]
    by (cases "statement_kind a"; cases "statement_kind b")
      (auto simp: direct_write_write_overlap_def same_written_table_def metadata_write_overlap_def
        column_overlap_nonempty)
qed

lemma write_write_possible_iff:
  assumes "index_represents ctx index M" "\<forall>tr \<in># M. transaction_wellformed tr \<and> no_cascades tr"
    and "metadata_wellformed m" "cascade_write_events m = []"
  shows "statement_write_write_possible index m \<longleftrightarrow>
    (\<exists>tr \<in># M. \<exists>s \<in> set (lt_statements tr). direct_write_write_overlap m (ls_metadata s))"
proof -
  have wf: "metadata_wellformed (ls_metadata s)" "cascade_write_events (ls_metadata s) = []"
    if "tr \<in># M" "s \<in> set (lt_statements tr)" for tr s
    using assms(2) that wellformed_statement no_cascades_statement(2) by blast+
  have ww: "column_counter_overlap (write_write_column_counts index) t columns \<longleftrightarrow>
      (\<exists>tr \<in># M. \<exists>s \<in> set (lt_statements tr). statement_kind (ls_metadata s) \<in> {Update_Kind, Delete_Kind} \<and>
        written_table (ls_metadata s) = t \<and> covers (columns_updated (ls_metadata s)) \<inter> covers columns \<noteq> {})"
    for t columns
    using overlap_contributes [OF assms(1), of Write_Write_C t columns]
    by (auto simp: contributes_def contributions_write_write wf intro!: bexI)
  have up: "column_counter_overlap (update_column_counts_of index) t columns \<longleftrightarrow>
      (\<exists>tr \<in># M. \<exists>s \<in> set (lt_statements tr). statement_kind (ls_metadata s) = Update_Kind \<and>
        written_table (ls_metadata s) = t \<and> covers (columns_updated (ls_metadata s)) \<inter> covers columns \<noteq> {})"
    for t columns
    using overlap_contributes [OF assms(1), of Update_C t columns]
    by (auto simp: contributes_def contributions_update wf intro!: bexI)
  have d: "direct_write_write_overlap m (ls_metadata s) \<longleftrightarrow>
      statement_kind m \<in> {Update_Kind, Delete_Kind} \<and> statement_kind (ls_metadata s) \<in> {Update_Kind, Delete_Kind} \<and>
      (statement_kind m = Update_Kind \<or> statement_kind (ls_metadata s) = Update_Kind) \<and>
      written_table m = written_table (ls_metadata s) \<and>
      covers (columns_updated (ls_metadata s)) \<inter> covers (columns_updated m) \<noteq> {}"
    if "tr \<in># M" "s \<in> set (lt_statements tr)" for tr s
    using direct_overlap_iff [OF assms(3) wf(1) [OF that]] .
  have eq: "(\<exists>tr \<in># M. \<exists>s \<in> set (lt_statements tr). direct_write_write_overlap m (ls_metadata s)) \<longleftrightarrow>
      (\<exists>tr \<in># M. \<exists>s \<in> set (lt_statements tr).
        statement_kind m \<in> {Update_Kind, Delete_Kind} \<and> statement_kind (ls_metadata s) \<in> {Update_Kind, Delete_Kind} \<and>
        (statement_kind m = Update_Kind \<or> statement_kind (ls_metadata s) = Update_Kind) \<and>
        written_table m = written_table (ls_metadata s) \<and>
        covers (columns_updated (ls_metadata s)) \<inter> covers (columns_updated m) \<noteq> {})"
    using d by (intro bex_cong refl) blast
  show ?thesis
  proof (cases "statement_kind m")
    case Update_Kind
    show ?thesis
      unfolding eq statement_write_write_possible_def ww assms(4) Update_Kind by simp metis
  next
    case Delete_Kind
    have "columns_updated m = {ALL_COLUMNS}" using wellformed_all_columns [OF assms(3)] Delete_Kind by simp
    then show ?thesis
      unfolding eq statement_write_write_possible_def up assms(4) Delete_Kind by simp metis
  qed (auto simp: eq statement_write_write_possible_def assms(4))
qed

text \<open>
  C16. Without cascade effects the write/write check is enabled exactly when pairwise
  analysis would report overlapping writes with some remaining transaction.
\<close>

theorem write_write_filter_exact:
  assumes "index_represents ctx index M" and "transaction_wellformed current \<and> no_cascades current"
    and "\<forall>tr \<in># M. transaction_wellformed tr \<and> no_cascades tr"
  shows "Write_Write \<in> remaining_individual_check_kinds ctx current index \<longleftrightarrow>
    (\<exists>tr \<in># M. transaction_write_write_overlap (lt_metadata current) (lt_metadata tr))"
proof -
  have wf: "metadata_wellformed (ls_metadata s)" "cascade_write_events (ls_metadata s) = []"
      "\<not> has_cascade_effects (ls_metadata s)"
    if "transaction_wellformed tr \<and> no_cascades tr" "s \<in> set (lt_statements tr)" for tr s
    using that wellformed_statement no_cascades_statement by blast+
  have "(\<exists>tr \<in># M. transaction_write_write_overlap (lt_metadata current) (lt_metadata tr)) \<longleftrightarrow>
      (\<exists>s \<in> set (lt_statements current). \<exists>tr \<in># M. \<exists>s' \<in> set (lt_statements tr).
        direct_write_write_overlap (ls_metadata s) (ls_metadata s'))"
  proof -
    have "metadata_write_write_overlap (ls_metadata s) (ls_metadata s') =
        direct_write_write_overlap (ls_metadata s) (ls_metadata s')"
      if "s \<in> set (lt_statements current)" "tr \<in># M" "s' \<in> set (lt_statements tr)" for s s' tr
      using wf(3) [OF assms(2) that(1)] wf(3) [OF _ that(3)] assms(3) that(2)
      by (simp add: metadata_write_write_overlap_def)
    then have "transaction_write_write_overlap (lt_metadata current) (lt_metadata tr) \<longleftrightarrow>
        (\<exists>s \<in> set (lt_statements current). \<exists>s' \<in> set (lt_statements tr).
          direct_write_write_overlap (ls_metadata s) (ls_metadata s'))" if "tr \<in># M" for tr
      using that assms(2,3) unfolding transaction_write_write_overlap_def
      by (simp add: wellformed_aggregate(1) list_ex_iff cong: bex_cong)
    then show ?thesis by blast
  qed
  moreover have "write_write_conflict_possible current index \<longleftrightarrow>
      (\<exists>s \<in> set (lt_statements current). \<exists>tr \<in># M. \<exists>s' \<in> set (lt_statements tr).
        direct_write_write_overlap (ls_metadata s) (ls_metadata s'))"
    unfolding write_write_conflict_possible_def list_ex_iff
    using write_write_possible_iff [OF assms(1,3) wf(1,2) [OF assms(2)]] by (simp cong: bex_cong)
  ultimately show ?thesis
    using index_is_empty_represents [OF assms(1)]
    by (auto simp: remaining_individual_check_kinds_def)
qed

definition demo_same_update :: logged_transaction where
  "demo_same_update = demo_transaction ''UPDATE t SET a = 1'' (demo_metadata Update_Expr ''t'' {''a''} [])"

theorem write_write_filter_exact_witness:
  "Write_Write \<in> remaining_individual_check_kinds cascade_context demo_same_update
     (from_transactions cascade_context [demo_same_update])"
proof -
  have wf: "transaction_wellformed demo_same_update"
    unfolding demo_same_update_def by (rule demo_transaction_wellformed, rule demo_metadata_wellformed) simp_all
  moreover have "no_cascades demo_same_update" by code_simp
  moreover have "index_represents cascade_context (from_transactions cascade_context [demo_same_update]) {#demo_same_update#}"
    using from_transactions_represents [of "[demo_same_update]" cascade_context] wf by simp
  moreover have "transaction_write_write_overlap (lt_metadata demo_same_update) (lt_metadata demo_same_update)"
    by code_simp
  ultimately show ?thesis
    using write_write_filter_exact [of cascade_context _ "{#demo_same_update#}" demo_same_update] by simp
qed

lemma demo_delete_effects:
  "cascade_effects_for_parsed_statement (edges_by_parent cascade_context) (context_tables cascade_context)
     Delete_Event ''a'' {ALL_COLUMNS} =
   \<lparr>effects_updated = [(''b'', {ALL_COLUMNS})], effects_referenced = [(''b'', {''a_id''})],
    effects_write_events = [\<lparr>event_table = ''b'', event_columns = {ALL_COLUMNS}, event_kind = Delete_Event\<rparr>]\<rparr>"
  unfolding cascade_context_edges
  by (simp add: cascade_effects_for_parsed_statement_def cascade_effects_for_event_def Let_def
      initial_state_def cascade_loop.simps MAX_CASCADE_METADATA_DEPTH_def edges_of_def dict_get_def
      expand_edge_def action_for_parent_event_def cascade_child_event_def add_columns_to_column_map_def
      dict_setdefault_def ALL_COLUMNS_def)
lemma demo_delete_maps:
  "updated_map demo_delete = [(''a'', {ALL_COLUMNS}), (''b'', {ALL_COLUMNS})]"
  "cascade_write_events demo_delete = [\<lparr>event_table = ''b'', event_columns = {ALL_COLUMNS}, event_kind = Delete_Event\<rparr>]"
  "has_cascade_effects demo_delete"
  "columns_updated demo_delete = {ALL_COLUMNS}"
  "parsed_class (parsed_sql_text demo_delete) = Delete_Expr"
  by (simp_all add: demo_delete_def parse_statement_metadata_for_context_def parse_statement_metadata_def
      Let_def demo_delete_parses statement_kind_of_def target_table_name_def demo_target_def updated_columns_def
      table_name_def written_tables_to_columns_def cascade_effects_for_metadata_def demo_delete_effects
      has_effects_def add_columns_by_table_def add_columns_to_column_map_def dict_get_def dict_setdefault_def)

text \<open>
  C21. With cascade effects the filter can miss what pairwise analysis reports: deleting a
  parent row cascades into the child table, pairwise analysis reports overlapping writes
  with an INSERT into the child, and the filter does not enable the write/write check.
\<close>

definition demo_delete_parent :: logged_transaction where
  "demo_delete_parent = demo_transaction ''DELETE FROM a'' demo_delete"

definition demo_insert_child :: logged_transaction where
  "demo_insert_child = demo_transaction ''INSERT INTO b VALUES (1, 1)''
     (demo_metadata Insert_Expr ''b'' {ALL_COLUMNS} [])"


end
