(* ===== verification/Log_Wrapper.thy ===== *)
theory Log_Wrapper
  imports Conflict_Resolution
begin

text \<open>
  The logging connection: \<open>src/sqlite_wrapper/wrapper.py\<close>. Every statement goes through
  \<open>execute_on\<close>, which prepares a log entry, executes the statement and moves the entry to
  the log tables, into the buffer of the open transaction, or nowhere. The SQLite
  connection is the parameter \<open>engine\<close>, a record of the calls the wrapper makes on it; the
  replay preparation and the SQL parser are the parameters \<open>prepare\<close> and \<open>parse_is_dml\<close>
  (\<open>None\<close> is a parse error). A statement that raises returns its error with the state it
  leaves behind.
\<close>

section \<open>The connection\<close>

datatype wrapper_error = Sqlite_Error string | Programming_Error string | Runtime_Error string

text \<open>
  What the wrapper calls on its connection: executing a statement (an error message or
  success, with the connection after it), \<open>in_transaction\<close>, \<open>total_changes\<close>, the insertion of
  a row into the transaction table with its \<open>lastrowid\<close>, and of a row into the log table.
\<close>

record 'db engine =
  run_sql :: "string \<Rightarrow> 'db \<Rightarrow> string option \<times> 'db"
  db_in_transaction :: "'db \<Rightarrow> bool"
  total_changes :: "'db \<Rightarrow> nat"
  insert_transaction_row :: "'db \<Rightarrow> int option \<times> 'db"
  insert_log_row :: "int \<Rightarrow> log_entry \<Rightarrow> 'db \<Rightarrow> 'db"

record 'db wrapper =
  conn :: 'db
  in_transaction :: bool
  buffer :: "log_entry list"
  savepoints :: "(string \<times> nat) list"
  transaction_error_reason :: "string option"

definition new_wrapper :: "'db \<Rightarrow> 'db wrapper" where
  "new_wrapper db =
     \<lparr>conn = db, in_transaction = False, buffer = [], savepoints = [], transaction_error_reason = None\<rparr>"

definition LOG_TABLE :: string where "LOG_TABLE = ''_sqlite_merge_log''"
definition TX_TABLE :: string where "TX_TABLE = ''_sqlite_merge_transactions''"
definition EXECUTION_ERROR_REASON :: string where
  "EXECUTION_ERROR_REASON = ''statement raised an execution error''"
definition PARAMETERIZED_DML_ERROR :: string where
  "PARAMETERIZED_DML_ERROR =
     ''sqlite-reconcile wrapper does not support bound parameters for logged DML; ''
     @ ''execute a literal SQL statement instead''"
definition INCLUDED :: "string list" where
  "INCLUDED = [''INSERT'', ''UPDATE'', ''DELETE'', ''REPLACE'']"

section \<open>Which statements are logged\<close>

definition should_log :: "(string \<Rightarrow> bool option) \<Rightarrow> string \<Rightarrow> bool" where
  "should_log parse_is_dml sql =
     (let sql = strip sql; sql_upper = ascii_upper sql in
      if contains_text sql_upper (ascii_upper LOG_TABLE) \<or> contains_text sql_upper (ascii_upper TX_TABLE)
      then False
      else if list_ex (starts_with sql_upper) INCLUDED then True
      else if \<not> (starts_with sql_upper ''WITH'' \<and>
                 (length sql_upper = 4 \<or> \<not> identifier_char (sql_upper ! 4))) then False
      else case parse_is_dml sql of None \<Rightarrow> True | Some dml \<Rightarrow> dml)"

text \<open>
  \<open>_split_sql_script\<close>; \<open>complete_statement\<close> is SQLite's check of a complete statement.
\<close>

definition split_step ::
    "(string \<Rightarrow> bool) \<Rightarrow> string list \<times> string \<Rightarrow> char \<Rightarrow> string list \<times> string" where
  "split_step complete_statement acc char =
     (case acc of (statements, buf) \<Rightarrow>
        let candidate = buf @ [char] in
        if complete_statement candidate
        then (if strip (rstrip_semicolons (strip candidate)) \<noteq> []
              then statements @ [strip candidate] else statements, [])
        else (statements, candidate))"

definition split_sql_script :: "(string \<Rightarrow> bool) \<Rightarrow> string \<Rightarrow> string list" where
  "split_sql_script complete_statement sql_script =
     (case foldl (split_step complete_statement) ([], []) sql_script of
        (statements, buf) \<Rightarrow>
          if strip buf \<noteq> [] then statements @ [strip buf] else statements)"

section \<open>Buffer management\<close>

definition begin_buffer :: "'db wrapper \<Rightarrow> 'db wrapper" where
  "begin_buffer w =
     w\<lparr>in_transaction := True, buffer := [], savepoints := [], transaction_error_reason := None\<rparr>"

definition discard :: "'db wrapper \<Rightarrow> 'db wrapper" where
  "discard w =
     w\<lparr>buffer := [], savepoints := [], in_transaction := False, transaction_error_reason := None\<rparr>"

text \<open>\<open>_write\<close>: a transaction row, then the entries under its id.\<close>

definition write_log ::
    "'db engine \<Rightarrow> log_entry list \<Rightarrow> 'db wrapper \<Rightarrow> wrapper_error option \<times> 'db wrapper" where
  "write_log eng entries w =
     (case insert_transaction_row eng (conn w) of
        (None, db) \<Rightarrow>
          (Some (Runtime_Error ''SQLite did not return a transaction row id''), w\<lparr>conn := db\<rparr>)
      | (Some tx_id, db) \<Rightarrow>
          (None, w\<lparr>conn := foldl (\<lambda>db entry. insert_log_row eng tx_id entry db) db entries\<rparr>))"

text \<open>\<open>entry.replay_block_reason or reason\<close>.\<close>

definition reason_or :: "string option \<Rightarrow> string \<Rightarrow> string option" where
  "reason_or a b = (case a of None \<Rightarrow> Some b | Some s \<Rightarrow> if s = [] then Some b else Some s)"

definition block_entry :: "string \<Rightarrow> log_entry \<Rightarrow> log_entry" where
  "block_entry reason entry =
     entry\<lparr>entry_is_replay_safe := False,
           entry_block_reason := reason_or (entry_block_reason entry) reason\<rparr>"

definition flush :: "'db engine \<Rightarrow> 'db wrapper \<Rightarrow> wrapper_error option \<times> 'db wrapper" where
  "flush eng w =
     (if buffer w = [] then (None, discard w)
      else let w1 = (case transaction_error_reason w of
                None \<Rightarrow> w
              | Some reason \<Rightarrow>
                  if reason = [] then w else w\<lparr>buffer := map (block_entry reason) (buffer w)\<rparr>)
           in case write_log eng (buffer w1) w1 of
                (Some error, w2) \<Rightarrow> (Some error, w2)
              | (None, w2) \<Rightarrow> (None, discard w2))"

text \<open>\<open>sql.split()[-1].strip("\"'`;")\<close>.\<close>

fun last_word_from :: "string \<Rightarrow> string" where
  "last_word_from s = rev (takeWhile (\<lambda>c. \<not> is_space c) (dropWhile is_space (rev s)))"

definition strip_quotes :: "string \<Rightarrow> string" where
  "strip_quotes s =
     (let q = (\<lambda>c. c = CHR 0x22 \<or> c = CHR 0x27 \<or> c = CHR 0x60 \<or> c = CHR '';'')
      in rev (dropWhile q (rev (dropWhile q s))))"

definition savepoint_name :: "string \<Rightarrow> string" where
  "savepoint_name sql = strip_quotes (last_word_from sql)"

definition push_savepoint :: "string \<Rightarrow> 'db wrapper \<Rightarrow> 'db wrapper" where
  "push_savepoint sql w =
     (let w1 = (if in_transaction w then w else begin_buffer w)
      in w1\<lparr>savepoints := savepoints w1 @ [(savepoint_name sql, length (buffer w1))]\<rparr>)"

definition release_savepoint :: "'db engine \<Rightarrow> 'db wrapper \<Rightarrow> wrapper_error option \<times> 'db wrapper" where
  "release_savepoint eng w =
     (let w1 = (if savepoints w \<noteq> [] then w\<lparr>savepoints := butlast (savepoints w)\<rparr> else w)
      in if in_transaction w1 \<and> \<not> db_in_transaction eng (conn w1) then flush eng w1 else (None, w1))"

text \<open>The index of the most recent savepoint of a name, in any case.\<close>

definition find_savepoint :: "string \<Rightarrow> (string \<times> nat) list \<Rightarrow> nat option" where
  "find_savepoint name sps =
     List.find (\<lambda>i. ascii_upper (fst (sps ! i)) = ascii_upper name) (rev [0..<length sps])"

definition rollback_to_savepoint :: "string \<Rightarrow> 'db wrapper \<Rightarrow> 'db wrapper" where
  "rollback_to_savepoint sql w =
     (case find_savepoint (savepoint_name sql) (savepoints w) of
        None \<Rightarrow> w
      | Some i \<Rightarrow>
          w\<lparr>buffer := take (snd (savepoints w ! i)) (buffer w),
            savepoints := take (i + 1) (savepoints w)\<rparr>)"

section \<open>Executing\<close>

definition execution_error_text :: "string \<Rightarrow> string" where
  "execution_error_text error = EXECUTION_ERROR_REASON @ '': '' @ error"

definition mark_transaction_error :: "string \<Rightarrow> 'db wrapper \<Rightarrow> 'db wrapper" where
  "mark_transaction_error error w =
     (if \<not> in_transaction w then w
      else w\<lparr>transaction_error_reason :=
               reason_or (transaction_error_reason w) (execution_error_text error)\<rparr>)"

definition entry_with_execution_error :: "log_entry \<Rightarrow> string \<Rightarrow> log_entry" where
  "entry_with_execution_error entry error =
     (let reason = execution_error_text error;
          reason1 = (case entry_block_reason entry of
             None \<Rightarrow> reason
           | Some r \<Rightarrow> if r = [] then reason else r @ ''; '' @ reason)
      in entry\<lparr>entry_is_replay_safe := False, entry_block_reason := Some reason1\<rparr>)"

definition record_effectful_entry ::
    "'db engine \<Rightarrow> log_entry option \<Rightarrow> 'db wrapper \<Rightarrow> wrapper_error option \<times> 'db wrapper" where
  "record_effectful_entry eng entry w =
     (case entry of
        None \<Rightarrow> (None, w)
      | Some e \<Rightarrow>
          if in_transaction w then (None, w\<lparr>buffer := buffer w @ [e]\<rparr>) else write_log eng [e] w)"

definition entry_for_execute ::
    "(string \<Rightarrow> bool option) \<Rightarrow> (string \<Rightarrow> 'db \<Rightarrow> log_entry) \<Rightarrow> string \<Rightarrow> bool \<Rightarrow> 'db wrapper \<Rightarrow>
     wrapper_error + log_entry option" where
  "entry_for_execute parse_is_dml prepare sql has_parameters w =
     (let stripped = strip sql in
      if \<not> should_log parse_is_dml stripped then Inr None
      else if has_parameters then Inl (Programming_Error PARAMETERIZED_DML_ERROR)
      else Inr (Some (prepare stripped (conn w))))"

definition execute_sql_for_entry :: "log_entry option \<Rightarrow> string \<Rightarrow> string" where
  "execute_sql_for_entry entry sql =
     (case entry of
        Some e \<Rightarrow> if entry_is_replay_safe e then entry_replay_sql_text e else sql
      | None \<Rightarrow> sql)"

text \<open>The dispatch on the leading keyword after a statement that succeeded.\<close>

definition after_success ::
    "'db engine \<Rightarrow> string \<Rightarrow> log_entry option \<Rightarrow> 'db wrapper \<Rightarrow> wrapper_error option \<times> 'db wrapper" where
  "after_success eng stripped entry w =
     (let upper_sql = ascii_upper stripped in
      if starts_with upper_sql ''BEGIN'' then (None, begin_buffer w)
      else if starts_with upper_sql ''COMMIT'' then flush eng w
      else if starts_with upper_sql ''ROLLBACK TO'' then (None, rollback_to_savepoint stripped w)
      else if starts_with upper_sql ''ROLLBACK'' then (None, discard w)
      else if starts_with upper_sql ''SAVEPOINT'' then (None, push_savepoint stripped w)
      else if starts_with upper_sql ''RELEASE'' then release_savepoint eng w
      else record_effectful_entry eng entry w)"

definition after_error ::
    "'db engine \<Rightarrow> log_entry option \<Rightarrow> nat \<Rightarrow> string \<Rightarrow> 'db wrapper \<Rightarrow> wrapper_error option \<times> 'db wrapper" where
  "after_error eng entry total_changes_before error w =
     (if in_transaction w \<and> \<not> db_in_transaction eng (conn w)
      then (Some (Sqlite_Error error), discard w)
      else case (case entry of
          Some e \<Rightarrow>
            if total_changes eng (conn w) \<noteq> total_changes_before
            then record_effectful_entry eng (Some (entry_with_execution_error e error)) w
            else (None, w)
        | None \<Rightarrow> (None, w)) of
          (Some raised, w1) \<Rightarrow> (Some raised, w1)
        | (None, w1) \<Rightarrow> (Some (Sqlite_Error error), mark_transaction_error error w1))"

definition execute_on ::
    "'db engine \<Rightarrow> (string \<Rightarrow> bool option) \<Rightarrow> (string \<Rightarrow> 'db \<Rightarrow> log_entry) \<Rightarrow> string \<Rightarrow> bool \<Rightarrow>
     'db wrapper \<Rightarrow> wrapper_error option \<times> 'db wrapper" where
  "execute_on eng parse_is_dml prepare sql has_parameters w =
     (let stripped = strip sql in
      case entry_for_execute parse_is_dml prepare stripped has_parameters w of
        Inl error \<Rightarrow> (Some error, w)
      | Inr entry \<Rightarrow>
          (let total_changes_before = total_changes eng (conn w) in
           case run_sql eng (execute_sql_for_entry entry stripped) (conn w) of
             (Some error, db) \<Rightarrow> after_error eng entry total_changes_before error (w\<lparr>conn := db\<rparr>)
           | (None, db) \<Rightarrow> after_success eng stripped entry (w\<lparr>conn := db\<rparr>)))"

section \<open>The public calls\<close>

text \<open>A sequence of calls that stops at the first error raised.\<close>

fun execute_all ::
    "(string \<times> bool \<Rightarrow> 'db wrapper \<Rightarrow> wrapper_error option \<times> 'db wrapper) \<Rightarrow> (string \<times> bool) list \<Rightarrow>
     'db wrapper \<Rightarrow> wrapper_error option \<times> 'db wrapper" where
  "execute_all f [] w = (None, w)"
| "execute_all f (c # cs) w =
     (case f c w of (Some e, w1) \<Rightarrow> (Some e, w1) | (None, w1) \<Rightarrow> execute_all f cs w1)"

definition executemany ::
    "'db engine \<Rightarrow> (string \<Rightarrow> bool option) \<Rightarrow> (string \<Rightarrow> 'db \<Rightarrow> log_entry) \<Rightarrow> string \<Rightarrow> bool list \<Rightarrow>
     'db wrapper \<Rightarrow> wrapper_error option \<times> 'db wrapper" where
  "executemany eng parse prepare sql parameter_sets =
     execute_all (\<lambda>(sql, has). execute_on eng parse prepare sql has) (map (Pair sql) parameter_sets)"

definition executescript ::
    "'db engine \<Rightarrow> (string \<Rightarrow> bool option) \<Rightarrow> (string \<Rightarrow> 'db \<Rightarrow> log_entry) \<Rightarrow> (string \<Rightarrow> bool) \<Rightarrow> string \<Rightarrow>
     'db wrapper \<Rightarrow> wrapper_error option \<times> 'db wrapper" where
  "executescript eng parse prepare complete_statement script =
     execute_all (\<lambda>(sql, has). execute_on eng parse prepare sql has)
       (map (\<lambda>s. (s, False)) (split_sql_script complete_statement script))"

text \<open>\<open>commit\<close> and \<open>rollback\<close> swallow the error of a connection outside any transaction.\<close>

definition ignore_no_transaction ::
    "wrapper_error option \<times> 'db wrapper \<Rightarrow> wrapper_error option \<times> 'db wrapper" where
  "ignore_no_transaction r =
     (case r of
        (Some (Sqlite_Error msg), w) \<Rightarrow>
          if contains_text (ascii_lower msg) ''no transaction'' then (None, w) else r
      | _ \<Rightarrow> r)"

definition commit ::
    "'db engine \<Rightarrow> (string \<Rightarrow> bool option) \<Rightarrow> (string \<Rightarrow> 'db \<Rightarrow> log_entry) \<Rightarrow>
     'db wrapper \<Rightarrow> wrapper_error option \<times> 'db wrapper" where
  "commit eng parse prepare w = ignore_no_transaction (execute_on eng parse prepare ''COMMIT'' False w)"

definition rollback ::
    "'db engine \<Rightarrow> (string \<Rightarrow> bool option) \<Rightarrow> (string \<Rightarrow> 'db \<Rightarrow> log_entry) \<Rightarrow>
     'db wrapper \<Rightarrow> wrapper_error option \<times> 'db wrapper" where
  "rollback eng parse prepare w = ignore_no_transaction (execute_on eng parse prepare ''ROLLBACK'' False w)"

text \<open>\<open>__exit__\<close>: commit after a clean body, roll back otherwise, then discard and close.\<close>

definition exit_context ::
    "'db engine \<Rightarrow> (string \<Rightarrow> bool option) \<Rightarrow> (string \<Rightarrow> 'db \<Rightarrow> log_entry) \<Rightarrow> bool \<Rightarrow>
     'db wrapper \<Rightarrow> wrapper_error option \<times> 'db wrapper" where
  "exit_context eng parse prepare raised w =
     (case (if raised then rollback eng parse prepare w else commit eng parse prepare w) of
        (Some e, w1) \<Rightarrow> (Some e, w1)
      | (None, w1) \<Rightarrow> (None, discard w1))"

section \<open>Reading the log\<close>

record log_row =
  row_transaction_id :: int
  row_entry :: log_entry

text \<open>The rows of the log table in id order, joined with the transaction table.\<close>

definition get_log :: "(int, string) dict \<Rightarrow> log_row list \<Rightarrow> int \<Rightarrow> (log_row \<times> string) list" where
  "get_log transactions rows since_transaction_id =
     List.map_filter (\<lambda>row.
        case map_of transactions (row_transaction_id row) of
          None \<Rightarrow> None
        | Some committed_at \<Rightarrow>
            if since_transaction_id < row_transaction_id row then Some (row, committed_at) else None)
       rows"

end
