(* ===== verification/Log_Wrapper_Props.thy ===== *)
theory Log_Wrapper_Props
  imports Log_Wrapper
begin

text \<open>
  The log against what SQLite commits. A reference connection states the documented
  transaction semantics of SQLite (nested savepoints, partial failures, rollback on error, statements
  that change nothing); run on it, the wrapper logs exactly the changes that were committed, transaction
  by transaction, and besides them only statements that changed nothing. Where the wrapper's bookkeeping departs from SQLite's, a concrete run shows it.
\<close>

section \<open>A reference connection\<close>

text \<open>
  Statements are identified by the text executed, and the outcome of a text says whether it changes
  the database. A transaction that was started by a savepoint commits when its last savepoint is released.
\<close>

record open_transaction =
  explicit_begin :: bool
  pending :: "string list"
  stack :: "(string \<times> string list) list"

record reference_db =
  committed :: "string list list"
  open_tx :: "open_transaction option"
  changes :: nat
  log_groups :: "log_entry list list"

datatype command =
    Begin_Cmd | Commit_Cmd | Rollback_Cmd | Rollback_To_Cmd string | Savepoint_Cmd string
  | Release_Cmd string | Write_Cmd | Read_Cmd

datatype run_outcome = Succeeds | Succeeds_Without_Change | Fails | Fails_Partially | Fails_And_Rolls_Back

definition fresh_db :: reference_db where
  "fresh_db = \<lparr>committed = [], open_tx = None, changes = 0, log_groups = []\<rparr>"

definition unwind :: "string \<Rightarrow> (string \<times> string list) list \<Rightarrow> (string \<times> string list) list" where
  "unwind name sps = rev (dropWhile (\<lambda>sp. ascii_upper (fst sp) \<noteq> ascii_upper name) (rev sps))"

definition record_write :: "string \<Rightarrow> reference_db \<Rightarrow> reference_db" where
  "record_write text db =
     (case open_tx db of
        None \<Rightarrow> db\<lparr>committed := committed db @ [[text]], changes := changes db + 1\<rparr>
      | Some tx \<Rightarrow> db\<lparr>open_tx := Some (tx\<lparr>pending := pending tx @ [text]\<rparr>), changes := changes db + 1\<rparr>)"

definition commit_tx :: "open_transaction \<Rightarrow> reference_db \<Rightarrow> reference_db" where
  "commit_tx tx db = db\<lparr>committed := committed db @ [pending tx], open_tx := None\<rparr>"

definition run_command :: "command \<Rightarrow> run_outcome \<Rightarrow> string \<Rightarrow> reference_db \<Rightarrow> string option \<times> reference_db" where
  "run_command cmd out text db =
     (case (cmd, open_tx db) of
        (Begin_Cmd, None) \<Rightarrow>
          (None, db\<lparr>open_tx := Some \<lparr>explicit_begin = True, pending = [], stack = []\<rparr>\<rparr>)
      | (Begin_Cmd, Some _) \<Rightarrow> (Some ''cannot start a transaction within a transaction'', db)
      | (Commit_Cmd, Some tx) \<Rightarrow>
          if out = Succeeds \<or> out = Succeeds_Without_Change then (None, commit_tx tx db) else (Some ''commit failed'', db)
      | (Commit_Cmd, None) \<Rightarrow> (Some ''cannot commit - no transaction is active'', db)
      | (Rollback_Cmd, Some tx) \<Rightarrow> (None, db\<lparr>open_tx := None\<rparr>)
      | (Rollback_Cmd, None) \<Rightarrow> (Some ''cannot rollback - no transaction is active'', db)
      | (Savepoint_Cmd name, None) \<Rightarrow>
          (None, db\<lparr>open_tx := Some \<lparr>explicit_begin = False, pending = [], stack = [(name, [])]\<rparr>\<rparr>)
      | (Savepoint_Cmd name, Some tx) \<Rightarrow>
          (None, db\<lparr>open_tx := Some (tx\<lparr>stack := stack tx @ [(name, pending tx)]\<rparr>)\<rparr>)
      | (Release_Cmd name, Some tx) \<Rightarrow>
          (case rev (unwind name (stack tx)) of
             [] \<Rightarrow> (Some ''no such savepoint'', db)
           | _ # outer \<Rightarrow>
               if outer = [] \<and> \<not> explicit_begin tx then (None, commit_tx tx db)
               else (None, db\<lparr>open_tx := Some (tx\<lparr>stack := rev outer\<rparr>)\<rparr>))
      | (Release_Cmd name, None) \<Rightarrow> (Some ''no such savepoint'', db)
      | (Rollback_To_Cmd name, Some tx) \<Rightarrow>
          (case rev (unwind name (stack tx)) of
             [] \<Rightarrow> (Some ''no such savepoint'', db)
           | (n, snapshot) # outer \<Rightarrow>
               (None, db\<lparr>open_tx := Some (tx\<lparr>pending := snapshot, stack := rev ((n, snapshot) # outer)\<rparr>)\<rparr>))
      | (Rollback_To_Cmd name, None) \<Rightarrow> (Some ''no such savepoint'', db)
      | (Read_Cmd, _) \<Rightarrow> (if out = Succeeds \<or> out = Succeeds_Without_Change then None else Some ''read failed'', db)
      | (Write_Cmd, _) \<Rightarrow>
          (case out of
             Succeeds \<Rightarrow> (None, record_write text db)
           | Succeeds_Without_Change \<Rightarrow> (None, (record_write text db)\<lparr>changes := changes db\<rparr>)
           | Fails \<Rightarrow> (Some ''constraint failed'', db)
           | Fails_Partially \<Rightarrow> (Some ''constraint failed'', record_write text db)
           | Fails_And_Rolls_Back \<Rightarrow> (Some ''constraint failed'', db\<lparr>open_tx := None\<rparr>)))"

definition reference_engine :: "(string \<Rightarrow> command) \<Rightarrow> (string \<Rightarrow> run_outcome) \<Rightarrow> reference_db engine" where
  "reference_engine parse_command outcome =
     \<lparr>run_sql = (\<lambda>sql. run_command (parse_command sql) (outcome sql) sql),
      db_in_transaction = (\<lambda>db. open_tx db \<noteq> None),
      total_changes = changes,
      insert_transaction_row = (\<lambda>db.
        (Some (int (length (log_groups db))), db\<lparr>log_groups := log_groups db @ [[]]\<rparr>)),
      insert_log_row = (\<lambda>tx_id entry db.
        db\<lparr>log_groups := (log_groups db)[nat tx_id := log_groups db ! nat tx_id @ [entry]]\<rparr>)\<rparr>"

lemma reference_fields [simp]:
  "run_sql (reference_engine pc out) sql = run_command (pc sql) (out sql) sql"
  "db_in_transaction (reference_engine pc out) db = (open_tx db \<noteq> None)"
  "total_changes (reference_engine pc out) = changes"
  by (simp_all add: reference_engine_def)

lemma write_log_reference:
  "write_log (reference_engine pc out) entries w =
     (None, w\<lparr>conn := (conn w)\<lparr>log_groups := log_groups (conn w) @ [entries]\<rparr>\<rparr>)"
proof -
  let ?f = "\<lambda>db entry. insert_log_row (reference_engine pc out) (int (length (log_groups (conn w)))) entry db"
  have "foldl ?f ((conn w)\<lparr>log_groups := log_groups (conn w) @ [g]\<rparr>) entries =
      (conn w)\<lparr>log_groups := log_groups (conn w) @ [g @ entries]\<rparr>" for g
    by (induction entries arbitrary: g) (simp_all add: reference_engine_def list_update_append nth_append)
  from this [of "[]"] show ?thesis by (simp add: write_log_def reference_engine_def)
qed

section \<open>Agreement of the wrapper's reading and SQLite's\<close>

text \<open>
  A call is regular when the leading keyword says what SQLite's parser says of the text that
  is executed, when exactly the writes are logged, and when a released savepoint, if there is
  one of that name, is the most recent one.
\<close>

definition keyword_command :: "string \<Rightarrow> command \<Rightarrow> bool" where
  "keyword_command stripped cmd \<longleftrightarrow>
     (let u = ascii_upper stripped; name = savepoint_name stripped in
      if starts_with u ''BEGIN'' then cmd = Begin_Cmd
      else if starts_with u ''COMMIT'' then cmd = Commit_Cmd
      else if starts_with u ''ROLLBACK TO'' then cmd = Rollback_To_Cmd name
      else if starts_with u ''ROLLBACK'' then cmd = Rollback_Cmd
      else if starts_with u ''SAVEPOINT'' then cmd = Savepoint_Cmd name
      else if starts_with u ''RELEASE'' then (case cmd of Release_Cmd _ \<Rightarrow> True | _ \<Rightarrow> False)
      else cmd = Write_Cmd \<or> cmd = Read_Cmd)"

definition release_innermost :: "command \<Rightarrow> reference_db \<Rightarrow> bool" where
  "release_innermost cmd db \<longleftrightarrow>
     (case (cmd, open_tx db) of
        (Release_Cmd n, Some tx) \<Rightarrow>
          unwind n (stack tx) \<noteq> [] \<longrightarrow> ascii_upper (fst (last (stack tx))) = ascii_upper n
      | _ \<Rightarrow> True)"

definition regular_call ::
    "(string \<Rightarrow> command) \<Rightarrow> (string \<Rightarrow> bool option) \<Rightarrow> (string \<Rightarrow> reference_db \<Rightarrow> log_entry) \<Rightarrow> string \<Rightarrow>
     reference_db wrapper \<Rightarrow> bool" where
  "regular_call parse_command parse_is_dml prepare sql w \<longleftrightarrow>
     (let s = strip sql; logged = should_log parse_is_dml (strip s);
          text = (if logged then entry_replay_sql_text (prepare (strip s) (conn w)) else s);
          cmd = parse_command text
      in keyword_command s cmd \<and> (logged \<longleftrightarrow> cmd = Write_Cmd) \<and> strip s = s \<and>
         (logged \<longrightarrow> \<not> entry_is_replay_safe (prepare s (conn w)) \<longrightarrow>
            entry_replay_sql_text (prepare s (conn w)) = s) \<and>
         release_innermost cmd (conn w))"

definition reference_call ::
    "(string \<Rightarrow> command) \<Rightarrow> (string \<Rightarrow> run_outcome) \<Rightarrow> (string \<Rightarrow> bool option) \<Rightarrow>
     (string \<Rightarrow> reference_db \<Rightarrow> log_entry) \<Rightarrow> string \<Rightarrow> reference_db wrapper \<Rightarrow>
     wrapper_error option \<times> reference_db wrapper" where
  "reference_call pc out pd prepare sql w = execute_on (reference_engine pc out) pd prepare sql False w"

text \<open>A session: the application goes on after errors.\<close>

fun session where
  "session pc out pd prepare [] w = w"
| "session pc out pd prepare (sql # sqls) w =
     session pc out pd prepare sqls (snd (reference_call pc out pd prepare sql w))"

fun regular_session where
  "regular_session pc out pd prepare [] w \<longleftrightarrow> True"
| "regular_session pc out pd prepare (sql # sqls) w \<longleftrightarrow>
     regular_call pc pd prepare sql w \<and>
     regular_session pc out pd prepare sqls (snd (reference_call pc out pd prepare sql w))"

section \<open>The invariant\<close>

abbreviation texts :: "log_entry list \<Rightarrow> string list" where
  "texts \<equiv> map entry_replay_sql_text"

definition savepoints_match :: "log_entry list \<Rightarrow> (string \<times> nat) list \<Rightarrow> (string \<times> string list) list \<Rightarrow> bool" where
  "savepoints_match buf sps stk \<longleftrightarrow>
     list_all2 (\<lambda>(n, i) (m, snapshot). ascii_upper n = ascii_upper m \<and> i \<le> length buf \<and>
        snapshot = take i (texts buf)) sps stk"

definition wrapper_inv :: "reference_db wrapper \<Rightarrow> bool" where
  "wrapper_inv w \<longleftrightarrow>
     map texts (log_groups (conn w)) = filter (\<lambda>g. g \<noteq> []) (committed (conn w)) \<and>
     (case open_tx (conn w) of
        None \<Rightarrow> \<not> in_transaction w \<and> buffer w = [] \<and> savepoints w = []
      | Some tx \<Rightarrow> in_transaction w \<and> texts (buffer w) = pending tx \<and>
          savepoints_match (buffer w) (savepoints w) (stack tx) \<and>
          (stack tx = [] \<longrightarrow> explicit_begin tx) \<and> sorted (map snd (savepoints w)))"

lemma find_cong_set: "(\<And>i. i \<in> set xs \<Longrightarrow> P i = Q i) \<Longrightarrow> List.find P xs = List.find Q xs"
  by (induction xs) auto

lemma find_savepoint_snoc:
  "find_savepoint n (sps @ [x]) =
     (if ascii_upper (fst x) = ascii_upper n then Some (length sps) else find_savepoint n sps)"
proof -
  have "List.find (\<lambda>i. ascii_upper (fst ((sps @ [x]) ! i)) = ascii_upper n) (rev [0..<length sps]) =
      find_savepoint n sps"
    unfolding find_savepoint_def by (rule find_cong_set) (simp add: nth_append)
  then show ?thesis by (simp add: find_savepoint_def)
qed

lemma find_savepoint_Nil [simp]: "find_savepoint n [] = None"
  by (simp add: find_savepoint_def)

lemma unwind_snoc:
  "unwind n (stk @ [y]) = (if ascii_upper (fst y) = ascii_upper n then stk @ [y] else unwind n stk)"
  by (simp add: unwind_def)

lemma unwind_Nil [simp]: "unwind n [] = []"
  by (simp add: unwind_def)

lemma savepoints_match_length: "savepoints_match buf sps stk \<Longrightarrow> length sps = length stk"
  by (simp add: savepoints_match_def list_all2_lengthD)

lemma savepoints_match_nth:
  "savepoints_match buf sps stk \<Longrightarrow> i < length sps \<Longrightarrow>
     ascii_upper (fst (sps ! i)) = ascii_upper (fst (stk ! i)) \<and> snd (sps ! i) \<le> length buf \<and>
     snd (stk ! i) = take (snd (sps ! i)) (texts buf)"
  by (auto simp: savepoints_match_def case_prod_beta dest!: list_all2_nthD)

lemma savepoints_matchI:
  "length sps = length stk \<Longrightarrow>
     (\<And>i. i < length sps \<Longrightarrow> ascii_upper (fst (sps ! i)) = ascii_upper (fst (stk ! i)) \<and>
        snd (sps ! i) \<le> length buf \<and> snd (stk ! i) = take (snd (sps ! i)) (texts buf)) \<Longrightarrow>
     savepoints_match buf sps stk"
  by (auto simp: savepoints_match_def case_prod_beta list_all2_conv_all_nth)

lemma find_savepoint_unwind:
  assumes "length sps = length stk"
    and "\<And>i. i < length sps \<Longrightarrow> ascii_upper (fst (sps ! i)) = ascii_upper (fst (stk ! i))"
  shows "(find_savepoint n sps = None \<and> unwind n stk = []) \<or>
    (\<exists>i < length sps. find_savepoint n sps = Some i \<and> unwind n stk = take (Suc i) stk)"
  using assms
proof (induction sps arbitrary: stk rule: rev_induct)
  case Nil
  then show ?case by simp
next
  case (snoc x sps)
  then obtain stk' y where stk: "stk = stk' @ [y]" by (cases stk rule: rev_cases) auto
  have len: "length sps = length stk'" using snoc.prems(1) stk by simp
  have pre: "ascii_upper (fst (sps ! i)) = ascii_upper (fst (stk' ! i))" if "i < length sps" for i
    using snoc.prems(2) [of i] that len by (simp add: stk nth_append)
  have "ascii_upper (fst x) = ascii_upper (fst y)"
    using snoc.prems(2) [of "length sps"] len by (simp add: stk nth_append)
  then show ?case
    using snoc.IH [OF len pre] len
    by (auto simp: stk find_savepoint_snoc unwind_snoc)
qed

text \<open>What the control operations do to the invariant's pieces.\<close>

lemma savepoints_match_append:
  "savepoints_match buf sps stk \<Longrightarrow> savepoints_match (buf @ [e]) sps stk"
proof (rule savepoints_matchI)
  assume m: "savepoints_match buf sps stk"
  then show "length sps = length stk" by (rule savepoints_match_length)
  fix i assume "i < length sps"
  from savepoints_match_nth [OF m this]
  show "ascii_upper (fst (sps ! i)) = ascii_upper (fst (stk ! i)) \<and>
      snd (sps ! i) \<le> length (buf @ [e]) \<and> snd (stk ! i) = take (snd (sps ! i)) (texts (buf @ [e]))"
    by simp
qed

lemma savepoints_match_push:
  assumes "savepoints_match buf sps stk"
  shows "savepoints_match buf (sps @ [(n, length buf)]) (stk @ [(n, texts buf)])"
  using assms by (simp add: savepoints_match_def list_all2_append list_all2_lengthD)

lemma savepoints_match_take:
  assumes "savepoints_match buf sps stk" "sorted (map snd sps)" "i < length sps"
  shows "savepoints_match (take (snd (sps ! i)) buf) (take (Suc i) sps) (take (Suc i) stk)"
proof (rule savepoints_matchI)
  show "length (take (Suc i) sps) = length (take (Suc i) stk)"
    using savepoints_match_length [OF assms(1)] by simp
  fix j assume "j < length (take (Suc i) sps)"
  then have j: "j \<le> i" "j < length sps" by auto
  have "snd (sps ! j) \<le> snd (sps ! i)"
    using sorted_nth_mono [OF assms(2), of j i] j assms(3) by simp
  then show "ascii_upper (fst (take (Suc i) sps ! j)) = ascii_upper (fst (take (Suc i) stk ! j)) \<and>
      snd (take (Suc i) sps ! j) \<le> length (take (snd (sps ! i)) buf) \<and>
      snd (take (Suc i) stk ! j) = take (snd (take (Suc i) sps ! j)) (texts (take (snd (sps ! i)) buf))"
    using savepoints_match_nth [OF assms(1) j(2)] savepoints_match_nth [OF assms(1,3)] j
    by (simp add: take_map min_absorb1)
qed

lemma savepoints_match_butlast:
  "savepoints_match buf sps stk \<Longrightarrow> savepoints_match buf (butlast sps) (butlast stk)"
proof (rule savepoints_matchI)
  assume m: "savepoints_match buf sps stk"
  then show "length (butlast sps) = length (butlast stk)" by (simp add: savepoints_match_length)
  fix i assume i: "i < length (butlast sps)"
  then have "i < length sps" "i < length (butlast stk)" using savepoints_match_length [OF m] by auto
  with savepoints_match_nth [OF m, of i] i
  show "ascii_upper (fst (butlast sps ! i)) = ascii_upper (fst (butlast stk ! i)) \<and>
      snd (butlast sps ! i) \<le> length buf \<and> snd (butlast stk ! i) = take (snd (butlast sps ! i)) (texts buf)"
    by (simp add: nth_butlast)
qed

lemma texts_block_entry [simp]: "entry_replay_sql_text (block_entry r e) = entry_replay_sql_text e"
  by (simp add: block_entry_def)

lemma flush_reference:
  "flush (reference_engine pc out) w = (None, discard (w\<lparr>conn := (conn w)\<lparr>log_groups :=
     log_groups (conn w) @ (if buffer w = [] then [] else [case transaction_error_reason w of
        None \<Rightarrow> buffer w | Some r \<Rightarrow> if r = [] then buffer w else map (block_entry r) (buffer w)])\<rparr>\<rparr>))"
  by (auto simp: flush_def write_log_reference Let_def discard_def split: option.splits)

lemma inv_flush:
  assumes "map texts (log_groups (conn w)) = filter (\<lambda>g. g \<noteq> []) gs"
    and "open_tx (conn w) = None" "committed (conn w) = gs @ [texts (buffer w)]"
  shows "wrapper_inv (snd (flush (reference_engine pc out) w))"
  using assms by (auto simp: flush_reference wrapper_inv_def discard_def split: option.splits)

section \<open>Every regular call keeps the invariant\<close>

lemma inv_mark: "wrapper_inv w \<Longrightarrow> wrapper_inv (mark_transaction_error e w)"
  by (auto simp: mark_transaction_error_def wrapper_inv_def split: option.splits)

lemma inv_record:
  assumes "wrapper_inv w" "entry_replay_sql_text e = text" "db = (record_write text (conn w))\<lparr>changes := n\<rparr>"
  shows "fst (record_effectful_entry (reference_engine pc out) (Some e) (w\<lparr>conn := db\<rparr>)) = None"
    and "wrapper_inv (snd (record_effectful_entry (reference_engine pc out) (Some e) (w\<lparr>conn := db\<rparr>)))"
proof -
  show "fst (record_effectful_entry (reference_engine pc out) (Some e) (w\<lparr>conn := db\<rparr>)) = None"
    by (simp add: record_effectful_entry_def write_log_reference)
  show "wrapper_inv (snd (record_effectful_entry (reference_engine pc out) (Some e) (w\<lparr>conn := db\<rparr>)))"
  proof (cases "open_tx (conn w)")
    case None
    then show ?thesis using assms
      by (auto simp: wrapper_inv_def record_write_def record_effectful_entry_def write_log_reference)
  next
    case (Some tx)
    then show ?thesis using assms savepoints_match_append
      by (auto simp: wrapper_inv_def record_write_def record_effectful_entry_def)
  qed
qed

lemma run_command_error:
  "run_command cmd o' text db = (Some e, db') \<Longrightarrow>
     db' = db \<or> (cmd = Write_Cmd \<and> (db' = record_write text db \<or> db' = db\<lparr>open_tx := None\<rparr>))"
  by (cases cmd; cases "open_tx db")
    (auto simp: run_command_def split: run_outcome.splits list.splits if_splits prod.splits)

lemma changes_record_write: "changes (record_write text db) = Suc (changes db)"
  by (auto simp: record_write_def split: option.splits)

lemma open_record_write [simp]: "open_tx (record_write text db) = None \<longleftrightarrow> open_tx db = None"
  by (auto simp: record_write_def split: option.splits)

lemma inv_in_transaction: "wrapper_inv w \<Longrightarrow> in_transaction w \<longleftrightarrow> open_tx (conn w) \<noteq> None"
  by (auto simp: wrapper_inv_def split: option.splits)

lemma inv_discard:
  "wrapper_inv w \<Longrightarrow> wrapper_inv (discard (w\<lparr>conn := (conn w)\<lparr>open_tx := None\<rparr>\<rparr>))"
  by (auto simp: wrapper_inv_def discard_def)

lemma inv_after_error:
  assumes inv: "wrapper_inv w"
    and db: "db = conn w \<or> (entry \<noteq> None \<and> (db = record_write text (conn w) \<or> db = (conn w)\<lparr>open_tx := None\<rparr>))"
    and same_text: "\<forall>e. entry = Some e \<longrightarrow> entry_replay_sql_text e = text"
  shows "wrapper_inv (snd (after_error (reference_engine pc out) entry (changes (conn w)) err (w\<lparr>conn := db\<rparr>)))"
proof -
  let ?eng = "reference_engine pc out"
  have same: "wrapper_inv (snd (after_error ?eng entry (changes (conn w)) err (w\<lparr>conn := conn w\<rparr>)))"
    using inv inv_in_transaction [OF inv] inv_mark [OF inv]
    by (auto simp: after_error_def split: option.splits)
  from db consider "db = conn w" | e where "entry = Some e" and "db = record_write text (conn w)"
    | e where "entry = Some e" and "db = (conn w)\<lparr>open_tx := None\<rparr>" by (cases entry) auto
  then show ?thesis
  proof cases
    case 1
    then show ?thesis using same by simp
  next
    case (2 e)
    let ?e = "entry_with_execution_error e err"
    have same_changes: "db = (record_write text (conn w))\<lparr>changes := changes db\<rparr>" using 2(2) by simp
    have te: "entry_replay_sql_text ?e = text"
      using same_text 2(1) by (simp add: entry_with_execution_error_def Let_def)
    have "after_error ?eng entry (changes (conn w)) err (w\<lparr>conn := db\<rparr>) =
        (case record_effectful_entry ?eng (Some ?e) (w\<lparr>conn := db\<rparr>) of
          (Some raised, w1) \<Rightarrow> (Some raised, w1)
        | (None, w1) \<Rightarrow> (Some (Sqlite_Error err), mark_transaction_error err w1))"
      using inv_in_transaction [OF inv] by (auto simp: after_error_def 2 changes_record_write)
    moreover obtain w1 where w1: "record_effectful_entry ?eng (Some ?e) (w\<lparr>conn := db\<rparr>) = (None, w1)"
      using inv_record(1) [OF inv te same_changes, of pc out] by (metis prod.collapse)
    moreover have "wrapper_inv w1" using inv_record(2) [OF inv te same_changes, of pc out] w1 by simp
    ultimately show ?thesis by (simp add: inv_mark)
  next
    case (3 e)
    show ?thesis
    proof (cases "open_tx (conn w)")
      case None
      then have "(conn w)\<lparr>open_tx := None\<rparr> = conn w" by simp
      then show ?thesis using same 3 by simp
    next
      case (Some tx)
      then have "after_error ?eng entry (changes (conn w)) err (w\<lparr>conn := db\<rparr>) =
          (Some (Sqlite_Error err), discard (w\<lparr>conn := db\<rparr>))"
        using inv_in_transaction [OF inv] by (simp add: after_error_def 3)
      then show ?thesis using inv_discard [OF inv] 3 by simp
    qed
  qed
qed

lemma inv_commit:
  assumes "wrapper_inv w" "open_tx (conn w) = Some tx"
  shows "wrapper_inv (snd (flush (reference_engine pc out) (w\<lparr>conn := commit_tx tx (conn w)\<rparr>)))"
  using assms by (intro inv_flush [where gs = "committed (conn w)"]) (auto simp: wrapper_inv_def commit_tx_def)

lemma inv_begin:
  assumes "wrapper_inv w"
  shows "wrapper_inv (begin_buffer (w\<lparr>conn := (conn w)\<lparr>open_tx :=
    Some \<lparr>explicit_begin = True, pending = [], stack = []\<rparr>\<rparr>\<rparr>))"
  using assms by (auto simp: wrapper_inv_def begin_buffer_def savepoints_match_def)

lemma inv_savepoint:
  assumes "wrapper_inv w"
    and "run_command (Savepoint_Cmd (savepoint_name s)) o' text (conn w) = (None, db)"
  shows "wrapper_inv (push_savepoint s (w\<lparr>conn := db\<rparr>))"
proof (cases "open_tx (conn w)")
  case None
  then show ?thesis using assms
    by (auto simp: run_command_def wrapper_inv_def push_savepoint_def begin_buffer_def savepoints_match_def)
next
  case (Some tx)
  have "sorted (map snd (savepoints w @ [(savepoint_name s, length (buffer w))]))"
    if "savepoints_match (buffer w) (savepoints w) (stack tx)" "sorted (map snd (savepoints w))"
    using that savepoints_match_nth [OF that(1)] by (auto simp: sorted_append set_conv_nth)
  then show ?thesis
    using assms Some savepoints_match_push [of "buffer w" "savepoints w" "stack tx" "savepoint_name s"]
    by (auto simp: run_command_def wrapper_inv_def push_savepoint_def)
qed

lemma inv_rollback_to:
  assumes inv: "wrapper_inv w"
    and run: "run_command (Rollback_To_Cmd (savepoint_name s)) o' text (conn w) = (None, db)"
  shows "wrapper_inv (rollback_to_savepoint s (w\<lparr>conn := db\<rparr>))"
proof (cases "open_tx (conn w)")
  case None
  then show ?thesis using run by (simp add: run_command_def)
next
  case (Some tx)
  let ?n = "savepoint_name s"
  have m: "savepoints_match (buffer w) (savepoints w) (stack tx)" and so: "sorted (map snd (savepoints w))"
    and p: "texts (buffer w) = pending tx"
    using inv Some by (simp_all add: wrapper_inv_def)
  have "unwind ?n (stack tx) \<noteq> []" using run Some by (auto simp: run_command_def)
  with find_savepoint_unwind [OF savepoints_match_length [OF m], of ?n] savepoints_match_nth [OF m]
  obtain i where i: "i < length (savepoints w)" "find_savepoint ?n (savepoints w) = Some i"
      "unwind ?n (stack tx) = take (Suc i) (stack tx)" by blast
  have il: "i < length (stack tx)" using i(1) savepoints_match_length [OF m] by simp
  then have rv: "rev (unwind ?n (stack tx)) = stack tx ! i # rev (take i (stack tx))"
    by (simp add: i(3) take_Suc_conv_app_nth)
  then have db: "db = (conn w)\<lparr>open_tx := Some (tx\<lparr>pending := snd (stack tx ! i), stack := take (Suc i) (stack tx)\<rparr>)\<rparr>"
    using run Some il by (cases "stack tx ! i") (simp add: run_command_def take_Suc_conv_app_nth)
  have w': "rollback_to_savepoint s (w\<lparr>conn := db\<rparr>) = w\<lparr>conn := db,
      buffer := take (snd (savepoints w ! i)) (buffer w), savepoints := take (Suc i) (savepoints w)\<rparr>"
    by (simp add: rollback_to_savepoint_def i(2))
  have "texts (take (snd (savepoints w ! i)) (buffer w)) = snd (stack tx ! i)"
    using savepoints_match_nth [OF m i(1)] by (simp add: take_map)
  moreover have "sorted (map snd (take (Suc i) (savepoints w)))"
    using sorted_wrt_take [OF so, of "Suc i"] by (simp add: take_map)
  ultimately show ?thesis
    unfolding w' using inv Some savepoints_match_take [OF m so i(1)] il
    by (auto simp: db wrapper_inv_def)
qed

lemma inv_release:
  assumes inv: "wrapper_inv w" and inner: "release_innermost (Release_Cmd n) (conn w)"
    and run: "run_command (Release_Cmd n) o' text (conn w) = (None, db)"
  shows "wrapper_inv (snd (release_savepoint (reference_engine pc out) (w\<lparr>conn := db\<rparr>)))"
proof (cases "open_tx (conn w)")
  case None
  then show ?thesis using run by (simp add: run_command_def)
next
  case (Some tx)
  have m: "savepoints_match (buffer w) (savepoints w) (stack tx)" and so: "sorted (map snd (savepoints w))"
    using inv Some by (simp_all add: wrapper_inv_def)
  have ne: "unwind n (stack tx) \<noteq> []" using run Some by (auto simp: run_command_def)
  then obtain stk y where stk: "stack tx = stk @ [y]" by (cases "stack tx" rule: rev_cases) auto
  have "ascii_upper (fst y) = ascii_upper n" using inner ne Some by (simp add: release_innermost_def stk)
  then have u: "unwind n (stack tx) = stk @ [y]" by (simp add: stk unwind_snoc)
  have sne: "savepoints w \<noteq> []" using savepoints_match_length [OF m] stk by auto
  show ?thesis
  proof (cases "stk = [] \<and> \<not> explicit_begin tx")
    case True
    then have db: "db = commit_tx tx (conn w)" using run Some u by (simp add: run_command_def)
    have "release_savepoint (reference_engine pc out) (w\<lparr>conn := db\<rparr>) =
        flush (reference_engine pc out) (w\<lparr>conn := db, savepoints := butlast (savepoints w)\<rparr>)"
      using sne inv_in_transaction [OF inv] Some by (simp add: release_savepoint_def db commit_tx_def Let_def)
    moreover have "wrapper_inv (snd (flush (reference_engine pc out)
        (w\<lparr>conn := db, savepoints := butlast (savepoints w)\<rparr>)))"
      using inv Some by (intro inv_flush [where gs = "committed (conn w)"])
        (auto simp: wrapper_inv_def db commit_tx_def)
    ultimately show ?thesis by simp
  next
    case False
    then have db: "db = (conn w)\<lparr>open_tx := Some (tx\<lparr>stack := stk\<rparr>)\<rparr>"
      using run Some u by (auto simp: run_command_def)
    have "release_savepoint (reference_engine pc out) (w\<lparr>conn := db\<rparr>) =
        (None, w\<lparr>conn := db, savepoints := butlast (savepoints w)\<rparr>)"
      using sne by (simp add: release_savepoint_def db)
    moreover have "sorted (map snd (butlast (savepoints w)))"
      using so by (simp add: map_butlast sorted_butlast)
    ultimately show ?thesis
      using inv Some False savepoints_match_butlast [OF m] by (auto simp: wrapper_inv_def db stk)
  qed
qed

lemma inv_after_success:
  assumes inv: "wrapper_inv w" and key: "keyword_command s cmd"
    and logged: "entry \<noteq> None \<longleftrightarrow> cmd = Write_Cmd"
    and same_text: "\<forall>e. entry = Some e \<longrightarrow> entry_replay_sql_text e = text"
    and inner: "release_innermost cmd (conn w)"
    and run: "run_command cmd o' text (conn w) = (None, db)"
  shows "wrapper_inv (snd (after_success (reference_engine pc out) s entry (w\<lparr>conn := db\<rparr>)))"
proof -
  let ?u = "ascii_upper s" and ?name = "savepoint_name s"
  have closed: "wrapper_inv (discard (w\<lparr>conn := (conn w)\<lparr>open_tx := None\<rparr>\<rparr>))" using inv by (rule inv_discard)
  consider (B) "starts_with ?u ''BEGIN''" "cmd = Begin_Cmd"
    | (C) "\<not> starts_with ?u ''BEGIN''" "starts_with ?u ''COMMIT''" "cmd = Commit_Cmd"
    | (T) "\<not> starts_with ?u ''BEGIN''" "\<not> starts_with ?u ''COMMIT''" "starts_with ?u ''ROLLBACK TO''"
        "cmd = Rollback_To_Cmd ?name"
    | (R) "\<not> starts_with ?u ''BEGIN''" "\<not> starts_with ?u ''COMMIT''" "\<not> starts_with ?u ''ROLLBACK TO''"
        "starts_with ?u ''ROLLBACK''" "cmd = Rollback_Cmd"
    | (S) "\<not> starts_with ?u ''BEGIN''" "\<not> starts_with ?u ''COMMIT''" "\<not> starts_with ?u ''ROLLBACK TO''"
        "\<not> starts_with ?u ''ROLLBACK''" "starts_with ?u ''SAVEPOINT''" "cmd = Savepoint_Cmd ?name"
    | (L) n where "\<not> starts_with ?u ''BEGIN''" "\<not> starts_with ?u ''COMMIT''" "\<not> starts_with ?u ''ROLLBACK TO''"
        "\<not> starts_with ?u ''ROLLBACK''" "\<not> starts_with ?u ''SAVEPOINT''" "starts_with ?u ''RELEASE''"
        "cmd = Release_Cmd n"
    | (O) "\<not> starts_with ?u ''BEGIN''" "\<not> starts_with ?u ''COMMIT''" "\<not> starts_with ?u ''ROLLBACK TO''"
        "\<not> starts_with ?u ''ROLLBACK''" "\<not> starts_with ?u ''SAVEPOINT''" "\<not> starts_with ?u ''RELEASE''"
        "cmd = Write_Cmd \<or> cmd = Read_Cmd"
    using key unfolding keyword_command_def Let_def by (auto split: if_splits command.splits)
  then show ?thesis
  proof cases
    case B
    then have "db = (conn w)\<lparr>open_tx := Some \<lparr>explicit_begin = True, pending = [], stack = []\<rparr>\<rparr>"
      using run by (auto simp: run_command_def split: option.splits)
    then show ?thesis using B inv_begin [OF inv] by (simp add: after_success_def)
  next
    case C
    then obtain tx where "open_tx (conn w) = Some tx" "db = commit_tx tx (conn w)"
      using run by (auto simp: run_command_def split: option.splits if_splits)
    then show ?thesis using C inv_commit [OF inv] by (simp add: after_success_def Let_def)
  next
    case T
    then show ?thesis using inv_rollback_to [OF inv] run by (simp add: after_success_def)
  next
    case R
    then have "db = (conn w)\<lparr>open_tx := None\<rparr>"
      using run by (auto simp: run_command_def split: option.splits)
    then show ?thesis using R closed by (simp add: after_success_def)
  next
    case S
    then show ?thesis using inv_savepoint [OF inv] run by (simp add: after_success_def)
  next
    case (L n)
    then show ?thesis using inv_release [OF inv] inner run by (simp add: after_success_def Let_def)
  next
    case O
    show ?thesis
    proof (cases entry)
      case None
      then have "db = conn w" using O(7) logged run by (auto simp: run_command_def split: if_splits)
      then show ?thesis using O inv None by (simp add: after_success_def record_effectful_entry_def)
    next
      case (Some e)
      then have "db = (record_write text (conn w))\<lparr>changes := changes db\<rparr>"
        using logged run by (auto simp: run_command_def split: run_outcome.splits)
      then have "wrapper_inv (snd (record_effectful_entry (reference_engine pc out) (Some e) (w\<lparr>conn := db\<rparr>)))"
        using same_text Some by (intro inv_record(2) [OF inv]) simp_all
      then show ?thesis using O Some by (simp add: after_success_def Let_def)
    qed
  qed
qed

lemma inv_call:
  assumes inv: "wrapper_inv w" and reg: "regular_call pc pd prepare sql w"
  shows "wrapper_inv (snd (reference_call pc out pd prepare sql w))"
proof -
  let ?eng = "reference_engine pc out"
  let ?s = "strip sql"
  let ?logged = "should_log pd ?s"
  let ?entry = "if ?logged then Some (prepare ?s (conn w)) else None"
  let ?text = "execute_sql_for_entry ?entry ?s"
  have s: "strip ?s = ?s" using reg by (simp add: regular_call_def Let_def)
  have replay: "\<forall>e. ?entry = Some e \<longrightarrow> entry_replay_sql_text e = ?text"
    using reg by (auto simp: regular_call_def Let_def execute_sql_for_entry_def s)
  have cmd: "keyword_command ?s (pc ?text)" "?entry \<noteq> None \<longleftrightarrow> pc ?text = Write_Cmd"
      "release_innermost (pc ?text) (conn w)"
    using reg by (auto simp: regular_call_def Let_def execute_sql_for_entry_def s split: if_splits)
  have eq: "reference_call pc out pd prepare sql w =
      (case run_command (pc ?text) (out ?text) ?text (conn w) of
        (Some error, db) \<Rightarrow> after_error ?eng ?entry (changes (conn w)) error (w\<lparr>conn := db\<rparr>)
      | (None, db) \<Rightarrow> after_success ?eng ?s ?entry (w\<lparr>conn := db\<rparr>))"
    by (simp add: reference_call_def execute_on_def entry_for_execute_def Let_def s)
  obtain r db where run: "run_command (pc ?text) (out ?text) ?text (conn w) = (r, db)" by fastforce
  show ?thesis
  proof (cases r)
    case None
    then show ?thesis
      using inv_after_success [OF inv cmd(1,2) replay cmd(3)] run by (simp add: eq)
  next
    case (Some error)
    have "db = conn w \<or> (?entry \<noteq> None \<and> (db = record_write ?text (conn w) \<or> db = (conn w)\<lparr>open_tx := None\<rparr>))"
      using run_command_error [of "pc ?text" "out ?text" ?text "conn w"] run Some cmd(2) by blast
    from inv_after_error [OF inv this replay] show ?thesis using run Some by (simp add: eq)
  qed
qed

lemma inv_session:
  "wrapper_inv w \<Longrightarrow> regular_session pc out pd prepare sqls w \<Longrightarrow>
     wrapper_inv (session pc out pd prepare sqls w)"
  by (induction sqls arbitrary: w) (simp_all add: inv_call)

text \<open>The changes among the statements of some transactions, without transactions that changed nothing.\<close>

definition changes_of :: "(string \<Rightarrow> run_outcome) \<Rightarrow> string list list \<Rightarrow> string list list" where
  "changes_of out groups =
     filter (\<lambda>g. g \<noteq> []) (map (filter (\<lambda>sql. out sql \<noteq> Succeeds_Without_Change)) groups)"

lemma changes_of_nonempty: "changes_of out (filter (\<lambda>g. g \<noteq> []) gs) = changes_of out gs"
  by (induction gs) (simp_all add: changes_of_def)


text \<open>A concrete reading of statements, and concrete sessions.\<close>

definition demo_command :: "string \<Rightarrow> command" where
  "demo_command sql =
     (if sql = ''BEGIN'' then Begin_Cmd
      else if sql = ''COMMIT'' \<or> sql = ''END'' then Commit_Cmd
      else if sql = ''SAVEPOINT a'' then Savepoint_Cmd ''a''
      else if sql = ''SAVEPOINT b'' then Savepoint_Cmd ''b''
      else if sql = ''RELEASE a'' then Release_Cmd ''a''
      else if sql = ''ROLLBACK TO a'' then Rollback_To_Cmd ''a''
      else if starts_with sql ''INSERT'' then Write_Cmd else Read_Cmd)"

definition demo_prepare :: "string \<Rightarrow> reference_db \<Rightarrow> log_entry" where
  "demo_prepare sql db =
     \<lparr>original_sql_text = sql, entry_replay_sql_text = sql, entry_is_replay_safe = True, entry_block_reason = None\<rparr>"

definition demo_outcome :: "string \<Rightarrow> run_outcome" where
  "demo_outcome sql =
     (if sql = ''INSERT x'' then Fails_Partially
      else if sql = ''INSERT nothing'' then Succeeds_Without_Change else Succeeds)"

definition demo_session :: "string list \<Rightarrow> reference_db wrapper" where
  "demo_session sqls = session demo_command demo_outcome (\<lambda>_. None) demo_prepare sqls (new_wrapper fresh_db)"


text \<open>A statement that changes nothing is logged too, alone or in a transaction.\<close>

lemma unchanging_statement_is_logged:
  "let w = demo_session [''INSERT nothing'']
   in changes (conn w) = 0 \<and> map (map entry_replay_sql_text) (log_groups (conn w)) = [[''INSERT nothing'']]"
  by code_simp

text \<open>
  Two sessions outside the regular ones. Releasing an outer savepoint forgets only the most
  recent one, so a later \<open>ROLLBACK TO\<close> a reused name keeps a statement in the log that SQLite
  has undone; and \<open>END\<close>, which SQLite takes for \<open>COMMIT\<close>, commits writes that are not logged.
\<close>

lemma release_outer_savepoint_keeps_undone_write:
  "let w = demo_session [''BEGIN'', ''SAVEPOINT a'', ''INSERT 1'', ''SAVEPOINT a'', ''SAVEPOINT b'',
       ''RELEASE a'', ''ROLLBACK TO a'', ''INSERT 2'', ''COMMIT'']
   in committed (conn w) = [[''INSERT 2'']] \<and>
      map (map entry_replay_sql_text) (log_groups (conn w)) = [[''INSERT 1'', ''INSERT 2'']]"
  by code_simp

lemma end_commits_without_logging:
  "let w = demo_session [''BEGIN'', ''INSERT 1'', ''END'', ''INSERT 2'']
   in committed (conn w) = [[''INSERT 1''], [''INSERT 2'']] \<and> log_groups (conn w) = []"
  by code_simp

end
