(* ===== verification/Log_Wrapper_Errors.thy ===== *)
theory Log_Wrapper_Errors
  imports Log_Wrapper_Props
begin

text \<open>
  Execution errors inside an explicit transaction: from the raising call to the call that
  closes the transaction, whatever reaches the log is blocked from automatic replay. Unlike
  the agreement with SQLite's commits this needs no regularity of the calls.
\<close>

definition error_pending :: "'db wrapper \<Rightarrow> bool" where
  "error_pending w \<longleftrightarrow> in_transaction w \<and> (\<exists>r. transaction_error_reason w = Some r \<and> r \<noteq> [])"

definition blocked_entry :: "log_entry \<Rightarrow> bool" where
  "blocked_entry e \<longleftrightarrow> \<not> entry_is_replay_safe e \<and> entry_block_reason e \<noteq> None"

text \<open>What a run adds to the log tables.\<close>

definition adds_only_blocked :: "reference_db wrapper \<Rightarrow> reference_db wrapper \<Rightarrow> bool" where
  "adds_only_blocked w w' \<longleftrightarrow>
     (\<exists>added. log_groups (conn w') = log_groups (conn w) @ added \<and>
        (\<forall>g \<in> set added. \<forall>e \<in> set g. blocked_entry e))"

text \<open>The calls of a session as long as the transaction with the error is open.\<close>

fun until_closed where
  "until_closed pc out pd prepare [] w = w"
| "until_closed pc out pd prepare (sql # sqls) w =
     (if error_pending w
      then until_closed pc out pd prepare sqls (snd (reference_call pc out pd prepare sql w))
      else w)"

lemma adds_only_blocked_trans:
  "adds_only_blocked w v \<Longrightarrow> adds_only_blocked v u \<Longrightarrow> adds_only_blocked w u"
  unfolding adds_only_blocked_def by (metis (no_types, lifting) UnE append.assoc set_append)

lemma adds_nothing: "log_groups (conn w') = log_groups (conn w) \<Longrightarrow> adds_only_blocked w w'"
  by (simp add: adds_only_blocked_def)

lemma reason_or_nonempty: "b \<noteq> [] \<Longrightarrow> \<exists>r. reason_or a b = Some r \<and> r \<noteq> []"
  by (auto simp: reason_or_def split: option.splits)

lemma mark_transaction_error_fields [simp]:
  "conn (mark_transaction_error e w) = conn w"
  "in_transaction (mark_transaction_error e w) = in_transaction w"
  by (simp_all add: mark_transaction_error_def)

lemma mark_error_pending: "in_transaction w \<Longrightarrow> error_pending (mark_transaction_error e w)"
  using reason_or_nonempty [of "execution_error_text e" "transaction_error_reason w"]
  by (auto simp: error_pending_def mark_transaction_error_def execution_error_text_def
      EXECUTION_ERROR_REASON_def)

lemma record_in_transaction:
  "in_transaction w \<Longrightarrow> record_effectful_entry eng entry w =
     (None, case entry of None \<Rightarrow> w | Some e \<Rightarrow> w\<lparr>buffer := buffer w @ [e]\<rparr>)"
  by (simp add: record_effectful_entry_def split: option.splits)

lemma block_entry_blocked: "blocked_entry (block_entry r e)"
  by (auto simp: blocked_entry_def block_entry_def reason_or_def split: option.splits)

lemma discard_conn [simp]: "conn (discard w) = conn w" "\<not> in_transaction (discard w)"
  by (simp_all add: discard_def)

lemma flush_blocked:
  assumes "error_pending w"
  shows "adds_only_blocked w (snd (flush (reference_engine pc out) w))"
  using assms block_entry_blocked
  by (fastforce simp: flush_def write_log_reference adds_only_blocked_def error_pending_def discard_def
      split: option.splits)

lemma run_command_log:
  "log_groups (snd (run_command cmd result text db)) = log_groups db"
  by (cases cmd; cases "open_tx db")
    (auto simp: run_command_def record_write_def commit_tx_def
      split: run_outcome.splits list.splits)

text \<open>The two ends of a call inside a transaction.\<close>

lemma after_error_in_transaction:
  assumes "in_transaction w"
  shows "conn (snd (after_error eng entry n err w)) = conn w \<and>
    (error_pending (snd (after_error eng entry n err w)) \<or>
     \<not> in_transaction (snd (after_error eng entry n err w)))"
proof (cases "db_in_transaction eng (conn w)")
  case True
  then show ?thesis
    using assms mark_error_pending
    by (auto simp: after_error_def record_in_transaction split: option.splits)
next
  case False
  then show ?thesis using assms by (simp add: after_error_def)
qed

lemma after_success_pending:
  assumes "error_pending w"
  shows "adds_only_blocked w (snd (after_success (reference_engine pc out) s entry w))"
proof -
  let ?released = "if savepoints w \<noteq> [] then w\<lparr>savepoints := butlast (savepoints w)\<rparr> else w"
  have "error_pending ?released" "log_groups (conn ?released) = log_groups (conn w)"
    using assms by (simp_all add: error_pending_def)
  then have "adds_only_blocked w (snd (release_savepoint (reference_engine pc out) w))"
    using flush_blocked [of ?released] by (auto simp: release_savepoint_def Let_def adds_only_blocked_def)
  moreover have "adds_only_blocked w (rollback_to_savepoint s w)" "adds_only_blocked w (push_savepoint s w)"
      "adds_only_blocked w (begin_buffer w)" "adds_only_blocked w (discard w)"
    by (simp_all add: adds_nothing rollback_to_savepoint_def push_savepoint_def begin_buffer_def Let_def
        split: option.splits)
  moreover have "adds_only_blocked w (snd (record_effectful_entry (reference_engine pc out) entry w))"
    using assms by (simp add: record_in_transaction adds_nothing error_pending_def split: option.splits)
  ultimately show ?thesis
    using flush_blocked [OF assms] by (simp add: after_success_def Let_def)
qed

lemma reference_call_cases:
  obtains (refused) error where "reference_call pc out pd prepare sql w = (Some (Programming_Error error), w)"
  | (raised) entry error db where
      "reference_call pc out pd prepare sql w =
         after_error (reference_engine pc out) entry (changes (conn w)) error (w\<lparr>conn := db\<rparr>)"
      "log_groups db = log_groups (conn w)"
  | (finished) entry db where
      "reference_call pc out pd prepare sql w =
         after_success (reference_engine pc out) (strip sql) entry (w\<lparr>conn := db\<rparr>)"
      "log_groups db = log_groups (conn w)"
proof -
  have log: "log_groups db = log_groups (conn w)"
    if "run_command (pc t) (out t) t (conn w) = (r, db)" for t r db
    using run_command_log [of "pc t" "out t" t "conn w"] that by simp
  show thesis
    using that log
    by (fastforce simp: reference_call_def execute_on_def entry_for_execute_def Let_def
        split: if_splits option.splits prod.splits)
qed

lemma pending_call_adds_only_blocked:
  assumes "error_pending w"
  shows "adds_only_blocked w (snd (reference_call pc out pd prepare sql w))"
proof (cases pc out pd prepare sql w rule: reference_call_cases)
  case (refused error)
  then show ?thesis by (simp add: adds_nothing)
next
  case (raised entry error db)
  have "in_transaction (w\<lparr>conn := db\<rparr>)" using assms by (simp add: error_pending_def)
  from after_error_in_transaction [OF this] show ?thesis using raised by (simp add: adds_nothing)
next
  case (finished entry db)
  have "error_pending (w\<lparr>conn := db\<rparr>)" using assms by (simp add: error_pending_def)
  from after_success_pending [OF this] show ?thesis using finished by (simp add: adds_only_blocked_def)
qed

lemma until_closed_adds_only_blocked:
  "adds_only_blocked w (until_closed pc out pd prepare sqls w)"
proof (induction sqls arbitrary: w)
  case Nil
  show ?case by (simp add: adds_nothing)
next
  case (Cons sql sqls)
  then show ?case
    using pending_call_adds_only_blocked adds_only_blocked_trans by (fastforce simp: adds_nothing)
qed



end
