(* ===== verification/Replay_State.thy ===== *)
theory Replay_State
  imports Models
begin

text \<open>
  The state the merge replays on and the actions over it. One SQLite connection holds the
  main database, the attached control copy and the temporary tables as one \<open>content\<close>, with a
  stack of open savepoints; beside it are the caches of \<open>ConflictCheckContext\<close>. Executing a
  statement and reading a query are parameters (\<open>sqlite\<close>); the savepoint commands follow
  SQLite's documentation: \<open>ROLLBACK TO\<close> restores the content and keeps the savepoint,
  \<open>RELEASE\<close> drops it with the inner ones and commits with the outermost, and an error that
  rolls the transaction back takes every savepoint with it.
\<close>

section \<open>Actions that may raise\<close>

datatype sqlite_error = Integrity_Error string | Other_Error string

datatype exn =
    Sqlite_Exn sqlite_error | Runtime_Exn string | Assertion_Exn | Parse_Exn | Value_Exn string
  | Index_Exn | End_Of_File_Exn

type_synonym ('s, 'a) action = "'s \<Rightarrow> (exn + 'a) \<times> 's"

definition return_value :: "'a \<Rightarrow> ('s, 'a) action" where
  "return_value x s = (Inr x, s)"

definition raise_exn :: "exn \<Rightarrow> ('s, 'a) action" where
  "raise_exn e s = (Inl e, s)"

definition and_then :: "('s, 'a) action \<Rightarrow> ('a \<Rightarrow> ('s, 'b) action) \<Rightarrow> ('s, 'b) action" where
  "and_then m f s = (case m s of (Inl e, s1) \<Rightarrow> (Inl e, s1) | (Inr x, s1) \<Rightarrow> f x s1)"

text \<open>\<open>try: m except sqlite3.Error as e: h(e)\<close>, \<open>try: m except Exception: h; raise\<close>, \<open>try: m finally: f\<close>.\<close>

definition catch_sqlite :: "('s, 'a) action \<Rightarrow> (sqlite_error \<Rightarrow> ('s, 'a) action) \<Rightarrow> ('s, 'a) action" where
  "catch_sqlite m h s =
     (case m s of (Inl (Sqlite_Exn e), s1) \<Rightarrow> h e s1 | (r, s1) \<Rightarrow> (r, s1))"

definition on_exception :: "('s, 'a) action \<Rightarrow> ('s, unit) action \<Rightarrow> ('s, 'a) action" where
  "on_exception m h s =
     (case m s of
        (Inl e, s1) \<Rightarrow> (case h s1 of (Inl e', s2) \<Rightarrow> (Inl e', s2) | (Inr _, s2) \<Rightarrow> (Inl e, s2))
      | (Inr x, s1) \<Rightarrow> (Inr x, s1))"

definition finally_do :: "('s, 'a) action \<Rightarrow> ('s, unit) action \<Rightarrow> ('s, 'a) action" where
  "finally_do m f s =
     (case m s of (r, s1) \<Rightarrow> (case f s1 of (Inl e, s2) \<Rightarrow> (Inl e, s2) | (Inr _, s2) \<Rightarrow> (r, s2)))"

text \<open>A \<open>for\<close> loop whose body may return early with a value.\<close>

fun for_until :: "('x \<Rightarrow> ('s, 'a option) action) \<Rightarrow> 'x list \<Rightarrow> ('s, 'a option) action" where
  "for_until body [] = return_value None"
| "for_until body (x # xs) =
     and_then (body x) (\<lambda>r. case r of Some a \<Rightarrow> return_value (Some a) | None \<Rightarrow> for_until body xs)"

section \<open>The connection\<close>

datatype 'db run_result = Ran 'db | Failed sqlite_error 'db | Failed_And_Rolled_Back sqlite_error

text \<open>
  What SQLite and the runtime do: executing a statement; the first row of a query, as Python
  prints it, the number of its columns, the first value of the first row and all rows as Python
  prints them; whether committing the second content over the first is refused; inserting a row into the two
  log tables; the hexadecimal
  text of the n-th \<open>uuid4\<close>; and \<open>str(id(obj))\<close> of the object that holds a statement or its
  metadata, at a time of the run. CPython may give a later object the identity of a freed one.
\<close>

record replayed_log_row =
  row_original_sql_text :: string
  row_to_replay_sql_text :: string
  row_is_replay_safe :: bool
  row_block_reason :: "string option"

definition log_row_of :: "logged_statement \<Rightarrow> replayed_log_row" where
  "log_row_of statement =
     \<lparr>row_original_sql_text = ls_original_sql_text statement,
      row_to_replay_sql_text = to_replay_sql_text statement,
      row_is_replay_safe = is_replay_safe statement,
      row_block_reason = replay_block_reason statement\<rparr>"

record 'db sqlite =
  run_statement :: "string \<Rightarrow> 'db \<Rightarrow> 'db run_result"
  first_row :: "string \<Rightarrow> 'db \<Rightarrow> sqlite_error + string option"
  column_count :: "string \<Rightarrow> 'db \<Rightarrow> sqlite_error + nat"
  first_value :: "string \<Rightarrow> 'db \<Rightarrow> sqlite_error + string option"
  all_rows :: "string \<Rightarrow> 'db \<Rightarrow> sqlite_error + string list"
  commit_error :: "'db \<Rightarrow> 'db \<Rightarrow> sqlite_error option"
  insert_transaction_row :: "'db \<Rightarrow> sqlite_error + int \<times> 'db"
  insert_log_row :: "int \<Rightarrow> replayed_log_row \<Rightarrow> 'db \<Rightarrow> sqlite_error + 'db"
  uuid_hex :: "nat \<Rightarrow> string"
  statement_id :: "nat \<Rightarrow> logged_statement \<Rightarrow> string"
  metadata_id :: "nat \<Rightarrow> statement_metadata \<Rightarrow> string"

datatype probe_status = Probe_Ok | No_Read_Dependency | Not_Refined

record read_probe =
  probe_status :: probe_status
  probe_sql :: "string option"
  probe_reason :: "string option"

record 'db replay_state =
  content :: 'db
  stack :: "(string \<times> 'db) list"
  uuid_draws :: nat
  control_sql_cache :: "(string \<times> string, string option) dict"
  affected_pk_probe_cache :: "(string, string option) dict"
  read_probe_result_cache :: "(string, read_probe) dict"

definition replay_start :: "'db \<Rightarrow> 'db replay_state" where
  "replay_start db =
     \<lparr>content = db, stack = [], uuid_draws = 0, control_sql_cache = [], affected_pk_probe_cache = [],
      read_probe_result_cache = []\<rparr>"

text \<open>The content the open transaction started from.\<close>

definition transaction_start :: "'db replay_state \<Rightarrow> 'db" where
  "transaction_start s = (if stack s = [] then content s else snd (last (stack s)))"

definition execute :: "'db sqlite \<Rightarrow> string \<Rightarrow> ('db replay_state, unit) action" where
  "execute eng sql s =
     (case run_statement eng sql (content s) of
        Ran db \<Rightarrow> (Inr (), s\<lparr>content := db\<rparr>)
      | Failed e db \<Rightarrow> (Inl (Sqlite_Exn e), s\<lparr>content := db\<rparr>)
      | Failed_And_Rolled_Back e \<Rightarrow>
          (Inl (Sqlite_Exn e), s\<lparr>content := transaction_start s, stack := []\<rparr>))"

definition fetch_one :: "'db sqlite \<Rightarrow> string \<Rightarrow> ('db replay_state, string option) action" where
  "fetch_one eng sql s =
     (case first_row eng sql (content s) of
        Inl e \<Rightarrow> (Inl (Sqlite_Exn e), s)
      | Inr row \<Rightarrow> (Inr row, s))"

definition fetch_column_count :: "'db sqlite \<Rightarrow> string \<Rightarrow> ('db replay_state, nat) action" where
  "fetch_column_count eng sql s =
     (case column_count eng sql (content s) of
        Inl e \<Rightarrow> (Inl (Sqlite_Exn e), s)
      | Inr n \<Rightarrow> (Inr n, s))"

definition fetch_first_value :: "'db sqlite \<Rightarrow> string \<Rightarrow> ('db replay_state, string option) action" where
  "fetch_first_value eng sql s =
     (case first_value eng sql (content s) of
        Inl e \<Rightarrow> (Inl (Sqlite_Exn e), s)
      | Inr row \<Rightarrow> (Inr row, s))"

definition fetch_all :: "'db sqlite \<Rightarrow> string \<Rightarrow> ('db replay_state, string list) action" where
  "fetch_all eng sql s =
     (case all_rows eng sql (content s) of
        Inl e \<Rightarrow> (Inl (Sqlite_Exn e), s)
      | Inr rows \<Rightarrow> (Inr rows, s))"

definition uuid4 :: "'db sqlite \<Rightarrow> ('db replay_state, string) action" where
  "uuid4 eng s = (Inr (uuid_hex eng (uuid_draws s)), s\<lparr>uuid_draws := uuid_draws s + 1\<rparr>)"

definition no_such_savepoint :: "string \<Rightarrow> exn" where
  "no_such_savepoint name = Sqlite_Exn (Other_Error (''no such savepoint: '' @ name))"

definition from_savepoint :: "string \<Rightarrow> (string \<times> 'db) list \<Rightarrow> (string \<times> 'db) list" where
  "from_savepoint name = dropWhile (\<lambda>sp. fst sp \<noteq> name)"

definition savepoint :: "string \<Rightarrow> ('db replay_state, unit) action" where
  "savepoint name s = (Inr (), s\<lparr>stack := (name, content s) # stack s\<rparr>)"

definition rollback_to :: "string \<Rightarrow> ('db replay_state, unit) action" where
  "rollback_to name s =
     (case from_savepoint name (stack s) of
        [] \<Rightarrow> (Inl (no_such_savepoint name), s)
      | sp # outer \<Rightarrow> (Inr (), s\<lparr>content := snd sp, stack := sp # outer\<rparr>))"

definition release :: "'db sqlite \<Rightarrow> string \<Rightarrow> ('db replay_state, unit) action" where
  "release eng name s =
     (case from_savepoint name (stack s) of
        [] \<Rightarrow> (Inl (no_such_savepoint name), s)
      | sp # outer \<Rightarrow>
          (case (if outer = [] then commit_error eng (snd sp) (content s) else None) of
             None \<Rightarrow> (Inr (), s\<lparr>stack := outer\<rparr>)
           | Some e \<Rightarrow> (Inl (Sqlite_Exn e), s)))"

text \<open>\<open>rollback_savepoint\<close> of \<open>utils.py\<close>.\<close>

definition rollback_savepoint :: "'db sqlite \<Rightarrow> string \<Rightarrow> ('db replay_state, unit) action" where
  "rollback_savepoint eng name = finally_do (rollback_to name) (release eng name)"

text \<open>\<open>quote_identifier(f"prefix{uuid.uuid4().hex}")\<close>, then \<open>SAVEPOINT\<close>.\<close>

definition open_savepoint :: "'db sqlite \<Rightarrow> string \<Rightarrow> ('db replay_state, string) action" where
  "open_savepoint eng prefix =
     and_then (uuid4 eng) (\<lambda>hex.
       let name = quote_identifier (prefix @ hex)
       in and_then (savepoint name) (\<lambda>_. return_value name))"

text \<open>\<open>SAVEPOINT\<close>, then \<open>try: m finally: rollback_savepoint\<close>.\<close>

definition discarded :: "'db sqlite \<Rightarrow> string \<Rightarrow> (string \<Rightarrow> ('db replay_state, 'a) action) \<Rightarrow> ('db replay_state, 'a) action" where
  "discarded eng prefix m =
     and_then (open_savepoint eng prefix) (\<lambda>name. finally_do (m name) (rollback_savepoint eng name))"

section \<open>The log of the working copy\<close>

text \<open>\<open>_append_replayed_log\<close>: a transaction row, then one row per statement under its id.\<close>

definition insert_transaction :: "'db sqlite \<Rightarrow> ('db replay_state, int) action" where
  "insert_transaction eng s =
     (case insert_transaction_row eng (content s) of
        Inl e \<Rightarrow> (Inl (Sqlite_Exn e), s)
      | Inr (tx_id, db) \<Rightarrow> (Inr tx_id, s\<lparr>content := db\<rparr>))"

fun insert_log_rows ::
    "'db sqlite \<Rightarrow> int \<Rightarrow> logged_statement list \<Rightarrow> ('db replay_state, unit) action" where
  "insert_log_rows eng tx_id [] s = (Inr (), s)"
| "insert_log_rows eng tx_id (st # sts) s =
     (case insert_log_row eng tx_id (log_row_of st) (content s) of
        Inl e \<Rightarrow> (Inl (Sqlite_Exn e), s)
      | Inr db \<Rightarrow> insert_log_rows eng tx_id sts (s\<lparr>content := db\<rparr>))"

definition append_replayed_log ::
    "'db sqlite \<Rightarrow> logged_statement list \<Rightarrow> ('db replay_state, unit) action" where
  "append_replayed_log eng statements =
     and_then (insert_transaction eng) (\<lambda>tx_id. insert_log_rows eng tx_id statements)"

section \<open>The merge context\<close>

datatype rewrite_input = Raw_Sql string | Statement_Sql logged_statement

text \<open>
  How sqlglot renders the parts of a parsed statement: the texts of its \<open>WITH\<close>, target, \<open>FROM\<close>
  and \<open>WHERE\<close>, the assigned values, and the source of an \<open>INSERT\<close>. A value comes with the
  answers of the two tests of \<open>_expression_has_read\<close>.
\<close>

record rendered_value =
  value_sql :: string
  value_is_read :: bool
  value_contains_read :: bool

datatype rendered_row = Tuple_Row "rendered_value list" | Single_Row rendered_value

datatype insert_source = Values_Source "rendered_row list" | Query_Source string

record rendered_sql =
  r_with :: "string option"
  r_target :: string
  r_from :: "string option"
  r_where :: "string option"
  r_assignments :: "(bool \<times> rendered_value option) list"
  r_source :: "insert_source option"

text \<open>\<open>ConflictCheckContext\<close> without its caches, which are part of the replay state.\<close>

record 'db merge_context =
  engine :: "'db sqlite"
  schema_context :: check_context
  control_schema :: "string option"
  control_sql_rewriter :: "(rewrite_input \<Rightarrow> string option) option"
  parse_sql :: "string \<Rightarrow> parsed_sql option"
  rendered :: "parsed_sql \<Rightarrow> rendered_sql"

definition context_primary_keys :: "'db merge_context \<Rightarrow> string \<Rightarrow> string list option" where
  "context_primary_keys ctx = map_of (cache_primary_keys (ctx_cache (schema_context ctx)))"

end
