(* ===== verification/Control_Db.thy ===== *)
theory Control_Db
  imports Replay_State
begin

text \<open>
  The attached control copy: \<open>src/merge/control_db.py\<close>. A statement is replayed on the control
  database by qualifying its persistent tables with the control schema. The sqlglot tree is a
  view: table nodes carry an object identity and the expressions below them (sqlglot puts the joins
  of \<open>UPDATE ... FROM a JOIN b\<close> below \<open>a\<close>), every other node its CTE aliases and children in
  the order of \<open>iter_expressions\<close>; the parser and the renderer are parameters.
\<close>

definition CONTROL_DB_SCHEMA :: string where
  "CONTROL_DB_SCHEMA = ''control''"

section \<open>Messages\<close>

text \<open>\<open>s.replace(old, new)\<close> for a non-empty \<open>old\<close>.\<close>

function replace_text :: "string \<Rightarrow> string \<Rightarrow> string \<Rightarrow> string" where
  "replace_text old new s =
     (if s = [] then []
      else if old \<noteq> [] \<and> starts_with s old then new @ replace_text old new (drop (length old) s)
      else hd s # replace_text old new (tl s))"
  by pat_completeness auto
termination by (relation "measure (\<lambda>(_, _, s). length s)") auto

declare replace_text.simps [simp del]

definition clean_control_schema_references :: "string \<Rightarrow> string option \<Rightarrow> string" where
  "clean_control_schema_references message schema =
     (case schema of
        None \<Rightarrow> message
      | Some s \<Rightarrow>
          foldl (\<lambda>cleaned prefix. replace_text prefix ''main.'' cleaned) message
            [s @ ''.'',
             [CHR 0x22] @ s @ [CHR 0x22] @ ''.'',
             ''['' @ s @ '']'' @ ''.'',
             [CHR 0x60] @ s @ [CHR 0x60] @ ''.''])"

section \<open>Trees\<close>

record ast_table =
  ast_id :: nat
  ast_name :: string
  ast_db :: string
  ast_alias :: "string option"

datatype sql_tree =
    Table_Node ast_table (below_table: "sql_tree list")
  | Inner_Node (cte_alias_list: "string list") (child_expressions: "sql_tree list")

text \<open>A statement: its class, the identity of its target table if it has one, and its tree.\<close>

record sql_ast =
  ast_class :: expression_class
  ast_target :: "nat option"
  ast_tree :: sql_tree

definition cte_aliases :: "string list \<Rightarrow> string set" where
  "cte_aliases aliases = set (filter (\<lambda>a. a \<noteq> []) aliases)"

definition statement_target_table :: "sql_ast \<Rightarrow> nat option" where
  "statement_target_table ast =
     (if ast_class ast \<in> {Insert_Expr, Update_Expr, Delete_Expr} then ast_target ast else None)"

definition is_rewritable_persistent_table :: "ast_table \<Rightarrow> string set \<Rightarrow> string \<Rightarrow> bool" where
  "is_rewritable_persistent_table table persistent_tables schema \<longleftrightarrow>
     ast_name table \<in> persistent_tables \<and>
     (ast_db table = [] \<or> ast_db table = ''main'' \<or> ast_db table = schema)"

text \<open>
  The collected table nodes, or \<open>None\<close> when a table cannot be rewritten. The search ends at a
  table: what is below it is not visited.
\<close>

fun collect_persistent_table_references ::
    "string set \<Rightarrow> string \<Rightarrow> nat option \<Rightarrow> string set \<Rightarrow> sql_tree \<Rightarrow> nat list option"
  and collect_children ::
    "string set \<Rightarrow> string \<Rightarrow> nat option \<Rightarrow> string set \<Rightarrow> sql_tree list \<Rightarrow> nat list option" where
  "collect_persistent_table_references persistent_tables schema target visible_ctes (Table_Node table below) =
     (if target \<noteq> Some (ast_id table) \<and> ast_db table = [] \<and> ast_name table \<in> visible_ctes then Some []
      else if \<not> is_rewritable_persistent_table table persistent_tables schema then None
      else Some [ast_id table])"
| "collect_persistent_table_references persistent_tables schema target visible_ctes (Inner_Node ctes nodes) =
     collect_children persistent_tables schema target (visible_ctes \<union> cte_aliases ctes) nodes"
| "collect_children persistent_tables schema target visible [] = Some []"
| "collect_children persistent_tables schema target visible (child # nodes) =
     (case collect_persistent_table_references persistent_tables schema target visible child of
        None \<Rightarrow> None
      | Some tables \<Rightarrow> map_option ((@) tables) (collect_children persistent_tables schema target visible nodes))"

definition persistent_table_references :: "sql_ast \<Rightarrow> string set \<Rightarrow> string \<Rightarrow> nat list option" where
  "persistent_table_references ast persistent_tables schema =
     collect_persistent_table_references persistent_tables schema (statement_target_table ast) {} (ast_tree ast)"

definition qualify_table_reference :: "string \<Rightarrow> ast_table \<Rightarrow> ast_table" where
  "qualify_table_reference schema table =
     table\<lparr>ast_db := schema,
           ast_alias := (case ast_alias table of None \<Rightarrow> Some (ast_name table) | Some a \<Rightarrow> Some a)\<rparr>"

text \<open>The tree after the collected nodes were changed in place.\<close>

fun qualify_nodes :: "string \<Rightarrow> nat set \<Rightarrow> sql_tree \<Rightarrow> sql_tree" where
  "qualify_nodes schema ids (Table_Node table below) =
     Table_Node (if ast_id table \<in> ids then qualify_table_reference schema table else table)
       (map (qualify_nodes schema ids) below)"
| "qualify_nodes schema ids (Inner_Node ctes nodes) =
     Inner_Node ctes (map (qualify_nodes schema ids) nodes)"

section \<open>Rewriting\<close>

definition rewrite_tree_for_control_db :: "sql_ast \<Rightarrow> string \<Rightarrow> column_map \<Rightarrow> sql_ast option" where
  "rewrite_tree_for_control_db ast schema table_columns =
     (if ast_class ast \<notin> {Select_Expr, Insert_Expr, Update_Expr, Delete_Expr} then None
      else map_option (\<lambda>tables. ast\<lparr>ast_tree := qualify_nodes schema (set tables) (ast_tree ast)\<rparr>)
             (persistent_table_references ast (set (map fst table_columns)) schema))"

text \<open>sqlglot: parsing a text to a tree, the tree behind parsed metadata, and rendering.\<close>

record sqlglot =
  parse_tree :: "string \<Rightarrow> sql_ast option"
  tree_of :: "parsed_sql \<Rightarrow> sql_ast"
  render :: "sql_ast \<Rightarrow> string"

definition rewrite_expression_for_control_db ::
    "sqlglot \<Rightarrow> sql_ast \<Rightarrow> string \<Rightarrow> column_map \<Rightarrow> string option" where
  "rewrite_expression_for_control_db glot ast schema table_columns =
     map_option (render glot) (rewrite_tree_for_control_db ast schema table_columns)"

definition rewrite_logged_statement_for_control_db ::
    "sqlglot \<Rightarrow> logged_statement \<Rightarrow> string \<Rightarrow> column_map \<Rightarrow> string option" where
  "rewrite_logged_statement_for_control_db glot statement schema table_columns =
     map_option
       (\<lambda>rewritten. restore_update_conflict_resolution rewritten
          (compat_resolution (sm_compatible_sql (ls_metadata statement))))
       (rewrite_expression_for_control_db glot (tree_of glot (parsed_sql_text (ls_metadata statement)))
          schema table_columns)"

definition rewrite_parseable_sql_for_control_db ::
    "sqlglot \<Rightarrow> string \<Rightarrow> string \<Rightarrow> column_map \<Rightarrow> string option" where
  "rewrite_parseable_sql_for_control_db glot sql_text schema table_columns =
     (case parse_tree glot sql_text of
        None \<Rightarrow> None
      | Some ast \<Rightarrow> rewrite_expression_for_control_db glot ast schema table_columns)"

definition rewrite_sql_for_control_db ::
    "sqlglot \<Rightarrow> rewrite_input \<Rightarrow> string \<Rightarrow> column_map \<Rightarrow> string option" where
  "rewrite_sql_for_control_db glot sql schema table_columns =
     (case sql of
        Statement_Sql statement \<Rightarrow> rewrite_logged_statement_for_control_db glot statement schema table_columns
      | Raw_Sql text \<Rightarrow> rewrite_parseable_sql_for_control_db glot text schema table_columns)"

section \<open>The merge context\<close>

definition merge_context_for ::
    "'db sqlite \<Rightarrow> sqlglot \<Rightarrow> (string \<Rightarrow> parsed_sql option) \<Rightarrow> (parsed_sql \<Rightarrow> rendered_sql) \<Rightarrow>
     check_context \<Rightarrow> 'db merge_context" where
  "merge_context_for eng glot parse rendering schema =
     \<lparr>engine = eng, schema_context = schema, control_schema = Some CONTROL_DB_SCHEMA,
      control_sql_rewriter = Some (\<lambda>sql.
        rewrite_sql_for_control_db glot sql CONTROL_DB_SCHEMA (cache_table_columns (ctx_cache schema))),
      parse_sql = parse, rendered = rendering\<rparr>"

end
