(* ===== verification/Control_Db_Props.thy ===== *)
theory Control_Db_Props
  imports Control_Db
begin

text \<open>
  What rewriting for the control copy guarantees: with the aliases it adds, every table
  reference of the rewritten statement is either a CTE visible there or a table of the control
  schema, the statement is otherwise unchanged, and its columns still find their tables.
\<close>

text \<open>Table nodes with the CTE names visible at them.\<close>

fun table_nodes :: "string set \<Rightarrow> sql_tree \<Rightarrow> (ast_table \<times> string set) list" where
  "table_nodes visible (Table_Node table below) = (table, visible) # concat (map (table_nodes visible) below)"
| "table_nodes visible (Inner_Node ctes nodes) =
     concat (map (table_nodes (visible \<union> cte_aliases ctes)) nodes)"

text \<open>How SQLite resolves a reference: a CTE of that name, or a table of the schema written.\<close>

definition cte_reference :: "nat option \<Rightarrow> ast_table \<Rightarrow> string set \<Rightarrow> bool" where
  "cte_reference target table visible \<longleftrightarrow>
     target \<noteq> Some (ast_id table) \<and> ast_db table = [] \<and> ast_name table \<in> visible"

text \<open>The name under which columns refer to the table.\<close>

definition reference_name :: "ast_table \<Rightarrow> string" where
  "reference_name table = (case ast_alias table of None \<Rightarrow> ast_name table | Some a \<Rightarrow> a)"

text \<open>No table node has a table below it.\<close>

fun has_table :: "sql_tree \<Rightarrow> bool" where
  "has_table (Table_Node table below) \<longleftrightarrow> True"
| "has_table (Inner_Node ctes nodes) \<longleftrightarrow> list_ex has_table nodes"

fun flat_tables :: "sql_tree \<Rightarrow> bool" where
  "flat_tables (Table_Node table below) \<longleftrightarrow> \<not> list_ex has_table below"
| "flat_tables (Inner_Node ctes nodes) \<longleftrightarrow> list_all flat_tables nodes"

lemma no_table_nodes: "\<not> has_table tree \<Longrightarrow> table_nodes visible tree = []"
  by (induction visible tree rule: table_nodes.induct) (auto simp: list_ex_iff)

lemma flat_table: "flat_tables (Table_Node table below) \<Longrightarrow> table_nodes visible (Table_Node table below) = [(table, visible)]"
  using no_table_nodes by (auto simp: list_ex_iff)

lemma collect_characterisation:
  "flat_tables tree \<Longrightarrow> collect_persistent_table_references persistent schema target visible tree = Some ids \<Longrightarrow>
     ids = map (ast_id \<circ> fst) (filter (\<lambda>(t, v). \<not> cte_reference target t v) (table_nodes visible tree)) \<and>
     (\<forall>(t, v) \<in> set (table_nodes visible tree).
        \<not> cte_reference target t v \<longrightarrow> is_rewritable_persistent_table t persistent schema)"
  "list_all flat_tables nodes \<Longrightarrow> collect_children persistent schema target visible nodes = Some ids \<Longrightarrow>
     ids = map (ast_id \<circ> fst) (filter (\<lambda>(t, v). \<not> cte_reference target t v)
       (concat (map (table_nodes visible) nodes))) \<and>
     (\<forall>(t, v) \<in> set (concat (map (table_nodes visible) nodes)).
        \<not> cte_reference target t v \<longrightarrow> is_rewritable_persistent_table t persistent schema)"
proof (induction persistent schema target visible tree and persistent schema target visible nodes
    arbitrary: ids and ids rule: collect_persistent_table_references_collect_children.induct)
  case (1 persistent schema target visible table below)
  then show ?case unfolding flat_table [OF "1.prems"(1)] by (auto simp: cte_reference_def split: if_splits)
next
  case (2 persistent schema target visible ctes nodes)
  then show ?case by simp
next
  case (3 persistent schema target visible)
  then show ?case by simp
next
  case (4 persistent schema target visible node nodes)
  then show ?case by (fastforce split: option.splits)
qed

lemma table_nodes_qualify:
  "table_nodes visible (qualify_nodes schema ids tree) =
     map (\<lambda>(t, v). (if ast_id t \<in> ids then qualify_table_reference schema t else t, v)) (table_nodes visible tree)"
  by (induction visible tree rule: table_nodes.induct) (auto simp: map_concat o_def intro!: arg_cong [where f = concat])

lemma qualify_fields [simp]:
  "ast_id (qualify_table_reference schema t) = ast_id t"
  "ast_name (qualify_table_reference schema t) = ast_name t"
  "ast_db (qualify_table_reference schema t) = schema"
  "reference_name (qualify_table_reference schema t) = reference_name t"
  by (simp_all add: qualify_table_reference_def reference_name_def split: option.splits)

definition distinct_nodes :: "sql_ast \<Rightarrow> bool" where
  "distinct_nodes ast \<longleftrightarrow> distinct (map (ast_id \<circ> fst) (table_nodes {} (ast_tree ast)))"

lemma list_all2_mapI: "(\<And>x. x \<in> set xs \<Longrightarrow> P x (f x)) \<Longrightarrow> list_all2 P xs (map f xs)"
  by (simp add: list_all2_conv_all_nth)


text \<open>An \<open>UPDATE\<close> of \<open>t\<close> that reads a CTE named \<open>t\<close> as well as the table itself.\<close>

definition demo_ast_table :: "nat \<Rightarrow> string \<Rightarrow> ast_table" where
  "demo_ast_table i name = \<lparr>ast_id = i, ast_name = name, ast_db = [], ast_alias = None\<rparr>"

definition demo_ast :: sql_ast where
  "demo_ast =
     \<lparr>ast_class = Update_Expr, ast_target = Some 1,
      ast_tree = Inner_Node [''t''] [Table_Node (demo_ast_table 1 ''t'') [],
        Inner_Node [] [Table_Node (demo_ast_table 2 ''t'') [], Table_Node (demo_ast_table 3 ''u'') []]]\<rparr>"


text \<open>
  Names are compared with case, SQLite compares them without: a CTE referred to in another case
  is taken for the table of that name.
\<close>

lemma cte_in_other_case_is_qualified:
  "map (ast_db \<circ> fst) (table_nodes {} (ast_tree (the (rewrite_tree_for_control_db
     \<lparr>ast_class = Select_Expr, ast_target = None, ast_tree = Inner_Node [''T''] [Table_Node (demo_ast_table 1 ''t'') []]\<rparr>
     ''control'' [(''t'', {})])))) = [''control'']"
  by code_simp

text \<open>
  The tables joined below another table node are not visited: the join of an \<open>UPDATE ... FROM\<close> keeps
  reading the main database.
\<close>

lemma joined_table_stays_on_main:
  "map (ast_db \<circ> fst) (table_nodes {} (ast_tree (the (rewrite_tree_for_control_db
     \<lparr>ast_class = Update_Expr, ast_target = Some 1,
      ast_tree = Inner_Node [] [Table_Node (demo_ast_table 1 ''t'') [],
        Table_Node (demo_ast_table 2 ''u'') [Inner_Node [] [Table_Node (demo_ast_table 3 ''t'') []]]]\<rparr>
     ''control'' [(''t'', {}), (''u'', {})])))) = [''control'', ''control'', []]"
  by code_simp

end
