(* ===== verification/Execution_Analysis.thy ===== *)
theory Execution_Analysis
  imports Control_Db
begin

text \<open>
  Probes and failures of replaying: \<open>src/merge/execution_based_analysis.py\<close>. The \<open>SELECT\<close>s that
  show which rows a statement touches or reads, their caches, and the conversion of failures
  into conflicts.
\<close>

section \<open>Failures\<close>

record replay_failure =
  failure_kind :: conflict_kind
  failure_scope :: conflict_scope
  failure_message :: string
  failure_order_label :: string
  failure_statement :: "logged_statement option"

datatype write_read_status = Affected | Unaffected | Probe_Not_Refined

record write_read_result =
  wr_status :: write_read_status
  wr_reason :: "string option"
  affected_reader_indexes :: "nat list"

definition write_read_result_of :: "write_read_status \<Rightarrow> write_read_result" where
  "write_read_result_of status = \<lparr>wr_status = status, wr_reason = None, affected_reader_indexes = []\<rparr>"

definition not_refined_because :: "string option \<Rightarrow> write_read_result" where
  "not_refined_because reason =
     \<lparr>wr_status = Probe_Not_Refined, wr_reason = reason, affected_reader_indexes = []\<rparr>"

definition sqlite_error_text :: "sqlite_error \<Rightarrow> string" where
  "sqlite_error_text e = (case e of Integrity_Error m \<Rightarrow> m | Other_Error m \<Rightarrow> m)"

definition sqlite_error_conflict_kind :: "sqlite_error \<Rightarrow> conflict_kind" where
  "sqlite_error_conflict_kind e = (case e of Integrity_Error _ \<Rightarrow> Integrity | Other_Error _ \<Rightarrow> Replay_Error)"

definition constraint_resolution_conflict ::
    "logged_transaction \<Rightarrow> replay_failure \<Rightarrow> conflict_scope \<Rightarrow> logged_transaction option \<Rightarrow> statement_conflict" where
  "constraint_resolution_conflict transaction failure scope after_transaction =
     (if failure_kind failure \<noteq> Integrity
      then \<lparr>conflict_kind = failure_kind failure,
            conflict_message = ''strict replay probe failed: '' @ failure_message failure,
            conflict_scope = scope, conflict_details = []\<rparr>
      else \<lparr>conflict_kind = Constraint_Resolution,
            conflict_message =
              transaction_label transaction @ '' uses SQLite conflict-resolution syntax; removing it fails''
              @ (case after_transaction of
                   Some t \<Rightarrow> '' after '' @ transaction_label t
                 | None \<Rightarrow> '' under the current prefix'')
              @ '': '' @ failure_message failure
              @ ''. The original SQL succeeds, so this is reviewable rather than a hard replay error.'',
            conflict_scope = Pair_Scope, conflict_details = []\<rparr>)"

definition statement_conflict_details :: "logged_statement \<Rightarrow> (string \<times> string) list" where
  "statement_conflict_details statement =
     [(''statement_branch_index'', decimal_int (ls_branch_index statement))]"

definition scope_text :: "conflict_scope \<Rightarrow> string" where
  "scope_text scope =
     (case scope of Pair_Scope \<Rightarrow> ''pair'' | Ours_Scope \<Rightarrow> ''ours'' | Theirs_Scope \<Rightarrow> ''theirs'' | Both_Scope \<Rightarrow> ''both'')"

definition standalone_replay_conflict :: "replay_failure \<Rightarrow> statement_conflict" where
  "standalone_replay_conflict failure =
     \<lparr>conflict_kind = failure_kind failure,
      conflict_message = scope_text (failure_scope failure)
        @ '' statement cannot be applied under the current prefix: '' @ failure_message failure,
      conflict_scope = failure_scope failure,
      conflict_details = (case failure_statement failure of
          None \<Rightarrow> [] | Some statement \<Rightarrow> statement_conflict_details statement)\<rparr>"

section \<open>Labels of statements in messages\<close>

text \<open>\<open>transaction.statements.index(statement)\<close>, by value; \<open>None\<close> is the \<open>ValueError\<close>.\<close>

definition statement_index :: "logged_transaction \<Rightarrow> logged_statement \<Rightarrow> nat option" where
  "statement_index transaction statement =
     List.find (\<lambda>i. lt_statements transaction ! i = statement) [0..<length (lt_statements transaction)]"

definition transaction_scoped_statement_label :: "logged_transaction \<Rightarrow> logged_statement \<Rightarrow> string" where
  "transaction_scoped_statement_label transaction statement =
     (case statement_index transaction statement of
        None \<Rightarrow> transaction_label transaction
      | Some i \<Rightarrow> transaction_label transaction @ ''.'' @ decimal (i + 1))"

definition transaction_statement_list_label :: "logged_transaction \<Rightarrow> logged_statement list \<Rightarrow> string" where
  "transaction_statement_list_label transaction statements =
     join_with '', '' (map (transaction_scoped_statement_label transaction) statements)"

text \<open>The message, or \<open>None\<close> for an index outside the reader, an \<open>IndexError\<close>.\<close>

definition write_read_conflict_message ::
    "logged_transaction \<Rightarrow> logged_transaction \<Rightarrow> write_read_result \<Rightarrow> string option" where
  "write_read_conflict_message writer reader result =
     (let indexes = affected_reader_indexes result in
      if list_ex (\<lambda>i. length (lt_statements reader) \<le> i) indexes then None
      else let statements = map ((!) (lt_statements reader)) indexes;
               reader_label = (if statements \<noteq> [] then transaction_statement_list_label reader statements
                               else transaction_label reader)
           in Some (reader_label @ '' reads values affected by '' @ transaction_label writer))"

section \<open>Target-row probes\<close>

definition metadata_exn :: "metadata_error \<Rightarrow> exn" where
  "metadata_exn e = (case e of Parse_Failed \<Rightarrow> Parse_Exn | Assertion_Failed \<Rightarrow> Assertion_Exn)"

definition from_result :: "(metadata_error + 'a) \<Rightarrow> ('s, 'a) action" where
  "from_result r = (case r of Inl e \<Rightarrow> raise_exn (metadata_exn e) | Inr x \<Rightarrow> return_value x)"

definition probe_primary_key_columns :: "'db merge_context \<Rightarrow> string \<Rightarrow> string list" where
  "probe_primary_key_columns ctx table =
     (case context_primary_keys ctx table of
        Some columns \<Rightarrow> columns
      | None \<Rightarrow> primary_key_columns (ctx_catalog (schema_context ctx)) (Some table))"

text \<open>\<open>s.removeprefix("FROM ").strip()\<close>.\<close>

definition from_expression_sql :: "string \<Rightarrow> string" where
  "from_expression_sql s = strip (if starts_with s ''FROM '' then drop 5 s else s)"

definition with_prefix :: "rendered_sql \<Rightarrow> string" where
  "with_prefix r = (case r_with r of None \<Rightarrow> [] | Some w \<Rightarrow> w @ '' '')"

definition target_row_select ::
    "'db merge_context \<Rightarrow> statement_metadata \<Rightarrow> string list \<Rightarrow> metadata_error + string option" where
  "target_row_select ctx metadata extra_select_expressions =
     (let expression = parsed_sql_text metadata; r = rendered ctx expression in
      if parsed_class expression \<notin> {Update_Expr, Delete_Expr} then Inr None
      else result_bind (required_updated_table metadata) (\<lambda>table.
        case table_expression (parsed_target expression) of
          None \<Rightarrow> Inl Assertion_Failed
        | Some target_table \<Rightarrow>
            let pk_columns = probe_primary_key_columns ctx table;
                qualifier = table_alias_or_name target_table in
            if pk_columns = [] then Inr None
            else Inr (Some (with_prefix r
              @ ''SELECT ''
              @ join_with '', ''
                  (map (\<lambda>column. quote_identifier qualifier @ ''.'' @ quote_identifier column) pk_columns
                   @ extra_select_expressions)
              @ '' FROM ''
              @ join_with '', ''
                  (r_target r # (case r_from r of
                     Some f \<Rightarrow> if parsed_class expression = Update_Expr then [from_expression_sql f] else []
                   | None \<Rightarrow> []))
              @ (case r_where r of None \<Rightarrow> [] | Some w \<Rightarrow> '' WHERE '' @ w)))))"

definition affected_primary_key_select ::
    "'db merge_context \<Rightarrow> statement_metadata \<Rightarrow> ('db replay_state, string option) action" where
  "affected_primary_key_select ctx metadata s =
     (let cache_key = metadata_id (engine ctx) (uuid_draws s) metadata in
      case map_of (affected_pk_probe_cache s) cache_key of
        Some probe \<Rightarrow> (Inr probe, s)
      | None \<Rightarrow>
          (case target_row_select ctx metadata [] of
             Inl e \<Rightarrow> (Inl (metadata_exn e), s)
           | Inr probe \<Rightarrow>
               (Inr probe,
                s\<lparr>affected_pk_probe_cache := dict_set cache_key probe (affected_pk_probe_cache s)\<rparr>)))"

section \<open>Read probes\<close>

definition expression_has_read :: "rendered_value \<Rightarrow> bool" where
  "expression_has_read v \<longleftrightarrow> value_is_read v \<or> value_contains_read v"

definition assignment_read_expressions :: "rendered_sql \<Rightarrow> string list" where
  "assignment_read_expressions r =
     List.map_filter
       (\<lambda>(index, is_eq, value_of).
          case value_of of
            None \<Rightarrow> None
          | Some v \<Rightarrow>
              if is_eq \<and> expression_has_read v
              then Some (value_sql v @ '' AS __set_expr_'' @ decimal index) else None)
       (enumerate 1 (r_assignments r))"

definition update_read_probe_select ::
    "'db merge_context \<Rightarrow> statement_metadata \<Rightarrow> metadata_error + string option" where
  "update_read_probe_select ctx metadata =
     (if parsed_class (parsed_sql_text metadata) \<noteq> Update_Expr then Inr None
      else target_row_select ctx metadata
             (assignment_read_expressions (rendered ctx (parsed_sql_text metadata))))"

definition value_row_expressions :: "rendered_row \<Rightarrow> rendered_value list" where
  "value_row_expressions row = (case row of Tuple_Row values \<Rightarrow> values | Single_Row v \<Rightarrow> [v])"

text \<open>The value positions that read in some row, in order.\<close>

definition read_value_indexes :: "rendered_value list list \<Rightarrow> nat list" where
  "read_value_indexes rows =
     filter (\<lambda>i. list_ex (\<lambda>row. i < length row \<and> expression_has_read (row ! i)) rows)
       [0..<foldl max 0 (map length rows)]"

definition values_row_select :: "nat list \<Rightarrow> nat \<times> rendered_value list \<Rightarrow> string" where
  "values_row_select value_indexes numbered_row =
     (case numbered_row of (row_index, row) \<Rightarrow>
        ''SELECT '' @ decimal (row_index + 1) @ '' AS __row_index, ''
        @ join_with '', ''
            (map (\<lambda>i. value_sql (row ! i) @ '' AS __value_'' @ decimal (i + 1))
               (filter (\<lambda>i. i < length row) value_indexes)))"

definition insert_values_probe_select :: "rendered_sql \<Rightarrow> string option" where
  "insert_values_probe_select r =
     (case r_source r of
        Some (Values_Source value_rows) \<Rightarrow>
          (let rows = map value_row_expressions value_rows;
               read_rows = filter (\<lambda>(_, row). list_ex expression_has_read row) (enumerate 0 rows) in
           if read_rows = [] then None
           else Some (with_prefix r
             @ join_with '' UNION ALL ''
                 (map (values_row_select (read_value_indexes (map snd read_rows))) read_rows)))
      | _ \<Rightarrow> None)"

definition insert_source_select_sql :: "rendered_sql \<Rightarrow> string option" where
  "insert_source_select_sql r =
     (case r_source r of
        Some (Query_Source sql) \<Rightarrow> Some (with_prefix r @ sql)
      | _ \<Rightarrow> None)"

definition select_output_count :: "'db sqlite \<Rightarrow> string \<Rightarrow> ('db replay_state, nat option) action" where
  "select_output_count eng select_sql =
     catch_sqlite
       (and_then (fetch_column_count eng (''SELECT * FROM ('' @ select_sql @ '') LIMIT 0''))
          (\<lambda>n. return_value (Some n)))
       (\<lambda>_. return_value None)"

definition group_columns :: "nat \<Rightarrow> string" where
  "group_columns n = join_with '', '' (map decimal [1..<n + 1])"

definition insert_select_probe_select ::
    "'db merge_context \<Rightarrow> rendered_sql \<Rightarrow> ('db replay_state, string option) action" where
  "insert_select_probe_select ctx r =
     (case insert_source_select_sql r of
        None \<Rightarrow> return_value None
      | Some source_sql \<Rightarrow>
          and_then (select_output_count (engine ctx) source_sql) (\<lambda>output_count.
            return_value (map_option
              (\<lambda>n. ''SELECT *, COUNT(*) AS __count FROM ('' @ source_sql @ '') GROUP BY '' @ group_columns n)
              output_count)))"

definition probe_result :: "string option \<Rightarrow> read_probe" where
  "probe_result sql =
     (case sql of
        None \<Rightarrow> \<lparr>probe_status = Not_Refined, probe_sql = None,
                 probe_reason = Some ''reader probe could not be built''\<rparr>
      | Some text \<Rightarrow> \<lparr>probe_status = Probe_Ok, probe_sql = Some text, probe_reason = None\<rparr>)"

definition no_read_dependency :: read_probe where
  "no_read_dependency = \<lparr>probe_status = No_Read_Dependency, probe_sql = None, probe_reason = None\<rparr>"

definition insert_probe_select :: "'db merge_context \<Rightarrow> rendered_sql \<Rightarrow> ('db replay_state, read_probe) action" where
  "insert_probe_select ctx r =
     (case r_source r of
        Some (Values_Source _) \<Rightarrow>
          return_value (case insert_values_probe_select r of
              None \<Rightarrow> no_read_dependency
            | Some probe \<Rightarrow> \<lparr>probe_status = Probe_Ok, probe_sql = Some probe, probe_reason = None\<rparr>)
      | Some (Query_Source _) \<Rightarrow>
          and_then (insert_select_probe_select ctx r) (\<lambda>sql. return_value (probe_result sql))
      | None \<Rightarrow> return_value no_read_dependency)"

definition cache_read_probe_result ::
    "'db merge_context \<Rightarrow> statement_metadata \<Rightarrow> read_probe \<Rightarrow> ('db replay_state, read_probe) action" where
  "cache_read_probe_result ctx metadata result s =
     (Inr result,
      s\<lparr>read_probe_result_cache :=
          dict_set (metadata_id (engine ctx) (uuid_draws s) metadata) result (read_probe_result_cache s)\<rparr>)"

definition build_read_probe ::
    "'db merge_context \<Rightarrow> statement_metadata \<Rightarrow> ('db replay_state, read_probe) action" where
  "build_read_probe ctx metadata =
     (let expression = parsed_sql_text metadata in
      case parsed_class expression of
        Update_Expr \<Rightarrow>
          and_then (from_result (update_read_probe_select ctx metadata)) (\<lambda>sql. return_value (probe_result sql))
      | Delete_Expr \<Rightarrow>
          and_then (affected_primary_key_select ctx metadata) (\<lambda>sql. return_value (probe_result sql))
      | Insert_Expr \<Rightarrow> insert_probe_select ctx (rendered ctx expression)
      | _ \<Rightarrow> return_value \<lparr>probe_status = Not_Refined, probe_sql = None,
                   probe_reason = Some ''reader statement has no supported probe''\<rparr>)"

definition read_probe_result ::
    "'db merge_context \<Rightarrow> statement_metadata \<Rightarrow> ('db replay_state, read_probe) action" where
  "read_probe_result ctx metadata s =
     (case map_of (read_probe_result_cache s) (metadata_id (engine ctx) (uuid_draws s) metadata) of
        Some cached \<Rightarrow> (Inr cached, s)
      | None \<Rightarrow> and_then (build_read_probe ctx metadata) (cache_read_probe_result ctx metadata) s)"

section \<open>Queries over probes\<close>

definition select_difference_query :: "string \<Rightarrow> string \<Rightarrow> string" where
  "select_difference_query first_select second_select =
     ''SELECT 1 FROM (SELECT 1 FROM ('' @ second_select @ '' EXCEPT '' @ first_select
     @ '') UNION ALL SELECT 1 FROM ('' @ first_select @ '' EXCEPT '' @ second_select @ '')) LIMIT 1''"

definition stored_probe_difference_query :: "string \<Rightarrow> string \<Rightarrow> string" where
  "stored_probe_difference_query before_table after_probe =
     select_difference_query (''SELECT * FROM '' @ quote_identifier before_table)
       (''SELECT * FROM ('' @ after_probe @ '')'')"

definition is_update_from_statement :: "'db merge_context \<Rightarrow> statement_metadata \<Rightarrow> bool" where
  "is_update_from_statement ctx metadata \<longleftrightarrow>
     is_update_statement metadata \<and> r_from (rendered ctx (parsed_sql_text metadata)) \<noteq> None"

definition probe_has_duplicate_target_rows ::
    "'db merge_context \<Rightarrow> statement_metadata \<Rightarrow> string \<Rightarrow> ('db replay_state, bool) action" where
  "probe_has_duplicate_target_rows ctx metadata probe =
     and_then (from_result (required_updated_table metadata)) (\<lambda>table.
       let pk_count = length (probe_primary_key_columns ctx table) in
       if pk_count = 0 then return_value True
       else and_then
         (fetch_one (engine ctx) (''SELECT 1 FROM ('' @ probe @ '') GROUP BY '' @ group_columns pk_count
            @ '' HAVING COUNT(*) > 1 LIMIT 1''))
         (\<lambda>row. return_value (row \<noteq> None)))"

definition update_from_has_duplicate_target_rows ::
    "'db merge_context \<Rightarrow> statement_metadata \<Rightarrow> ('db replay_state, bool) action" where
  "update_from_has_duplicate_target_rows ctx metadata =
     (if \<not> is_update_from_statement ctx metadata then return_value False
      else and_then (affected_primary_key_select ctx metadata) (\<lambda>probe.
        case probe of
          None \<Rightarrow> return_value False
        | Some text \<Rightarrow>
            catch_sqlite (probe_has_duplicate_target_rows ctx metadata text) (\<lambda>_. return_value False)))"

definition temp_probe_result_table_name :: "'db sqlite \<Rightarrow> ('db replay_state, string) action" where
  "temp_probe_result_table_name eng =
     and_then (uuid4 eng) (\<lambda>hex. return_value (''__sqlite_merge_probe_'' @ hex))"

definition create_probe_result_table ::
    "'db sqlite \<Rightarrow> string \<Rightarrow> string \<Rightarrow> ('db replay_state, unit) action" where
  "create_probe_result_table eng result_table probe =
     execute eng (''CREATE TEMP TABLE '' @ quote_identifier result_table @ '' AS SELECT * FROM ('' @ probe @ '')'')"

definition foreign_key_check_error ::
    "'db sqlite \<Rightarrow> string option \<Rightarrow> ('db replay_state, string option) action" where
  "foreign_key_check_error eng schema =
     and_then
       (fetch_one eng (case schema of
          None \<Rightarrow> ''PRAGMA foreign_key_check''
        | Some name \<Rightarrow> ''PRAGMA '' @ quote_identifier name @ ''.foreign_key_check''))
       (\<lambda>row. return_value (map_option (\<lambda>r. ''foreign_key_check failed: '' @ r) row))"

end
