(* ===== verification/Replay_Framing.thy ===== *)
theory Replay_Framing
  imports Execution_Analysis
begin

text \<open>
  Which part of the replay state an action may touch. \<open>silent\<close> actions leave the connection
  alone; \<open>framed\<close> actions may change the content but leave the savepoint stack as it was,
  unless SQLite rolled the whole transaction back and emptied it; \<open>probing\<close> actions change
  neither, unless they raise after such a rollback. The three are closed under the ways the code composes actions,
  and a block that opens a savepoint and rolls it back at the end turns framed into probing.
\<close>

named_theorems framing
  \<open>silent, probing and framed actions\<close>

definition silent :: "('db replay_state, 'a) action \<Rightarrow> bool" where
  "silent m \<longleftrightarrow> (\<forall>s. content (snd (m s)) = content s \<and> stack (snd (m s)) = stack s)"

definition probing :: "('db replay_state, 'a) action \<Rightarrow> bool" where
  "probing m \<longleftrightarrow> (\<forall>s. content (snd (m s)) = content s \<and> stack (snd (m s)) = stack s \<or>
     stack (snd (m s)) = [] \<and> isl (fst (m s)))"

definition framed :: "('db replay_state, 'a) action \<Rightarrow> bool" where
  "framed m \<longleftrightarrow> (\<forall>s. stack (snd (m s)) = stack s \<or> stack (snd (m s)) = [])"

lemma silent_probing: "silent m \<Longrightarrow> probing m"
  by (simp add: silent_def probing_def)

lemma probing_framed: "probing m \<Longrightarrow> framed m"
  by (auto simp: probing_def framed_def)

lemma silent_framed: "silent m \<Longrightarrow> framed m"
  by (simp add: silent_probing probing_framed)

lemma silentD: "silent m \<Longrightarrow> m s = (r, s') \<Longrightarrow> content s' = content s \<and> stack s' = stack s"
  unfolding silent_def by (metis snd_conv)

lemma probingD:
  "probing m \<Longrightarrow> m s = (r, s') \<Longrightarrow>
     content s' = content s \<and> stack s' = stack s \<or> stack s' = [] \<and> isl r"
  unfolding probing_def by (metis fst_conv snd_conv)

lemma framedD: "framed m \<Longrightarrow> m s = (r, s') \<Longrightarrow> stack s' = stack s \<or> stack s' = []"
  unfolding framed_def by (metis snd_conv)

section \<open>The basic actions\<close>

lemma silent_basic [framing]:
  "silent (return_value x)" "silent (raise_exn e)" "silent (fetch_one eng sql)"
  "silent (fetch_column_count eng sql)" "silent (uuid4 eng)" "silent (from_result r)"
  by (simp_all add: silent_def return_value_def raise_exn_def fetch_one_def fetch_column_count_def
      uuid4_def from_result_def split: sum.splits)

lemma framed_execute [framing]: "framed (execute eng sql)"
  by (simp add: framed_def execute_def split: run_result.splits)

lemma framed_basic [framing]:
  "framed (return_value x)" "framed (raise_exn e)" "framed (fetch_one eng sql)"
  "framed (fetch_column_count eng sql)" "framed (uuid4 eng)" "framed (from_result r)"
  using silent_basic by (metis silent_framed)+

lemma probing_basic [framing]:
  "probing (return_value x)" "probing (raise_exn e)" "probing (fetch_one eng sql)"
  "probing (fetch_column_count eng sql)" "probing (uuid4 eng)" "probing (from_result r)"
  using silent_basic by (metis silent_probing)+

section \<open>Composition\<close>

lemma silentI:
  "(\<And>s r s'. m s = (r, s') \<Longrightarrow> content s' = content s \<and> stack s' = stack s) \<Longrightarrow> silent m"
  unfolding silent_def by (metis prod.collapse)

lemma silent_and_then [framing]:
  assumes "silent m" "\<And>x. silent (f x)"
  shows "silent (and_then m f)"
proof (rule silentI)
  fix s r s' assume run: "and_then m f s = (r, s')"
  obtain r1 s1 where m: "m s = (r1, s1)" by fastforce
  show "content s' = content s \<and> stack s' = stack s"
    using silentD [OF assms(1) m] run m
    by (cases r1) (auto simp: and_then_def dest: silentD [OF assms(2)])
qed

lemma framedI:
  "(\<And>s r s'. m s = (r, s') \<Longrightarrow> stack s' = stack s \<or> stack s' = []) \<Longrightarrow> framed m"
  unfolding framed_def by (metis prod.collapse)

lemma framed_and_then [framing]:
  assumes "framed m" "\<And>x. framed (f x)"
  shows "framed (and_then m f)"
proof (rule framedI)
  fix s r s' assume run: "and_then m f s = (r, s')"
  obtain r1 s1 where m: "m s = (r1, s1)" by fastforce
  show "stack s' = stack s \<or> stack s' = []"
    using framedD [OF assms(1) m] run m
    by (cases r1) (auto simp: and_then_def dest: framedD [OF assms(2)])
qed

lemma probing_and_then [framing]:
  assumes "probing m" "\<And>x. probing (f x)"
  shows "probing (and_then m f)"
  unfolding probing_def
proof
  fix s
  obtain r s1 where m: "m s = (r, s1)" by fastforce
  show "content (snd (and_then m f s)) = content s \<and> stack (snd (and_then m f s)) = stack s \<or>
      stack (snd (and_then m f s)) = [] \<and> isl (fst (and_then m f s))"
  proof (cases r)
    case (Inl e)
    then show ?thesis using probingD [OF assms(1) m] m by (simp add: and_then_def)
  next
    case (Inr x)
    obtain r2 s2 where f: "f x s1 = (r2, s2)" by fastforce
    show ?thesis
      using probingD [OF assms(1) m] probingD [OF assms(2) f] m f Inr by (auto simp: and_then_def)
  qed
qed

lemma silent_catch [framing]:
  assumes "silent m" "\<And>e. silent (h e)"
  shows "silent (catch_sqlite m h)"
proof (rule silentI)
  fix s r s' assume run: "catch_sqlite m h s = (r, s')"
  obtain r1 s1 where m: "m s = (r1, s1)" by fastforce
  show "content s' = content s \<and> stack s' = stack s"
    using silentD [OF assms(1) m] run m
    by (auto simp: catch_sqlite_def dest: silentD [OF assms(2)] split: sum.splits exn.splits)
qed

lemma framed_catch [framing]:
  assumes "framed m" "\<And>e. framed (h e)"
  shows "framed (catch_sqlite m h)"
proof (rule framedI)
  fix s r s' assume run: "catch_sqlite m h s = (r, s')"
  obtain r1 s1 where m: "m s = (r1, s1)" by fastforce
  show "stack s' = stack s \<or> stack s' = []"
    using framedD [OF assms(1) m] run m
    by (auto simp: catch_sqlite_def dest: framedD [OF assms(2)] split: sum.splits exn.splits)
qed

lemma framed_finally [framing]:
  assumes "framed m" "framed f"
  shows "framed (finally_do m f)"
proof (rule framedI)
  fix s r s' assume run: "finally_do m f s = (r, s')"
  obtain r1 s1 where m: "m s = (r1, s1)" by fastforce
  show "stack s' = stack s \<or> stack s' = []"
    using framedD [OF assms(1) m] framedD [OF assms(2), of s1] run m
    by (auto simp: finally_do_def split: sum.splits prod.splits)
qed

lemma silent_for_until [framing]: "(\<And>x. silent (body x)) \<Longrightarrow> silent (for_until body xs)"
  by (induction xs) (auto intro!: framing split: option.splits)

lemma framed_for_until [framing]: "(\<And>x. framed (body x)) \<Longrightarrow> framed (for_until body xs)"
  by (induction xs) (auto intro!: framing split: option.splits)

lemma probing_for_until [framing]: "(\<And>x. probing (body x)) \<Longrightarrow> probing (for_until body xs)"
  by (induction xs) (auto intro!: framing split: option.splits)

lemma probing_catch_silent [framing]:
  "silent m \<Longrightarrow> (\<And>e. silent (h e)) \<Longrightarrow> probing (catch_sqlite m h)"
  by (rule silent_probing) (rule silent_catch)

text \<open>Case distinctions.\<close>

lemma silent_cases [framing]:
  "silent m \<Longrightarrow> silent n \<Longrightarrow> silent (if b then m else n)"
  "silent m \<Longrightarrow> (\<And>x. silent (f x)) \<Longrightarrow> silent (case opt of None \<Rightarrow> m | Some x \<Rightarrow> f x)"
  "silent (g t) \<Longrightarrow> silent (Let t g)"
  by (simp_all split: option.splits)

lemma probing_cases [framing]:
  "probing m \<Longrightarrow> probing n \<Longrightarrow> probing (if b then m else n)"
  "probing m \<Longrightarrow> (\<And>x. probing (f x)) \<Longrightarrow> probing (case opt of None \<Rightarrow> m | Some x \<Rightarrow> f x)"
  "probing (g t) \<Longrightarrow> probing (Let t g)"
  by (simp_all split: option.splits)

lemma framed_cases [framing]:
  "framed m \<Longrightarrow> framed n \<Longrightarrow> framed (if b then m else n)"
  "framed m \<Longrightarrow> (\<And>x. framed (f x)) \<Longrightarrow> framed (case opt of None \<Rightarrow> m | Some x \<Rightarrow> f x)"
  "framed (g t) \<Longrightarrow> framed (Let t g)"
  by (simp_all split: option.splits)

section \<open>Savepoint blocks\<close>

text \<open>SQLite's documented behaviour the code relies on: a commit that changes nothing succeeds.\<close>

definition commits_no_change :: "'db sqlite \<Rightarrow> bool" where
  "commits_no_change eng \<longleftrightarrow> (\<forall>db. commit_error eng db db = None)"

lemma rollback_savepoint_top:
  assumes "stack s = (name, db) # outer" "commits_no_change eng"
  shows "rollback_savepoint eng name s = (Inr (), s\<lparr>content := db, stack := outer\<rparr>)"
  using assms
  by (simp add: rollback_savepoint_def finally_do_def rollback_to_def release_def from_savepoint_def
      commits_no_change_def)

lemma rollback_savepoint_lost:
  "stack s = [] \<Longrightarrow> rollback_savepoint eng name s = (Inl (no_such_savepoint name), s)"
  by (simp add: rollback_savepoint_def finally_do_def rollback_to_def release_def from_savepoint_def)

lemma open_savepoint_run:
  "open_savepoint eng prefix s =
     (Inr (quote_identifier (prefix @ uuid_hex eng (uuid_draws s))),
      s\<lparr>uuid_draws := uuid_draws s + 1,
        stack := (quote_identifier (prefix @ uuid_hex eng (uuid_draws s)), content s) # stack s\<rparr>)"
  by (simp add: open_savepoint_def and_then_def uuid4_def savepoint_def return_value_def Let_def)

lemma probing_discarded [framing]:
  fixes m :: "string \<Rightarrow> ('db replay_state, 'a) action"
  assumes "\<And>name. framed (m name)" "commits_no_change eng"
  shows "probing (discarded eng prefix m)"
  unfolding probing_def
proof
  fix s :: "'db replay_state"
  let ?name = "quote_identifier (prefix @ uuid_hex eng (uuid_draws s))"
  let ?s1 = "s\<lparr>uuid_draws := uuid_draws s + 1, stack := (?name, content s) # stack s\<rparr>"
  obtain r s2 where m: "m ?name ?s1 = (r, s2)" by fastforce
  have "stack s2 = (?name, content s) # stack s \<or> stack s2 = []"
    using framedD [OF assms(1) m] by simp
  then show "content (snd (discarded eng prefix m s)) = content s \<and>
      stack (snd (discarded eng prefix m s)) = stack s \<or>
      stack (snd (discarded eng prefix m s)) = [] \<and> isl (fst (discarded eng prefix m s))"
    using rollback_savepoint_top [OF _ assms(2)] rollback_savepoint_lost [of s2 eng ?name] m
    by (auto simp: discarded_def and_then_def open_savepoint_run finally_do_def split: sum.splits)
qed

section \<open>The probe builders are silent\<close>

lemma silent_affected_primary_key_select [framing]: "silent (affected_primary_key_select ctx metadata)"
  by (simp add: silent_def affected_primary_key_select_def Let_def split: option.splits sum.splits)

lemma silent_cache_read_probe_result [framing]: "silent (cache_read_probe_result ctx metadata result)"
  by (simp add: silent_def cache_read_probe_result_def)

lemma silent_insert_probe_select [framing]: "silent (insert_probe_select ctx r)"
  unfolding insert_probe_select_def insert_select_probe_select_def select_output_count_def
  by (auto intro!: framing split: option.splits insert_source.splits)

lemma silent_build_read_probe [framing]: "silent (build_read_probe ctx metadata)"
  unfolding build_read_probe_def Let_def
  by (auto intro!: framing split: expression_class.splits)

lemma silent_read_probe_result [framing]: "silent (read_probe_result ctx metadata)"
proof -
  have "silent (and_then (build_read_probe ctx metadata) (cache_read_probe_result ctx metadata))"
    by (intro framing)
  then show ?thesis by (auto simp: silent_def read_probe_result_def split: option.splits)
qed

lemma silent_probe_has_duplicate [framing]: "silent (probe_has_duplicate_target_rows ctx metadata probe)"
  unfolding probe_has_duplicate_target_rows_def Let_def by (intro framing)

lemma silent_update_from_has_duplicate [framing]: "silent (update_from_has_duplicate_target_rows ctx metadata)"
  unfolding update_from_has_duplicate_target_rows_def by (intro framing)

lemma silent_temp_probe_name [framing]: "silent (temp_probe_result_table_name eng)"
  unfolding temp_probe_result_table_name_def by (intro framing)

lemma silent_foreign_key_check [framing]: "silent (foreign_key_check_error eng schema)"
  unfolding foreign_key_check_error_def by (intro framing)

lemma framed_create_probe [framing]: "framed (create_probe_result_table eng t probe)"
  unfolding create_probe_result_table_def by (rule framed_execute)

end
