(* ===== verification/Accepted_Replay.thy ===== *)
theory Accepted_Replay
  imports Replay_Framing
begin

text \<open>
  Replaying accepted transactions: \<open>src/merge/accepted_replay.py\<close>. One statement runs on the
  control copy and then on main; a transaction runs inside a savepoint and is either recorded
  in the log or rolled back with the conflict that stopped it.
\<close>

section \<open>SQL for the control copy\<close>

definition control_sql_cache_key :: "'db sqlite \<Rightarrow> nat \<Rightarrow> rewrite_input \<Rightarrow> string \<times> string" where
  "control_sql_cache_key eng now sql =
     (case sql of
        Statement_Sql statement \<Rightarrow> (''statement'', statement_id eng now statement)
      | Raw_Sql text \<Rightarrow> (''sql'', text))"

definition control_sql_for :: "'db merge_context \<Rightarrow> rewrite_input \<Rightarrow> ('db replay_state, string option) action" where
  "control_sql_for ctx sql s =
     (case control_sql_rewriter ctx of
        None \<Rightarrow> (Inr None, s)
      | Some rewriter \<Rightarrow>
          let cache_key = control_sql_cache_key (engine ctx) (uuid_draws s) sql in
          case map_of (control_sql_cache s) cache_key of
            Some cached \<Rightarrow> (Inr cached, s)
          | None \<Rightarrow> (Inr (rewriter sql),
              s\<lparr>control_sql_cache := dict_set cache_key (rewriter sql) (control_sql_cache s)\<rparr>))"

section \<open>Messages\<close>

definition branch_scope :: "branch \<Rightarrow> conflict_scope" where
  "branch_scope b = (case b of Ours \<Rightarrow> Ours_Scope | Theirs \<Rightarrow> Theirs_Scope)"

definition sqlite_exception_conflict :: "sqlite_error \<Rightarrow> conflict_scope \<Rightarrow> statement_conflict" where
  "sqlite_exception_conflict error scope =
     \<lparr>conflict_kind = sqlite_error_conflict_kind error, conflict_message = sqlite_error_text error,
      conflict_scope = scope, conflict_details = []\<rparr>"

definition clean_control_conflict :: "'db merge_context \<Rightarrow> statement_conflict \<Rightarrow> statement_conflict" where
  "clean_control_conflict ctx conflict =
     conflict\<lparr>conflict_message :=
       clean_control_schema_references (conflict_message conflict) (control_schema ctx)\<rparr>"

definition clean_control_failure :: "'db merge_context \<Rightarrow> replay_failure option \<Rightarrow> replay_failure option" where
  "clean_control_failure ctx failure =
     map_option (\<lambda>f. f\<lparr>failure_message :=
       clean_control_schema_references (failure_message f) (control_schema ctx)\<rparr>) failure"

definition replay_failure_conflict :: "replay_failure \<Rightarrow> statement_conflict" where
  "replay_failure_conflict failure =
     \<lparr>conflict_kind = failure_kind failure,
      conflict_message = failure_order_label failure @ '': '' @ failure_message failure,
      conflict_scope = failure_scope failure,
      conflict_details = (case failure_statement failure of
          None \<Rightarrow> [] | Some statement \<Rightarrow> statement_conflict_details statement)\<rparr>"

definition is_unique_constraint_failure :: "replay_failure \<Rightarrow> bool" where
  "is_unique_constraint_failure failure \<longleftrightarrow>
     failure_kind failure = Integrity \<and> contains_text (failure_message failure) ''UNIQUE constraint failed''"

definition conflict_resolution_already_active_warning :: "string \<Rightarrow> string \<Rightarrow> string" where
  "conflict_resolution_already_active_warning label message =
     ''SQLite conflict-resolution syntax is already active here; strict replay without '' @ label
     @ '' fails: '' @ message"

section \<open>One statement\<close>

definition failure_of ::
    "conflict_kind \<Rightarrow> conflict_scope \<Rightarrow> string \<Rightarrow> string \<Rightarrow> logged_statement \<Rightarrow> replay_failure" where
  "failure_of kind scope message order_label statement =
     \<lparr>failure_kind = kind, failure_scope = scope, failure_message = message,
      failure_order_label = order_label, failure_statement = Some statement\<rparr>"

definition execute_sql_for_replay ::
    "'db sqlite \<Rightarrow> logged_statement \<Rightarrow> string \<Rightarrow> conflict_scope \<Rightarrow> string \<Rightarrow> string option \<Rightarrow> bool \<Rightarrow>
     ('db replay_state, replay_failure option) action" where
  "execute_sql_for_replay eng statement sql_text scope order_label foreign_key_schema check_deferred =
     and_then
       (catch_sqlite
          (and_then (execute eng sql_text) (\<lambda>_. return_value None))
          (\<lambda>e. return_value (Some (failure_of (sqlite_error_conflict_kind e) scope (sqlite_error_text e)
                 order_label statement))))
       (\<lambda>failure. case failure of
          Some f \<Rightarrow> return_value (Some f)
        | None \<Rightarrow>
            if \<not> check_deferred then return_value None
            else and_then (foreign_key_check_error eng foreign_key_schema) (\<lambda>deferred_error.
              return_value (map_option
                (\<lambda>m. failure_of Integrity scope m order_label statement) deferred_error)))"

definition execute_statement_on_main ::
    "'db merge_context \<Rightarrow> conflict_scope \<Rightarrow> string \<Rightarrow> bool \<Rightarrow> logged_statement \<Rightarrow>
     ('db replay_state, replay_failure option) action" where
  "execute_statement_on_main ctx scope order_label check_deferred statement =
     execute_sql_for_replay (engine ctx) statement (statement_sql_text statement) scope order_label None
       check_deferred"

definition upsert_message :: "string \<Rightarrow> string" where
  "upsert_message message =
     ''UPSERT is not fully supported for automatic merge checking; control replay without ON CONFLICT failed: ''
     @ message @ ''. Edit or delete the transaction to continue.''"

definition execute_statement_on_control ::
    "'db merge_context \<Rightarrow> conflict_scope \<Rightarrow> string \<Rightarrow> bool \<Rightarrow> logged_statement \<Rightarrow>
     ('db replay_state, replay_failure option) action" where
  "execute_statement_on_control ctx scope order_label check_deferred statement =
     and_then (control_sql_for ctx (Statement_Sql statement)) (\<lambda>control_sql.
       case control_sql of
         None \<Rightarrow> return_value (Some (failure_of Replay_Error scope
                   ''statement cannot be rewritten for control database'' order_label statement))
       | Some sql \<Rightarrow>
           and_then
             (execute_sql_for_replay (engine ctx) statement sql scope order_label (control_schema ctx)
                check_deferred)
             (\<lambda>failure. return_value (map_option
                (\<lambda>f. if stripped_upsert (sm_compatible_sql (ls_metadata statement)) \<and>
                         is_unique_constraint_failure f
                      then f\<lparr>failure_message := upsert_message (failure_message f)\<rparr> else f)
                (clean_control_failure ctx failure))))"

section \<open>Strict replay of conflict-resolution syntax\<close>

definition strict_conflict_resolution_statement ::
    "'db merge_context \<Rightarrow> logged_statement \<Rightarrow> metadata_error + (logged_statement \<times> string) option" where
  "strict_conflict_resolution_statement ctx statement =
     (if \<not> has_reviewable_constraint_resolution (ls_metadata statement) then Inr None
      else case strict_conflict_resolution_rewrite (statement_sql_text statement) of
        None \<Rightarrow> Inr None
      | Some rewrite \<Rightarrow>
          result_bind (parse_statement_metadata_for_context (parse_sql ctx) (strict_sql rewrite) (schema_context ctx))
            (\<lambda>metadata. Inr (Some
               (statement\<lparr>to_replay_sql_text := strict_sql rewrite, ls_metadata := metadata,
                  replay_warnings := replay_warnings statement @ [''strict replay removed '' @ strict_label rewrite]\<rparr>,
                strict_label rewrite))))"

text \<open>A strict statement in a nested savepoint, its effects discarded.\<close>

definition savepoint_statement_failure ::
    "'db merge_context \<Rightarrow> logged_statement \<Rightarrow> bool \<Rightarrow> conflict_scope \<Rightarrow> string \<Rightarrow>
     ('db replay_state, replay_failure option) action" where
  "savepoint_statement_failure ctx statement use_control scope order_label =
     discarded (engine ctx) ''sqlite_merge_remaining_stmt_probe_'' (\<lambda>_.
       if use_control then execute_statement_on_control ctx scope order_label True statement
       else execute_statement_on_main ctx scope order_label True statement)"

definition conflict_resolution_branch_warning ::
    "'db merge_context \<Rightarrow> logged_statement \<Rightarrow> ('db replay_state, string option) action" where
  "conflict_resolution_branch_warning ctx statement =
     and_then (from_result (strict_conflict_resolution_statement ctx statement)) (\<lambda>strict_statement.
       case strict_statement of
         None \<Rightarrow> return_value None
       | Some (statement_without_resolution, label) \<Rightarrow>
           and_then
             (savepoint_statement_failure ctx statement_without_resolution False
                (branch_scope (ls_branch statement)) (''strict '' @ statement_label statement))
             (\<lambda>failure. return_value (case failure of
                 None \<Rightarrow> None
               | Some f \<Rightarrow>
                   if failure_kind f \<noteq> Integrity then None
                   else Some (conflict_resolution_already_active_warning label (failure_message f)))))"

definition strict_constraint_resolution_failure ::
    "'db merge_context \<Rightarrow> logged_transaction \<Rightarrow> logged_statement \<Rightarrow>
     ('db replay_state, replay_failure option) action" where
  "strict_constraint_resolution_failure ctx current_transaction statement =
     and_then (from_result (strict_conflict_resolution_statement ctx statement)) (\<lambda>strict_statement.
       case strict_statement of
         None \<Rightarrow> return_value None
       | Some (statement_without_resolution, _) \<Rightarrow>
           and_then
             (savepoint_statement_failure ctx statement_without_resolution False Pair_Scope
                (''strict '' @ statement_label statement @ '' before current''))
             (\<lambda>before_failure.
           and_then
             (savepoint_statement_failure ctx statement_without_resolution True Pair_Scope
                (transaction_label current_transaction @ '' then strict '' @ statement_label statement))
             (\<lambda>after_failure.
               return_value
                 (if after_failure = None then None
                  else if (case before_failure of None \<Rightarrow> False | Some f \<Rightarrow> failure_kind f = Integrity)
                  then None
                  else after_failure))))"

section \<open>One transaction\<close>

definition last_statement_failure ::
    "logged_transaction \<Rightarrow> conflict_scope \<Rightarrow> string \<Rightarrow> string option \<Rightarrow>
     ('db replay_state, replay_failure list) action" where
  "last_statement_failure transaction scope order_label error =
     (case error of
        None \<Rightarrow> return_value []
      | Some message \<Rightarrow>
          if lt_statements transaction = [] then raise_exn Index_Exn
          else return_value [failure_of Integrity scope message order_label (last (lt_statements transaction))])"

definition transaction_foreign_key_failures ::
    "'db merge_context \<Rightarrow> logged_transaction \<Rightarrow> conflict_scope \<Rightarrow> string \<Rightarrow>
     ('db replay_state, replay_failure list) action" where
  "transaction_foreign_key_failures ctx transaction scope order_label =
     and_then (foreign_key_check_error (engine ctx) None) (\<lambda>main_error.
     and_then (last_statement_failure transaction scope order_label main_error) (\<lambda>main_failures.
     and_then (foreign_key_check_error (engine ctx) (control_schema ctx)) (\<lambda>control_error.
     and_then (last_statement_failure transaction scope order_label control_error) (\<lambda>control_failures.
       return_value (main_failures @ control_failures)))))"

definition failure_result :: "replay_failure \<Rightarrow> check_result" where
  "failure_result failure = check_result_of [replay_failure_conflict failure]"

text \<open>The body of the loop over statements: a conflict result ends the loop.\<close>

definition advance_statement ::
    "'db merge_context \<Rightarrow> logged_transaction \<Rightarrow> logged_transaction \<Rightarrow> string \<Rightarrow> conflict_scope \<Rightarrow> bool \<Rightarrow>
     logged_statement \<Rightarrow> ('db replay_state, check_result option) action" where
  "advance_statement ctx current_transaction transaction order_label scope check_resolution statement =
     and_then
       (if check_resolution then strict_constraint_resolution_failure ctx current_transaction statement
        else return_value None)
       (\<lambda>strict_failure.
     and_then (execute_statement_on_control ctx scope order_label False statement) (\<lambda>control_failure.
       case control_failure of
         Some f \<Rightarrow> return_value (Some (failure_result f))
       | None \<Rightarrow>
     and_then (execute_statement_on_main ctx scope order_label False statement) (\<lambda>main_failure.
       case main_failure of
         Some f \<Rightarrow> return_value (Some (failure_result f))
       | None \<Rightarrow> return_value (map_option
           (\<lambda>f. check_result_of
              [constraint_resolution_conflict transaction f Pair_Scope (Some current_transaction)])
           strict_failure))))"

definition advance_transaction_on_main_and_control ::
    "'db merge_context \<Rightarrow> logged_transaction \<Rightarrow> logged_transaction \<Rightarrow> string \<Rightarrow> conflict_scope \<Rightarrow> bool \<Rightarrow>
     ('db replay_state, check_result) action" where
  "advance_transaction_on_main_and_control ctx current_transaction transaction order_label scope
       check_resolution =
     and_then
       (for_until
          (advance_statement ctx current_transaction transaction order_label scope check_resolution)
          (lt_statements transaction))
       (\<lambda>stopped. case stopped of
          Some result \<Rightarrow> return_value result
        | None \<Rightarrow>
            and_then (transaction_foreign_key_failures ctx transaction scope order_label) (\<lambda>failures.
              return_value (case failures of [] \<Rightarrow> check_result_of [] | f # _ \<Rightarrow> failure_result f)))"

definition apply_accepted_transaction ::
    "'db merge_context \<Rightarrow> logged_transaction \<Rightarrow> ('db replay_state, statement_conflict option) action" where
  "apply_accepted_transaction ctx transaction =
     and_then (open_savepoint (engine ctx) ''sqlite_merge_accept_'') (\<lambda>savepoint.
       catch_sqlite
         (and_then
            (advance_transaction_on_main_and_control ctx transaction transaction
               (transaction_label transaction) (branch_scope (lt_branch transaction)) False)
            (\<lambda>replay_result.
               if has_conflict replay_result
               then and_then (rollback_savepoint (engine ctx) savepoint) (\<lambda>_.
                 return_value (Some (clean_control_conflict ctx (hd (conflicts replay_result)))))
               else and_then (append_replayed_log (engine ctx) (lt_statements transaction)) (\<lambda>_.
                 and_then (release (engine ctx) savepoint) (\<lambda>_. return_value None))))
         (\<lambda>e. and_then (rollback_savepoint (engine ctx) savepoint) (\<lambda>_.
           return_value (Some (sqlite_exception_conflict e (branch_scope (lt_branch transaction)))))))"

end
