(* ===== verification/Remaining_Execution.thy ===== *)
theory Remaining_Execution
  imports Accepted_Replay Static_Analysis
begin

text \<open>
  The rolling execution scan: \<open>src/merge/remaining_execution.py\<close>. The current transaction is
  replayed on the control copy inside one savepoint, then the opposite transactions one by one
  on both copies; probes compare the copies before each is let through. A scanner object is the
  second component of the state.
\<close>

section \<open>The scanner object\<close>

record exec_scanner =
  es_current_transaction :: logged_transaction
  es_current_branch :: branch
  es_enabled_kinds :: "conflict_kind set"
  es_savepoint :: "string option"
  es_write_probe_tables :: "(string, (nat, string) dict) dict option"

definition new_exec_scanner :: "logged_transaction \<Rightarrow> branch \<Rightarrow> conflict_kind set \<Rightarrow> exec_scanner" where
  "new_exec_scanner current branch kinds =
     \<lparr>es_current_transaction = current, es_current_branch = branch, es_enabled_kinds = kinds,
      es_savepoint = None, es_write_probe_tables = None\<rparr>"

type_synonym ('db, 'o, 'a) object_action = "('db replay_state \<times> 'o, 'a) action"

definition on_connection :: "('db replay_state, 'a) action \<Rightarrow> ('db, 'o, 'a) object_action" where
  "on_connection m s = (case m (fst s) of (r, c) \<Rightarrow> (r, (c, snd s)))"

definition the_object :: "('db, 'o, 'o) object_action" where
  "the_object s = (Inr (snd s), s)"

definition update_object :: "('o \<Rightarrow> 'o) \<Rightarrow> ('db, 'o, unit) object_action" where
  "update_object f s = (Inr (), (fst s, f (snd s)))"

definition enable_exec_kinds :: "conflict_kind set \<Rightarrow> exec_scanner \<Rightarrow> exec_scanner" where
  "enable_exec_kinds kinds scanner = scanner\<lparr>es_enabled_kinds := es_enabled_kinds scanner \<union> kinds\<rparr>"

section \<open>Write probes\<close>

definition has_cascade_metadata_conflict :: "check_result \<Rightarrow> conflict_kind \<Rightarrow> bool" where
  "has_cascade_metadata_conflict result kind \<longleftrightarrow>
     list_ex (\<lambda>conflict. (''metadata_source'', ''cascade'') \<in> set (conflict_details conflict)) (of_kind result kind)"

definition statement_write_probe_sql ::
    "'db merge_context \<Rightarrow> logged_statement \<Rightarrow> bool \<Rightarrow> ('db replay_state, string option) action" where
  "statement_write_probe_sql ctx statement use_control =
     and_then (affected_primary_key_select ctx (ls_metadata statement)) (\<lambda>probe.
       case probe of
         None \<Rightarrow> return_value None
       | Some sql \<Rightarrow> if use_control then control_sql_for ctx (Raw_Sql sql) else return_value (Some sql))"

definition statement_write_probe_table ::
    "'db merge_context \<Rightarrow> logged_statement \<Rightarrow> bool \<Rightarrow> ('db replay_state, string option) action" where
  "statement_write_probe_table ctx statement use_control =
     and_then (statement_write_probe_sql ctx statement use_control) (\<lambda>probe.
       case probe of
         None \<Rightarrow> return_value None
       | Some sql \<Rightarrow>
           and_then (temp_probe_result_table_name (engine ctx)) (\<lambda>temp_name.
             catch_sqlite
               (and_then (create_probe_result_table (engine ctx) temp_name sql) (\<lambda>_. return_value (Some temp_name)))
               (\<lambda>_. return_value None)))"

definition current_write_probe_indexes :: "(string, (nat, string) dict) dict \<Rightarrow> nat set" where
  "current_write_probe_indexes probe_tables = set (concat (map (map fst \<circ> snd) probe_tables))"

definition candidate_pairs_for_other_statement ::
    "branch \<Rightarrow> (nat \<times> nat) list \<Rightarrow> nat \<Rightarrow> (nat \<times> nat) list" where
  "candidate_pairs_for_other_statement current_branch candidate_pairs other_index =
     filter (\<lambda>(ours_index, theirs_index).
       (if current_branch = Ours then theirs_index else ours_index) = other_index) candidate_pairs"

definition temp_table_intersects_probe ::
    "'db sqlite \<Rightarrow> string \<Rightarrow> string \<Rightarrow> ('db replay_state, bool option) action" where
  "temp_table_intersects_probe eng temp_name probe =
     catch_sqlite
       (and_then (fetch_one eng (''SELECT 1 FROM (SELECT * FROM '' @ quote_identifier temp_name
          @ '' INTERSECT SELECT * FROM ('' @ probe @ '')) LIMIT 1''))
          (\<lambda>row. return_value (Some (row \<noteq> None))))
       (\<lambda>_. return_value None)"

definition temp_tables_intersect ::
    "'db sqlite \<Rightarrow> string \<Rightarrow> string \<Rightarrow> ('db replay_state, bool option) action" where
  "temp_tables_intersect eng first_table second_table =
     catch_sqlite
       (and_then (fetch_one eng (''SELECT 1 FROM (SELECT * FROM '' @ quote_identifier first_table
          @ '' INTERSECT SELECT * FROM '' @ quote_identifier second_table @ '') LIMIT 1''))
          (\<lambda>row. return_value (Some (row \<noteq> None))))
       (\<lambda>_. return_value None)"

definition temp_tables_differ :: "'db sqlite \<Rightarrow> string \<Rightarrow> string \<Rightarrow> ('db replay_state, bool) action" where
  "temp_tables_differ eng first_table second_table =
     and_then
       (fetch_one eng (select_difference_query (''SELECT * FROM '' @ quote_identifier first_table)
          (''SELECT * FROM '' @ quote_identifier second_table)))
       (\<lambda>row. return_value (row \<noteq> None))"

definition drop_temp_table :: "'db sqlite \<Rightarrow> string \<Rightarrow> ('db replay_state, unit) action" where
  "drop_temp_table eng name = execute eng (''DROP TABLE IF EXISTS '' @ quote_identifier name)"

section \<open>Write/write overlap\<close>

datatype write_overlap = Overlap_Not_Refined | Overlap_Of logged_statement logged_statement

text \<open>\<open>xs[i]\<close>, an \<open>IndexError\<close> outside the list.\<close>

definition list_item :: "'x list \<Rightarrow> nat \<Rightarrow> ('s, 'x) action" where
  "list_item xs i = (if i < length xs then return_value (xs ! i) else raise_exn Index_Exn)"

definition required_target :: "logged_statement \<Rightarrow> ('s, string) action" where
  "required_target statement =
     (case table_updated (ls_metadata statement) of
        None \<Rightarrow> raise_exn Assertion_Exn
      | Some table \<Rightarrow> return_value table)"

definition compare_candidate_pair ::
    "'db merge_context \<Rightarrow> branch \<Rightarrow> (nat, string) dict \<Rightarrow> logged_transaction \<Rightarrow> logged_transaction \<Rightarrow> string \<Rightarrow>
     string option \<Rightarrow> nat \<times> nat \<Rightarrow> ('db replay_state, write_overlap option) action" where
  "compare_candidate_pair ctx current_branch current_probe_tables ours theirs other_probe other_table pair =
     (case map_of current_probe_tables (if current_branch = Ours then fst pair else snd pair) of
        None \<Rightarrow> return_value (Some Overlap_Not_Refined)
      | Some current_table \<Rightarrow>
          and_then
            (case other_table of
               None \<Rightarrow> temp_table_intersects_probe (engine ctx) current_table other_probe
             | Some table \<Rightarrow> temp_tables_intersect (engine ctx) current_table table)
            (\<lambda>overlap. case overlap of
               None \<Rightarrow> return_value (Some Overlap_Not_Refined)
             | Some False \<Rightarrow> return_value None
             | Some True \<Rightarrow>
                 and_then (list_item (lt_statements ours) (fst pair)) (\<lambda>first.
                 and_then (list_item (lt_statements theirs) (snd pair)) (\<lambda>second.
                   return_value (Some (Overlap_Of first second))))))"

definition compare_other_statement ::
    "'db merge_context \<Rightarrow> branch \<Rightarrow> (nat, string) dict \<Rightarrow> logged_transaction \<Rightarrow> logged_transaction \<Rightarrow> string \<Rightarrow>
     (nat \<times> nat) list \<Rightarrow> ('db replay_state, write_overlap option) action" where
  "compare_other_statement ctx current_branch current_probe_tables ours theirs other_probe matching_pairs =
     (let compare = compare_candidate_pair ctx current_branch current_probe_tables ours theirs other_probe in
      if 1 < length matching_pairs
      then and_then (temp_probe_result_table_name (engine ctx)) (\<lambda>other_table.
        finally_do
          (and_then
             (catch_sqlite
                (and_then (create_probe_result_table (engine ctx) other_table other_probe) (\<lambda>_. return_value True))
                (\<lambda>_. return_value False))
             (\<lambda>created. if created then for_until (compare (Some other_table)) matching_pairs
                        else return_value (Some Overlap_Not_Refined)))
          (drop_temp_table (engine ctx) other_table))
      else for_until (compare None) matching_pairs)"

definition overlap_of_other_statement ::
    "'db merge_context \<Rightarrow> branch \<Rightarrow> (string, (nat, string) dict) dict \<Rightarrow> logged_transaction \<Rightarrow>
     logged_transaction \<Rightarrow> (nat \<times> nat) list \<Rightarrow> nat \<times> logged_statement \<Rightarrow>
     ('db replay_state, write_overlap option) action" where
  "overlap_of_other_statement ctx current_branch probe_tables ours theirs candidate_pairs item =
     (let statement = snd item;
          matching_pairs = candidate_pairs_for_other_statement current_branch candidate_pairs (fst item);
          other_transaction = (if current_branch = Ours then theirs else ours) in
      and_then
        (if matching_pairs = [] then return_value None
         else and_then (required_target statement) (\<lambda>target_name.
           case map_of probe_tables target_name of
             None \<Rightarrow> return_value (Some Overlap_Not_Refined)
           | Some current_probe_tables \<Rightarrow>
               and_then (statement_write_probe_sql ctx statement False) (\<lambda>other_probe.
                 case other_probe of
                   None \<Rightarrow> return_value (Some Overlap_Not_Refined)
                 | Some probe \<Rightarrow>
                     compare_other_statement ctx current_branch current_probe_tables ours theirs probe
                       matching_pairs)))
        (\<lambda>found. case found of
           Some overlap \<Rightarrow> return_value (Some overlap)
         | None \<Rightarrow>
             and_then
               (execute_statement_on_main ctx Pair_Scope (transaction_label other_transaction) True statement)
               (\<lambda>failure. return_value (if failure = None then None else Some Overlap_Not_Refined))))"

definition find_write_write_overlap ::
    "'db merge_context \<Rightarrow> branch \<Rightarrow> (string, (nat, string) dict) dict \<Rightarrow> logged_transaction \<Rightarrow>
     logged_transaction \<Rightarrow> (nat \<times> nat) list \<Rightarrow> ('db replay_state, write_overlap option) action" where
  "find_write_write_overlap ctx current_branch probe_tables ours theirs candidate_pairs =
     discarded (engine ctx) ''sqlite_merge_remaining_write_probe_'' (\<lambda>_.
       for_until (overlap_of_other_statement ctx current_branch probe_tables ours theirs candidate_pairs)
         (enumerate 0 (lt_statements (if current_branch = Ours then theirs else ours))))"

definition write_write_conflict :: "logged_transaction \<Rightarrow> logged_transaction \<Rightarrow> logged_statement \<Rightarrow>
    logged_statement \<Rightarrow> statement_conflict" where
  "write_write_conflict ours theirs first second =
     \<lparr>conflict_kind = Write_Write,
      conflict_message = transaction_scoped_statement_label ours first @ '' and ''
        @ transaction_scoped_statement_label theirs second @ '' update/delete overlapping rows'',
      conflict_scope = Pair_Scope, conflict_details = []\<rparr>"

definition check_write_write ::
    "'db merge_context \<Rightarrow> logged_transaction \<Rightarrow> logged_transaction \<Rightarrow> check_result \<Rightarrow>
     ('db, exec_scanner, check_result) object_action" where
  "check_write_write ctx ours theirs result =
     and_then the_object (\<lambda>scanner.
       if \<not> has_kind result Write_Write then return_value result
       else if has_cascade_metadata_conflict result Write_Write then return_value result
       else let candidate_pairs = write_write_candidate_pairs (lt_metadata ours) (lt_metadata theirs);
                current_branch = es_current_branch scanner in
         if candidate_pairs = [] then return_value (without_kind result Write_Write)
         else case es_write_probe_tables scanner of
           None \<Rightarrow> return_value result
         | Some probe_tables \<Rightarrow>
             if \<not> set (map (if current_branch = Ours then fst else snd) candidate_pairs)
                  \<subseteq> current_write_probe_indexes probe_tables
             then return_value result
             else and_then
               (on_connection
                  (find_write_write_overlap ctx current_branch probe_tables ours theirs candidate_pairs))
               (\<lambda>overlap. return_value (case overlap of
                  None \<Rightarrow> without_kind result Write_Write
                | Some Overlap_Not_Refined \<Rightarrow> result
                | Some (Overlap_Of first second) \<Rightarrow>
                    replace_kind result Write_Write [write_write_conflict ours theirs first second])))"

section \<open>Write/read dependency\<close>

datatype reader_step = Reader_Stops write_read_result | Reader_Affected | Reader_Unaffected

definition compare_reader_tables ::
    "'db sqlite \<Rightarrow> string \<Rightarrow> string \<Rightarrow> ('db replay_state, reader_step) action" where
  "compare_reader_tables eng probe control_probe =
     and_then (temp_probe_result_table_name eng) (\<lambda>before_table.
     and_then (temp_probe_result_table_name eng) (\<lambda>after_table.
       finally_do
         (catch_sqlite
            (and_then (create_probe_result_table eng before_table probe) (\<lambda>_.
             and_then (create_probe_result_table eng after_table control_probe) (\<lambda>_.
             and_then (temp_tables_differ eng before_table after_table) (\<lambda>differ.
               return_value (if differ then Reader_Affected else Reader_Unaffected)))))
            (\<lambda>e. return_value (Reader_Stops (not_refined_because (Some (sqlite_error_text e))))))
         (and_then (drop_temp_table eng before_table) (\<lambda>_. drop_temp_table eng after_table))))"

definition duplicate_target_rows ::
    "'db merge_context \<Rightarrow> statement_metadata \<Rightarrow> string \<Rightarrow> string \<Rightarrow> ('db replay_state, bool) action" where
  "duplicate_target_rows ctx metadata probe control_probe =
     (if \<not> is_update_from_statement ctx metadata then return_value False
      else and_then (probe_has_duplicate_target_rows ctx metadata probe) (\<lambda>on_main.
        if on_main then return_value True else probe_has_duplicate_target_rows ctx metadata control_probe))"

definition probe_reader_statement ::
    "'db merge_context \<Rightarrow> logged_statement \<Rightarrow> ('db replay_state, reader_step) action" where
  "probe_reader_statement ctx statement =
     and_then (read_probe_result ctx (ls_metadata statement)) (\<lambda>probe.
       if probe_status probe = No_Read_Dependency then return_value Reader_Unaffected
       else case probe_sql probe of
         None \<Rightarrow> return_value (Reader_Stops (not_refined_because (probe_reason probe)))
       | Some sql \<Rightarrow>
           if probe_status probe = Not_Refined
           then return_value (Reader_Stops (not_refined_because (probe_reason probe)))
           else and_then (control_sql_for ctx (Raw_Sql sql)) (\<lambda>control_probe.
             case control_probe of
               None \<Rightarrow> return_value (Reader_Stops (not_refined_because
                         (Some ''reader probe cannot be rewritten for control database'')))
             | Some control_sql \<Rightarrow>
                 and_then (duplicate_target_rows ctx (ls_metadata statement) sql control_sql) (\<lambda>duplicates.
                   if duplicates
                   then return_value (Reader_Stops (not_refined_because
                          (Some ''reader UPDATE FROM has multiple source rows'')))
                   else compare_reader_tables (engine ctx) sql control_sql)))"

fun rolling_reader_loop ::
    "'db merge_context \<Rightarrow> string \<Rightarrow> nat set \<Rightarrow> nat list \<Rightarrow> (nat \<times> logged_statement) list \<Rightarrow>
     ('db replay_state, write_read_result) action" where
  "rolling_reader_loop ctx label indexes affected [] =
     return_value
       (if affected \<noteq> []
        then \<lparr>wr_status = Affected, wr_reason = None, affected_reader_indexes = affected\<rparr>
        else write_read_result_of Unaffected)"
| "rolling_reader_loop ctx label indexes affected ((index, statement) # rest) =
     and_then
       (if index \<in> indexes then probe_reader_statement ctx statement else return_value Reader_Unaffected)
       (\<lambda>step. case step of
          Reader_Stops result \<Rightarrow> return_value result
        | _ \<Rightarrow>
     and_then (execute_statement_on_main ctx Pair_Scope label True statement) (\<lambda>failure.
       case failure of
         Some f \<Rightarrow> return_value (not_refined_because (Some (failure_message f)))
       | None \<Rightarrow>
     and_then (execute_statement_on_control ctx Pair_Scope label True statement) (\<lambda>failure.
       case failure of
         Some f \<Rightarrow> return_value (not_refined_because (Some (failure_message f)))
       | None \<Rightarrow>
           rolling_reader_loop ctx label indexes
             (if step = Reader_Affected then affected @ [index] else affected) rest)))"

definition rolling_write_read_dependency ::
    "'db merge_context \<Rightarrow> logged_transaction \<Rightarrow> logged_transaction \<Rightarrow>
     ('db replay_state, write_read_result) action" where
  "rolling_write_read_dependency ctx writer reader =
     (let indexes = set (write_read_candidate_indexes (lt_metadata writer) (lt_metadata reader)) in
      if indexes = {} then return_value (write_read_result_of Unaffected)
      else discarded (engine ctx) ''sqlite_merge_remaining_read_probe_'' (\<lambda>_.
        rolling_reader_loop ctx (transaction_label reader) indexes [] (enumerate 0 (lt_statements reader))))"

definition check_write_read ::
    "'db merge_context \<Rightarrow> logged_transaction \<Rightarrow> check_result \<Rightarrow>
     ('db, exec_scanner, check_result) object_action" where
  "check_write_read ctx other_transaction result =
     and_then the_object (\<lambda>scanner.
       if \<not> has_kind result Write_Read then return_value result
       else if has_cascade_metadata_conflict result Write_Read then return_value result
       else and_then
         (on_connection
            (rolling_write_read_dependency ctx (es_current_transaction scanner) other_transaction))
         (\<lambda>check. case wr_status check of
            Probe_Not_Refined \<Rightarrow> return_value result
          | Unaffected \<Rightarrow> return_value (without_kind result Write_Read)
          | Affected \<Rightarrow>
              (case write_read_conflict_message (es_current_transaction scanner) other_transaction check of
                 None \<Rightarrow> raise_exn Index_Exn
               | Some message \<Rightarrow> return_value (replace_kind result Write_Read
                   [\<lparr>conflict_kind = Write_Read, conflict_message = message,
                     conflict_scope = Pair_Scope, conflict_details = []\<rparr>]))))"

section \<open>The scan\<close>

definition record_probe_table ::
    "string \<Rightarrow> nat \<Rightarrow> string \<Rightarrow> exec_scanner \<Rightarrow> exec_scanner" where
  "record_probe_table target index temp_table scanner =
     scanner\<lparr>es_write_probe_tables := map_option
       (\<lambda>tables. dict_set target (dict_set index temp_table (dict_get tables target [])) tables)
       (es_write_probe_tables scanner)\<rparr>"

definition start_statement ::
    "'db merge_context \<Rightarrow> logged_transaction \<Rightarrow> branch \<Rightarrow> nat \<times> logged_statement \<Rightarrow>
     ('db, exec_scanner, replay_failure option) object_action" where
  "start_statement ctx current branch item =
     (let statement = snd item; metadata = ls_metadata statement in
      and_then
        (if is_update_statement metadata \<or> is_delete_statement metadata
         then and_then (required_target statement) (\<lambda>target_name.
              and_then (on_connection (statement_write_probe_table ctx statement True)) (\<lambda>temp_table.
                case temp_table of
                  None \<Rightarrow> return_value ()
                | Some name \<Rightarrow> update_object (record_probe_table target_name (fst item) name)))
         else return_value ())
        (\<lambda>_. on_connection
           (execute_statement_on_control ctx (branch_scope branch)
              (''control '' @ transaction_label current) True statement)))"

definition start_control_with_current_write_probes ::
    "'db merge_context \<Rightarrow> ('db, exec_scanner, replay_failure option) object_action" where
  "start_control_with_current_write_probes ctx =
     and_then (update_object (\<lambda>scanner. scanner\<lparr>es_write_probe_tables := Some []\<rparr>)) (\<lambda>_.
     and_then the_object (\<lambda>scanner.
       for_until
         (start_statement ctx (es_current_transaction scanner) (es_current_branch scanner))
         (enumerate 0 (lt_statements (es_current_transaction scanner)))))"

definition exec_start :: "'db merge_context \<Rightarrow> ('db, exec_scanner, check_result) object_action" where
  "exec_start ctx =
     and_then (on_connection (open_savepoint (engine ctx) ''sqlite_merge_remaining_scan_'')) (\<lambda>name.
     and_then (update_object (\<lambda>scanner. scanner\<lparr>es_savepoint := Some name\<rparr>)) (\<lambda>_.
     and_then (start_control_with_current_write_probes ctx) (\<lambda>failure.
       return_value (case failure of None \<Rightarrow> check_result_of [] | Some f \<Rightarrow> failure_result f))))"

definition order_label_before :: "logged_transaction \<Rightarrow> logged_transaction \<Rightarrow> string" where
  "order_label_before current other = transaction_label current @ '' before '' @ transaction_label other"

text \<open>\<open>SAVEPOINT; try: body except Exception: rollback; raise\<close>.\<close>

definition guarded_by_savepoint ::
    "'db sqlite \<Rightarrow> string \<Rightarrow> (string \<Rightarrow> ('db, 'o, 'a) object_action) \<Rightarrow> ('db, 'o, 'a) object_action" where
  "guarded_by_savepoint eng prefix body =
     and_then (on_connection (open_savepoint eng prefix)) (\<lambda>name.
       on_exception (body name) (on_connection (rollback_savepoint eng name)))"

definition roll_back_with :: "'db sqlite \<Rightarrow> string \<Rightarrow> 'a \<Rightarrow> ('db, 'o, 'a) object_action" where
  "roll_back_with eng name result =
     and_then (on_connection (rollback_savepoint eng name)) (\<lambda>_. return_value result)"

definition check_next ::
    "'db merge_context \<Rightarrow> logged_transaction \<Rightarrow> logged_transaction \<Rightarrow> check_result \<Rightarrow>
     ('db, exec_scanner, check_result) object_action" where
  "check_next ctx ours theirs static_result =
     and_then the_object (\<lambda>scanner.
       let other = (if es_current_branch scanner = Ours then theirs else ours);
           current = es_current_transaction scanner;
           enabled = kind_enabled (Some (es_enabled_kinds scanner)) in
       guarded_by_savepoint (engine ctx) ''sqlite_merge_remaining_next_'' (\<lambda>name.
         and_then
           (if enabled Write_Write then check_write_write ctx ours theirs static_result
            else return_value static_result)
           (\<lambda>result1.
         if enabled Write_Write \<and> has_kind result1 Write_Write then roll_back_with (engine ctx) name result1
         else
         and_then
           (if enabled Write_Read then check_write_read ctx other result1 else return_value result1)
           (\<lambda>result2.
         if enabled Write_Read \<and> has_kind result2 Write_Read then roll_back_with (engine ctx) name result2
         else if has_conflict result2 then roll_back_with (engine ctx) name result2
         else
         and_then
           (on_connection (advance_transaction_on_main_and_control ctx current other
              (order_label_before current other) Pair_Scope (enabled Integrity)))
           (\<lambda>advance_result.
         if has_conflict advance_result then roll_back_with (engine ctx) name advance_result
         else and_then (on_connection (release (engine ctx) name)) (\<lambda>_. return_value result2))))))"

definition accept_next ::
    "'db merge_context \<Rightarrow> logged_transaction \<Rightarrow> check_result \<Rightarrow>
     ('db, exec_scanner, check_result) object_action" where
  "accept_next ctx other accepted_result =
     and_then the_object (\<lambda>scanner.
       let current = es_current_transaction scanner in
       guarded_by_savepoint (engine ctx) ''sqlite_merge_remaining_accept_'' (\<lambda>name.
         and_then
           (on_connection (advance_transaction_on_main_and_control ctx current other
              (order_label_before current other) Pair_Scope False))
           (\<lambda>result.
         if has_conflict result
         then roll_back_with (engine ctx) name (add_conflicts accepted_result (conflicts result))
         else and_then (on_connection (release (engine ctx) name)) (\<lambda>_. return_value (check_result_of []))))) "

definition exec_close :: "'db merge_context \<Rightarrow> ('db, exec_scanner, unit) object_action" where
  "exec_close ctx =
     and_then the_object (\<lambda>scanner.
       case es_savepoint scanner of
         None \<Rightarrow> return_value ()
       | Some name \<Rightarrow>
           and_then (on_connection (rollback_savepoint (engine ctx) name)) (\<lambda>_.
             update_object (\<lambda>s. s\<lparr>es_savepoint := None\<rparr>)))"

end
