(* ===== verification/Conflict_Detection.thy ===== *)
theory Conflict_Detection
  imports Remaining_Execution
begin

text \<open>
  The conflict scan of one current transaction against the opposite queue:
  \<open>src/merge/conflict_detection.py\<close>. Static analysis proposes conflicts, the execution scanner
  refines them; accepted pairs are passed by their key. The loop over the queue is a function
  whose termination is proved from the position the scanner keeps.
\<close>

section \<open>Keys\<close>

definition transaction_key_of :: "logged_transaction \<Rightarrow> transaction_key" where
  "transaction_key_of t =
     \<lparr>key_transaction_id = lt_transaction_id t,
      key_branch_indexes = map ls_branch_index (lt_statements t),
      key_sql_texts = map statement_sql_text (lt_statements t)\<rparr>"

definition conflict_resolution_key ::
    "logged_transaction \<Rightarrow> logged_transaction \<Rightarrow> statement_conflict list \<Rightarrow> resolution_key" where
  "conflict_resolution_key ours theirs cs =
     \<lparr>key_ours = transaction_key_of ours, key_theirs = transaction_key_of theirs,
      key_conflicts = map (\<lambda>c. (conflict_kind c, conflict_scope c, conflict_message c)) cs\<rparr>"

section \<open>The scanner\<close>

record conflict_scanner =
  cs_current_transaction :: logged_transaction
  cs_current_branch :: branch
  cs_enabled_kinds :: "conflict_kind set"
  cs_accepted_pair_keys :: "resolution_key set"
  cs_scanner :: exec_scanner
  cs_started :: bool
  cs_next_other_index :: nat

type_synonym conflict_found = "nat option \<times> check_result \<times> resolution_key option"

definition new_conflict_scanner ::
    "logged_transaction \<Rightarrow> branch \<Rightarrow> conflict_kind set \<Rightarrow> resolution_key set \<Rightarrow> conflict_scanner" where
  "new_conflict_scanner current branch kinds accepted =
     \<lparr>cs_current_transaction = current, cs_current_branch = branch, cs_enabled_kinds = kinds,
      cs_accepted_pair_keys = accepted, cs_scanner = new_exec_scanner current branch kinds,
      cs_started = False, cs_next_other_index = 0\<rparr>"

text \<open>A method of the execution scanner the conflict scanner owns.\<close>

definition on_scanner ::
    "('db, exec_scanner, 'a) object_action \<Rightarrow> ('db, conflict_scanner, 'a) object_action" where
  "on_scanner m s =
     (case m (fst s, cs_scanner (snd s)) of
        (r, (c, scanner)) \<Rightarrow> (r, (c, (snd s)\<lparr>cs_scanner := scanner\<rparr>)))"

definition enable_scan_kinds :: "conflict_kind set \<Rightarrow> conflict_scanner \<Rightarrow> conflict_scanner" where
  "enable_scan_kinds kinds scanner =
     scanner\<lparr>cs_enabled_kinds := cs_enabled_kinds scanner \<union> kinds,
             cs_scanner := enable_exec_kinds kinds (cs_scanner scanner)\<rparr>"

definition accept_resolution_key :: "resolution_key option \<Rightarrow> conflict_scanner \<Rightarrow> conflict_scanner" where
  "accept_resolution_key key scanner =
     (case key of
        None \<Rightarrow> scanner
      | Some k \<Rightarrow> scanner\<lparr>cs_accepted_pair_keys := insert k (cs_accepted_pair_keys scanner)\<rparr>)"

definition next_index :: "conflict_scanner \<Rightarrow> conflict_scanner" where
  "next_index scanner = scanner\<lparr>cs_next_other_index := cs_next_other_index scanner + 1\<rparr>"

definition accept_current_conflict ::
    "'db merge_context \<Rightarrow> logged_transaction list \<Rightarrow> nat \<Rightarrow> check_result \<Rightarrow> resolution_key option \<Rightarrow>
     ('db, conflict_scanner, conflict_found option) object_action" where
  "accept_current_conflict ctx remaining_other other_index result key =
     and_then the_object (\<lambda>scanner.
       if other_index \<noteq> cs_next_other_index scanner
       then raise_exn (Runtime_Exn ''accepted conflict is not at the scanner position'')
       else and_then (update_object (accept_resolution_key key)) (\<lambda>_.
            and_then (list_item remaining_other other_index) (\<lambda>other.
            and_then (on_scanner (accept_next ctx other result)) (\<lambda>advance_result.
              if has_conflict advance_result then return_value (Some (Some other_index, advance_result, key))
              else and_then (update_object next_index) (\<lambda>_. return_value None)))))"

text \<open>The pair in branch order, and the check of the opposite transaction at an index.\<close>

definition branch_pair ::
    "branch \<Rightarrow> logged_transaction \<Rightarrow> logged_transaction \<Rightarrow> logged_transaction \<times> logged_transaction" where
  "branch_pair current_branch current other = (if current_branch = Ours then (current, other) else (other, current))"

definition static_result_for :: "'db merge_context \<Rightarrow> conflict_scanner \<Rightarrow> logged_transaction \<Rightarrow> check_result" where
  "static_result_for ctx scanner other =
     (case branch_pair (cs_current_branch scanner) (cs_current_transaction scanner) other of (ours, theirs) \<Rightarrow>
        static_analysis_matching (schema_context ctx) (lt_metadata ours) (lt_metadata theirs)
          (Some (cs_enabled_kinds scanner)) (Some (cs_current_branch scanner))
          (Some (transaction_label ours)) (Some (transaction_label theirs)))"

definition pair_key :: "conflict_scanner \<Rightarrow> logged_transaction \<Rightarrow> check_result \<Rightarrow> resolution_key" where
  "pair_key scanner other result =
     (case branch_pair (cs_current_branch scanner) (cs_current_transaction scanner) other of (ours, theirs) \<Rightarrow>
        conflict_resolution_key ours theirs (conflicts result))"

definition check_pair ::
    "'db merge_context \<Rightarrow> conflict_scanner \<Rightarrow> logged_transaction \<Rightarrow> ('db, exec_scanner, check_result) object_action" where
  "check_pair ctx scanner other =
     (case branch_pair (cs_current_branch scanner) (cs_current_transaction scanner) other of (ours, theirs) \<Rightarrow>
        check_next ctx ours theirs (static_result_for ctx scanner other))"

definition check_other ::
    "'db merge_context \<Rightarrow> logged_transaction \<Rightarrow> ('db, conflict_scanner, conflict_found option) object_action" where
  "check_other ctx other =
     and_then the_object (\<lambda>scanner.
     and_then (on_scanner (check_pair ctx scanner other)) (\<lambda>result.
       if \<not> has_conflict result then return_value None
       else let other_index = cs_next_other_index scanner; key = pair_key scanner other result in
         if key \<notin> cs_accepted_pair_keys scanner then return_value (Some (Some other_index, result, Some key))
         else and_then (on_scanner (accept_next ctx other result)) (\<lambda>advance_result.
           if has_conflict advance_result then return_value (Some (Some other_index, advance_result, Some key))
           else return_value None)))"

lemma on_scanner_index:
  "on_scanner m s = (r, s') \<Longrightarrow> cs_next_other_index (snd s') = cs_next_other_index (snd s) \<and>
     cs_accepted_pair_keys (snd s') = cs_accepted_pair_keys (snd s) \<and>
     cs_current_transaction (snd s') = cs_current_transaction (snd s) \<and>
     cs_current_branch (snd s') = cs_current_branch (snd s) \<and> cs_started (snd s') = cs_started (snd s) \<and>
     cs_enabled_kinds (snd s') = cs_enabled_kinds (snd s)"
  by (auto simp: on_scanner_def split: prod.splits)

lemma check_other_index:
  "check_other ctx other s = (r, s') \<Longrightarrow> cs_next_other_index (snd s') = cs_next_other_index (snd s)"
  by (auto simp: check_other_def and_then_def the_object_def Let_def return_value_def
      dest!: on_scanner_index split: sum.splits prod.splits if_splits)

function scan_loop ::
    "'db merge_context \<Rightarrow> logged_transaction list \<Rightarrow> ('db, conflict_scanner, conflict_found option) object_action" where
  "scan_loop ctx remaining_other s =
     (if \<not> cs_next_other_index (snd s) < length remaining_other then (Inr None, s)
      else case check_other ctx (remaining_other ! cs_next_other_index (snd s)) s of
        (Inl e, s1) \<Rightarrow> (Inl e, s1)
      | (Inr (Some found), s1) \<Rightarrow> (Inr (Some found), s1)
      | (Inr None, s1) \<Rightarrow> scan_loop ctx remaining_other (fst s1, next_index (snd s1)))"
  by pat_completeness auto
termination
  by (relation "measure (\<lambda>(_, others, s). length others - cs_next_other_index (snd s))")
    (auto simp: next_index_def dest!: sym [of "(_, _)" "check_other _ _ _"] check_other_index)

declare scan_loop.simps [simp del]

definition next_conflict ::
    "'db merge_context \<Rightarrow> logged_transaction list \<Rightarrow> ('db, conflict_scanner, conflict_found option) object_action" where
  "next_conflict ctx remaining_other =
     and_then the_object (\<lambda>scanner.
     and_then
       (if cs_started scanner then return_value (check_result_of [])
        else and_then (update_object (\<lambda>s. s\<lparr>cs_started := True\<rparr>)) (\<lambda>_. on_scanner (exec_start ctx)))
       (\<lambda>start_result.
          if has_conflict start_result then return_value (Some (None, start_result, None))
          else scan_loop ctx remaining_other))"

definition scan_close :: "'db merge_context \<Rightarrow> ('db, conflict_scanner, unit) object_action" where
  "scan_close ctx = on_scanner (exec_close ctx)"

definition ordered_remaining_transactions_conflict ::
    "'db merge_context \<Rightarrow> logged_transaction \<Rightarrow> logged_transaction list \<Rightarrow> branch \<Rightarrow> conflict_kind set \<Rightarrow>
     resolution_key set \<Rightarrow> ('db replay_state, conflict_found option) action" where
  "ordered_remaining_transactions_conflict ctx current remaining_other branch kinds accepted c =
     (case finally_do (next_conflict ctx remaining_other) (scan_close ctx)
             (c, new_conflict_scanner current branch kinds accepted) of
        (r, (c1, _)) \<Rightarrow> (r, c1))"

end
