(* ===== verification/Accepted_Replay_Props.thy ===== *)
theory Accepted_Replay_Props
  imports Accepted_Replay Sql_Metadata_Props
begin

text \<open>
  Accepted replay against an atomic step on the content: the step spells out which statements
  run in which order and when the transaction counts as replayed; the code's replay through
  savepoints, caches and failure values implements it, and otherwise leaves the connection as
  it was. Probes leave it alone in every case.
\<close>

section \<open>Framing\<close>

lemma silent_control_sql_for [framing]: "silent (control_sql_for ctx sql)"
  by (simp add: silent_def control_sql_for_def Let_def split: option.splits)

lemma framed_execute_sql [framing]: "framed (execute_sql_for_replay eng st sql scope l fk check)"
  unfolding execute_sql_for_replay_def by (intro framing silent_framed [OF silent_foreign_key_check])

lemma framed_on_main [framing]: "framed (execute_statement_on_main ctx scope l check st)"
  unfolding execute_statement_on_main_def by (intro framing)

lemma framed_on_control [framing]: "framed (execute_statement_on_control ctx scope l check st)"
  unfolding execute_statement_on_control_def by (intro framing silent_framed [OF silent_control_sql_for])

lemma probing_savepoint_statement_failure [framing]:
  "commits_no_change (engine ctx) \<Longrightarrow> probing (savepoint_statement_failure ctx st control scope l)"
  unfolding savepoint_statement_failure_def by (intro framing)

lemma probing_split_pair [framing]: "(\<And>a b. probing (f a b)) \<Longrightarrow> probing (case p of (a, b) \<Rightarrow> f a b)"
  by (cases p) simp

lemma probing_branch_warning [framing]:
  "commits_no_change (engine ctx) \<Longrightarrow> probing (conflict_resolution_branch_warning ctx st)"
  unfolding conflict_resolution_branch_warning_def by (intro framing)

lemma probing_strict_failure [framing]:
  "commits_no_change (engine ctx) \<Longrightarrow> probing (strict_constraint_resolution_failure ctx t st)"
  unfolding strict_constraint_resolution_failure_def by (intro framing)

lemma framed_advance_statement [framing]:
  "commits_no_change (engine ctx) \<Longrightarrow> framed (advance_statement ctx t u l scope check st)"
  unfolding advance_statement_def by (intro framing probing_framed [OF probing_strict_failure])

lemma silent_last_statement_failure [framing]: "silent (last_statement_failure t scope l e)"
  unfolding last_statement_failure_def by (intro framing)

lemma silent_transaction_fk [framing]: "silent (transaction_foreign_key_failures ctx t scope l)"
  unfolding transaction_foreign_key_failures_def by (intro framing)

lemma framed_advance [framing]:
  "commits_no_change (engine ctx) \<Longrightarrow>
     framed (advance_transaction_on_main_and_control ctx t u l scope check)"
  unfolding advance_transaction_on_main_and_control_def
  by (intro framing silent_framed [OF silent_transaction_fk])

section \<open>The cache of control SQL\<close>

text \<open>
  What the cache may give for a statement: it is keyed by \<open>id\<close>, and CPython may give an object the
  identity of a freed one, so a hit is the rewrite of some statement that had this identity, at this
  time or another. It is the statement's own rewrite when identities are never reused.
\<close>

definition control_texts :: "'db merge_context \<Rightarrow> logged_statement \<Rightarrow> string option set" where
  "control_texts ctx st =
     (case control_sql_rewriter ctx of
        None \<Rightarrow> {None}
      | Some rewriter \<Rightarrow>
          {rewriter (Statement_Sql st') |st' n n'. statement_id (engine ctx) n st' = statement_id (engine ctx) n' st})"

definition cache_coherent :: "'db merge_context \<Rightarrow> 'db replay_state \<Rightarrow> bool" where
  "cache_coherent ctx s \<longleftrightarrow>
     (\<forall>now st cached. map_of (control_sql_cache s) (control_sql_cache_key (engine ctx) now (Statement_Sql st)) = Some cached \<longrightarrow>
        cached \<in> control_texts ctx st)"

text \<open>Without reuse of identities.\<close>

definition ids_identify :: "'db merge_context \<Rightarrow> bool" where
  "ids_identify ctx \<longleftrightarrow>
     (\<forall>rewriter n st n' st'. control_sql_rewriter ctx = Some rewriter \<longrightarrow>
        statement_id (engine ctx) n st = statement_id (engine ctx) n' st' \<longrightarrow>
        rewriter (Statement_Sql st) = rewriter (Statement_Sql st'))"

definition control_sql_of :: "'db merge_context \<Rightarrow> rewrite_input \<Rightarrow> string option" where
  "control_sql_of ctx sql = Option.bind (control_sql_rewriter ctx) (\<lambda>rewriter. rewriter sql)"

lemma own_control_text: "control_sql_of ctx (Statement_Sql st) \<in> control_texts ctx st"
  by (auto simp: control_sql_of_def control_texts_def split: option.split)

lemma control_texts_identified: "ids_identify ctx \<Longrightarrow> control_texts ctx st = {control_sql_of ctx (Statement_Sql st)}"
proof (cases "control_sql_rewriter ctx")
  case (Some rewriter)
  assume ids: "ids_identify ctx"
  have "control_texts ctx st \<subseteq> {rewriter (Statement_Sql st)}"
  proof
    fix c
    assume "c \<in> control_texts ctx st"
    then obtain st' n n' where hit: "c = rewriter (Statement_Sql st')"
        "statement_id (engine ctx) n st' = statement_id (engine ctx) n' st"
      unfolding control_texts_def Some by auto
    show "c \<in> {rewriter (Statement_Sql st)}"
      unfolding hit(1) singleton_iff using ids [unfolded ids_identify_def] Some hit(2) by blast
  qed
  then show ?thesis using own_control_text [of ctx st] Some by (auto simp: control_sql_of_def)
qed (simp add: control_texts_def control_sql_of_def)

lemma cache_coherent_insert:
  assumes "cache_coherent ctx s" "control_sql_rewriter ctx = Some rewriter"
  shows "cache_coherent ctx (s\<lparr>control_sql_cache :=
    dict_set (control_sql_cache_key (engine ctx) n sql) (rewriter sql) (control_sql_cache s)\<rparr>)"
  unfolding cache_coherent_def
proof (intro allI impI)
  fix now st cached
  assume hit: "map_of (control_sql_cache (s\<lparr>control_sql_cache :=
        dict_set (control_sql_cache_key (engine ctx) n sql) (rewriter sql) (control_sql_cache s)\<rparr>))
      (control_sql_cache_key (engine ctx) now (Statement_Sql st)) = Some cached"
  show "cached \<in> control_texts ctx st"
  proof (cases "control_sql_cache_key (engine ctx) now (Statement_Sql st) = control_sql_cache_key (engine ctx) n sql")
    case True
    then show ?thesis
      using hit assms(2) by (cases sql) (auto simp: control_sql_cache_key_def control_texts_def, metis)
  next
    case False
    then show ?thesis using hit assms(1) by (simp add: cache_coherent_def)
  qed
qed

lemma control_sql_for_coherent:
  assumes "cache_coherent ctx s"
  obtains c s' where "control_sql_for ctx sql s = (Inr c, s')" "\<And>st. sql = Statement_Sql st \<Longrightarrow> c \<in> control_texts ctx st"
    "content s' = content s" "stack s' = stack s" "cache_coherent ctx s'"
proof (cases "control_sql_rewriter ctx")
  case None
  then show ?thesis using that assms by (simp add: control_sql_for_def control_texts_def)
next
  case (Some rewriter)
  let ?key = "control_sql_cache_key (engine ctx) (uuid_draws s) sql"
  show ?thesis
  proof (cases "map_of (control_sql_cache s) ?key")
    case None
    let ?s = "s\<lparr>control_sql_cache := dict_set ?key (rewriter sql) (control_sql_cache s)\<rparr>"
    have "cache_coherent ctx ?s" using cache_coherent_insert [OF assms Some] by simp
    then show ?thesis
      using that [of "rewriter sql" ?s] Some None own_control_text [of ctx]
      by (simp add: control_sql_for_def control_sql_of_def)
  next
    case (Some cached)
    then show ?thesis
      using that [of cached s] assms \<open>control_sql_rewriter ctx = Some rewriter\<close>
      by (auto simp: control_sql_for_def cache_coherent_def)
  qed
qed

section \<open>The atomic step\<close>

text \<open>The specification runs given control texts, one for each statement.\<close>

definition run_ok :: "'db sqlite \<Rightarrow> string \<Rightarrow> 'db \<Rightarrow> 'db option" where
  "run_ok eng sql db = (case run_statement eng sql db of Ran db' \<Rightarrow> Some db' | _ \<Rightarrow> None)"

definition statement_step :: "'db merge_context \<Rightarrow> string option \<Rightarrow> logged_statement \<Rightarrow> 'db \<Rightarrow> 'db option" where
  "statement_step ctx control statement db =
     Option.bind control (\<lambda>control_sql.
     Option.bind (run_ok (engine ctx) control_sql db) (run_ok (engine ctx) (statement_sql_text statement)))"

fun statements_step ::
    "'db merge_context \<Rightarrow> string option list \<Rightarrow> logged_statement list \<Rightarrow> 'db \<Rightarrow> 'db option" where
  "statements_step ctx [] [] db = Some db"
| "statements_step ctx (c # cs) (st # sts) db = Option.bind (statement_step ctx c st db) (statements_step ctx cs sts)"
| "statements_step ctx _ _ db = None"

abbreviation controls_for :: "'db merge_context \<Rightarrow> logged_statement list \<Rightarrow> string option list \<Rightarrow> bool" where
  "controls_for ctx sts cs \<equiv> list_all2 (\<lambda>st c. c \<in> control_texts ctx st) sts cs"

lemma own_controls: "controls_for ctx sts (map (control_sql_of ctx \<circ> Statement_Sql) sts)"
  by (simp add: list.rel_map own_control_text list_all2_same)

lemma controls_identified:
  "ids_identify ctx \<Longrightarrow> controls_for ctx sts cs \<longleftrightarrow> cs = map (control_sql_of ctx \<circ> Statement_Sql) sts"
  by (induction sts arbitrary: cs) (auto simp: control_texts_identified list_all2_Cons1)

definition foreign_keys_hold :: "'db sqlite \<Rightarrow> string option \<Rightarrow> 'db \<Rightarrow> bool" where
  "foreign_keys_hold eng schema db \<longleftrightarrow>
     first_row eng (case schema of
        None \<Rightarrow> ''PRAGMA foreign_key_check''
      | Some name \<Rightarrow> ''PRAGMA '' @ quote_identifier name @ ''.foreign_key_check'') db = Inr None"

fun log_rows_step :: "'db sqlite \<Rightarrow> int \<Rightarrow> logged_statement list \<Rightarrow> 'db \<Rightarrow> 'db option" where
  "log_rows_step eng tx_id [] db = Some db"
| "log_rows_step eng tx_id (st # sts) db =
     (case insert_log_row eng tx_id (log_row_of st) db of
        Inl _ \<Rightarrow> None | Inr db' \<Rightarrow> log_rows_step eng tx_id sts db')"

definition log_step :: "'db sqlite \<Rightarrow> logged_statement list \<Rightarrow> 'db \<Rightarrow> 'db option" where
  "log_step eng statements db =
     (case insert_transaction_row eng db of
        Inl _ \<Rightarrow> None | Inr (tx_id, db') \<Rightarrow> log_rows_step eng tx_id statements db')"

text \<open>The contents statements can lead to, over the control texts the cache may give.\<close>

definition statement_result :: "'db merge_context \<Rightarrow> logged_statement \<Rightarrow> 'db \<Rightarrow> 'db set" where
  "statement_result ctx statement db = {db'. \<exists>c \<in> control_texts ctx statement. statement_step ctx c statement db = Some db'}"

fun statements_result :: "'db merge_context \<Rightarrow> logged_statement list \<Rightarrow> 'db \<Rightarrow> 'db set" where
  "statements_result ctx [] db = {db}"
| "statements_result ctx (st # sts) db = \<Union> (statements_result ctx sts ` statement_result ctx st db)"

lemma statements_result_append:
  "statements_result ctx (xs @ ys) db = \<Union> (statements_result ctx ys ` statements_result ctx xs db)"
  by (induction xs arbitrary: db) auto

lemma statements_result_controls:
  "db' \<in> statements_result ctx sts db \<longleftrightarrow> (\<exists>cs. controls_for ctx sts cs \<and> statements_step ctx cs sts db = Some db')"
proof (induction sts arbitrary: db)
  case (Cons st sts)
  show ?case
  proof
    assume "db' \<in> statements_result ctx (st # sts) db"
    then obtain x c cs where "c \<in> control_texts ctx st" "statement_step ctx c st db = Some x"
        "controls_for ctx sts cs" "statements_step ctx cs sts x = Some db'"
      by (auto simp: statement_result_def Cons.IH)
    then show "\<exists>cs. controls_for ctx (st # sts) cs \<and> statements_step ctx cs (st # sts) db = Some db'"
      by (intro exI [of _ "c # cs"]) simp
  next
    assume "\<exists>cs. controls_for ctx (st # sts) cs \<and> statements_step ctx cs (st # sts) db = Some db'"
    then obtain x c cs where "c \<in> control_texts ctx st" "statement_step ctx c st db = Some x"
        "controls_for ctx sts cs" "statements_step ctx cs sts x = Some db'"
      by (auto simp: list_all2_Cons1 bind_eq_Some_conv)
    then show "db' \<in> statements_result ctx (st # sts) db"
      by (auto simp: statement_result_def Cons.IH)
  qed
qed auto

text \<open>Where identities are not reused there is one.\<close>

lemma statements_result_identified:
  "ids_identify ctx \<Longrightarrow> db' \<in> statements_result ctx sts db \<longleftrightarrow>
     statements_step ctx (map (control_sql_of ctx \<circ> Statement_Sql) sts) sts db = Some db'"
  by (simp add: statements_result_controls controls_identified)

text \<open>Inside an outer savepoint (\<open>nested\<close>) nothing is committed yet.\<close>

definition accept_step ::
    "'db merge_context \<Rightarrow> string option list \<Rightarrow> bool \<Rightarrow> logged_transaction \<Rightarrow> 'db \<Rightarrow> 'db option" where
  "accept_step ctx controls nested transaction db =
     Option.bind (statements_step ctx controls (lt_statements transaction) db) (\<lambda>replayed.
       if foreign_keys_hold (engine ctx) None replayed \<and>
          foreign_keys_hold (engine ctx) (control_schema ctx) replayed
       then Option.bind (log_step (engine ctx) (lt_statements transaction) replayed) (\<lambda>logged.
         if \<not> nested \<and> commit_error (engine ctx) db logged \<noteq> None then None else Some logged)
       else None)"

definition accept_result :: "'db merge_context \<Rightarrow> bool \<Rightarrow> logged_transaction \<Rightarrow> 'db \<Rightarrow> 'db set" where
  "accept_result ctx nested transaction db =
     {db'. \<exists>cs. controls_for ctx (lt_statements transaction) cs \<and> accept_step ctx cs nested transaction db = Some db'}"

section \<open>Running the pieces\<close>

text \<open>Where a failure leaves the savepoints: as they were, or SQLite has rolled everything back.\<close>

definition left_in :: "'db replay_state \<Rightarrow> 'db replay_state \<Rightarrow> bool" where
  "left_in s s' \<longleftrightarrow> stack s' = stack s \<or> stack s' = [] \<and> (stack s \<noteq> [] \<longrightarrow> content s' = snd (last (stack s)))"

lemma left_in_refl [simp]: "left_in s s"
  by (simp add: left_in_def)

lemma left_in_stack: "left_in s1 s' \<Longrightarrow> stack s1 = stack s \<Longrightarrow> left_in s s'"
  by (simp add: left_in_def)

lemma execute_sql_run:
  "\<exists>s' r. execute_sql_for_replay eng st sql scope l fk False s = (Inr r, s') \<and>
     (r = None \<longrightarrow> run_ok eng sql (content s) = Some (content s') \<and> stack s' = stack s) \<and>
     (r \<noteq> None \<longrightarrow> run_ok eng sql (content s) = None \<and> left_in s s') \<and>
     control_sql_cache s' = control_sql_cache s"
  by (simp add: execute_sql_for_replay_def and_then_def catch_sqlite_def execute_def return_value_def
      run_ok_def left_in_def transaction_start_def split: run_result.splits)

lemma cache_coherent_same:
  "control_sql_cache s' = control_sql_cache s \<Longrightarrow> cache_coherent ctx s' = cache_coherent ctx s"
  by (simp add: cache_coherent_def)

lemma has_conflict_failure [simp]: "has_conflict (failure_result f)"
  by (simp add: failure_result_def check_result_of_def has_conflict_def append_conflict_def)

lemma on_control_run:
  assumes "cache_coherent ctx s"
  shows "\<exists>s' r c. execute_statement_on_control ctx scope l False st s = (Inr r, s') \<and>
     cache_coherent ctx s' \<and> c \<in> control_texts ctx st \<and>
     (r = None \<longrightarrow> stack s' = stack s \<and>
        Option.bind c (\<lambda>text. run_ok (engine ctx) text (content s)) = Some (content s')) \<and>
     (r \<noteq> None \<longrightarrow> left_in s s' \<and> Option.bind c (\<lambda>text. run_ok (engine ctx) text (content s)) = None)"
proof -
  obtain c s1 where s1: "control_sql_for ctx (Statement_Sql st) s = (Inr c, s1)" "c \<in> control_texts ctx st"
      "content s1 = content s" "stack s1 = stack s" "cache_coherent ctx s1"
    using control_sql_for_coherent [OF assms] by metis
  show ?thesis
  proof (cases c)
    case None
    then show ?thesis
      using s1 by (auto simp: execute_statement_on_control_def and_then_def return_value_def left_in_def)
  next
    case (Some sql)
    obtain s2 r where s2: "execute_sql_for_replay (engine ctx) st sql scope l (control_schema ctx) False s1 = (Inr r, s2)"
        "r = None \<longrightarrow> run_ok (engine ctx) sql (content s1) = Some (content s2) \<and> stack s2 = stack s1"
        "r \<noteq> None \<longrightarrow> run_ok (engine ctx) sql (content s1) = None \<and> left_in s1 s2"
        "control_sql_cache s2 = control_sql_cache s1"
      using execute_sql_run by blast
    have run: "execute_statement_on_control ctx scope l False st s = (Inr (map_option
          (\<lambda>f. if stripped_upsert (sm_compatible_sql (ls_metadata st)) \<and> is_unique_constraint_failure f
            then f\<lparr>failure_message := upsert_message (failure_message f)\<rparr> else f) (clean_control_failure ctx r)), s2)"
      using s1(1) s2(1) Some by (simp add: execute_statement_on_control_def and_then_def return_value_def)
    have left: "r \<noteq> None \<Longrightarrow> left_in s s2" using s2(3) s1(4) left_in_stack by blast
    have "cache_coherent ctx s2" using s1(5) cache_coherent_same [OF s2(4)] by blast
    moreover have "r = None \<Longrightarrow> stack s2 = stack s \<and> Option.bind c (\<lambda>text. run_ok (engine ctx) text (content s)) = Some (content s2)"
      "r \<noteq> None \<Longrightarrow> Option.bind c (\<lambda>text. run_ok (engine ctx) text (content s)) = None"
      using Some s1(3,4) s2(2,3) by auto
    ultimately show ?thesis
      unfolding run using s1(2) left by (cases r) (simp add: clean_control_failure_def; blast)+
  qed
qed

lemma advance_statement_run:
  assumes "cache_coherent ctx s"
  shows "\<exists>s' r c. advance_statement ctx t u l scope False st s = (Inr r, s') \<and> cache_coherent ctx s' \<and>
     c \<in> control_texts ctx st \<and>
     (r = None \<longrightarrow> statement_step ctx c st (content s) = Some (content s') \<and> stack s' = stack s) \<and>
     (\<forall>result. r = Some result \<longrightarrow> statement_step ctx c st (content s) = None \<and> has_conflict result \<and> left_in s s')"
proof -
  obtain s1 r1 c where c: "execute_statement_on_control ctx scope l False st s = (Inr r1, s1)"
      "cache_coherent ctx s1" "c \<in> control_texts ctx st"
      "r1 = None \<longrightarrow> stack s1 = stack s \<and>
        Option.bind c (\<lambda>text. run_ok (engine ctx) text (content s)) = Some (content s1)"
      "r1 \<noteq> None \<longrightarrow> left_in s s1 \<and> Option.bind c (\<lambda>text. run_ok (engine ctx) text (content s)) = None"
    using on_control_run [OF assms] by blast
  have split: "statement_step ctx c st (content s) =
      Option.bind (Option.bind c (\<lambda>text. run_ok (engine ctx) text (content s)))
        (run_ok (engine ctx) (statement_sql_text st))"
    by (simp add: statement_step_def)
  show ?thesis
  proof (cases r1)
    case (Some f)
    then show ?thesis using c split by (auto simp: advance_statement_def and_then_def return_value_def)
  next
    case None
    obtain s2 r2 where m: "execute_sql_for_replay (engine ctx) st (statement_sql_text st) scope l None False s1 = (Inr r2, s2)"
        "r2 = None \<longrightarrow> run_ok (engine ctx) (statement_sql_text st) (content s1) = Some (content s2) \<and> stack s2 = stack s1"
        "r2 \<noteq> None \<longrightarrow> run_ok (engine ctx) (statement_sql_text st) (content s1) = None \<and> left_in s1 s2"
        "control_sql_cache s2 = control_sql_cache s1"
      using execute_sql_run by blast
    have left: "r2 \<noteq> None \<Longrightarrow> left_in s s2" using m(3) c(4) None left_in_stack by blast
    have run: "advance_statement ctx t u l scope False st s = (Inr (map_option failure_result r2), s2)"
      using c(1) m(1) None
      by (cases r2) (simp_all add: advance_statement_def and_then_def return_value_def execute_statement_on_main_def)
    have "cache_coherent ctx s2" using c(2) cache_coherent_same [OF m(4)] by blast
    then show ?thesis
      unfolding run using None c split m(2,3) left
      by (intro exI [of _ s2] exI [of _ "map_option failure_result r2"] exI [of _ c]) (cases r2; simp)
  qed
qed

lemma advance_statements_run:
  assumes "cache_coherent ctx s"
  shows "\<exists>s' r cs. for_until (advance_statement ctx t u l scope False) sts s = (Inr r, s') \<and> cache_coherent ctx s' \<and>
     controls_for ctx sts cs \<and>
     (r = None \<longrightarrow> statements_step ctx cs sts (content s) = Some (content s') \<and> stack s' = stack s) \<and>
     (\<forall>result. r = Some result \<longrightarrow> statements_step ctx cs sts (content s) = None \<and> has_conflict result \<and> left_in s s')"
  using assms
proof (induction sts arbitrary: s)
  case Nil
  then show ?case by (auto simp: return_value_def intro: exI [of _ "[]"])
next
  case (Cons st sts)
  obtain s1 r1 c where one: "advance_statement ctx t u l scope False st s = (Inr r1, s1)" "cache_coherent ctx s1"
     "c \<in> control_texts ctx st"
     "r1 = None \<longrightarrow> statement_step ctx c st (content s) = Some (content s1) \<and> stack s1 = stack s"
     "\<forall>result. r1 = Some result \<longrightarrow> statement_step ctx c st (content s) = None \<and> has_conflict result \<and> left_in s s1"
    using advance_statement_run [OF Cons.prems] by blast
  show ?case
  proof (cases r1)
    case (Some result)
    have "for_until (advance_statement ctx t u l scope False) (st # sts) s = (Inr r1, s1)"
      using one(1) Some by (simp add: and_then_def return_value_def)
    moreover have "controls_for ctx (st # sts) (c # map (control_sql_of ctx \<circ> Statement_Sql) sts)"
      using one(3) own_controls by simp
    ultimately show ?thesis
      by (intro exI [of _ s1] exI [of _ r1] exI [of _ "c # map (control_sql_of ctx \<circ> Statement_Sql) sts"])
        (use one Some in auto)
  next
    case None
    obtain s2 r2 cs where rest: "for_until (advance_statement ctx t u l scope False) sts s1 = (Inr r2, s2)"
        "cache_coherent ctx s2" "controls_for ctx sts cs"
        "r2 = None \<longrightarrow> statements_step ctx cs sts (content s1) = Some (content s2) \<and> stack s2 = stack s1"
        "\<forall>result. r2 = Some result \<longrightarrow> statements_step ctx cs sts (content s1) = None \<and> has_conflict result \<and> left_in s1 s2"
      using Cons.IH [OF one(2)] by blast
    have "left_in s1 s2 \<Longrightarrow> left_in s s2" using one(4) None left_in_stack by blast
    then show ?thesis
      by (intro exI [of _ s2] exI [of _ r2] exI [of _ "c # cs"])
        (use one None rest in \<open>auto simp: and_then_def\<close>)
  qed
qed

lemma insert_log_rows_run:
  "\<exists>s' r. insert_log_rows eng tx_id sts s = (r, s') \<and> stack s' = stack s \<and>
     control_sql_cache s' = control_sql_cache s \<and>
     (case r of Inr _ \<Rightarrow> log_rows_step eng tx_id sts (content s) = Some (content s')
      | Inl e \<Rightarrow> log_rows_step eng tx_id sts (content s) = None \<and> (\<exists>x. e = Sqlite_Exn x))"
proof (induction sts arbitrary: s)
  case Nil
  then show ?case by simp
next
  case (Cons st sts)
  show ?case
  proof (cases "insert_log_row eng tx_id (log_row_of st) (content s)")
    case (Inl e)
    then show ?thesis by simp
  next
    case (Inr db)
    then show ?thesis using Cons.IH [of "s\<lparr>content := db\<rparr>"] by (auto split: sum.splits)
  qed
qed

lemma append_log_run:
  "\<exists>s' r. append_replayed_log eng sts s = (r, s') \<and> stack s' = stack s \<and>
     control_sql_cache s' = control_sql_cache s \<and>
     (case r of Inr _ \<Rightarrow> log_step eng sts (content s) = Some (content s')
      | Inl e \<Rightarrow> log_step eng sts (content s) = None \<and> (\<exists>x. e = Sqlite_Exn x))"
proof (cases "insert_transaction_row eng (content s)")
  case (Inl e)
  then show ?thesis
    by (simp add: append_replayed_log_def and_then_def insert_transaction_def log_step_def)
next
  case (Inr p)
  obtain tx db where p: "p = (tx, db)" by fastforce
  show ?thesis
    using insert_log_rows_run [of eng tx sts "s\<lparr>content := db\<rparr>"] Inr p
    by (auto simp: append_replayed_log_def and_then_def insert_transaction_def log_step_def split: sum.splits)
qed

lemma foreign_key_check_run:
  "foreign_key_check_error eng schema s = (r, s') \<Longrightarrow> s' = s \<and>
     (case r of Inr None \<Rightarrow> foreign_keys_hold eng schema (content s)
      | Inr (Some _) \<Rightarrow> \<not> foreign_keys_hold eng schema (content s)
      | Inl e \<Rightarrow> \<not> foreign_keys_hold eng schema (content s) \<and> (\<exists>x. e = Sqlite_Exn x))"
  by (auto simp: foreign_key_check_error_def and_then_def fetch_one_def foreign_keys_hold_def return_value_def
      split: sum.splits option.splits)

lemma foreign_key_failures_run:
  assumes "lt_statements t \<noteq> []"
  shows "\<exists>r. transaction_foreign_key_failures ctx t scope l s = (r, s) \<and>
    (case r of Inr fs \<Rightarrow> (fs = []) = (foreign_keys_hold (engine ctx) None (content s) \<and>
        foreign_keys_hold (engine ctx) (control_schema ctx) (content s))
     | Inl e \<Rightarrow> \<not> (foreign_keys_hold (engine ctx) None (content s) \<and>
        foreign_keys_hold (engine ctx) (control_schema ctx) (content s)) \<and> (\<exists>x. e = Sqlite_Exn x))"
proof -
  obtain r1 s1 where m: "foreign_key_check_error (engine ctx) None s = (r1, s1)" by fastforce
  obtain r2 s2 where c: "foreign_key_check_error (engine ctx) (control_schema ctx) s = (r2, s2)" by fastforce
  show ?thesis
    using foreign_key_check_run [OF m] foreign_key_check_run [OF c] m c assms
    by (auto simp: transaction_foreign_key_failures_def and_then_def last_statement_failure_def
        return_value_def split: sum.splits option.splits)
qed

section \<open>Accepted transactions\<close>

lemma advance_run:
  assumes "cache_coherent ctx s" "lt_statements u \<noteq> []"
  obtains s' r cs where "advance_transaction_on_main_and_control ctx t u l scope False s = (r, s')"
    "cache_coherent ctx s'" "left_in s s'" "controls_for ctx (lt_statements u) cs"
    "case r of
       Inr result \<Rightarrow> if has_conflict result then accept_step ctx cs nested u (content s) = None
         else stack s' = stack s \<and> statements_step ctx cs (lt_statements u) (content s) = Some (content s') \<and>
           foreign_keys_hold (engine ctx) None (content s') \<and>
           foreign_keys_hold (engine ctx) (control_schema ctx) (content s')
     | Inl e \<Rightarrow> accept_step ctx cs nested u (content s) = None \<and> stack s' = stack s \<and> (\<exists>x. e = Sqlite_Exn x)"
proof -
  obtain s1 r1 cs where one:
      "for_until (advance_statement ctx t u l scope False) (lt_statements u) s = (Inr r1, s1)"
      "cache_coherent ctx s1" "controls_for ctx (lt_statements u) cs"
      "r1 = None \<longrightarrow> statements_step ctx cs (lt_statements u) (content s) = Some (content s1) \<and> stack s1 = stack s"
      "\<forall>result. r1 = Some result \<longrightarrow> statements_step ctx cs (lt_statements u) (content s) = None \<and>
         has_conflict result \<and> left_in s s1"
    using advance_statements_run [OF assms(1)] by blast
  show thesis
  proof (cases r1)
    case (Some result)
    then show thesis
      using one by (intro that [of "Inr result" s1 cs])
        (auto simp: advance_transaction_on_main_and_control_def and_then_def return_value_def accept_step_def)
  next
    case None
    obtain r2 where fk: "transaction_foreign_key_failures ctx u scope l s1 = (r2, s1)"
        "case r2 of Inr fs \<Rightarrow> (fs = []) = (foreign_keys_hold (engine ctx) None (content s1) \<and>
             foreign_keys_hold (engine ctx) (control_schema ctx) (content s1))
         | Inl e \<Rightarrow> \<not> (foreign_keys_hold (engine ctx) None (content s1) \<and>
             foreign_keys_hold (engine ctx) (control_schema ctx) (content s1)) \<and> (\<exists>x. e = Sqlite_Exn x)"
      using foreign_key_failures_run [OF assms(2)] by blast
    have run: "advance_transaction_on_main_and_control ctx t u l scope False s =
        (case r2 of Inl e \<Rightarrow> (Inl e, s1)
         | Inr fs \<Rightarrow> (Inr (case fs of [] \<Rightarrow> check_result_of [] | f # _ \<Rightarrow> failure_result f), s1))"
      using one(1) None fk(1)
      by (simp add: advance_transaction_on_main_and_control_def and_then_def return_value_def split: sum.splits)
    show thesis
      using None one(2-4) fk(2) run
      by (intro that [of "fst (advance_transaction_on_main_and_control ctx t u l scope False s)" s1 cs])
        (auto simp: accept_step_def check_result_of_def left_in_def has_conflict_def [of "[]"] split: sum.splits list.splits)
  qed
qed

text \<open>Logging and releasing, from a state with the savepoint on top.\<close>

lemma log_and_release_run:
  assumes "stack s = (name, db0) # outer"
  obtains s' r where
    "and_then (append_replayed_log eng sts) (\<lambda>_. and_then (release eng name) (\<lambda>_. return_value None)) s = (r, s')"
    "case Option.bind (log_step eng sts (content s))
       (\<lambda>logged. if outer = [] \<and> commit_error eng db0 logged \<noteq> None then None else Some logged) of
       Some db \<Rightarrow> r = Inr None \<and> content s' = db \<and> stack s' = outer \<and> control_sql_cache s' = control_sql_cache s
     | None \<Rightarrow> (\<exists>x. r = Inl (Sqlite_Exn x)) \<and> stack s' = stack s \<and> control_sql_cache s' = control_sql_cache s"
proof -
  obtain r2 s2 where log: "append_replayed_log eng sts s = (r2, s2)" "stack s2 = stack s"
      "control_sql_cache s2 = control_sql_cache s"
      "case r2 of Inr _ \<Rightarrow> log_step eng sts (content s) = Some (content s2)
       | Inl e \<Rightarrow> log_step eng sts (content s) = None \<and> (\<exists>x. e = Sqlite_Exn x)"
    using append_log_run by blast
  let ?refused = "if outer = [] then commit_error eng db0 (content s2) else None"
  have release: "release eng name s2 = (case ?refused of
      None \<Rightarrow> (Inr (), s2\<lparr>stack := outer\<rparr>) | Some e \<Rightarrow> (Inl (Sqlite_Exn e), s2))"
    using log(2) assms by (simp add: release_def from_savepoint_def)
  show thesis
  proof (cases r2)
    case (Inl e)
    then show thesis
      using log by (intro that [of "Inl e" s2]) (auto simp: and_then_def)
  next
    case (Inr u)
    then show thesis
      using log release
      by (cases ?refused)
        (intro that [of "Inr None" "s2\<lparr>stack := outer\<rparr>"] that [of "Inl (Sqlite_Exn (the ?refused))" s2];
          auto simp: and_then_def return_value_def split: if_splits)+
  qed
qed

text \<open>
  How accepting ends, by what the step gives: done; refused with a conflict and nothing changed; or
  raised after SQLite itself rolled everything back, to the content the outermost savepoint saved.
\<close>

definition accept_outcome ::
    "'db replay_state \<Rightarrow> 'db option \<Rightarrow> exn + statement_conflict option \<Rightarrow> 'db replay_state \<Rightarrow> bool" where
  "accept_outcome s step r s' \<longleftrightarrow>
     (case step of
        Some db \<Rightarrow> r = Inr None \<and> content s' = db \<and> stack s' = stack s
      | None \<Rightarrow> (\<exists>conflict. r = Inr (Some conflict)) \<and> content s' = content s \<and> stack s' = stack s \<or>
          isl r \<and> content s' = transaction_start s \<and> stack s' = [])"

lemma apply_accepted_step:
  assumes "commits_no_change (engine ctx)" "cache_coherent ctx s"
    and "lt_statements t \<noteq> []" and "apply_accepted_transaction ctx t s = (r, s')"
  shows "\<exists>cs. controls_for ctx (lt_statements t) cs \<and>
    accept_outcome s (accept_step ctx cs (stack s \<noteq> []) t (content s)) r s' \<and> cache_coherent ctx s'"
proof -
  let ?eng = "engine ctx" and ?nested = "stack s \<noteq> []" and ?scope = "branch_scope (lt_branch t)"
  let ?commit = "\<lambda>db. Option.bind (log_step ?eng (lt_statements t) db)
       (\<lambda>logged. if stack s = [] \<and> commit_error ?eng (content s) logged \<noteq> None then None else Some logged)"
  obtain name s0 where open_sp: "open_savepoint ?eng ''sqlite_merge_accept_'' s = (Inr name, s0)"
      "content s0 = content s" "stack s0 = (name, content s) # stack s" "cache_coherent ctx s0"
    using assms(2) by (simp add: open_savepoint_run cache_coherent_def)
  note run = assms(4) [unfolded apply_accepted_transaction_def and_then_def [of "open_savepoint _ _"] open_sp(1)]
  have undo: "rollback_savepoint ?eng name v = (Inr (), v\<lparr>content := content s, stack := stack s\<rparr>)"
    if "stack v = stack s0" for v
    using rollback_savepoint_top [OF _ assms(1)] that open_sp(3) by simp
  have lost: "rollback_savepoint ?eng name v = (Inl (no_such_savepoint name), v)" if "stack v = []" for v
    using that by (rule rollback_savepoint_lost)
  obtain r1 s1 cs where adv:
      "advance_transaction_on_main_and_control ctx t t (transaction_label t) ?scope False s0 = (r1, s1)"
      "cache_coherent ctx s1" "left_in s0 s1" "controls_for ctx (lt_statements t) cs"
      "case r1 of
         Inr result \<Rightarrow> if has_conflict result then accept_step ctx cs ?nested t (content s) = None
           else stack s1 = stack s0 \<and> statements_step ctx cs (lt_statements t) (content s) = Some (content s1) \<and>
             foreign_keys_hold ?eng None (content s1) \<and> foreign_keys_hold ?eng (control_schema ctx) (content s1)
       | Inl e \<Rightarrow> accept_step ctx cs ?nested t (content s) = None \<and> stack s1 = stack s0 \<and> (\<exists>x. e = Sqlite_Exn x)"
    by (rule advance_run [OF open_sp(4) assms(3), where t = t and l = "transaction_label t"
          and scope = ?scope and nested = ?nested, unfolded open_sp(2)])
  have gone: "content s1 = transaction_start s" if "stack s1 = []"
    using adv(3) that open_sp(3) by (simp add: left_in_def transaction_start_def split: if_splits)
  consider (raised) x where "r1 = Inl (Sqlite_Exn x)" "accept_step ctx cs ?nested t (content s) = None" "stack s1 = stack s0"
    | (conflict) result where "r1 = Inr result" "has_conflict result" "accept_step ctx cs ?nested t (content s) = None"
    | (clean) result where "r1 = Inr result" "\<not> has_conflict result" "stack s1 = stack s0"
        "accept_step ctx cs ?nested t (content s) = ?commit (content s1)"
    using adv(5) by (cases r1) (auto simp: accept_step_def split: if_splits)
  then have "accept_outcome s (accept_step ctx cs ?nested t (content s)) r s' \<and> control_sql_cache s' = control_sql_cache s1"
  proof cases
    case raised
    then show ?thesis
      using run adv(1) undo [of s1]
      by (auto simp: catch_sqlite_def and_then_def return_value_def accept_outcome_def)
  next
    case conflict
    have "stack s1 = stack s0 \<or> stack s1 = []" using adv(3) by (auto simp: left_in_def)
    then show ?thesis
      using run adv(1) conflict undo [of s1] lost [of s1] gone
      by (auto simp: catch_sqlite_def and_then_def return_value_def no_such_savepoint_def accept_outcome_def)
  next
    case clean
    obtain r2 :: "exn + statement_conflict option" and s2 where tail:
        "and_then (append_replayed_log ?eng (lt_statements t))
           (\<lambda>_. and_then (release ?eng name) (\<lambda>_. return_value None)) s1 = (r2, s2)"
        "case ?commit (content s1) of
           Some db \<Rightarrow> r2 = Inr None \<and> content s2 = db \<and> stack s2 = stack s \<and> control_sql_cache s2 = control_sql_cache s1
         | None \<Rightarrow> (\<exists>x. r2 = Inl (Sqlite_Exn x)) \<and> stack s2 = stack s1 \<and> control_sql_cache s2 = control_sql_cache s1"
      by (rule log_and_release_run [OF clean(3) [unfolded open_sp(3)], of ?eng "lt_statements t"])
    have body: "(r, s') = (case (r2, s2) of
        (Inl (Sqlite_Exn e), v) \<Rightarrow> and_then (rollback_savepoint ?eng name)
          (\<lambda>_. return_value (Some (sqlite_exception_conflict e ?scope))) v | (x, v) \<Rightarrow> (x, v))"
      using run adv(1) clean(1,2) tail(1)
      by (simp add: catch_sqlite_def and_then_def [of "advance_transaction_on_main_and_control _ _ _ _ _ _"])
    show ?thesis
    proof (cases "?commit (content s1)")
      case None
      then show ?thesis
        using tail(2) clean(3,4) undo [of s2] body
        by (auto simp: and_then_def return_value_def accept_outcome_def)
    next
      case (Some db)
      then show ?thesis using tail(2) clean(4) body by (auto simp: accept_outcome_def)
    qed
  qed
  then show ?thesis using adv(2,4) cache_coherent_same [of s' s1] by blast
qed


text \<open>A connection that records what ran on it, with \<open>bad\<close> refused.\<close>

definition demo_sqlite :: "string list sqlite" where
  "demo_sqlite =
     \<lparr>run_statement = (\<lambda>sql db. if sql = ''bad'' then Failed (Integrity_Error ''refused'') db else Ran (db @ [sql])),
      first_row = (\<lambda>_ _. Inr None), column_count = (\<lambda>_ _. Inr 1),
      first_value = (\<lambda>_ _. Inr (Some ''ok'')), all_rows = (\<lambda>_ _. Inr []), commit_error = (\<lambda>_ _. None),
      insert_transaction_row = (\<lambda>db. Inr (1, db @ [''tx''])),
      insert_log_row = (\<lambda>_ row db. Inr (db @ [''log '' @ row_to_replay_sql_text row])),
      uuid_hex = decimal, statement_id = (\<lambda>_. to_replay_sql_text), metadata_id = (\<lambda>_ _. [])\<rparr>"

definition demo_statement :: "string \<Rightarrow> logged_statement" where
  "demo_statement sql =
     \<lparr>ls_branch = Ours, ls_branch_index = 0, ls_transaction_id = 1, ls_committed_at = [],
      ls_original_sql_text = sql, to_replay_sql_text = sql, is_replay_safe = True,
      replay_block_reason = None, ls_metadata = unsupported_statement_metadata sql,
      replay_warnings = [], accepted_replay_warnings = {}\<rparr>"

definition demo_transaction_of :: "string list \<Rightarrow> logged_transaction" where
  "demo_transaction_of sqls =
     \<lparr>lt_branch = Ours, lt_branch_index = 0, lt_transaction_id = 1, lt_committed_at = [],
      lt_statements = map demo_statement sqls,
      lt_metadata = transaction_metadata (map (ls_metadata \<circ> demo_statement) sqls)\<rparr>"

definition demo_merge_context :: "string list merge_context" where
  "demo_merge_context =
     \<lparr>engine = demo_sqlite, schema_context = cascade_context, control_schema = Some ''control'',
      control_sql_rewriter = Some (\<lambda>sql. case sql of
        Raw_Sql text \<Rightarrow> Some (''control '' @ text)
      | Statement_Sql st \<Rightarrow> Some (''control '' @ to_replay_sql_text st)),
      parse_sql = demo_parse,
      rendered = (\<lambda>_. \<lparr>r_with = None, r_target = [], r_from = None, r_where = None, r_assignments = [],
        r_source = None\<rparr>)\<rparr>"

lemma demo_merge_context_ok:
  "commits_no_change (engine demo_merge_context)" "ids_identify demo_merge_context"
  "cache_coherent demo_merge_context (replay_start db)"
  by (simp_all add: demo_merge_context_def demo_sqlite_def commits_no_change_def ids_identify_def
      cache_coherent_def replay_start_def)


text \<open>
  Where identities are reused: an object that takes over the identity of a freed one is replayed on
  the control copy with the other statement's SQL.
\<close>

lemma reused_identity_replays_wrong_sql:
  "let ctx = demo_merge_context\<lparr>engine := demo_sqlite\<lparr>statement_id := \<lambda>_ _. ''140''\<rparr>\<rparr>;
       s = snd (apply_accepted_transaction ctx (demo_transaction_of [''a'']) (replay_start []))
   in content (snd (apply_accepted_transaction ctx (demo_transaction_of [''b'']) s)) =
        [''control a'', ''a'', ''tx'', ''log a'', ''control a'', ''b'', ''tx'', ''log b'']"
  by code_simp

end
