(* ===== verification/Remaining_Execution_Props.thy ===== *)
theory Remaining_Execution_Props
  imports Remaining_Execution Accepted_Replay_Props
begin

text \<open>
  The scan is isolated: whatever it replays and probes, closing it puts the connection back to
  where it was, and a reported conflict leaves the scan where it stood. Normal results are
  followed with a small logic of pre- and postconditions.
\<close>

section \<open>Normal results\<close>

definition yields :: "('s \<Rightarrow> bool) \<Rightarrow> ('s, 'a) action \<Rightarrow> ('a \<Rightarrow> 's \<Rightarrow> bool) \<Rightarrow> bool" where
  "yields P m Q \<longleftrightarrow> (\<forall>s r s'. P s \<longrightarrow> m s = (Inr r, s') \<longrightarrow> Q r s')"

lemma yieldsD: "yields P m Q \<Longrightarrow> P s \<Longrightarrow> m s = (Inr r, s') \<Longrightarrow> Q r s'"
  by (simp add: yields_def)

lemma yields_weaken: "yields P m Q \<Longrightarrow> (\<And>s. P' s \<Longrightarrow> P s) \<Longrightarrow> (\<And>r s. Q r s \<Longrightarrow> Q' r s) \<Longrightarrow> yields P' m Q'"
  unfolding yields_def by blast

lemma yields_and_then: "yields P m Q \<Longrightarrow> (\<And>x. yields (Q x) (f x) R) \<Longrightarrow> yields P (and_then m f) R"
  unfolding yields_def and_then_def by (auto split: prod.splits sum.splits)

lemma yields_return: "(\<And>s. P s \<Longrightarrow> Q x s) \<Longrightarrow> yields P (return_value x) Q"
  by (simp add: yields_def return_value_def)

lemma yields_raise: "yields P (raise_exn e) Q"
  by (simp add: yields_def raise_exn_def)

lemma yields_if: "(b \<Longrightarrow> yields P m Q) \<Longrightarrow> (\<not> b \<Longrightarrow> yields P n Q) \<Longrightarrow> yields P (if b then m else n) Q"
  by simp

lemma yields_for_until:
  assumes "\<And>x. yields P (body x) (\<lambda>r s. case r of None \<Rightarrow> P s | Some a \<Rightarrow> Q a s)"
  shows "yields P (for_until body xs) (\<lambda>r s. case r of None \<Rightarrow> P s | Some a \<Rightarrow> Q a s)"
proof (induction xs)
  case Nil
  show ?case by (simp add: yields_def return_value_def)
next
  case (Cons x xs)
  show ?case
    unfolding for_until.simps
  proof (rule yields_and_then [OF assms])
    fix r
    show "yields (\<lambda>s. case r of None \<Rightarrow> P s | Some a \<Rightarrow> Q a s)
        (case r of Some a \<Rightarrow> return_value (Some a) | None \<Rightarrow> for_until body xs)
        (\<lambda>r s. case r of None \<Rightarrow> P s | Some a \<Rightarrow> Q a s)"
      using Cons.IH by (cases r) (simp_all add: yields_def return_value_def)
  qed
qed

lemma yields_the_object: "(\<And>s. P s \<Longrightarrow> Q (snd s) s) \<Longrightarrow> yields P the_object Q"
  by (auto simp: yields_def the_object_def)

lemma on_exception_result: "on_exception m h s = (Inr r, s') \<Longrightarrow> m s = (Inr r, s')"
  by (auto simp: on_exception_def split: prod.splits sum.splits)

lemma yields_on_exception: "yields P m Q \<Longrightarrow> yields P (on_exception m h) Q"
  unfolding yields_def using on_exception_result by metis

text \<open>Assertions on the connection and the object.\<close>

definition at :: "'db \<Rightarrow> (string \<times> 'db) list \<Rightarrow> 'o \<Rightarrow> 'db replay_state \<times> 'o \<Rightarrow> bool" where
  "at db stk obj s \<longleftrightarrow> content (fst s) = db \<and> stack (fst s) = stk \<and> snd s = obj"

definition stack_at :: "(string \<times> 'db) list \<Rightarrow> 'o \<Rightarrow> 'db replay_state \<times> 'o \<Rightarrow> bool" where
  "stack_at stk obj s \<longleftrightarrow> stack (fst s) = stk \<and> snd s = obj"

definition stack_lost :: "'o \<Rightarrow> 'db replay_state \<times> 'o \<Rightarrow> bool" where
  "stack_lost obj s \<longleftrightarrow> stack (fst s) = [] \<and> snd s = obj"

lemma yields_probing:
  "probing m \<Longrightarrow> yields (at db stk obj) (on_connection m) (\<lambda>_. at db stk obj)"
  unfolding yields_def on_connection_def at_def
  by (auto split: prod.splits dest!: probingD)

lemma yields_silent:
  "silent m \<Longrightarrow> yields (stack_at stk obj) (on_connection m) (\<lambda>_. stack_at stk obj)"
  unfolding yields_def on_connection_def stack_at_def
  by (auto split: prod.splits dest!: silentD)

lemma yields_open_savepoint:
  "yields (at db stk obj) (on_connection (open_savepoint eng prefix)) (\<lambda>name. at db ((name, db) # stk) obj)"
  by (auto simp: yields_def on_connection_def open_savepoint_run at_def)

lemma yields_roll_back_with:
  assumes "commits_no_change eng"
  shows "yields (\<lambda>s. stack_at ((name, db) # stk) obj s \<or> stack_lost obj s) (roll_back_with eng name x)
    (\<lambda>r s. r = x \<and> at db stk obj s)"
  unfolding yields_def
proof (intro allI impI)
  fix s r s'
  assume pre: "stack_at ((name, db) # stk) obj s \<or> stack_lost obj s"
    and run: "roll_back_with eng name x s = (Inr r, s')"
  show "r = x \<and> at db stk obj s'"
  proof (cases "stack (fst s) = []")
    case True
    then show ?thesis
      using run rollback_savepoint_lost [OF True, of eng name]
      by (simp add: roll_back_with_def and_then_def on_connection_def)
  next
    case False
    then have "stack (fst s) = (name, db) # stk" "snd s = obj"
      using pre by (auto simp: stack_at_def stack_lost_def)
    then show ?thesis
      using run rollback_savepoint_top [OF _ assms, of "fst s" name db stk]
      by (auto simp: roll_back_with_def and_then_def on_connection_def return_value_def at_def)
  qed
qed

lemma yields_release:
  "stk \<noteq> [] \<Longrightarrow> yields (stack_at ((name, db) # stk) obj) (on_connection (release eng name)) (\<lambda>_. stack_at stk obj)"
  by (auto simp: yields_def on_connection_def release_def from_savepoint_def stack_at_def)

section \<open>Replaying keeps the stack when it succeeds\<close>

lemma execute_sql_keeps:
  "execute_sql_for_replay eng st sql scope l fk check s = (Inr None, s') \<Longrightarrow> stack s' = stack s"
  using silentD [OF silent_foreign_key_check]
  by (fastforce simp: execute_sql_for_replay_def and_then_def catch_sqlite_def execute_def return_value_def
      split: run_result.splits if_splits sum.splits prod.splits)

lemma on_main_keeps:
  "execute_statement_on_main ctx scope l check st s = (Inr None, s') \<Longrightarrow> stack s' = stack s"
  unfolding execute_statement_on_main_def by (rule execute_sql_keeps)

lemma on_control_keeps:
  assumes "execute_statement_on_control ctx scope l check st s = (Inr None, s')"
  shows "stack s' = stack s"
proof -
  obtain r1 s1 where c: "control_sql_for ctx (Statement_Sql st) s = (r1, s1)" by fastforce
  note silentD [OF silent_control_sql_for c]
  moreover obtain sql where "execute_sql_for_replay (engine ctx) st sql scope l (control_schema ctx) check s1 = (Inr None, s')"
    using assms c
    by (auto simp: execute_statement_on_control_def and_then_def return_value_def clean_control_failure_def
        split: sum.splits option.splits prod.splits)
  ultimately show ?thesis using execute_sql_keeps by metis
qed

lemma yields_on_control:
  "yields (\<lambda>s. stack s = stk) (execute_statement_on_control ctx scope l check st)
     (\<lambda>r s. case r of None \<Rightarrow> stack s = stk | Some _ \<Rightarrow> stack s = stk \<or> stack s = [])"
  using framedD [OF framed_on_control, of ctx scope l check st] on_control_keeps [of ctx scope l check st]
  by (auto simp: yields_def split: option.splits)

lemma yields_on_main:
  "yields (\<lambda>s. stack s = stk) (execute_statement_on_main ctx scope l check st)
     (\<lambda>r s. case r of None \<Rightarrow> stack s = stk | Some _ \<Rightarrow> stack s = stk \<or> stack s = [])"
  using framedD [OF framed_on_main, of ctx scope l check st] on_main_keeps [of ctx scope l check st]
  by (auto simp: yields_def split: option.splits)

lemma has_conflict_single [simp]: "has_conflict (check_result_of [c])"
  by (simp add: check_result_of_def append_conflict_def has_conflict_def)

lemma yields_advance_statement:
  assumes "commits_no_change (engine ctx)"
  shows "yields (\<lambda>s. stack s = stk) (advance_statement ctx t u l scope check st)
    (\<lambda>r s. case r of None \<Rightarrow> stack s = stk | Some result \<Rightarrow> has_conflict result \<and> (stack s = stk \<or> stack s = []))"
  unfolding advance_statement_def
proof (rule yields_and_then)
  show "yields (\<lambda>s. stack s = stk)
      (if check then strict_constraint_resolution_failure ctx t st else return_value None) (\<lambda>_ s. stack s = stk)"
    using probing_strict_failure [OF assms, of t st]
    by (auto simp: yields_def return_value_def dest!: probingD)
next
  fix strict
  show "yields (\<lambda>s. stack s = stk)
      (and_then (execute_statement_on_control ctx scope l False st) (\<lambda>control_failure.
         case control_failure of
           Some f \<Rightarrow> return_value (Some (failure_result f))
         | None \<Rightarrow>
             and_then (execute_statement_on_main ctx scope l False st) (\<lambda>main_failure.
               case main_failure of
                 Some f \<Rightarrow> return_value (Some (failure_result f))
               | None \<Rightarrow> return_value (map_option
                   (\<lambda>f. check_result_of [constraint_resolution_conflict u f Pair_Scope (Some t)]) strict))))
      (\<lambda>r s. case r of None \<Rightarrow> stack s = stk | Some result \<Rightarrow> has_conflict result \<and> (stack s = stk \<or> stack s = []))"
  proof (rule yields_and_then [OF yields_on_control], goal_cases)
    case (1 control_failure)
    show ?case
    proof (cases control_failure)
      case None
      show ?thesis
        unfolding None option.case
      proof (rule yields_and_then [OF yields_on_main], goal_cases)
        case (1 main_failure)
        show ?case
          by (cases main_failure; cases strict) (auto intro!: yields_return)
      qed
    next
      case (Some f)
      then show ?thesis by (auto intro!: yields_return)
    qed
  qed
qed

lemma yields_advance:
  assumes "commits_no_change (engine ctx)"
  shows "yields (\<lambda>s. stack s = stk) (advance_transaction_on_main_and_control ctx t u l scope check)
    (\<lambda>r s. (stack s = stk \<or> stack s = []) \<and> (\<not> has_conflict r \<longrightarrow> stack s = stk))"
  unfolding advance_transaction_on_main_and_control_def
proof (rule yields_and_then [OF yields_for_until [OF yields_advance_statement [OF assms]]])
  fix stopped
  show "yields (\<lambda>s. case stopped of None \<Rightarrow> stack s = stk
        | Some result \<Rightarrow> has_conflict result \<and> (stack s = stk \<or> stack s = []))
      (case stopped of Some result \<Rightarrow> return_value result
       | None \<Rightarrow> and_then (transaction_foreign_key_failures ctx u scope l) (\<lambda>failures.
           return_value (case failures of [] \<Rightarrow> check_result_of [] | f # _ \<Rightarrow> failure_result f)))
      (\<lambda>r s. (stack s = stk \<or> stack s = []) \<and> (\<not> has_conflict r \<longrightarrow> stack s = stk))"
    using silentD [OF silent_transaction_fk, of ctx u scope l]
    by (cases stopped) (auto simp: yields_def and_then_def return_value_def split: sum.splits prod.splits)
qed

section \<open>Probes\<close>

lemma silent_probe_helpers [framing]:
  "silent (statement_write_probe_sql ctx st control)" "silent (temp_table_intersects_probe eng t probe)"
  "silent (temp_tables_intersect eng t u)" "silent (temp_tables_differ eng t u)"
  "silent (required_target st)"
  unfolding statement_write_probe_sql_def temp_table_intersects_probe_def temp_tables_intersect_def
    temp_tables_differ_def required_target_def
  by (intro framing)+

lemma silent_list_item [framing]: "silent (list_item xs i)"
  unfolding list_item_def by (intro framing)

lemma silent_duplicate_target_rows [framing]: "silent (duplicate_target_rows ctx metadata p q)"
  unfolding duplicate_target_rows_def by (intro framing)

lemma framed_drop_temp_table [framing]: "framed (drop_temp_table eng t)"
  unfolding drop_temp_table_def by (rule framed_execute)

lemma silent_bool_option [framing]:
  "silent m \<Longrightarrow> silent n \<Longrightarrow> silent k \<Longrightarrow>
     silent (case overlap of None \<Rightarrow> m | Some False \<Rightarrow> n | Some True \<Rightarrow> k)"
  by (simp split: option.splits bool.splits)

lemma silent_compare_candidate_pair [framing]:
  "silent (compare_candidate_pair ctx b tables ours theirs probe other pair)"
  unfolding compare_candidate_pair_def by (intro framing)

lemma framed_compare_other_statement [framing]:
  "framed (compare_other_statement ctx b tables ours theirs probe pairs)"
  unfolding compare_other_statement_def Let_def
  by (intro framing silent_framed [OF silent_compare_candidate_pair] silent_framed [OF silent_temp_probe_name])

lemma framed_overlap_of_other_statement [framing]:
  "framed (overlap_of_other_statement ctx b tables ours theirs pairs item)"
  unfolding overlap_of_other_statement_def Let_def
  by (intro framing silent_framed [OF silent_probe_helpers(5)] silent_framed [OF silent_probe_helpers(1)])

lemma probing_find_write_write_overlap [framing]:
  "commits_no_change (engine ctx) \<Longrightarrow> probing (find_write_write_overlap ctx b tables ours theirs pairs)"
  unfolding find_write_write_overlap_def by (intro framing)

lemma framed_compare_reader_tables [framing]: "framed (compare_reader_tables eng p q)"
  unfolding compare_reader_tables_def
  by (intro framing silent_framed [OF silent_temp_probe_name] silent_framed [OF silent_probe_helpers(4)])

lemma framed_probe_reader_statement [framing]: "framed (probe_reader_statement ctx st)"
  unfolding probe_reader_statement_def
  by (intro framing silent_framed [OF silent_read_probe_result] silent_framed [OF silent_control_sql_for]
      silent_framed [OF silent_duplicate_target_rows])

lemma framed_reader_step [framing]:
  "framed m \<Longrightarrow> framed n \<Longrightarrow>
     framed (case step of Reader_Stops result \<Rightarrow> return_value result | Reader_Affected \<Rightarrow> m | Reader_Unaffected \<Rightarrow> n)"
  by (cases step) (simp_all add: framing)

lemma framed_rolling_reader_loop [framing]: "framed (rolling_reader_loop ctx l indexes affected items)"
proof (induction items arbitrary: affected)
  case Nil
  show ?case by (simp add: framing)
next
  case (Cons item items)
  show ?case
    by (cases item) (simp only: rolling_reader_loop.simps, intro framing Cons.IH)
qed

lemma probing_rolling_dependency [framing]:
  "commits_no_change (engine ctx) \<Longrightarrow> probing (rolling_write_read_dependency ctx w r)"
  unfolding rolling_write_read_dependency_def Let_def by (intro framing)

lemma yields_check_write_write:
  assumes "commits_no_change (engine ctx)"
  shows "yields (at db stk obj) (check_write_write ctx ours theirs result) (\<lambda>_. at db stk obj)"
  unfolding check_write_write_def Let_def
  by (intro yields_and_then [OF yields_the_object [where Q = "\<lambda>_. at db stk obj"]])
    (auto intro!: yields_return yields_and_then [OF yields_probing [OF probing_find_write_write_overlap [OF assms]]]
      split: option.splits)

lemma yields_check_write_read:
  assumes "commits_no_change (engine ctx)"
  shows "yields (at db stk obj) (check_write_read ctx other result) (\<lambda>_. at db stk obj)"
  unfolding check_write_read_def
  by (intro yields_and_then [OF yields_the_object [where Q = "\<lambda>_. at db stk obj"]])
    (auto intro!: yields_return yields_raise yields_and_then [OF yields_probing [OF probing_rolling_dependency [OF assms]]]
      split: option.splits write_read_status.splits)

section \<open>One step of the scan\<close>

text \<open>A step inside an open savepoint: a conflict changes nothing, otherwise only the content moves.\<close>

definition step_done :: "'db \<Rightarrow> (string \<times> 'db) list \<Rightarrow> 'o \<Rightarrow> check_result \<Rightarrow> 'db replay_state \<times> 'o \<Rightarrow> bool" where
  "step_done db stk obj result s \<longleftrightarrow>
     stack_at stk obj s \<and> (has_conflict result \<longrightarrow> content (fst s) = db)"

lemma yields_rolled_back:
  assumes "commits_no_change eng"
  shows "yields (at db' ((name, db) # stk) obj) (roll_back_with eng name x) (step_done db stk obj)"
  by (rule yields_weaken [OF yields_roll_back_with [OF assms]])
    (auto simp: at_def stack_at_def step_done_def)

lemma yields_advance_and_release:
  assumes "commits_no_change (engine ctx)" "stk \<noteq> []" "\<not> has_conflict result"
  shows "yields (at db' ((name, db) # stk) obj)
    (and_then (on_connection (advance_transaction_on_main_and_control ctx t u l scope check))
       (\<lambda>advance_result.
          if has_conflict advance_result then roll_back_with (engine ctx) name (f advance_result)
          else and_then (on_connection (release (engine ctx) name)) (\<lambda>_. return_value result)))
    (step_done db stk obj)"
proof (rule yields_and_then [where Q = "\<lambda>r s. (stack_at ((name, db) # stk) obj s \<or> stack_lost obj s) \<and>
      (\<not> has_conflict r \<longrightarrow> stack_at ((name, db) # stk) obj s)"])
  show "yields (at db' ((name, db) # stk) obj)
      (on_connection (advance_transaction_on_main_and_control ctx t u l scope check))
      (\<lambda>r s. (stack_at ((name, db) # stk) obj s \<or> stack_lost obj s) \<and>
        (\<not> has_conflict r \<longrightarrow> stack_at ((name, db) # stk) obj s))"
    using yieldsD [OF yields_advance [OF assms(1)]]
    by (fastforce simp: yields_def on_connection_def at_def stack_at_def stack_lost_def split: prod.splits)
next
  fix r :: check_result
  show "yields (\<lambda>s. (stack_at ((name, db) # stk) obj s \<or> stack_lost obj s) \<and>
        (\<not> has_conflict r \<longrightarrow> stack_at ((name, db) # stk) obj s))
      (if has_conflict r then roll_back_with (engine ctx) name (f r)
       else and_then (on_connection (release (engine ctx) name)) (\<lambda>_. return_value result))
      (step_done db stk obj)"
  proof (rule yields_if)
    assume "has_conflict r"
    show "yields (\<lambda>s. (stack_at ((name, db) # stk) obj s \<or> stack_lost obj s) \<and>
        (\<not> has_conflict r \<longrightarrow> stack_at ((name, db) # stk) obj s)) (roll_back_with (engine ctx) name (f r))
        (step_done db stk obj)"
      by (rule yields_weaken [OF yields_roll_back_with [OF assms(1)]])
        (auto simp: at_def stack_at_def step_done_def)
  next
    assume none: "\<not> has_conflict r"
    have "yields (stack_at ((name, db) # stk) obj)
        (and_then (on_connection (release (engine ctx) name)) (\<lambda>_. return_value result)) (step_done db stk obj)"
      by (rule yields_and_then [OF yields_release [OF assms(2)]])
        (auto intro!: yields_return simp: step_done_def assms(3))
    then show "yields (\<lambda>s. (stack_at ((name, db) # stk) obj s \<or> stack_lost obj s) \<and>
        (\<not> has_conflict r \<longrightarrow> stack_at ((name, db) # stk) obj s))
        (and_then (on_connection (release (engine ctx) name)) (\<lambda>_. return_value result)) (step_done db stk obj)"
      by (rule yields_weaken) (use none in auto)
  qed
qed

lemma yields_guarded:
  assumes "\<And>name. yields (at db ((name, db) # stk) obj) (body name) Q"
  shows "yields (at db stk obj) (guarded_by_savepoint eng prefix body) Q"
  unfolding guarded_by_savepoint_def
  by (rule yields_and_then [OF yields_open_savepoint]) (rule yields_on_exception [OF assms])

lemma yields_check_next:
  assumes "commits_no_change (engine ctx)" "stk \<noteq> []"
  shows "yields (at db stk obj) (check_next ctx ours theirs static_result) (step_done db stk obj)"
  unfolding check_next_def Let_def
proof (rule yields_and_then [OF yields_the_object [where Q = "\<lambda>_. at db stk obj"]], assumption,
    rule yields_guarded, goal_cases)
  case (1 scanner name)
  note same = at_def
  show ?case
    by (intro yields_and_then [where Q = "\<lambda>_. at db ((name, db) # stk) obj"] yields_if
        yields_check_write_write [OF assms(1)] yields_check_write_read [OF assms(1)] yields_return
        yields_rolled_back [OF assms(1)] yields_advance_and_release [OF assms])
      auto
qed

lemma yields_accept_next:
  assumes "commits_no_change (engine ctx)" "stk \<noteq> []"
  shows "yields (at db stk obj) (accept_next ctx other result) (step_done db stk obj)"
  unfolding accept_next_def Let_def
proof (rule yields_and_then [OF yields_the_object [where Q = "\<lambda>_. at db stk obj"]], assumption,
    rule yields_guarded, goal_cases)
  case (1 scanner name)
  have "\<not> has_conflict (check_result_of [])" by (simp add: check_result_of_def has_conflict_def)
  from yields_advance_and_release [OF assms this] show ?case .
qed

section \<open>The whole scan\<close>

text \<open>
  Materialising a probe as a temporary table may fail, but not roll the transaction back: the
  code takes such a failure for a probe that is not available and goes on.
\<close>

definition probes_never_abort :: "'db sqlite \<Rightarrow> bool" where
  "probes_never_abort eng \<longleftrightarrow>
     (\<forall>name probe db e. run_statement eng (''CREATE TEMP TABLE '' @ quote_identifier name @ '' AS SELECT * FROM (''
        @ probe @ '')'') db \<noteq> Failed_And_Rolled_Back e)"

definition scanning :: "string \<Rightarrow> (string \<times> 'db) list \<Rightarrow> 'db replay_state \<times> exec_scanner \<Rightarrow> bool" where
  "scanning name stk s \<longleftrightarrow> es_savepoint (snd s) = Some name \<and> stack (fst s) = stk"

definition scan_failed :: "string \<Rightarrow> (string \<times> 'db) list \<Rightarrow> 'db replay_state \<times> exec_scanner \<Rightarrow> bool" where
  "scan_failed name stk s \<longleftrightarrow> scanning name stk s \<or> scanning name [] s"

lemma yields_scanning:
  assumes "yields (\<lambda>s. stack s = stk) m (\<lambda>_ s. stack s = stk)"
  shows "yields (scanning name stk) (on_connection m) (\<lambda>_. scanning name stk)"
  using assms by (auto simp: yields_def scanning_def on_connection_def split: prod.splits)

lemma yields_silent_stack:
  "silent m \<Longrightarrow> yields (\<lambda>s. stack s = stk) m (\<lambda>_ s. stack s = stk)"
  by (auto simp: yields_def dest: silentD)

lemma yields_write_probe_table:
  assumes "probes_never_abort (engine ctx)"
  shows "yields (\<lambda>s. stack s = stk) (statement_write_probe_table ctx st control) (\<lambda>_ s. stack s = stk)"
proof -
  have create: "yields (\<lambda>s. stack s = stk)
      (catch_sqlite (and_then (create_probe_result_table (engine ctx) t sql) (\<lambda>_. return_value (Some t)))
        (\<lambda>_. return_value None)) (\<lambda>_ s. stack s = stk)" for t sql
    using assms
    by (auto simp: yields_def catch_sqlite_def and_then_def return_value_def create_probe_result_table_def
        execute_def probes_never_abort_def split: run_result.splits)
  show ?thesis
    unfolding statement_write_probe_table_def
    by (intro yields_and_then [OF yields_silent_stack [OF silent_probe_helpers(1)]])
      (auto intro!: yields_return yields_and_then [OF yields_silent_stack [OF silent_temp_probe_name]] create
        split: option.split)
qed

lemma yields_start_statement:
  assumes "probes_never_abort (engine ctx)"
  shows "yields (scanning name stk) (start_statement ctx t b item)
    (\<lambda>r s. case r of None \<Rightarrow> scanning name stk s | Some _ \<Rightarrow> scan_failed name stk s)"
  unfolding start_statement_def Let_def
proof (rule yields_and_then [where Q = "\<lambda>_. scanning name stk"])
  show "yields (scanning name stk)
      (if is_update_statement (ls_metadata (snd item)) \<or> is_delete_statement (ls_metadata (snd item))
       then and_then (required_target (snd item)) (\<lambda>target_name.
            and_then (on_connection (statement_write_probe_table ctx (snd item) True)) (\<lambda>temp_table.
              case temp_table of
                None \<Rightarrow> return_value ()
              | Some name \<Rightarrow> update_object (record_probe_table target_name (fst item) name)))
       else return_value ()) (\<lambda>_. scanning name stk)"
    by (intro yields_if yields_and_then [where Q = "\<lambda>_. scanning name stk"]
        yields_scanning [OF yields_write_probe_table [OF assms]] yields_return)
      (auto simp: yields_def required_target_def raise_exn_def return_value_def update_object_def
        scanning_def record_probe_table_def split: option.splits)
next
  show "yields (scanning name stk)
      (on_connection (execute_statement_on_control ctx (branch_scope b) (''control '' @ transaction_label t) True (snd item)))
      (\<lambda>r s. case r of None \<Rightarrow> scanning name stk s | Some _ \<Rightarrow> scan_failed name stk s)"
    using yieldsD [OF yields_on_control]
    by (fastforce simp: yields_def on_connection_def scanning_def scan_failed_def split: prod.splits option.splits)
qed

lemma yields_exec_start:
  assumes "probes_never_abort (engine ctx)"
  shows "yields (\<lambda>s. stack (fst s) = stk \<and> content (fst s) = db) (exec_start ctx)
    (\<lambda>r s. \<exists>name. if has_conflict r then scan_failed name ((name, db) # stk) s else scanning name ((name, db) # stk) s)"
  unfolding exec_start_def
proof (rule yields_and_then [where Q = "\<lambda>name s. stack (fst s) = (name, db) # stk"])
  show "yields (\<lambda>s. stack (fst s) = stk \<and> content (fst s) = db)
      (on_connection (open_savepoint (engine ctx) ''sqlite_merge_remaining_scan_''))
      (\<lambda>name s. stack (fst s) = (name, db) # stk)"
    by (auto simp: yields_def on_connection_def open_savepoint_run)
next
  fix name
  let ?S = "scanning name ((name, db) # stk)"
  have set_name: "yields (\<lambda>s. stack (fst s) = (name, db) # stk)
      (update_object (\<lambda>scanner. scanner\<lparr>es_savepoint := Some name\<rparr>)) (\<lambda>_. ?S)"
    by (auto simp: yields_def update_object_def scanning_def)
  have set_tables: "yields ?S (update_object (\<lambda>scanner. scanner\<lparr>es_write_probe_tables := Some []\<rparr>)) (\<lambda>_. ?S)"
    by (auto simp: yields_def update_object_def scanning_def)
  have loop: "yields ?S (start_control_with_current_write_probes ctx)
      (\<lambda>r s. case r of None \<Rightarrow> ?S s | Some _ \<Rightarrow> scan_failed name ((name, db) # stk) s)"
    unfolding start_control_with_current_write_probes_def
    by (intro yields_and_then [OF set_tables] yields_and_then [OF yields_the_object [where Q = "\<lambda>_. ?S"]]
        yields_for_until yields_start_statement [OF assms])
  show "yields (\<lambda>s. stack (fst s) = (name, db) # stk)
      (and_then (update_object (\<lambda>scanner. scanner\<lparr>es_savepoint := Some name\<rparr>)) (\<lambda>_.
       and_then (start_control_with_current_write_probes ctx) (\<lambda>failure.
         return_value (case failure of None \<Rightarrow> check_result_of [] | Some f \<Rightarrow> failure_result f))))
      (\<lambda>r s. \<exists>name. if has_conflict r then scan_failed name ((name, db) # stk) s
                     else scanning name ((name, db) # stk) s)"
    by (rule yields_and_then [OF set_name], rule yields_and_then [OF loop], rule yields_return)
      (auto simp: check_result_of_def has_conflict_def [of "[]"] split: option.splits)
qed

text \<open>The states of a scan between its start and its close.\<close>

inductive scan_reachable ::
    "'db merge_context \<Rightarrow> 'db replay_state \<Rightarrow> bool \<Rightarrow> 'db replay_state \<times> exec_scanner \<Rightarrow> bool"
  for ctx c where
  started: "exec_start ctx (c, new_exec_scanner t b kinds) = (Inr r, s) \<Longrightarrow>
    scan_reachable ctx c (has_conflict r) s"
| checked: "scan_reachable ctx c False s \<Longrightarrow> check_next ctx ours theirs static_result s = (Inr r, s') \<Longrightarrow>
    scan_reachable ctx c False s'"
| accepted: "scan_reachable ctx c False s \<Longrightarrow> accept_next ctx other result s = (Inr r, s') \<Longrightarrow>
    scan_reachable ctx c False s'"
| enabled: "scan_reachable ctx c failed (d, scanner) \<Longrightarrow>
    scan_reachable ctx c failed (d, enable_exec_kinds kinds scanner)"

lemma scan_invariant:
  assumes "commits_no_change (engine ctx)" "probes_never_abort (engine ctx)" "scan_reachable ctx c failed s"
  shows "\<exists>name. if failed then scan_failed name ((name, content c) # stack c) s
    else scanning name ((name, content c) # stack c) s"
  using assms(3)
proof induction
  case (started t b kinds r s)
  from yieldsD [OF yields_exec_start [OF assms(2), of "stack c" "content c"] _ started]
  show ?case by simp
next
  case (checked s ours theirs static_result r s')
  then obtain name where "scanning name ((name, content c) # stack c) s" by auto
  then show ?case
    using yieldsD [OF yields_check_next [OF assms(1)] _ checked.hyps(2), of "(name, content c) # stack c" "content (fst s)" "snd s"]
    by (auto simp: scanning_def at_def step_done_def stack_at_def)
next
  case (accepted s other result r s')
  then obtain name where "scanning name ((name, content c) # stack c) s" by auto
  then show ?case
    using yieldsD [OF yields_accept_next [OF assms(1)] _ accepted.hyps(2), of "(name, content c) # stack c" "content (fst s)" "snd s"]
    by (auto simp: scanning_def at_def step_done_def stack_at_def)
next
  case (enabled failed d scanner kinds)
  then show ?case by (auto simp: scanning_def scan_failed_def enable_exec_kinds_def split: if_splits)
qed

lemma exec_close_restores:
  assumes "commits_no_change (engine ctx)" "es_savepoint (snd s) = Some name"
    and "stack (fst s) = [] \<or> stack (fst s) = (name, db) # stk"
    and "exec_close ctx s = (r, (c', scanner))"
  shows "r = Inr () \<and> content c' = db \<and> stack c' = stk \<and> es_savepoint scanner = None \<or>
    stack (fst s) = [] \<and> isl r \<and> stack c' = []"
proof (cases "stack (fst s) = []")
  case True
  then show ?thesis
    using assms(2,4) rollback_savepoint_lost [OF True, of "engine ctx" name]
    by (auto simp: exec_close_def and_then_def the_object_def on_connection_def)
next
  case False
  then show ?thesis
    using assms(2-4) rollback_savepoint_top [OF _ assms(1), of "fst s" name db stk]
    by (auto simp: exec_close_def and_then_def the_object_def on_connection_def update_object_def)
qed

text \<open>
  C6. A scan is isolated: from any state a scan can reach, through probes, accepted conflicts
  and reported conflicts, closing it gives back the content and the savepoints the connection
  had before the scan; only when SQLite rolled the transaction back while the current
  transaction was replayed, which start reports as a conflict, does closing raise instead.
\<close>

theorem scan_isolated:
  assumes "commits_no_change (engine ctx)" and "probes_never_abort (engine ctx)"
    and "scan_reachable ctx c failed s" and "exec_close ctx s = (r, (c', scanner))"
  shows "r = Inr () \<and> content c' = content c \<and> stack c' = stack c \<and> es_savepoint scanner = None \<or>
    failed \<and> isl r \<and> stack c' = []"
proof -
  obtain name where "if failed then scan_failed name ((name, content c) # stack c) s
      else scanning name ((name, content c) # stack c) s"
    using scan_invariant [OF assms(1-3)] by blast
  then have "es_savepoint (snd s) = Some name"
    and "stack (fst s) = [] \<and> failed \<or> stack (fst s) = (name, content c) # stack c"
    by (auto simp: scanning_def scan_failed_def split: if_splits)
  then show ?thesis using exec_close_restores [OF assms(1) _ _ assms(4), of name "content c" "stack c"] by auto
qed

definition demo_scan_start :: "(exn + check_result) \<times> string list replay_state \<times> exec_scanner" where
  "demo_scan_start = exec_start demo_merge_context
     (replay_start [''x''], new_exec_scanner (demo_transaction_of [''a'']) Ours {})"

definition demo_scan :: "(exn + check_result) \<times> string list replay_state \<times> exec_scanner" where
  "demo_scan = accept_next demo_merge_context (demo_transaction_of [''b'']) [] (snd demo_scan_start)"

theorem scan_isolated_witness:
  "content (fst (snd demo_scan)) = [''x'', ''control a'', ''control b'', ''b''] \<and>
   content (fst (snd (exec_close demo_merge_context (snd demo_scan)))) = [''x'']"
proof -
  have "fst demo_scan_start = Inr []" by code_simp
  then have "demo_scan_start = (Inr [], snd demo_scan_start)" by (simp add: prod_eq_iff)
  from scan_reachable.started [OF this [unfolded demo_scan_start_def]]
  have "scan_reachable demo_merge_context (replay_start [''x'']) False (snd demo_scan_start)"
    by (simp add: has_conflict_def demo_scan_start_def)
  moreover have "fst demo_scan = Inr []" by code_simp
  then have "demo_scan = (Inr [], snd demo_scan)" by (simp add: prod_eq_iff)
  ultimately have reach: "scan_reachable demo_merge_context (replay_start [''x'']) False (snd demo_scan)"
    using scan_reachable.accepted unfolding demo_scan_def by blast
  have quiet: "probes_never_abort (engine demo_merge_context)"
    by (simp add: probes_never_abort_def demo_merge_context_def demo_sqlite_def)
  let ?closed = "exec_close demo_merge_context (snd demo_scan)"
  have "content (fst (snd ?closed)) = content (replay_start [''x''])"
    using scan_isolated [OF demo_merge_context_ok(1) quiet reach, of "fst ?closed" "fst (snd ?closed)" "snd (snd ?closed)"]
    by simp
  moreover have "content (fst (snd demo_scan)) = [''x'', ''control a'', ''control b'', ''b'']" by code_simp
  ultimately show ?thesis by (simp add: replay_start_def)
qed

end
