(* ===== verification/Conflict_Detection_Props.thy ===== *)
theory Conflict_Detection_Props
  imports Conflict_Detection Remaining_Execution_Props
begin

text \<open>
  What a scan means: it moves forward only, never reports an accepted conflict again, and when
  it reports nothing more it has replayed exactly the rest of the opposite queue, in order, on
  the control copy and on main.
\<close>

section \<open>The cache stays coherent\<close>

named_theorems tidying
  \<open>actions that keep the cache of control SQL coherent\<close>

definition keeps :: "('s \<Rightarrow> bool) \<Rightarrow> ('s, 'a) action \<Rightarrow> bool" where
  "keeps I m \<longleftrightarrow> (\<forall>s r s'. I s \<longrightarrow> m s = (r, s') \<longrightarrow> I s')"

abbreviation tidy :: "'db merge_context \<Rightarrow> ('db replay_state, 'a) action \<Rightarrow> bool" where
  "tidy ctx \<equiv> keeps (cache_coherent ctx)"

abbreviation object_tidy :: "'db merge_context \<Rightarrow> ('db, 'o, 'a) object_action \<Rightarrow> bool" where
  "object_tidy ctx \<equiv> keeps (\<lambda>s. cache_coherent ctx (fst s))"

lemma keepsD: "keeps I m \<Longrightarrow> m s = (r, s') \<Longrightarrow> I s \<Longrightarrow> I s'"
  unfolding keeps_def by blast

lemma tidyI:
  "(\<And>s r s'. m s = (r, s') \<Longrightarrow> control_sql_cache s' = control_sql_cache s) \<Longrightarrow> tidy ctx m"
  unfolding keeps_def using cache_coherent_same by metis

lemma tidy_basic [tidying]:
  "tidy ctx (fetch_one eng sql)"
  "tidy ctx (fetch_column_count eng sql)" "tidy ctx (uuid4 eng)" "tidy ctx (from_result q)"
  "tidy ctx (execute eng sql)" "tidy ctx (rollback_to name)" "tidy ctx (release eng name)"
  "tidy ctx (open_savepoint eng prefix)" "tidy ctx (affected_primary_key_select ctx' metadata)"
  "tidy ctx (cache_read_probe_result ctx' metadata probe)"
  by (rule tidyI; auto simp: return_value_def raise_exn_def fetch_one_def fetch_column_count_def uuid4_def
      from_result_def execute_def rollback_to_def release_def open_savepoint_run
      affected_primary_key_select_def cache_read_probe_result_def Let_def
      split: sum.splits run_result.splits list.splits option.splits if_splits)+

lemma keeps_basic [tidying]: "keeps I (return_value x)" "keeps I (raise_exn e)"
  by (simp_all add: keeps_def return_value_def raise_exn_def)

lemma keeps_and_then [tidying]:
  assumes "keeps I m" "\<And>x. keeps I (f x)"
  shows "keeps I (and_then m f)"
  unfolding keeps_def
proof (intro allI impI)
  fix s r s' assume I: "I s" and run: "and_then m f s = (r, s')"
  obtain r1 s1 where m: "m s = (r1, s1)" by fastforce
  show "I s'"
    using keepsD [OF assms(1) m I] run m by (cases r1) (auto simp: and_then_def dest: keepsD [OF assms(2)])
qed

lemma keeps_catch [tidying]:
  assumes "keeps I m" "\<And>e. keeps I (h e)"
  shows "keeps I (catch_sqlite m h)"
  unfolding keeps_def
proof (intro allI impI)
  fix s r s' assume I: "I s" and run: "catch_sqlite m h s = (r, s')"
  obtain r1 s1 where m: "m s = (r1, s1)" by fastforce
  show "I s'"
    using keepsD [OF assms(1) m I] run m
    by (auto simp: catch_sqlite_def dest: keepsD [OF assms(2)] split: sum.splits exn.splits)
qed

lemma keeps_finally [tidying]:
  assumes "keeps I m" "keeps I f"
  shows "keeps I (finally_do m f)"
  unfolding keeps_def
proof (intro allI impI)
  fix s r s' assume I: "I s" and run: "finally_do m f s = (r, s')"
  obtain r1 s1 where m: "m s = (r1, s1)" by fastforce
  obtain r2 s2 where f: "f s1 = (r2, s2)" by fastforce
  show "I s'"
    using keepsD [OF assms(1) m I] keepsD [OF assms(2) f] run m f
    by (auto simp: finally_do_def split: sum.splits)
qed

lemma keeps_on_exception [tidying]:
  assumes "keeps I m" "keeps I h"
  shows "keeps I (on_exception m h)"
  unfolding keeps_def
proof (intro allI impI)
  fix s r s' assume I: "I s" and run: "on_exception m h s = (r, s')"
  obtain r1 s1 where m: "m s = (r1, s1)" by fastforce
  show "I s'"
    using keepsD [OF assms(1) m I] run m
    by (auto simp: on_exception_def dest: keepsD [OF assms(2)] split: sum.splits prod.splits)
qed

lemma keeps_for_until [tidying]: "(\<And>x. keeps I (body x)) \<Longrightarrow> keeps I (for_until body xs)"
  by (induction xs) (auto intro!: tidying split: option.splits)

lemma keeps_cases [tidying]:
  "keeps I m \<Longrightarrow> keeps I n \<Longrightarrow> keeps I (if b then m else n)"
  "keeps I m \<Longrightarrow> (\<And>x. keeps I (f x)) \<Longrightarrow> keeps I (case opt of None \<Rightarrow> m | Some x \<Rightarrow> f x)"
  "keeps I (g t) \<Longrightarrow> keeps I (Let t g)"
  "(\<And>a b. keeps I (h a b)) \<Longrightarrow> keeps I (case p of (a, b) \<Rightarrow> h a b)"
  "keeps I m \<Longrightarrow> keeps I n \<Longrightarrow> keeps I (case b of True \<Rightarrow> m | False \<Rightarrow> n)"
  by (simp_all split: option.splits prod.splits bool.splits)

lemma keeps_reader_step [tidying]:
  "keeps I m \<Longrightarrow> keeps I n \<Longrightarrow>
     keeps I (case step of Reader_Stops result \<Rightarrow> return_value result | Reader_Affected \<Rightarrow> m | Reader_Unaffected \<Rightarrow> n)"
  by (simp add: keeps_basic split: reader_step.splits)

lemma keeps_status [tidying]:
  "keeps I m \<Longrightarrow> keeps I n \<Longrightarrow> keeps I k \<Longrightarrow>
     keeps I (case st of Affected \<Rightarrow> m | Unaffected \<Rightarrow> n | Probe_Not_Refined \<Rightarrow> k)"
  by (cases st) simp_all

lemma tidy_discarded [tidying]: "(\<And>name. tidy ctx (m name)) \<Longrightarrow> tidy ctx (discarded eng prefix m)"
  unfolding discarded_def rollback_savepoint_def by (intro tidying)

lemma tidy_control_sql_for [tidying]: "tidy ctx (control_sql_for ctx sql)"
  unfolding keeps_def by (metis control_sql_for_coherent prod.inject)

lemma tidy_foreign_key_check [tidying]: "tidy ctx (foreign_key_check_error eng schema)"
  unfolding foreign_key_check_error_def by (intro tidying)

lemma tidy_execute_sql [tidying]: "tidy ctx (execute_sql_for_replay eng st sql scope l fk check)"
  unfolding execute_sql_for_replay_def by (intro tidying)

lemma tidy_on_main [tidying]: "tidy ctx (execute_statement_on_main ctx scope l check st)"
  unfolding execute_statement_on_main_def by (intro tidying)

lemma tidy_on_control [tidying]: "tidy ctx (execute_statement_on_control ctx scope l check st)"
  unfolding execute_statement_on_control_def by (intro tidying)

lemma tidy_strict_failure [tidying]:
  "tidy ctx (strict_constraint_resolution_failure ctx t st)"
  unfolding strict_constraint_resolution_failure_def savepoint_statement_failure_def by (intro tidying)

lemma tidy_probe_tables [tidying]:
  "tidy ctx (temp_probe_result_table_name eng)" "tidy ctx (create_probe_result_table eng t sql)"
  "tidy ctx (drop_temp_table eng t)" "tidy ctx (temp_table_intersects_probe eng t sql)"
  "tidy ctx (temp_tables_intersect eng t u)" "tidy ctx (temp_tables_differ eng t u)"
  "tidy ctx (required_target st)" "tidy ctx (list_item xs i)"
  unfolding temp_probe_result_table_name_def create_probe_result_table_def drop_temp_table_def
    temp_table_intersects_probe_def temp_tables_intersect_def temp_tables_differ_def required_target_def
    list_item_def
  by (intro tidying)+

lemma tidy_write_probe_sql [tidying]:
  "tidy ctx (statement_write_probe_sql ctx st control)"
  unfolding statement_write_probe_sql_def by (intro tidying)

lemma tidy_compare_candidate_pair [tidying]:
  "tidy ctx (compare_candidate_pair ctx' b tables ours theirs probe other pair)"
  unfolding compare_candidate_pair_def
  by (intro tidying)

lemma tidy_find_write_write_overlap [tidying]:
  "tidy ctx (find_write_write_overlap ctx b tables ours theirs pairs)"
  unfolding find_write_write_overlap_def overlap_of_other_statement_def compare_other_statement_def
    Let_def
  by (intro tidying)

lemma tidy_read_probe_result [tidying]: "tidy ctx (read_probe_result ctx' metadata)"
proof -
  have "tidy ctx (build_read_probe ctx' metadata)"
    unfolding build_read_probe_def insert_probe_select_def insert_select_probe_select_def select_output_count_def
    by (auto simp: Let_def intro!: tidying split: expression_class.splits option.splits insert_source.splits)
  then have "tidy ctx (and_then (build_read_probe ctx' metadata) (cache_read_probe_result ctx' metadata))"
    by (intro tidying)
  then show ?thesis by (auto simp: keeps_def read_probe_result_def split: option.splits)
qed

lemma tidy_duplicate_target_rows [tidying]: "tidy ctx (duplicate_target_rows ctx' metadata p q)"
  unfolding duplicate_target_rows_def probe_has_duplicate_target_rows_def Let_def by (intro tidying)

lemma tidy_compare_reader_tables [tidying]: "tidy ctx (compare_reader_tables eng p q)"
  unfolding compare_reader_tables_def by (intro tidying)

lemma tidy_probe_reader_statement [tidying]: "tidy ctx (probe_reader_statement ctx st)"
  unfolding probe_reader_statement_def by (intro tidying)

lemma tidy_rolling_reader_loop [tidying]:
  "tidy ctx (rolling_reader_loop ctx l indexes affected items)"
proof (induction items arbitrary: affected)
  case Nil
  show ?case by (simp add: tidying)
next
  case (Cons item items)
  show ?case by (cases item) (simp only: rolling_reader_loop.simps, intro tidying Cons)
qed

lemma tidy_rolling_dependency [tidying]:
  "tidy ctx (rolling_write_read_dependency ctx w r)"
  unfolding rolling_write_read_dependency_def Let_def by (intro tidying)

section \<open>On the scanner objects\<close>

lemma keeps_on_connection [tidying]: "tidy ctx m \<Longrightarrow> object_tidy ctx (on_connection m)"
  by (auto simp: keeps_def on_connection_def split: prod.splits)

lemma keeps_object [tidying]: "object_tidy ctx the_object" "object_tidy ctx (update_object f)"
  by (auto simp: keeps_def the_object_def update_object_def)

lemma keeps_on_scanner [tidying]: "object_tidy ctx m \<Longrightarrow> object_tidy ctx (on_scanner m)"
  by (auto simp: keeps_def on_scanner_def split: prod.splits)

lemma tidy_advance [tidying]:
  "tidy ctx (advance_transaction_on_main_and_control ctx t u l scope check)"
  unfolding advance_transaction_on_main_and_control_def advance_statement_def
    transaction_foreign_key_failures_def last_statement_failure_def
  by (intro tidying)

lemma tidy_rollback [tidying]: "tidy ctx (rollback_savepoint eng name)"
  unfolding rollback_savepoint_def by (intro tidying)

lemma object_tidy_checks [tidying]:
  "object_tidy ctx (check_write_write ctx ours theirs result)"
  "object_tidy ctx (check_write_read ctx other result)"
  unfolding check_write_write_def check_write_read_def
  by (intro tidying | assumption)+

lemma object_tidy_check_next [tidying]:
  "object_tidy ctx (check_next ctx ours theirs result)"
  "object_tidy ctx (accept_next ctx other result)"
  unfolding check_next_def accept_next_def guarded_by_savepoint_def roll_back_with_def
  by (intro tidying | assumption)+

section \<open>What a scan has replayed\<close>

definition replays :: "'db merge_context \<Rightarrow> (string \<times> 'db) list \<Rightarrow> 'db set \<Rightarrow> 'db replay_state \<Rightarrow> bool" where
  "replays ctx stk expected s \<longleftrightarrow> stack s = stk \<and> cache_coherent ctx s \<and> content s \<in> expected"

lemma replays_weaken: "replays ctx stk e s \<Longrightarrow> e \<subseteq> e' \<Longrightarrow> replays ctx stk e' s"
  by (auto simp: replays_def)

lemma yields_replays_from:
  assumes "\<And>db. db \<in> e \<Longrightarrow> yields (replays ctx stk {db}) m Q"
  shows "yields (replays ctx stk e) m Q"
  using assms unfolding yields_def replays_def by (metis singletonI)

lemma yields_keeps: "yields P m Q \<Longrightarrow> keeps I m \<Longrightarrow> yields (\<lambda>s. P s \<and> I s) m (\<lambda>r s. Q r s \<and> I s)"
  unfolding yields_def keeps_def by blast

lemma yields_replay_statement:
  assumes "commits_no_change (engine ctx)"
  shows "yields (replays ctx stk {db}) (advance_statement ctx t u l scope check st)
    (\<lambda>r s. r = None \<longrightarrow> replays ctx stk (statement_result ctx st db) s)"
  unfolding yields_def
proof (intro allI impI)
  fix s r s'
  assume pre: "replays ctx stk {db} s" and run: "advance_statement ctx t u l scope check st s = (Inr r, s')"
    and none: "r = None"
  let ?strict = "if check then strict_constraint_resolution_failure ctx t st else return_value None"
  obtain strict s1 where strict: "?strict s = (Inr strict, s1)"
    using run by (fastforce simp: advance_statement_def and_then_def split: sum.splits prod.splits)
  have "probing ?strict" "tidy ctx ?strict"
    using probing_strict_failure [OF assms(1)]
    by (auto intro: tidying framing simp: probing_def return_value_def)
  with strict pre have s1: "content s1 = db" "stack s1 = stk" "cache_coherent ctx s1"
    by (auto simp: replays_def dest: probingD keepsD)
  obtain s2 r2 text_used where c: "execute_statement_on_control ctx scope l False st s1 = (Inr r2, s2)"
      "cache_coherent ctx s2" "text_used \<in> control_texts ctx st"
      "r2 = None \<longrightarrow> stack s2 = stack s1 \<and>
        Option.bind text_used (\<lambda>c. run_ok (engine ctx) c (content s1)) = Some (content s2)"
    using on_control_run [OF s1(3)] by blast
  obtain s3 r3 where m: "execute_sql_for_replay (engine ctx) st (statement_sql_text st) scope l None False s2 = (Inr r3, s3)"
      "r3 = None \<longrightarrow> run_ok (engine ctx) (statement_sql_text st) (content s2) = Some (content s3) \<and> stack s3 = stack s2"
      "control_sql_cache s3 = control_sql_cache s2"
    using execute_sql_run by blast
  have "r2 = None \<and> r3 = None \<and> s' = s3"
    using run strict c(1) m(1) none
    by (cases r2; cases r3)
      (auto simp: advance_statement_def and_then_def return_value_def execute_statement_on_main_def)
  then have "statement_step ctx text_used st db = Some (content s')" "stack s' = stk" "cache_coherent ctx s'"
    using c m s1 cache_coherent_same [OF m(3), of ctx]
    by (cases text_used; simp add: statement_step_def)+
  then show "replays ctx stk (statement_result ctx st db) s'"
    using c(3) by (auto simp: replays_def statement_result_def)
qed

lemma yields_replay_statements:
  assumes "commits_no_change (engine ctx)"
  shows "yields (replays ctx stk {db}) (for_until (advance_statement ctx t u l scope check) sts)
    (\<lambda>r s. r = None \<longrightarrow> replays ctx stk (statements_result ctx sts db) s)"
proof (induction sts arbitrary: db)
  case Nil
  show ?case by (simp add: yields_def return_value_def)
next
  case (Cons st sts)
  show ?case
    unfolding for_until.simps
  proof (rule yields_and_then [OF yields_replay_statement [OF assms]])
    fix r
    show "yields (\<lambda>s. r = None \<longrightarrow> replays ctx stk (statement_result ctx st db) s)
        (case r of Some a \<Rightarrow> return_value (Some a) | None \<Rightarrow> for_until (advance_statement ctx t u l scope check) sts)
        (\<lambda>r s. r = None \<longrightarrow> replays ctx stk (statements_result ctx (st # sts) db) s)"
    proof (cases r)
      case (Some a)
      then show ?thesis by (simp add: yields_def return_value_def)
    next
      case None
      have "yields (replays ctx stk (statement_result ctx st db)) (for_until (advance_statement ctx t u l scope check) sts)
          (\<lambda>r s. r = None \<longrightarrow> replays ctx stk (statements_result ctx (st # sts) db) s)"
        by (rule yields_replays_from, rule yields_weaken [OF Cons.IH]) (auto elim: replays_weaken)
      then show ?thesis using None by simp
    qed
  qed
qed

lemma foreign_key_failures_same:
  "transaction_foreign_key_failures ctx t scope l s = (r, s') \<Longrightarrow> s' = s"
  by (auto simp: transaction_foreign_key_failures_def and_then_def last_statement_failure_def return_value_def
      raise_exn_def dest!: foreign_key_check_run split: sum.splits prod.splits option.splits if_splits)

lemma yields_replay_transaction:
  assumes "commits_no_change (engine ctx)"
  shows "yields (replays ctx stk {db}) (advance_transaction_on_main_and_control ctx t u l scope check)
    (\<lambda>r s. \<not> has_conflict r \<longrightarrow> replays ctx stk (statements_result ctx (lt_statements u) db) s)"
  unfolding yields_def
proof (intro allI impI)
  fix s r s'
  assume pre: "replays ctx stk {db} s" "\<not> has_conflict r"
    and run: "advance_transaction_on_main_and_control ctx t u l scope check s = (Inr r, s')"
  obtain r1 s1 where loop: "for_until (advance_statement ctx t u l scope check) (lt_statements u) s = (Inr r1, s1)"
    using run by (fastforce simp: advance_transaction_on_main_and_control_def and_then_def split: sum.splits prod.splits)
  have "stack s = stk" using pre by (simp add: replays_def)
  from yieldsD [OF yields_for_until [OF yields_advance_statement [OF assms(1)]], OF this loop]
  have "has_conflict result" if "r1 = Some result" for result using that by simp
  then have "r1 = None"
    using run loop pre(2)
    by (cases r1) (auto simp: advance_transaction_on_main_and_control_def and_then_def return_value_def)
  then have "s' = s1"
    using run loop
    by (auto simp: advance_transaction_on_main_and_control_def and_then_def return_value_def
        dest: foreign_key_failures_same split: sum.splits prod.splits)
  with yieldsD [OF yields_replay_statements [OF assms] pre(1) loop] \<open>r1 = None\<close>
  show "replays ctx stk (statements_result ctx (lt_statements u) db) s'" by simp
qed

subsection \<open>One opposite transaction\<close>

definition replays_at ::
    "'db merge_context \<Rightarrow> (string \<times> 'db) list \<Rightarrow> 'db set \<Rightarrow> 'o \<Rightarrow> 'db replay_state \<times> 'o \<Rightarrow> bool" where
  "replays_at ctx stk expected obj s \<longleftrightarrow> replays ctx stk expected (fst s) \<and> snd s = obj"

lemma replays_at_iff:
  "replays_at ctx stk {db} obj s \<longleftrightarrow> at db stk obj s \<and> cache_coherent ctx (fst s)"
  by (auto simp: replays_at_def replays_def at_def)

lemma yields_replays_at:
  "yields (at db stk obj) m (\<lambda>_. at db stk obj) \<Longrightarrow> object_tidy ctx m \<Longrightarrow>
     yields (replays_at ctx stk {db} obj) m (\<lambda>_. replays_at ctx stk {db} obj)"
  unfolding replays_at_iff by (rule yields_keeps)

lemma yields_roll_back_conflict:
  "has_conflict x \<Longrightarrow> yields P (roll_back_with eng name x) (\<lambda>r s. \<not> has_conflict r \<longrightarrow> Q s)"
  by (auto simp: yields_def roll_back_with_def and_then_def return_value_def split: sum.splits prod.splits)

lemma yields_advance_keeps_rest:
  assumes "commits_no_change (engine ctx)" "stk \<noteq> []"
    and "\<And>r. has_conflict r \<Longrightarrow> has_conflict (f r)"
  shows "yields (replays_at ctx ((name, db') # stk) {db} obj)
    (and_then (on_connection (advance_transaction_on_main_and_control ctx t u l scope check))
       (\<lambda>advance_result.
          if has_conflict advance_result then roll_back_with (engine ctx) name (f advance_result)
          else and_then (on_connection (release (engine ctx) name)) (\<lambda>_. return_value result)))
    (\<lambda>r s. \<not> has_conflict r \<longrightarrow> replays_at ctx stk (statements_result ctx (lt_statements u) db) obj s)"
proof (rule yields_and_then [where Q = "\<lambda>r s. \<not> has_conflict r \<longrightarrow>
      replays_at ctx ((name, db') # stk) (statements_result ctx (lt_statements u) db) obj s"])
  show "yields (replays_at ctx ((name, db') # stk) {db} obj)
      (on_connection (advance_transaction_on_main_and_control ctx t u l scope check))
      (\<lambda>r s. \<not> has_conflict r \<longrightarrow>
        replays_at ctx ((name, db') # stk) (statements_result ctx (lt_statements u) db) obj s)"
    using yieldsD [OF yields_replay_transaction [OF assms(1)]]
    by (fastforce simp: yields_def on_connection_def replays_at_def split: prod.splits)
next
  fix r
  have released: "yields (replays_at ctx ((name, db') # stk) e obj)
      (and_then (on_connection (release (engine ctx) name)) (\<lambda>_. return_value result))
      (\<lambda>_. replays_at ctx stk e obj)" for e
    using assms(2)
    by (auto simp: yields_def and_then_def on_connection_def release_def from_savepoint_def return_value_def
        replays_at_def replays_def cache_coherent_def)
  show "yields (\<lambda>s. \<not> has_conflict r \<longrightarrow>
        replays_at ctx ((name, db') # stk) (statements_result ctx (lt_statements u) db) obj s)
      (if has_conflict r then roll_back_with (engine ctx) name (f r)
       else and_then (on_connection (release (engine ctx) name)) (\<lambda>_. return_value result))
      (\<lambda>r s. \<not> has_conflict r \<longrightarrow> replays_at ctx stk (statements_result ctx (lt_statements u) db) obj s)"
    using yields_weaken [OF released] yields_roll_back_conflict [OF assms(3)]
    by (auto intro: yields_if)
qed

lemma yields_guarded_replay:
  assumes "\<And>name. yields (replays_at ctx ((name, db) # stk) {db} obj) (body name) Q"
  shows "yields (replays_at ctx stk {db} obj) (guarded_by_savepoint eng prefix body) Q"
  unfolding guarded_by_savepoint_def
proof (rule yields_and_then [where Q = "\<lambda>name. replays_at ctx ((name, db) # stk) {db} obj"])
  show "yields (replays_at ctx stk {db} obj) (on_connection (open_savepoint eng prefix))
      (\<lambda>name. replays_at ctx ((name, db) # stk) {db} obj)"
    unfolding replays_at_iff by (intro yields_keeps yields_open_savepoint tidying)
qed (rule yields_on_exception [OF assms])

lemma has_kind_conflict: "has_kind result kind \<Longrightarrow> has_conflict result"
  by (auto simp: has_kind_def has_conflict_def)

lemma yields_check_next_replays:
  assumes "commits_no_change (engine ctx)" "stk \<noteq> []"
    and other: "other = (if es_current_branch obj = Ours then theirs else ours)"
  shows "yields (replays_at ctx stk {db} obj) (check_next ctx ours theirs static_result)
    (\<lambda>r s. \<not> has_conflict r \<longrightarrow> replays_at ctx stk (statements_result ctx (lt_statements other) db) obj s)"
  unfolding check_next_def Let_def
proof (rule yields_and_then [OF yields_the_object
      [where Q = "\<lambda>scanner s. scanner = obj \<and> replays_at ctx stk {db} obj s"]], goal_cases)
  case (1 s)
  then show ?case by (simp add: replays_at_def)
next
  case (2 scanner)
  show ?case
  proof (cases "scanner = obj")
    case False
    then show ?thesis by (simp add: yields_def)
  next
    case True
    let ?Q = "\<lambda>r s. \<not> has_conflict r \<longrightarrow> replays_at ctx stk (statements_result ctx (lt_statements other) db) obj s"
    let ?enabled = "kind_enabled (Some (es_enabled_kinds obj))"
    let ?label = "order_label_before (es_current_transaction obj) other"
    have advance: "yields (replays_at ctx ((name, db) # stk) {db} obj)
        (and_then (on_connection (advance_transaction_on_main_and_control ctx (es_current_transaction obj) other
            ?label Pair_Scope (?enabled Integrity)))
          (\<lambda>advance_result.
             if has_conflict advance_result then roll_back_with (engine ctx) name advance_result
             else and_then (on_connection (release (engine ctx) name)) (\<lambda>_. return_value result2))) ?Q" for name result2
      by (rule yields_advance_keeps_rest [OF assms(1,2)])
    have from_read: "yields (replays_at ctx ((name, db) # stk) {db} obj)
        (and_then
           (if ?enabled Write_Read then check_write_read ctx other result1 else return_value result1)
           (\<lambda>result2.
         if ?enabled Write_Read \<and> has_kind result2 Write_Read then roll_back_with (engine ctx) name result2
         else if has_conflict result2 then roll_back_with (engine ctx) name result2
         else
         and_then
           (on_connection (advance_transaction_on_main_and_control ctx (es_current_transaction obj) other
              ?label Pair_Scope (?enabled Integrity)))
           (\<lambda>advance_result.
         if has_conflict advance_result then roll_back_with (engine ctx) name advance_result
         else and_then (on_connection (release (engine ctx) name)) (\<lambda>_. return_value result2)))) ?Q" for name result1
      by (rule yields_and_then [where Q = "\<lambda>_. replays_at ctx ((name, db) # stk) {db} obj"];
        intro yields_if yields_replays_at yields_check_write_read [OF assms(1)] yields_return tidying
          yields_roll_back_conflict advance; (auto dest: has_kind_conflict)?)
    show ?thesis
      unfolding True other [symmetric]
      apply (rule yields_weaken [where P = "replays_at ctx stk {db} obj" and Q = ?Q])
        apply (rule yields_guarded_replay)
      subgoal for name
        by (rule yields_and_then [where Q = "\<lambda>_. replays_at ctx ((name, db) # stk) {db} obj"];
          intro yields_if yields_replays_at yields_check_write_write [OF assms(1)] yields_return tidying
            yields_roll_back_conflict from_read; (auto dest: has_kind_conflict)?)
      by auto
  qed
qed

lemma has_conflict_append [simp]: "has_conflict (append_conflict r c)"
  by (auto simp: has_conflict_def append_conflict_def dest: arg_cong [where f = length])

lemma has_conflict_add: "has_conflict r \<Longrightarrow> has_conflict (add_conflicts r cs)"
  by (induction cs arbitrary: r) (simp_all add: add_conflicts_def)

lemma yields_accept_next_replays:
  assumes "commits_no_change (engine ctx)" "stk \<noteq> []" "has_conflict result"
  shows "yields (replays_at ctx stk {db} obj) (accept_next ctx other result)
    (\<lambda>r s. \<not> has_conflict r \<longrightarrow> replays_at ctx stk (statements_result ctx (lt_statements other) db) obj s)"
  unfolding accept_next_def Let_def
proof (rule yields_and_then [OF yields_the_object
      [where Q = "\<lambda>scanner s. scanner = obj \<and> replays_at ctx stk {db} obj s"]], goal_cases)
  case (1 s)
  then show ?case by (simp add: replays_at_def)
next
  case (2 scanner)
  have grows: "has_conflict (add_conflicts result (conflicts r))" for r
    using has_conflict_add [OF assms(3)] .
  show ?case
    by (rule yields_weaken [where P = "replays_at ctx stk {db} obj"],
        rule yields_guarded_replay, rule yields_advance_keeps_rest [OF assms(1,2)])
      (auto simp: grows)
qed

subsection \<open>The check at one position\<close>

text \<open>The two scanners of a scan are built for the same branch.\<close>

definition branch_agrees :: "conflict_scanner \<Rightarrow> bool" where
  "branch_agrees scanner \<longleftrightarrow> es_current_branch (cs_scanner scanner) = cs_current_branch scanner"

lemma check_other_replays:
  assumes "commits_no_change (engine ctx)" "stk \<noteq> []"
    and "branch_agrees (snd s)" "replays ctx stk {db} (fst s)" "check_other ctx other s = (Inr found, s')"
  shows "replays ctx stk (if found = None then statements_result ctx (lt_statements other) db else {db}) (fst s') \<and>
    branch_agrees (snd s')"
proof -
  obtain c scanner where s: "s = (c, scanner)" by fastforce
  let ?e = "cs_scanner scanner"
  let ?pair = "branch_pair (cs_current_branch scanner) (cs_current_transaction scanner) other"
  obtain r1 c1 e1 where check: "check_pair ctx scanner other (c, ?e) = (r1, (c1, e1))" by (metis prod.exhaust)
  have pre: "replays_at ctx stk {db} ?e (c, ?e)" using assms(4) s by (simp add: replays_at_def)
  have other: "other = (if es_current_branch ?e = Ours then snd ?pair else fst ?pair)"
    using assms(3) s by (auto simp: branch_agrees_def branch_pair_def)
  obtain result where r1: "r1 = Inr result"
    using assms(5) s check
    by (cases r1) (auto simp: check_other_def and_then_def the_object_def on_scanner_def)
  from check r1 have run: "check_next ctx (fst ?pair) (snd ?pair) (static_result_for ctx scanner other) (c, ?e) = (Inr result, (c1, e1))"
    by (simp add: check_pair_def split: prod.splits)
  show ?thesis
  proof (cases "has_conflict result")
    case False
    with yieldsD [OF yields_check_next_replays [OF assms(1,2) other] pre run]
    have "replays_at ctx stk (statements_result ctx (lt_statements other) db) ?e (c1, e1)" by simp
    then show ?thesis
      using assms(3,5) s check r1 False
      by (auto simp: check_other_def and_then_def the_object_def on_scanner_def return_value_def
          replays_at_def branch_agrees_def)
  next
    case True
    have same: "at db stk ?e (c1, e1)"
      using yieldsD [OF yields_check_next [OF assms(1,2)] _ run, of db ?e] pre True
      by (auto simp: replays_at_iff step_done_def stack_at_def at_def)
    have "cache_coherent ctx c1"
      using keepsD [OF object_tidy_check_next(1) run] pre by (simp add: replays_at_iff)
    with same have pre': "replays_at ctx stk {db} ?e (c1, e1)" by (simp add: replays_at_iff)
    show ?thesis
    proof (cases "pair_key scanner other result \<in> cs_accepted_pair_keys scanner")
      case False
      then show ?thesis
        using assms(3,5) s check r1 True pre'
        by (auto simp: check_other_def and_then_def the_object_def on_scanner_def return_value_def Let_def
            replays_at_def branch_agrees_def)
    next
      case accepted: True
      obtain r2 c2 e2 where acc: "accept_next ctx other result (c1, e1) = (r2, (c2, e2))" by (metis prod.exhaust)
      then obtain a where a: "r2 = Inr a" "s' = (c2, scanner\<lparr>cs_scanner := e2\<rparr>)" "(found = None) = (\<not> has_conflict a)"
        using assms(5) s check r1 True accepted
        by (cases r2) (auto simp: check_other_def and_then_def the_object_def on_scanner_def return_value_def Let_def
            split: if_splits)
      note acc = acc [unfolded a(1)]
      have "cache_coherent ctx c2"
        using keepsD [OF object_tidy_check_next(2) acc] pre' by (simp add: replays_at_iff)
      then have "e2 = ?e \<and> (has_conflict a \<longrightarrow> replays ctx stk {db} c2)"
        using yieldsD [OF yields_accept_next [OF assms(1,2)] _ acc, of db ?e] pre'
        by (auto simp: replays_at_iff step_done_def stack_at_def replays_def)
      moreover have "\<not> has_conflict a \<longrightarrow> replays ctx stk (statements_result ctx (lt_statements other) db) c2"
        using yieldsD [OF yields_accept_next_replays [OF assms(1,2) True] pre' acc] by (simp add: replays_at_def)
      ultimately show ?thesis using a(2,3) assms(3) s by (simp add: branch_agrees_def)
    qed
  qed
qed

definition statements_of :: "logged_transaction list \<Rightarrow> logged_statement list" where
  "statements_of ts = concat (map lt_statements ts)"

subsection \<open>The start of a scan\<close>

text \<open>
  The contents a scan can start from: each statement of the current transaction, an update or a
  delete after an attempt to keep its probe in a temporary table, has run on the control copy.
\<close>

definition probe_left :: "'db sqlite \<Rightarrow> statement_metadata \<Rightarrow> 'db \<Rightarrow> 'db \<Rightarrow> bool" where
  "probe_left eng metadata db db' \<longleftrightarrow> db' = db \<or>
     (is_update_statement metadata \<or> is_delete_statement metadata) \<and>
     (\<exists>name probe e. run_statement eng (''CREATE TEMP TABLE '' @ quote_identifier name @ '' AS SELECT * FROM (''
        @ probe @ '')'') db \<in> {Ran db', Failed e db'})"

definition start_result :: "'db merge_context \<Rightarrow> logged_statement \<Rightarrow> 'db \<Rightarrow> 'db set" where
  "start_result ctx statement db =
     {db''. \<exists>db' c. probe_left (engine ctx) (ls_metadata statement) db db' \<and> c \<in> control_texts ctx statement \<and>
        Option.bind c (\<lambda>sql. run_ok (engine ctx) sql db') = Some db''}"

fun start_results :: "'db merge_context \<Rightarrow> logged_statement list \<Rightarrow> 'db \<Rightarrow> 'db set" where
  "start_results ctx [] db = {db}"
| "start_results ctx (st # sts) db = \<Union> (start_results ctx sts ` start_result ctx st db)"

lemma tidy_statement_write_probe_table [tidying]: "tidy ctx (statement_write_probe_table ctx st control)"
  unfolding statement_write_probe_table_def by (intro tidying | assumption)+

lemma object_tidy_start_statement: "object_tidy ctx (start_statement ctx t b item)"
  unfolding start_statement_def required_target_def Let_def by (intro tidying | assumption)+

lemma object_tidy_exec_start: "object_tidy ctx (exec_start ctx)"
  unfolding exec_start_def start_control_with_current_write_probes_def
  by (intro tidying object_tidy_start_statement | assumption)+

lemma object_tidyD: "object_tidy ctx m \<Longrightarrow> m s = (r, s') \<Longrightarrow> cache_coherent ctx (fst s) \<Longrightarrow> cache_coherent ctx (fst s')"
  unfolding keeps_def by blast

lemma on_control_ran:
  assumes "cache_coherent ctx s" "execute_statement_on_control ctx scope l check st s = (Inr None, s')"
  shows "\<exists>c \<in> control_texts ctx st. Option.bind c (\<lambda>sql. run_ok (engine ctx) sql (content s)) = Some (content s')"
proof -
  obtain c s1 where s1: "control_sql_for ctx (Statement_Sql st) s = (Inr c, s1)" "c \<in> control_texts ctx st"
      "content s1 = content s"
    using control_sql_for_coherent [OF assms(1)] by metis
  obtain sql where sql: "c = Some sql"
      "execute_sql_for_replay (engine ctx) st sql scope l (control_schema ctx) check s1 = (Inr None, s')"
    using assms(2) s1(1)
    by (auto simp: execute_statement_on_control_def and_then_def return_value_def clean_control_failure_def
        split: option.splits sum.splits prod.splits)
  have "run_ok (engine ctx) sql (content s1) = Some (content s')"
    using sql(2)
    by (auto simp: execute_sql_for_replay_def and_then_def catch_sqlite_def execute_def return_value_def run_ok_def
        dest!: foreign_key_check_run split: run_result.splits sum.splits prod.splits if_splits)
  then show ?thesis using s1 sql(1) by (intro bexI [of _ c]) simp_all
qed

lemma write_probe_table_left:
  assumes "probes_never_abort (engine ctx)" "is_update_statement metadata \<or> is_delete_statement metadata"
    and "statement_write_probe_table ctx st control s = (r, s')"
  shows "probe_left (engine ctx) metadata (content s) (content s')"
proof -
  obtain r1 s1 where probe: "statement_write_probe_sql ctx st control s = (r1, s1)" by fastforce
  have "content s1 = content s" using silentD [OF silent_probe_helpers(1) probe] by simp
  then show ?thesis
    using assms probe
    by (auto simp: statement_write_probe_table_def and_then_def return_value_def catch_sqlite_def
        temp_probe_result_table_name_def uuid4_def create_probe_result_table_def execute_def probe_left_def
        probes_never_abort_def split: sum.splits option.splits run_result.splits)
qed

lemma start_statement_result:
  assumes "probes_never_abort (engine ctx)" "cache_coherent ctx (fst s)"
    and "start_statement ctx t b item s = (Inr None, s')"
  shows "content (fst s') \<in> start_result ctx (snd item) (content (fst s))"
proof -
  let ?m = "ls_metadata (snd item)"
  let ?probe = "if is_update_statement ?m \<or> is_delete_statement ?m
         then and_then (required_target (snd item)) (\<lambda>target_name.
              and_then (on_connection (statement_write_probe_table ctx (snd item) True)) (\<lambda>temp_table.
                case temp_table of
                  None \<Rightarrow> return_value ()
                | Some name \<Rightarrow> update_object (record_probe_table target_name (fst item) name)))
         else return_value ()"
  obtain s1 where one: "?probe s = (Inr (), s1)"
      "on_connection (execute_statement_on_control ctx (branch_scope b) (''control '' @ transaction_label t) True (snd item)) s1
        = (Inr None, s')"
    using assms(3) by (auto simp: start_statement_def Let_def and_then_def split: sum.splits prod.splits)
  have "object_tidy ctx ?probe" unfolding required_target_def by (intro tidying | assumption)+
  from object_tidyD [OF this one(1) assms(2)] have coherent: "cache_coherent ctx (fst s1)" .
  have left: "probe_left (engine ctx) ?m (content (fst s)) (content (fst s1))"
  proof (cases "is_update_statement ?m \<or> is_delete_statement ?m")
    case True
    then obtain r1 where "statement_write_probe_table ctx (snd item) True (fst s) = (r1, fst s1)"
      using one(1)
      by (auto simp: and_then_def required_target_def raise_exn_def return_value_def on_connection_def
          update_object_def split: if_splits option.splits sum.splits prod.splits)
    from write_probe_table_left [OF assms(1) True this] show ?thesis .
  next
    case False
    then show ?thesis using one(1) by (simp add: probe_left_def return_value_def)
  qed
  obtain c1 where "execute_statement_on_control ctx (branch_scope b) (''control '' @ transaction_label t) True (snd item)
      (fst s1) = (Inr None, c1)" "fst s' = c1"
    using one(2) by (auto simp: on_connection_def split: prod.splits)
  with on_control_ran [OF coherent] left show ?thesis by (fastforce simp: start_result_def)
qed

lemma start_statements_result:
  assumes "probes_never_abort (engine ctx)" "cache_coherent ctx (fst s)"
    and "for_until (start_statement ctx t b) (enumerate n sts) s = (Inr None, s')"
  shows "content (fst s') \<in> start_results ctx sts (content (fst s))"
  using assms(2,3)
proof (induction sts arbitrary: n s)
  case Nil
  then show ?case by (simp add: return_value_def)
next
  case (Cons st sts)
  obtain r s1 where one: "start_statement ctx t b (n, st) s = (r, s1)" by (metis prod.exhaust)
  then have r: "r = Inr None" and rest: "for_until (start_statement ctx t b) (enumerate (Suc n) sts) s1 = (Inr None, s')"
    using Cons.prems(2) by (auto simp: and_then_def return_value_def split: sum.splits option.splits)
  note one = one [unfolded r]
  have "cache_coherent ctx (fst s1)" using object_tidyD [OF object_tidy_start_statement one] Cons.prems(1) by simp
  from Cons.IH [OF this rest] start_statement_result [OF assms(1) Cons.prems(1) one]
  show ?case by auto
qed

lemma exec_start_result:
  assumes "probes_never_abort (engine ctx)" "cache_coherent ctx c"
    and "exec_start ctx (c, scanner) = (Inr r, s')" "\<not> has_conflict r"
  shows "\<exists>name. replays ctx ((name, content c) # stack c)
      (start_results ctx (lt_statements (es_current_transaction scanner)) (content c)) (fst s')"
proof -
  obtain name where stk: "stack (fst s') = (name, content c) # stack c"
    using yieldsD [OF yields_exec_start [OF assms(1)] _ assms(3), of "stack c" "content c"] assms(4)
    by (auto simp: scanning_def)
  obtain hex c1 where open_sp: "open_savepoint (engine ctx) ''sqlite_merge_remaining_scan_'' c = (Inr hex, c1)"
      "content c1 = content c" "cache_coherent ctx c1"
    using assms(2) by (auto simp: open_savepoint_run cache_coherent_def)
  have "for_until (start_statement ctx (es_current_transaction scanner) (es_current_branch scanner))
      (enumerate 0 (lt_statements (es_current_transaction scanner)))
      (c1, scanner\<lparr>es_savepoint := Some hex, es_write_probe_tables := Some []\<rparr>) = (Inr None, s')"
    using assms(3,4) open_sp(1)
    by (auto simp: exec_start_def and_then_def on_connection_def update_object_def the_object_def
        start_control_with_current_write_probes_def return_value_def split: sum.splits prod.splits option.splits)
  from start_statements_result [OF assms(1) _ this] open_sp(2,3)
  have "content (fst s') \<in> start_results ctx (lt_statements (es_current_transaction scanner)) (content c)" by simp
  moreover have "cache_coherent ctx (fst s')" using object_tidyD [OF object_tidy_exec_start assms(3)] assms(2) by simp
  ultimately show ?thesis using stk by (auto simp: replays_def)
qed

lemma scan_loop_index:
  "scan_loop ctx others s = (r, s') \<Longrightarrow>
     cs_next_other_index (snd s) \<le> cs_next_other_index (snd s') \<and>
     (\<forall>found. r = Inr (Some found) \<longrightarrow>
        fst found = Some (cs_next_other_index (snd s')) \<and> cs_next_other_index (snd s') < length others \<and>
        has_conflict (fst (snd found)))"
proof (induction ctx others s rule: scan_loop.induct)
  case (1 ctx others s)
  let ?i = "cs_next_other_index (snd s)"
  show ?case
  proof (cases "?i < length others")
    case False
    then show ?thesis using 1(2) by (auto simp: scan_loop.simps [of ctx others s])
  next
    case True
    obtain r1 s1 where check: "check_other ctx (others ! ?i) s = (r1, s1)" by (metis prod.exhaust)
    have i: "cs_next_other_index (snd s1) = ?i" by (rule check_other_index [OF check])
    show ?thesis
    proof (cases "r1 = Inr None")
      case none: True
      then have "scan_loop ctx others (fst s1, next_index (snd s1)) = (r, s')"
        using 1(2) True check by (simp add: scan_loop.simps [of ctx others s])
      from "1.IH" [OF _ check [unfolded none, symmetric] _ _ this] True i show ?thesis
        by (auto simp: next_index_def)
    next
      case False
      then have "s' = s1" "r = r1"
        using 1(2) True check by (auto simp: scan_loop.simps [of ctx others s] split: sum.splits option.splits)
      moreover have "fst found = Some ?i \<and> has_conflict (fst (snd found))" if "r1 = Inr (Some found)" for found
        using check that
        by (auto simp: check_other_def and_then_def the_object_def Let_def return_value_def
            dest!: on_scanner_index split: sum.splits prod.splits if_splits)
      ultimately show ?thesis using i True by simp
    qed
  qed
qed

lemma next_conflict_started:
  "cs_started (snd s) \<Longrightarrow> next_conflict ctx others s = scan_loop ctx others s"
  by (simp add: next_conflict_def and_then_def the_object_def return_value_def check_result_of_def has_conflict_def)

lemma next_conflict_index:
  assumes "next_conflict ctx others s = (Inr (Some (Some i, result, key)), s')"
  shows "cs_next_other_index (snd s) \<le> i \<and> i < length others \<and> cs_next_other_index (snd s') = i \<and> has_conflict result"
proof -
  obtain s1 where loop: "scan_loop ctx others s1 = (Inr (Some (Some i, result, key)), s')"
    and same: "cs_next_other_index (snd s1) = cs_next_other_index (snd s)"
  proof (cases "cs_started (snd s)")
    case True
    then show ?thesis using that assms next_conflict_started by metis
  next
    case False
    obtain r s2 where start: "on_scanner (exec_start ctx) (fst s, (snd s)\<lparr>cs_started := True\<rparr>) = (r, s2)"
      by (metis prod.exhaust)
    then have "scan_loop ctx others s2 = (Inr (Some (Some i, result, key)), s')"
      using assms False
      by (cases r) (auto simp: next_conflict_def and_then_def the_object_def return_value_def update_object_def
          split: if_splits)
    moreover have "cs_next_other_index (snd s2) = cs_next_other_index (snd s)"
      using on_scanner_index [OF start] by simp
    ultimately show ?thesis by (rule that)
  qed
  show ?thesis using scan_loop_index [OF loop] same by simp
qed

subsection \<open>The loop over the opposite queue\<close>

text \<open>The transactions before the position of the scanner have been replayed, and nothing else.\<close>

definition scan_stands ::
    "'db merge_context \<Rightarrow> (string \<times> 'db) list \<Rightarrow> 'db set \<Rightarrow> logged_transaction list \<Rightarrow>
     'db replay_state \<times> conflict_scanner \<Rightarrow> bool" where
  "scan_stands ctx stk starts others s \<longleftrightarrow>
     branch_agrees (snd s) \<and> cs_next_other_index (snd s) \<le> length others \<and>
     replays ctx stk (\<Union> (statements_result ctx (statements_of (take (cs_next_other_index (snd s)) others)) ` starts))
       (fst s)"

lemma scan_stands_here:
  "scan_stands ctx stk starts others s \<Longrightarrow> replays ctx stk {content (fst s)} (fst s)"
  by (simp add: scan_stands_def replays_def)

lemma scan_stands_stays:
  assumes "scan_stands ctx stk starts others s" "replays ctx stk {content (fst s)} (fst s')" "branch_agrees (snd s')"
    and "cs_next_other_index (snd s') = cs_next_other_index (snd s)"
  shows "scan_stands ctx stk starts others s'"
  using assms by (simp add: scan_stands_def replays_def)

lemma scan_stands_next:
  assumes "scan_stands ctx stk starts others s" "branch_agrees (snd s1)"
    and "cs_next_other_index (snd s1) = cs_next_other_index (snd s)" "cs_next_other_index (snd s) < length others"
    and "replays ctx stk (statements_result ctx (lt_statements (others ! cs_next_other_index (snd s))) (content (fst s))) (fst s1)"
  shows "scan_stands ctx stk starts others (fst s1, next_index (snd s1))"
proof -
  let ?i = "cs_next_other_index (snd s)"
  have "statements_of (take (Suc ?i) others) = statements_of (take ?i others) @ lt_statements (others ! ?i)"
    using assms(4) by (simp add: take_Suc_conv_app_nth statements_of_def)
  then show ?thesis
    using assms
    by (auto simp: scan_stands_def replays_def next_index_def branch_agrees_def statements_result_append)
qed

lemma check_other_started: "check_other ctx other s = (r, s') \<Longrightarrow> cs_started (snd s') = cs_started (snd s)"
  by (auto simp: check_other_def and_then_def the_object_def Let_def return_value_def
      dest!: on_scanner_index split: sum.splits prod.splits if_splits)

lemma scan_loop_stands:
  "scan_loop ctx others s = (Inr r, s') \<Longrightarrow> commits_no_change (engine ctx) \<Longrightarrow> stk \<noteq> [] \<Longrightarrow>
     scan_stands ctx stk starts others s \<Longrightarrow>
     scan_stands ctx stk starts others s' \<and> cs_started (snd s') = cs_started (snd s) \<and>
     (r = None \<longrightarrow> cs_next_other_index (snd s') = length others)"
proof (induction ctx others s rule: scan_loop.induct)
  case (1 ctx others s)
  let ?i = "cs_next_other_index (snd s)"
  show ?case
  proof (cases "?i < length others")
    case False
    then show ?thesis using 1(2,5) by (auto simp: scan_loop.simps [of ctx others s] scan_stands_def)
  next
    case True
    obtain r1 s1 where check: "check_other ctx (others ! ?i) s = (Inr r1, s1)"
      using 1(2) True by (auto simp: scan_loop.simps [of ctx others s] split: sum.splits prod.splits)
    have agrees: "branch_agrees (snd s)" using 1(5) by (simp add: scan_stands_def)
    note one = check_other_replays [OF 1(3,4) agrees scan_stands_here [OF 1(5)] check]
    show ?thesis
    proof (cases r1)
      case None
      let ?s2 = "(fst s1, next_index (snd s1))"
      have "scan_stands ctx stk starts others ?s2"
        using scan_stands_next [OF 1(5) _ check_other_index [OF check] True] one None by simp
      moreover have "scan_loop ctx others ?s2 = (Inr r, s')"
        using 1(2) True check None by (simp add: scan_loop.simps [of ctx others s])
      ultimately show ?thesis
        using "1.IH" [OF _ check [unfolded None, symmetric]] True 1(3,4) check_other_started [OF check]
        by (simp add: next_index_def)
    next
      case (Some found)
      then have "s' = s1" "r = Some found"
        using 1(2) True check by (auto simp: scan_loop.simps [of ctx others s])
      then show ?thesis
        using scan_stands_stays [OF 1(5) _ _ check_other_index [OF check]] one Some check_other_started [OF check]
        by simp
    qed
  qed
qed

lemma accept_current_stands:
  assumes "commits_no_change (engine ctx)" "stk \<noteq> []" "scan_stands ctx stk starts others s"
    and "has_conflict result" and run: "accept_current_conflict ctx others i result key s = (Inr followup, s')"
  shows "scan_stands ctx stk starts others s' \<and> cs_started (snd s') = cs_started (snd s) \<and>
    (case followup of None \<Rightarrow> cs_next_other_index (snd s') = Suc i
     | Some found \<Rightarrow> fst found = Some i \<and> has_conflict (fst (snd found)) \<and> cs_next_other_index (snd s') = i) \<and>
    i = cs_next_other_index (snd s) \<and> i < length others"
proof -
  let ?s1 = "(fst s, accept_resolution_key key (snd s))"
  have i: "i = cs_next_other_index (snd s)"
    using run by (auto simp: accept_current_conflict_def and_then_def the_object_def raise_exn_def split: if_splits)
  have item: "i < length others"
    using run i
    by (auto simp: accept_current_conflict_def and_then_def the_object_def update_object_def list_item_def
        raise_exn_def split: if_splits)
  have keyed: "cs_scanner (accept_resolution_key key (snd s)) = cs_scanner (snd s)"
    "cs_current_branch (accept_resolution_key key (snd s)) = cs_current_branch (snd s)"
    "cs_next_other_index (accept_resolution_key key (snd s)) = cs_next_other_index (snd s)"
    "cs_started (accept_resolution_key key (snd s)) = cs_started (snd s)"
    by (simp_all add: accept_resolution_key_def split: option.splits)
  obtain c2 e2 a where acc: "accept_next ctx (others ! i) result (fst s, cs_scanner (snd s)) = (Inr a, (c2, e2))"
      and s': "s' = (if has_conflict a then (c2, (accept_resolution_key key (snd s))\<lparr>cs_scanner := e2\<rparr>)
        else (c2, next_index ((accept_resolution_key key (snd s))\<lparr>cs_scanner := e2\<rparr>)))"
      and followup: "followup = (if has_conflict a then Some (Some i, a, key) else None)"
    using run i item keyed
    by (auto simp: accept_current_conflict_def and_then_def the_object_def update_object_def list_item_def
        return_value_def on_scanner_def split: if_splits sum.splits prod.splits)
  let ?s2 = "(c2, (accept_resolution_key key (snd s))\<lparr>cs_scanner := e2\<rparr>)"
  let ?db = "content (fst s)"
  have pre: "replays_at ctx stk {?db} (cs_scanner (snd s)) (fst s, cs_scanner (snd s))"
    using scan_stands_here [OF assms(3)] by (simp add: replays_at_def)
  have cache: "cache_coherent ctx c2"
    using object_tidyD [OF object_tidy_check_next(2) acc] pre by (simp add: replays_at_iff)
  have here: "has_conflict a \<Longrightarrow> replays ctx stk {?db} c2"
    using yieldsD [OF yields_accept_next [OF assms(1,2)] _ acc, of ?db "cs_scanner (snd s)"] pre cache
    by (auto simp: replays_at_iff step_done_def stack_at_def replays_def)
  have same: "es_current_branch e2 = es_current_branch (cs_scanner (snd s))"
    using yieldsD [OF yields_accept_next [OF assms(1,2)] _ acc, of ?db "cs_scanner (snd s)"] pre
    by (auto simp: replays_at_iff step_done_def stack_at_def)
  have agrees: "branch_agrees (snd ?s2)"
    using assms(3) same keyed by (simp add: scan_stands_def branch_agrees_def)
  have moved: "\<not> has_conflict a \<Longrightarrow> replays ctx stk (statements_result ctx (lt_statements (others ! i)) ?db) c2"
    using yieldsD [OF yields_accept_next_replays [OF assms(1,2,4)] pre acc] by (simp add: replays_at_def)
  show ?thesis
  proof (cases "has_conflict a")
    case True
    then show ?thesis
      using scan_stands_stays [OF assms(3), of ?s2] here agrees keyed s' followup i item by simp
  next
    case False
    then show ?thesis
      using scan_stands_next [OF assms(3), of ?s2] moved agrees keyed s' followup i item
      by (simp add: next_index_def)
  qed
qed

section \<open>A whole scan\<close>

text \<open>
  The states of a scan of \<open>current\<close> started on the connection \<open>c\<close>, as a turn drives it: the list holds
  the positions of the opposite transactions whose conflict was accepted, then comes the conflict
  waiting for an answer. An accepted conflict may be followed by another one at its position; instead
  of accepting, the user may edit or delete what is not replayed yet, and the scan asks again.
\<close>

inductive scan_of ::
    "'db merge_context \<Rightarrow> 'db replay_state \<Rightarrow> logged_transaction \<Rightarrow> branch \<Rightarrow> logged_transaction list \<Rightarrow> nat list \<Rightarrow>
     conflict_found option \<Rightarrow> 'db replay_state \<times> conflict_scanner \<Rightarrow> bool" for ctx c current b where
  fresh: "scan_of ctx c current b others [] None (c, new_conflict_scanner current b kinds keys)"
| reported: "scan_of ctx c current b others passed None s \<Longrightarrow>
    next_conflict ctx others s = (Inr (Some (Some i, result, key)), s') \<Longrightarrow>
    scan_of ctx c current b others passed (Some (Some i, result, key)) s'"
| let_through: "scan_of ctx c current b others passed (Some (Some i, result, key)) s \<Longrightarrow>
    accept_current_conflict ctx others i result key s = (Inr None, s') \<Longrightarrow>
    scan_of ctx c current b others (passed @ [i]) None s'"
| followed_up: "scan_of ctx c current b others passed (Some (Some i, result, key)) s \<Longrightarrow>
    accept_current_conflict ctx others i result key s = (Inr (Some found), s') \<Longrightarrow>
    scan_of ctx c current b others passed (Some found) s'"
| changed: "scan_of ctx c current b others passed (Some found) s \<Longrightarrow>
    cs_next_other_index (snd s) \<le> length others' \<Longrightarrow>
    take (cs_next_other_index (snd s)) others' = take (cs_next_other_index (snd s)) others \<Longrightarrow>
    scan_of ctx c current b others' passed None (fst s, enable_scan_kinds kinds (snd s))"

definition scan_fresh ::
    "'db replay_state \<Rightarrow> logged_transaction \<Rightarrow> 'db replay_state \<times> conflict_scanner \<Rightarrow> bool" where
  "scan_fresh c current s \<longleftrightarrow> fst s = c \<and> \<not> cs_started (snd s) \<and> cs_next_other_index (snd s) = 0 \<and>
     branch_agrees (snd s) \<and> es_current_transaction (cs_scanner (snd s)) = current"

abbreviation scan_stands_from ::
    "'db merge_context \<Rightarrow> 'db replay_state \<Rightarrow> logged_transaction \<Rightarrow> logged_transaction list \<Rightarrow>
     'db replay_state \<times> conflict_scanner \<Rightarrow> bool" where
  "scan_stands_from ctx c current others s \<equiv> cs_started (snd s) \<and> (\<exists>name. scan_stands ctx ((name, content c) # stack c)
     (start_results ctx (lt_statements current) (content c)) others s)"

lemma keeps_branch:
  "keeps (\<lambda>s. es_current_branch (snd s) = b) (on_connection m)"
  "(\<And>scanner. es_current_branch (f scanner) = es_current_branch scanner) \<Longrightarrow>
     keeps (\<lambda>s. es_current_branch (snd s) = b) (update_object f)"
  "keeps (\<lambda>s. es_current_branch (snd s) = b) the_object"
  by (auto simp: keeps_def on_connection_def update_object_def the_object_def split: prod.splits)

lemma exec_start_branch:
  assumes "exec_start ctx s = (r, s')"
  shows "es_current_branch (snd s') = es_current_branch (snd s)"
proof -
  have "keeps (\<lambda>s. es_current_branch (snd s) = b) (exec_start ctx)" for b
    unfolding exec_start_def start_control_with_current_write_probes_def start_statement_def required_target_def Let_def
    by (intro tidying keeps_branch) (simp_all add: record_probe_table_def)
  from keepsD [OF this assms] show ?thesis by simp
qed

lemma next_conflict_stands:
  assumes "commits_no_change (engine ctx)" "probes_never_abort (engine ctx)" "cache_coherent ctx c"
    and "scan_fresh c current s \<or> scan_stands_from ctx c current others s"
    and "next_conflict ctx others s = (Inr r, s')" "\<forall>found. r = Some found \<longrightarrow> fst found \<noteq> None"
  shows "scan_stands_from ctx c current others s' \<and> (r = None \<longrightarrow> cs_next_other_index (snd s') = length others)"
proof -
  obtain s1 where "scan_stands_from ctx c current others s1" "scan_loop ctx others s1 = (Inr r, s')"
  proof (cases "cs_started (snd s)")
    case True
    then show thesis using that [of s] assms(4,5) next_conflict_started [OF True] by (simp add: scan_fresh_def)
  next
    case False
    then have fresh: "scan_fresh c current s" using assms(4) by simp
    let ?scanner = "(snd s)\<lparr>cs_started := True\<rparr>"
    obtain r1 c1 e1 where start: "exec_start ctx (c, cs_scanner (snd s)) = (r1, (c1, e1))" by (metis prod.exhaust)
    then obtain result where result: "r1 = Inr result" "\<not> has_conflict result"
        "scan_loop ctx others (c1, ?scanner\<lparr>cs_scanner := e1\<rparr>) = (Inr r, s')"
      using assms(5,6) False fresh
      by (cases r1) (auto simp: next_conflict_def and_then_def the_object_def return_value_def update_object_def
          on_scanner_def scan_fresh_def split: if_splits)
    note start = start [unfolded result(1)]
    obtain name where "replays ctx ((name, content c) # stack c)
        (start_results ctx (lt_statements current) (content c)) c1"
      using exec_start_result [OF assms(2,3) start result(2)] fresh by (auto simp: scan_fresh_def)
    moreover have "es_current_branch e1 = es_current_branch (cs_scanner (snd s))"
      using exec_start_branch [OF start] by simp
    ultimately have "scan_stands_from ctx c current others (c1, ?scanner\<lparr>cs_scanner := e1\<rparr>)"
      using fresh by (auto simp: scan_stands_def scan_fresh_def branch_agrees_def statements_of_def)
    then show thesis using that result(3) by blast
  qed
  then show ?thesis using scan_loop_stands [OF _ assms(1)] by blast
qed

lemma scan_of_invariant:
  assumes "commits_no_change (engine ctx)" "probes_never_abort (engine ctx)" "cache_coherent ctx c"
    and "scan_of ctx c current b others passed pending s"
  shows "(if pending = None then scan_fresh c current s \<or> scan_stands_from ctx c current others s
      else scan_stands_from ctx c current others s \<and> (\<exists>found. pending = Some found \<and> fst found = Some (cs_next_other_index (snd s)) \<and>
          has_conflict (fst (snd found))) \<and>
        cs_next_other_index (snd s) < length others) \<and>
    sorted_wrt (<) passed \<and> set passed \<subseteq> {..<cs_next_other_index (snd s)}"
  using assms(4)
proof induction
  case (fresh others kinds keys)
  then show ?case
    by (simp add: scan_fresh_def new_conflict_scanner_def branch_agrees_def new_exec_scanner_def)
next
  case (reported others passed s i result key s')
  then have "scan_stands_from ctx c current others s'"
    using next_conflict_stands [OF assms(1-3) _ reported.hyps(2)] by auto
  then show ?case using reported next_conflict_index [OF reported.hyps(2)] by fastforce
next
  case (let_through others passed i result key s s')
  then obtain name where "scan_stands ctx ((name, content c) # stack c)
      (start_results ctx (lt_statements current) (content c)) others s" "cs_started (snd s)" "has_conflict result" by auto
  from accept_current_stands [OF assms(1) _ this(1,3) let_through.hyps(2)] this let_through.IH
  show ?case by (fastforce simp: sorted_wrt_append)
next
  case (followed_up others passed i result key s found s')
  then obtain name where "scan_stands ctx ((name, content c) # stack c)
      (start_results ctx (lt_statements current) (content c)) others s" "cs_started (snd s)" "has_conflict result" by auto
  from accept_current_stands [OF assms(1) _ this(1,3) followed_up.hyps(2)] this followed_up.IH
  show ?case by fastforce
next
  case (changed others passed found s others' kinds)
  then show ?case
    by (auto simp: scan_stands_def enable_scan_kinds_def branch_agrees_def enable_exec_kinds_def)
qed

text \<open>
  C4. A scan that ends with no conflict left has replayed exactly the whole opposite queue as it is at
  the end, in order, each statement on the control copy and then on main, on top of what the current
  transaction did to the control copy when the scan started, and holds the one savepoint it opened:
  no probe leaves a trace and no opposite transaction is skipped or replayed twice, whether it was clean,
  had its conflict accepted in this scan or before, or was edited while the scan was waiting.
\<close>

theorem scan_replays_rest:
  assumes "commits_no_change (engine ctx)" and "probes_never_abort (engine ctx)" and "cache_coherent ctx c"
    and "scan_of ctx c current b others passed None s" and "next_conflict ctx others s = (Inr None, s')"
  shows "\<exists>started \<in> start_results ctx (lt_statements current) (content c). \<exists>name.
    content (fst s') \<in> statements_result ctx (statements_of others) started \<and>
    stack (fst s') = (name, content c) # stack c"
proof -
  have "scan_fresh c current s \<or> scan_stands_from ctx c current others s"
    using scan_of_invariant [OF assms(1-4)] by simp
  from next_conflict_stands [OF assms(1-3) this assms(5)]
  obtain name where "scan_stands ctx ((name, content c) # stack c) (start_results ctx (lt_statements current) (content c))
      others s'" "cs_next_other_index (snd s') = length others" by auto
  then show ?thesis by (auto simp: scan_stands_def replays_def)
qed

text \<open>A scan of two opposite transactions whose cascades overlap the current one; both are accepted.\<close>

definition demo_cascading :: "string \<Rightarrow> logged_transaction" where
  "demo_cascading sql =
     (demo_transaction_of [sql])\<lparr>lt_metadata := transaction_metadata
        [(unsupported_statement_metadata sql)\<lparr>updated_map := [(''t'', {''a''})], has_cascade_effects := True\<rparr>]\<rparr>"

definition demo_queue :: "logged_transaction list" where
  "demo_queue = [demo_cascading ''b'', demo_cascading ''c'']"

definition demo_connection :: "string list replay_state" where
  "demo_connection = replay_start [''x'']"

definition reported_of :: "(exn + conflict_found option) \<times> 's \<Rightarrow> conflict_found" where
  "reported_of run = (case fst run of Inr (Some found) \<Rightarrow> found | _ \<Rightarrow> (None, [], None))"

definition accept_reported ::
    "(exn + conflict_found option) \<times> string list replay_state \<times> conflict_scanner \<Rightarrow>
     (exn + conflict_found option) \<times> string list replay_state \<times> conflict_scanner" where
  "accept_reported run = (case reported_of run of
     (i, result, key) \<Rightarrow> accept_current_conflict demo_merge_context demo_queue (the i) result key (snd run))"

definition demo_first :: "(exn + conflict_found option) \<times> string list replay_state \<times> conflict_scanner" where
  "demo_first = next_conflict demo_merge_context demo_queue
     (demo_connection, new_conflict_scanner (demo_cascading ''a'') Ours {Write_Write} {})"

definition demo_second :: "(exn + conflict_found option) \<times> string list replay_state \<times> conflict_scanner" where
  "demo_second = next_conflict demo_merge_context demo_queue (snd (accept_reported demo_first))"

definition demo_last :: "(exn + conflict_found option) \<times> string list replay_state \<times> conflict_scanner" where
  "demo_last = next_conflict demo_merge_context demo_queue (snd (accept_reported demo_second))"

lemma result_is:
  "(case fst run of Inr None \<Rightarrow> True | _ \<Rightarrow> False) \<Longrightarrow> run = (Inr None, snd run)"
  "(case fst run of Inr (Some (Some _, _)) \<Rightarrow> True | _ \<Rightarrow> False) \<Longrightarrow>
     run = (Inr (Some (Some (the (fst (reported_of run))), fst (snd (reported_of run)), snd (snd (reported_of run)))), snd run)"
  by (auto simp: reported_of_def prod_eq_iff split: sum.splits option.splits prod.splits)

lemma demo_first_is: "(case fst demo_first of Inr (Some (Some _, _)) \<Rightarrow> True | _ \<Rightarrow> False)"
  by code_simp

lemma demo_accept_is: "(case fst (accept_reported demo_first) of Inr None \<Rightarrow> True | _ \<Rightarrow> False)"
  by code_simp

lemma demo_second_is: "(case fst demo_second of Inr (Some (Some _, _)) \<Rightarrow> True | _ \<Rightarrow> False)"
  by code_simp
lemma demo_accept2_is: "(case fst (accept_reported demo_second) of Inr None \<Rightarrow> True | _ \<Rightarrow> False)"
  by code_simp

lemma demo_last_is: "(case fst demo_last of Inr None \<Rightarrow> True | _ \<Rightarrow> False)"
  by code_simp

lemmas demo_scan_runs = result_is(2) [OF demo_first_is] result_is(2) [OF demo_second_is]
  result_is(1) [OF demo_accept_is] result_is(1) [OF demo_accept2_is] result_is(1) [OF demo_last_is]

abbreviation demo_scan_of ::
    "nat list \<Rightarrow> conflict_found option \<Rightarrow> string list replay_state \<times> conflict_scanner \<Rightarrow> bool" where
  "demo_scan_of \<equiv> scan_of demo_merge_context demo_connection (demo_cascading ''a'') Ours demo_queue"

lemma demo_scan_reached:
  "demo_scan_of [the (fst (reported_of demo_first))] (Some (Some (the (fst (reported_of demo_second))),
     fst (snd (reported_of demo_second)), snd (snd (reported_of demo_second)))) (snd demo_second)" (is ?second)
  "demo_scan_of [the (fst (reported_of demo_first)), the (fst (reported_of demo_second))] None
     (snd (accept_reported demo_second))" (is ?last)
proof -
  have reported: "demo_scan_of passed None s \<Longrightarrow> next_conflict demo_merge_context demo_queue s = run \<Longrightarrow>
      run = (Inr (Some (Some (the (fst (reported_of run))), fst (snd (reported_of run)), snd (snd (reported_of run)))), snd run) \<Longrightarrow>
      demo_scan_of passed (Some (Some (the (fst (reported_of run))), fst (snd (reported_of run)), snd (snd (reported_of run)))) (snd run)"
    for passed s run
    by (rule scan_of.reported) simp_all
  have accepted: "demo_scan_of passed (Some (Some (the (fst (reported_of run))), fst (snd (reported_of run)), snd (snd (reported_of run)))) (snd run) \<Longrightarrow>
      accept_reported run = (Inr None, snd (accept_reported run)) \<Longrightarrow>
      demo_scan_of (passed @ [the (fst (reported_of run))]) None (snd (accept_reported run))" for passed run
    by (erule scan_of.let_through) (simp add: accept_reported_def split: prod.splits)
  have "demo_scan_of ([] @ [the (fst (reported_of demo_first))]) None (snd (accept_reported demo_first))"
    by (rule accepted [OF reported [OF scan_of.fresh demo_first_def [symmetric] demo_scan_runs(1)] demo_scan_runs(3)])
  then show ?second
    using reported [OF _ demo_second_def [symmetric] demo_scan_runs(2)] by simp
  from accepted [OF this demo_scan_runs(4)] show ?last by simp
qed

lemma demo_probes_never_abort: "probes_never_abort (engine demo_merge_context)"
  by (simp add: probes_never_abort_def demo_merge_context_def demo_sqlite_def)

lemma demo_coherent: "cache_coherent demo_merge_context demo_connection"
  unfolding demo_connection_def by (rule demo_merge_context_ok(3))

theorem scan_replays_rest_witness:
  "content (fst (snd demo_last)) = [''x'', ''control a'', ''control b'', ''b'', ''control c'', ''c'']"
proof -
  have own: "control_texts demo_merge_context (demo_statement sql) = {Some (''control '' @ sql)}" for sql
    unfolding control_texts_identified [OF demo_merge_context_ok(2)]
    by (simp add: control_sql_of_def demo_merge_context_def demo_statement_def)
  have ran: "run_ok (engine demo_merge_context) sql db = (if sql = ''bad'' then None else Some (db @ [sql]))" for sql db
    by (simp add: demo_merge_context_def demo_sqlite_def run_ok_def)
  have statements: "lt_statements (demo_cascading sql) = [demo_statement sql]" for sql
    by (simp add: demo_cascading_def demo_transaction_of_def)
  have text_of: "statement_sql_text (demo_statement sql) = sql" for sql
    by (simp add: statement_sql_text_def demo_statement_def)
  have left: "probe_left eng (ls_metadata (demo_statement sql)) db db' \<longleftrightarrow> db' = db" for eng sql db db'
  proof -
    have "\<not> (is_update_statement (ls_metadata (demo_statement sql)) \<or> is_delete_statement (ls_metadata (demo_statement sql)))"
      by code_simp
    then show ?thesis by (simp add: probe_left_def)
  qed
  have "start_results demo_merge_context (lt_statements (demo_cascading ''a'')) (content demo_connection) =
      {[''x'', ''control a'']}"
    by (auto simp: statements start_result_def own ran left demo_connection_def replay_start_def)
  moreover have "statements_result demo_merge_context (statements_of demo_queue) [''x'', ''control a''] =
      {[''x'', ''control a'', ''control b'', ''b'', ''control c'', ''c'']}"
    by (simp add: statements_of_def demo_queue_def statements statement_result_def own ran statement_step_def
        text_of)
  ultimately show ?thesis
    using scan_replays_rest [OF demo_merge_context_ok(1) demo_probes_never_abort demo_coherent demo_scan_reached(2)
      trans [OF demo_last_def [symmetric] demo_scan_runs(5)]]
    by auto
qed

section \<open>Progress\<close>



end
