(* ===== verification/Log_Merge.thy ===== *)
theory Log_Merge
  imports Conflict_Detection Remaining_Metadata
begin

text \<open>
  From the logs of three databases to the queues of a merge, and the scan of one queue head:
  \<open>src/merge/log_merge.py\<close>. Connections are opened by the caller; a log is the rows of its two
  tables, and \<open>error_text\<close> is the text of the \<open>ParseError\<close> for a statement.
\<close>

section \<open>One logged statement\<close>

record statement_input =
  in_branch :: branch
  in_branch_index :: int
  in_transaction_id :: int
  in_committed_at :: string
  in_sql_text :: string
  in_original_sql_text :: "string option"
  in_is_replay_safe :: bool
  in_replay_block_reason :: "string option"

definition METADATA_PARSE_ERROR_REASON :: string where
  "METADATA_PARSE_ERROR_REASON = ''statement could not be parsed for merge analysis''"

definition ACKNOWLEDGEABLE_REPLAY_REASONS :: "string list" where
  "ACKNOWLEDGEABLE_REPLAY_REASONS = [''nondeterministic expression cannot be safely materialized'']"

definition UPDATE_FROM_DUPLICATE_TARGET_WARNING :: string where
  "UPDATE_FROM_DUPLICATE_TARGET_WARNING =
     ''UPDATE FROM has multiple source rows for the same target row''"

definition build_logged_statement ::
    "statement_input \<Rightarrow> string \<Rightarrow> statement_metadata \<Rightarrow> bool \<Rightarrow> string option \<Rightarrow> logged_statement" where
  "build_logged_statement inp replay_sql_text metadata safe reason =
     \<lparr>ls_branch = in_branch inp, ls_branch_index = in_branch_index inp,
      ls_transaction_id = in_transaction_id inp, ls_committed_at = in_committed_at inp,
      ls_original_sql_text = str_or (in_original_sql_text inp) (in_sql_text inp),
      to_replay_sql_text = replay_sql_text, is_replay_safe = safe, replay_block_reason = reason,
      ls_metadata = metadata, replay_warnings = [], accepted_replay_warnings = {}\<rparr>"

text \<open>
  No caller passes warnings. A \<open>ParseError\<close> makes the statement unsafe; an \<open>AssertionError\<close> of
  the metadata is not caught.
\<close>

definition make_logged_statement ::
    "(string \<Rightarrow> parsed_sql option) \<Rightarrow> (string \<Rightarrow> string) \<Rightarrow> column_map option \<Rightarrow> check_context option \<Rightarrow>
     statement_input \<Rightarrow> metadata_error + logged_statement" where
  "make_logged_statement parse error_text table_columns metadata_context inp =
     (let replay_sql_text = neutralize_rollback_conflict_resolution (in_sql_text inp);
          parsed = (case metadata_context of
            Some ctx \<Rightarrow> parse_statement_metadata_for_context parse replay_sql_text ctx
          | None \<Rightarrow> parse_statement_metadata parse replay_sql_text table_columns None)
      in case parsed of
           Inr metadata \<Rightarrow> Inr (build_logged_statement inp replay_sql_text metadata
             (in_is_replay_safe inp) (in_replay_block_reason inp))
         | Inl Parse_Failed \<Rightarrow> Inr (build_logged_statement inp replay_sql_text
             (unsupported_statement_metadata (in_sql_text inp)) False
             (Some (str_or (in_replay_block_reason inp)
               (METADATA_PARSE_ERROR_REASON @ '': '' @ error_text replay_sql_text))))
         | Inl Assertion_Failed \<Rightarrow> Inl Assertion_Failed)"

section \<open>Replay warnings\<close>

definition replay_warning_reason :: "logged_statement \<Rightarrow> string option" where
  "replay_warning_reason statement =
     (if is_replay_safe statement then None
      else case replay_block_reason statement of
        None \<Rightarrow> None
      | Some reason \<Rightarrow>
          if list_ex (\<lambda>pre. take (length pre) reason = pre) ACKNOWLEDGEABLE_REPLAY_REASONS
          then Some reason else None)"

definition pending_replay_warning :: "logged_statement \<Rightarrow> string option" where
  "pending_replay_warning statement =
     (case replay_warning_reason statement of
        None \<Rightarrow> None
      | Some warning \<Rightarrow> if warning \<in> accepted_replay_warnings statement then None else Some warning)"

definition unresolved_replay_block_reason :: "logged_statement \<Rightarrow> string option" where
  "unresolved_replay_block_reason statement =
     (if is_replay_safe statement then None
      else if (case replay_warning_reason statement of
          None \<Rightarrow> False | Some warning \<Rightarrow> warning \<in> accepted_replay_warnings statement)
      then None
      else Some (str_or (replay_block_reason statement) ''statement is unsafe for replay''))"

definition accept_replay_warning :: "logged_statement \<Rightarrow> string \<Rightarrow> logged_statement" where
  "accept_replay_warning statement warning =
     (if warning \<in> accepted_replay_warnings statement then statement
      else statement\<lparr>accepted_replay_warnings := accepted_replay_warnings statement \<union> {warning}\<rparr>)"

section \<open>Transactions\<close>

text \<open>\<open>itertools.groupby\<close> on the transaction id: runs of equal ids.\<close>

function group_by_transaction :: "logged_statement list \<Rightarrow> logged_statement list list" where
  "group_by_transaction [] = []"
| "group_by_transaction (s # ss) =
     (s # takeWhile (\<lambda>x. ls_transaction_id x = ls_transaction_id s) ss) #
     group_by_transaction (dropWhile (\<lambda>x. ls_transaction_id x = ls_transaction_id s) ss)"
  by pat_completeness auto
termination
  by (relation "measure length") (auto simp: le_imp_less_Suc length_dropWhile_le)

definition logged_transaction_of :: "logged_statement list \<Rightarrow> nat \<Rightarrow> logged_transaction" where
  "logged_transaction_of statements branch_index =
     \<lparr>lt_branch = ls_branch (hd statements), lt_branch_index = int branch_index,
      lt_transaction_id = ls_transaction_id (hd statements),
      lt_committed_at = ls_committed_at (hd statements), lt_statements = statements,
      lt_metadata = transaction_metadata (map ls_metadata statements)\<rparr>"

definition group_logged_transactions :: "logged_statement list \<Rightarrow> logged_transaction list" where
  "group_logged_transactions statements =
     map (\<lambda>(index, group). logged_transaction_of group index) (enumerate 0 (group_by_transaction statements))"

section \<open>Loading\<close>

record merge_log_row =
  mr_id :: int
  mr_transaction_id :: int
  mr_original_sql_text :: string
  mr_to_replay_sql_text :: string
  mr_is_replay_safe :: bool
  mr_replay_block_reason :: "string option"

record merge_log =
  ml_tables :: "string list"
  ml_transactions :: "(int \<times> string) list"
  ml_rows :: "merge_log_row list"

datatype load_error =
    Not_Applicable string string "string list" "string option" "string list"
  | Metadata_Error metadata_error

definition require_log_tables :: "merge_log \<Rightarrow> string \<Rightarrow> string \<Rightarrow> load_error + unit" where
  "require_log_tables log db_path role =
     (let missing_tables = filter (\<lambda>t. t \<notin> set (ml_tables log)) (rev MERGE_LOG_TABLES) in
      if missing_tables \<noteq> [] then Inl (Not_Applicable db_path role missing_tables None []) else Inr ())"

definition get_base_watermark :: "merge_log \<Rightarrow> string \<Rightarrow> load_error + int" where
  "get_base_watermark log db_path =
     result_bind (require_log_tables log db_path ''base'') (\<lambda>_.
       Inr (case map fst (ml_transactions log) of [] \<Rightarrow> 0 | t # ts \<Rightarrow> foldl max t ts))"

text \<open>The join of the two tables after the watermark, ordered by transaction and row id.\<close>

definition logged_rows_since :: "merge_log \<Rightarrow> int \<Rightarrow> (merge_log_row \<times> string) list" where
  "logged_rows_since log since_transaction_id =
     sort_key (\<lambda>(row, _). (mr_transaction_id row, mr_id row))
       (filter (\<lambda>(row, _). since_transaction_id < mr_transaction_id row)
         (concat (map (\<lambda>row. map (\<lambda>t. (row, snd t))
            (filter (\<lambda>t. fst t = mr_transaction_id row) (ml_transactions log))) (ml_rows log))))"

definition statement_input_of_row :: "branch \<Rightarrow> nat \<times> merge_log_row \<times> string \<Rightarrow> statement_input" where
  "statement_input_of_row branch item =
     (case item of (index, row, committed_at) \<Rightarrow>
        \<lparr>in_branch = branch, in_branch_index = int index, in_transaction_id = mr_transaction_id row,
         in_committed_at = committed_at, in_sql_text = mr_to_replay_sql_text row,
         in_original_sql_text = Some (mr_original_sql_text row),
         in_is_replay_safe = mr_is_replay_safe row,
         in_replay_block_reason = mr_replay_block_reason row\<rparr>)"

fun results_of :: "('e + 'a) list \<Rightarrow> 'e + 'a list" where
  "results_of [] = Inr []"
| "results_of (r # rs) = result_bind r (\<lambda>x. result_bind (results_of rs) (\<lambda>xs. Inr (x # xs)))"

definition map_error :: "('e \<Rightarrow> 'f) \<Rightarrow> 'e + 'a \<Rightarrow> 'f + 'a" where
  "map_error f r = (case r of Inl e \<Rightarrow> Inl (f e) | Inr x \<Rightarrow> Inr x)"

definition branch_role :: "branch \<Rightarrow> string" where
  "branch_role branch = (if branch = Ours then ''ours'' else ''theirs'')"

definition load_logged_statements ::
    "(string \<Rightarrow> parsed_sql option) \<Rightarrow> (string \<Rightarrow> string) \<Rightarrow> merge_log \<Rightarrow> branch \<Rightarrow> int \<Rightarrow> string \<Rightarrow>
     check_context \<Rightarrow> load_error + logged_statement list" where
  "load_logged_statements parse error_text log branch since_transaction_id db_path metadata_context =
     result_bind (require_log_tables log db_path (branch_role branch)) (\<lambda>_.
       map_error Metadata_Error (results_of
         (map (make_logged_statement parse error_text None (Some metadata_context) \<circ>
               statement_input_of_row branch)
           (enumerate 0 (logged_rows_since log since_transaction_id)))))"

definition load_logged_transactions ::
    "(string \<Rightarrow> parsed_sql option) \<Rightarrow> (string \<Rightarrow> string) \<Rightarrow> merge_log \<Rightarrow> branch \<Rightarrow> int \<Rightarrow> string \<Rightarrow>
     check_context \<Rightarrow> load_error + logged_transaction list" where
  "load_logged_transactions parse error_text log branch since_transaction_id db_path metadata_context =
     result_bind (load_logged_statements parse error_text log branch since_transaction_id db_path metadata_context)
       (\<lambda>statements. Inr (group_logged_transactions statements))"

section \<open>Validation\<close>

definition validate_database :: "'db sqlite \<Rightarrow> ('db replay_state, string list) action" where
  "validate_database eng =
     and_then (fetch_first_value eng ''PRAGMA integrity_check'') (\<lambda>integrity_row.
     and_then (fetch_all eng ''PRAGMA foreign_key_check'') (\<lambda>foreign_key_rows.
       return_value
         ((case integrity_row of
             None \<Rightarrow> []
           | Some message \<Rightarrow> if message \<noteq> ''ok'' then [''integrity_check: '' @ message] else [])
          @ map (\<lambda>row. ''foreign_key_check: '' @ row) foreign_key_rows)))"

definition require_valid_base :: "string list \<Rightarrow> string \<Rightarrow> load_error + unit" where
  "require_valid_base errors base_db_path =
     (if errors \<noteq> []
      then Inl (Not_Applicable base_db_path ''base'' [] (Some ''has pre-existing integrity errors'') errors)
      else Inr ())"

text \<open>The three databases: the catalog, the log and the validation errors of the base, two logs.\<close>

record merge_files =
  mf_base_path :: string
  mf_ours_path :: string
  mf_theirs_path :: string
  mf_base_catalog :: catalog
  mf_base_errors :: "string list"
  mf_base_log :: merge_log
  mf_ours_log :: merge_log
  mf_theirs_log :: merge_log

definition load_merge_inputs ::
    "(string \<Rightarrow> parsed_sql option) \<Rightarrow> (string \<Rightarrow> string) \<Rightarrow> merge_files \<Rightarrow>
     load_error + logged_transaction list \<times> logged_transaction list \<times> schema_cache" where
  "load_merge_inputs parse error_text files =
     (let schema_cache = load_schema_cache (mf_base_catalog files);
          metadata_context = \<lparr>ctx_catalog = mf_base_catalog files, ctx_cache = schema_cache\<rparr> in
      result_bind (get_base_watermark (mf_base_log files) (mf_base_path files)) (\<lambda>watermark.
      result_bind (require_valid_base (mf_base_errors files) (mf_base_path files)) (\<lambda>_.
      result_bind (load_logged_transactions parse error_text (mf_ours_log files) Ours watermark
          (mf_ours_path files) metadata_context) (\<lambda>ours.
      result_bind (load_logged_transactions parse error_text (mf_theirs_log files) Theirs watermark
          (mf_theirs_path files) metadata_context) (\<lambda>theirs.
        Inr (ours, theirs, schema_cache))))))"

section \<open>The scan of one queue head\<close>

record current_scan =
  sc_current :: logged_transaction
  sc_current_branch :: branch
  sc_accepted_pair_keys :: "resolution_key set"
  sc_enabled_kinds :: "conflict_kind set"
  sc_scanner :: "conflict_scanner option"

definition new_current_scan ::
    "'db merge_context \<Rightarrow> logged_transaction \<Rightarrow> branch \<Rightarrow> remaining_index \<Rightarrow> resolution_key set \<Rightarrow> current_scan"
where
  "new_current_scan ctx current branch remaining_other_index accepted =
     (let kinds = remaining_individual_check_kinds (schema_context ctx) current remaining_other_index in
      \<lparr>sc_current = current, sc_current_branch = branch, sc_accepted_pair_keys = accepted,
       sc_enabled_kinds = kinds,
       sc_scanner = (if kinds = {} then None
                     else Some (new_conflict_scanner current branch kinds accepted))\<rparr>)"

text \<open>A method of the conflict scanner, where there is one.\<close>

definition on_current_scanner ::
    "('db, conflict_scanner, 'a) object_action \<Rightarrow> ('db, current_scan, 'a) object_action \<Rightarrow>
     ('db, current_scan, 'a) object_action" where
  "on_current_scanner m absent s =
     (case sc_scanner (snd s) of
        None \<Rightarrow> absent s
      | Some scanner \<Rightarrow>
          (case m (fst s, scanner) of
             (r, (c, scanner')) \<Rightarrow> (r, (c, (snd s)\<lparr>sc_scanner := Some scanner'\<rparr>))))"

definition current_conflict_pair ::
    "logged_transaction \<Rightarrow> logged_transaction list \<Rightarrow> branch \<Rightarrow> nat option \<Rightarrow> check_result \<Rightarrow>
     resolution_key option \<Rightarrow> ('s, conflict_pair) action" where
  "current_conflict_pair current remaining_other branch other_index result key =
     and_then
       (case other_index of
          None \<Rightarrow> return_value []
        | Some i \<Rightarrow> and_then (list_item remaining_other i) (\<lambda>other. return_value (transaction_sql_text other)))
       (\<lambda>other_sql. return_value
          \<lparr>pair_current_branch = branch, pair_other_index = other_index,
           pair_ours_sql = (if branch = Ours then transaction_sql_text current else other_sql),
           pair_theirs_sql = (if branch = Theirs then transaction_sql_text current else other_sql),
           pair_conflicts = conflicts result, pair_resolution_key = key,
           pair_is_standalone = (other_index = None)\<rparr>)"

definition found_pair ::
    "logged_transaction list \<Rightarrow> conflict_found option \<Rightarrow> ('db, current_scan, conflict_pair option) object_action" where
  "found_pair remaining_other found =
     (case found of
        None \<Rightarrow> return_value None
      | Some (other_index, result, key) \<Rightarrow>
          and_then the_object (\<lambda>scan.
          and_then (current_conflict_pair (sc_current scan) remaining_other (sc_current_branch scan)
                      other_index result key)
            (\<lambda>pair. return_value (Some pair))))"

definition next_pair ::
    "'db merge_context \<Rightarrow> logged_transaction list \<Rightarrow> ('db, current_scan, conflict_pair option) object_action" where
  "next_pair ctx remaining_other =
     and_then (on_current_scanner (next_conflict ctx remaining_other) (return_value None))
       (found_pair remaining_other)"

definition accept_pair ::
    "'db merge_context \<Rightarrow> conflict_pair \<Rightarrow> logged_transaction list \<Rightarrow>
     ('db, current_scan, conflict_pair option) object_action" where
  "accept_pair ctx conflict remaining_other =
     and_then the_object (\<lambda>scan.
       if sc_scanner scan = None then raise_exn (Runtime_Exn ''cannot accept without an active scanner'')
       else case pair_other_index conflict of
         None \<Rightarrow> raise_exn (Runtime_Exn ''cannot accept a standalone replay conflict'')
       | Some other_index \<Rightarrow>
           and_then
             (on_current_scanner
                (accept_current_conflict ctx remaining_other other_index
                   (check_result_of (pair_conflicts conflict)) (pair_resolution_key conflict))
                (return_value None))
             (found_pair remaining_other))"

definition enable_checks_after_other_edit ::
    "'db merge_context \<Rightarrow> remaining_index \<Rightarrow> ('db, current_scan, unit) object_action" where
  "enable_checks_after_other_edit ctx remaining_other_index =
     and_then the_object (\<lambda>scan.
       on_current_scanner
         (update_object (enable_scan_kinds
            (remaining_individual_check_kinds (schema_context ctx) (sc_current scan) remaining_other_index)))
         (raise_exn (Runtime_Exn ''cannot enable checks without an active scanner'')))"

definition close_current_scan :: "'db merge_context \<Rightarrow> ('db, current_scan, unit) object_action" where
  "close_current_scan ctx = on_current_scanner (scan_close ctx) (return_value ())"

definition remaining_conflict_for_current ::
    "'db merge_context \<Rightarrow> logged_transaction \<Rightarrow> logged_transaction list \<Rightarrow> branch \<Rightarrow> remaining_index \<Rightarrow>
     resolution_key set \<Rightarrow> ('db replay_state, conflict_pair option) action" where
  "remaining_conflict_for_current ctx current remaining_other branch index accepted c =
     (case finally_do (next_pair ctx remaining_other) (close_current_scan ctx)
             (c, new_current_scan ctx current branch index accepted) of
        (r, (c1, _)) \<Rightarrow> (r, c1))"

end
