(* ===== verification/Log_Merge_Props.thy ===== *)
theory Log_Merge_Props
  imports Log_Merge Conflict_Detection_Props
begin

text \<open>
  The queues of a merge are the logs: every row after the watermark becomes one statement, the
  statements of one transaction stay together, and the queues are in commit order.
\<close>

section \<open>Grouping\<close>

lemma concat_groups: "concat (group_by_transaction ss) = ss"
  by (induction ss rule: group_by_transaction.induct) simp_all

definition same_transaction :: "logged_statement list \<Rightarrow> bool" where
  "same_transaction g \<longleftrightarrow> g \<noteq> [] \<and> (\<forall>s \<in> set g. ls_transaction_id s = ls_transaction_id (hd g))"

lemma groups_same_transaction: "g \<in> set (group_by_transaction ss) \<Longrightarrow> same_transaction g"
proof (induction ss rule: group_by_transaction.induct)
  case 1
  then show ?case by simp
next
  case (2 s ss)
  have "same_transaction (s # takeWhile (\<lambda>x. ls_transaction_id x = ls_transaction_id s) ss)"
    by (auto simp: same_transaction_def dest: set_takeWhileD)
  then show ?case using 2 by auto
qed

lemma group_heads:
  "set (map (\<lambda>g. ls_transaction_id (hd g)) (group_by_transaction ss)) = ls_transaction_id ` set ss"
proof -
  have "ls_transaction_id ` set g = {ls_transaction_id (hd g)}" if "g \<in> set (group_by_transaction ss)" for g
  proof -
    have one: "ls_transaction_id s = ls_transaction_id (hd g)" if "s \<in> set g" for s
      using groups_same_transaction [OF \<open>g \<in> _\<close>] that unfolding same_transaction_def by blast
    have "hd g \<in> set g" using groups_same_transaction [OF that] unfolding same_transaction_def by simp
    with one show ?thesis by blast
  qed
  then have same: "(\<Union>g \<in> set (group_by_transaction ss). ls_transaction_id ` set g) =
      (\<Union>g \<in> set (group_by_transaction ss). {ls_transaction_id (hd g)})" by (rule SUP_cong [OF refl])
  have "ls_transaction_id ` set ss = ls_transaction_id ` set (concat (group_by_transaction ss))"
    by (simp add: concat_groups)
  also have "\<dots> = (\<Union>g \<in> set (group_by_transaction ss). ls_transaction_id ` set g)"
    by (simp only: set_concat image_UN)
  also have "\<dots> = set (map (\<lambda>g. ls_transaction_id (hd g)) (group_by_transaction ss))"
    unfolding same by auto
  finally show ?thesis ..
qed

lemma groups_increase:
  "sorted (map ls_transaction_id ss) \<Longrightarrow>
     sorted_wrt (<) (map (\<lambda>g. ls_transaction_id (hd g)) (group_by_transaction ss))"
proof (induction ss rule: group_by_transaction.induct)
  case 1
  show ?case by simp
next
  case (2 s ss)
  let ?rest = "dropWhile (\<lambda>x. ls_transaction_id x = ls_transaction_id s) ss"
  have sorted: "sorted (map ls_transaction_id ss)" "\<forall>x \<in> set ss. ls_transaction_id s \<le> ls_transaction_id x"
    using "2.prems" by simp_all
  obtain front where front: "ss = front @ ?rest" by (metis takeWhile_dropWhile_id)
  have "sorted (map ls_transaction_id ?rest)"
    using sorted(1) by (subst (asm) front) (simp add: sorted_append)
  moreover have "ls_transaction_id s < ls_transaction_id x" if "x \<in> set ?rest" for x
  proof (cases ?rest)
    case Nil
    show ?thesis using that unfolding Nil by simp
  next
    case (Cons y ys)
    then have "ls_transaction_id y \<noteq> ls_transaction_id s"
      using hd_dropWhile [of "\<lambda>x. ls_transaction_id x = ls_transaction_id s" ss] by (metis list.sel(1) list.discI)
    moreover have "y \<in> set ss" using Cons by (metis list.set_intros(1) set_dropWhileD)
    then have "ls_transaction_id s \<le> ls_transaction_id y" using sorted(2) by blast
    moreover have "ls_transaction_id y \<le> ls_transaction_id x"
      using \<open>sorted (map ls_transaction_id ?rest)\<close> that Cons by auto
    ultimately show ?thesis by linarith
  qed
  moreover have "set (map (\<lambda>g. ls_transaction_id (hd g)) (group_by_transaction ?rest)) = ls_transaction_id ` set ?rest"
    by (rule group_heads)
  ultimately show ?case using "2.IH" by auto
qed

section \<open>Loading\<close>

lemma results_of_Inr: "results_of rs = Inr xs \<Longrightarrow> rs = map Inr xs"
  by (induction rs arbitrary: xs) (auto simp: result_bind_def split: sum.splits)

lemma make_logged_statement_fields:
  "make_logged_statement parse err tables ctx inp = Inr s \<Longrightarrow>
     ls_branch s = in_branch inp \<and> ls_branch_index s = in_branch_index inp \<and>
     ls_transaction_id s = in_transaction_id inp \<and> ls_committed_at s = in_committed_at inp \<and>
     ls_original_sql_text s = str_or (in_original_sql_text inp) (in_sql_text inp) \<and>
     to_replay_sql_text s = neutralize_rollback_conflict_resolution (in_sql_text inp) \<and>
     (is_replay_safe s \<longrightarrow> in_is_replay_safe inp)"
  by (auto simp: make_logged_statement_def build_logged_statement_def Let_def
      split: sum.splits metadata_error.splits option.splits)

text \<open>What a row of the log says about the statement made from it.\<close>

definition statement_of_row :: "branch \<Rightarrow> logged_statement \<Rightarrow> nat \<times> merge_log_row \<times> string \<Rightarrow> bool" where
  "statement_of_row branch s item =
     (case item of (index, row, committed_at) \<Rightarrow>
        ls_branch s = branch \<and> ls_branch_index s = int index \<and>
        ls_transaction_id s = mr_transaction_id row \<and> ls_committed_at s = committed_at \<and>
        to_replay_sql_text s = neutralize_rollback_conflict_resolution (mr_to_replay_sql_text row) \<and>
        (is_replay_safe s \<longrightarrow> mr_is_replay_safe row))"

lemma loaded_statements:
  assumes "load_logged_statements parse err log branch since path ctx = Inr ss"
  shows "list_all2 (statement_of_row branch) ss (enumerate 0 (logged_rows_since log since))"
proof -
  let ?make = "make_logged_statement parse err None (Some ctx) \<circ> statement_input_of_row branch"
  let ?rows = "enumerate 0 (logged_rows_since log since)"
  have "results_of (map ?make ?rows) = Inr ss"
    using assms by (auto simp: load_logged_statements_def result_bind_def map_error_def split: sum.splits)
  then have eq: "map ?make ?rows = map Inr ss" by (rule results_of_Inr)
  then have len: "length ss = length ?rows" by (metis length_map)
  have "statement_of_row branch (ss ! i) (?rows ! i)" if "i < length ss" for i
  proof -
    have "?make (?rows ! i) = Inr (ss ! i)"
      using eq that len by (metis nth_map)
    from make_logged_statement_fields [OF this [unfolded comp_def]] show ?thesis
      by (auto simp: statement_of_row_def statement_input_of_row_def split: prod.splits)
  qed
  then show ?thesis using len by (simp add: list_all2_conv_all_nth)
qed

lemma rows_sorted: "sorted (map (\<lambda>(row, _). mr_transaction_id row) (logged_rows_since log since))"
proof -
  have "sorted (map (\<lambda>(row, _ :: string). (mr_transaction_id row, mr_id row)) (logged_rows_since log since))"
    unfolding logged_rows_since_def by (rule sorted_sort_key)
  then show ?thesis
    unfolding sorted_map
    by (rule sorted_wrt_mono_rel [rotated]) (auto simp: less_eq_prod_def split: prod.splits)
qed

lemma rows_after_watermark: "(row, t) \<in> set (logged_rows_since log since) \<Longrightarrow> since < mr_transaction_id row"
  by (auto simp: logged_rows_since_def)

lemma grouped_nth:
  "i < length (group_by_transaction ss) \<Longrightarrow>
     group_logged_transactions ss ! i = logged_transaction_of (group_by_transaction ss ! i) i"
  by (simp add: group_logged_transactions_def nth_enumerate_eq)

lemma statements_of_grouped: "statements_of (group_logged_transactions ss) = ss"
proof -
  have "map lt_statements (group_logged_transactions ss) = group_by_transaction ss"
    by (simp add: group_logged_transactions_def comp_def case_prod_beta logged_transaction_of_def
        map_snd_enumerate flip: snd_def)
  then show ?thesis by (simp add: statements_of_def concat_groups)
qed

lemma grouped_transaction:
  assumes "t \<in> set (group_logged_transactions ss)"
  shows "\<exists>g \<in> set (group_by_transaction ss). lt_statements t = g \<and> lt_branch t = ls_branch (hd g) \<and>
    lt_transaction_id t = ls_transaction_id (hd g) \<and> lt_metadata t = transaction_metadata (map ls_metadata g)"
  using assms
  by (auto simp: group_logged_transactions_def logged_transaction_of_def in_set_enumerate_eq)

lemma grouped_fields:
  "map lt_transaction_id (group_logged_transactions ss) =
     map (\<lambda>g. ls_transaction_id (hd g)) (group_by_transaction ss)"
  "map lt_branch_index (group_logged_transactions ss) = map int [0..<length (group_logged_transactions ss)]"
  by (auto intro!: nth_equalityI
      simp: group_logged_transactions_def logged_transaction_of_def nth_enumerate_eq case_prod_beta)

text \<open>What loading a log gives.\<close>

lemma loaded_queue:
  assumes "load_logged_transactions parse error_text log branch since path ctx = Inr ts"
  shows "list_all2 (statement_of_row branch) (statements_of ts) (enumerate 0 (logged_rows_since log since)) \<and>
    sorted_wrt (<) (map lt_transaction_id ts) \<and>
    map lt_branch_index ts = map int [0..<length ts] \<and>
    (\<forall>t \<in> set ts. since < lt_transaction_id t \<and> lt_branch t = branch \<and> lt_statements t \<noteq> [] \<and>
       (\<forall>s \<in> set (lt_statements t). ls_transaction_id s = lt_transaction_id t) \<and>
       lt_metadata t = transaction_metadata (map ls_metadata (lt_statements t)))"
proof -
  let ?rows = "enumerate 0 (logged_rows_since log since)"
  obtain ss where ss: "load_logged_statements parse error_text log branch since path ctx = Inr ss"
    and ts: "ts = group_logged_transactions ss"
    using assms by (auto simp: load_logged_transactions_def result_bind_def split: sum.splits)
  have rows: "list_all2 (statement_of_row branch) ss ?rows" by (rule loaded_statements [OF ss])
  have ids: "map ls_transaction_id ss = map (\<lambda>(row, _). mr_transaction_id row) (logged_rows_since log since)"
    using rows by (auto simp: list_all2_conv_all_nth statement_of_row_def nth_enumerate_eq
        split: prod.splits intro!: nth_equalityI)
  have row: "since < ls_transaction_id s \<and> ls_branch s = branch" if s: "s \<in> set ss" for s
  proof -
    obtain i where "i < length ss" "s = ss ! i" using s by (auto simp: in_set_conv_nth)
    then have "statement_of_row branch s (?rows ! i)" "?rows ! i \<in> set ?rows"
      using rows by (auto simp: list_all2_conv_all_nth)
    then show ?thesis
      by (auto simp: statement_of_row_def in_set_enumerate_eq dest: rows_after_watermark
          dest!: nth_mem split: prod.splits)
  qed
  have one: "since < lt_transaction_id t \<and> lt_branch t = branch \<and> lt_statements t \<noteq> [] \<and>
       (\<forall>s \<in> set (lt_statements t). ls_transaction_id s = lt_transaction_id t) \<and>
       lt_metadata t = transaction_metadata (map ls_metadata (lt_statements t))" if t: "t \<in> set ts" for t
  proof -
    obtain g where g: "g \<in> set (group_by_transaction ss)" "lt_statements t = g" "lt_branch t = ls_branch (hd g)"
        "lt_transaction_id t = ls_transaction_id (hd g)" "lt_metadata t = transaction_metadata (map ls_metadata g)"
      using grouped_transaction t ts by blast
    have "same_transaction g" by (rule groups_same_transaction [OF g(1)])
    moreover from this have "hd g \<in> set ss"
      using g(1) concat_groups [of ss] by (metis UN_I hd_in_set same_transaction_def set_concat)
    ultimately show ?thesis using g row unfolding same_transaction_def by metis
  qed
  have "sorted_wrt (<) (map lt_transaction_id ts)"
    using groups_increase [of ss] rows_sorted [of log since] by (simp add: ts grouped_fields ids)
  then show ?thesis using rows one by (simp add: ts statements_of_grouped grouped_fields)
qed

text \<open>
  C8. A queue is its log: the statements of the loaded transactions are the rows after the
  watermark, in the order of the log, with their position, identity and text (a rollback clause
  neutralised), never made safer than the log says; each transaction holds all statements of one
  committed transaction and its exact metadata, and transaction ids strictly increase.
\<close>

theorem loaded_queue_is_log:
  assumes "load_logged_transactions parse error_text log branch since path ctx = Inr ts"
  shows "list_all2 (statement_of_row branch) (statements_of ts) (enumerate 0 (logged_rows_since log since)) \<and>
    sorted_wrt (<) (map lt_transaction_id ts) \<and>
    map lt_branch_index ts = map int [0..<length ts] \<and>
    (\<forall>t \<in> set ts. since < lt_transaction_id t \<and> lt_branch t = branch \<and> lt_statements t \<noteq> [] \<and>
       (\<forall>s \<in> set (lt_statements t). ls_transaction_id s = lt_transaction_id t) \<and>
       lt_metadata t = transaction_metadata (map ls_metadata (lt_statements t)))"
  using assms by (rule loaded_queue)

definition demo_log :: merge_log where
  "demo_log =
     \<lparr>ml_tables = [''t'', ''_sqlite_merge_log'', ''_sqlite_merge_transactions''],
      ml_transactions = [(1, ''d1''), (2, ''d2''), (3, ''d3'')],
      ml_rows = map (\<lambda>(i, t, sql).
        \<lparr>mr_id = i, mr_transaction_id = t, mr_original_sql_text = sql, mr_to_replay_sql_text = sql,
         mr_is_replay_safe = True, mr_replay_block_reason = None\<rparr>)
        [(5, 3, ''DELETE FROM a''), (4, 2, ''SELEC''), (3, 2, ''DELETE FROM a''), (1, 1, ''old'')]\<rparr>"

text \<open>A parser that accepts nothing: every statement is loaded, and blocked.\<close>

definition no_parse :: "string \<Rightarrow> parsed_sql option" where
  "no_parse sql = None"

lemma no_parse_fails: "parse_statement_metadata_for_context no_parse sql ctx = Inl Parse_Failed"
  by (simp add: parse_statement_metadata_for_context_def parse_statement_metadata_def parse_one_def
      no_parse_def Let_def)

lemma no_parse_makes:
  "\<exists>f. make_logged_statement no_parse err t (Some ctx) = Inr \<circ> f"
  by (rule exI [where x = "\<lambda>inp. projr (make_logged_statement no_parse err t (Some ctx) inp)"])
    (simp add: make_logged_statement_def no_parse_fails Let_def fun_eq_iff)

lemma results_of_all_Inr: "results_of (map (Inr \<circ> f) xs) = Inr (map f xs)"
  by (induction xs) (simp_all add: result_bind_def)

definition demo_loaded :: "load_error + logged_transaction list" where
  "demo_loaded = load_logged_transactions no_parse id demo_log Ours 1 ''ours.db'' cascade_context"

lemma demo_rows:
  "map fst (logged_rows_since demo_log 1) = map (\<lambda>(i, t, sql).
     \<lparr>mr_id = i, mr_transaction_id = t, mr_original_sql_text = sql, mr_to_replay_sql_text = sql,
      mr_is_replay_safe = True, mr_replay_block_reason = None\<rparr>)
     [(3, 2, ''DELETE FROM a''), (4, 2, ''SELEC''), (5, 3, ''DELETE FROM a'')]"
  by code_simp

theorem loaded_queue_is_log_witness:
  "sorted_wrt (<) (map lt_transaction_id (projr demo_loaded)) \<and>
   map ls_transaction_id (statements_of (projr demo_loaded)) = [2, 2, 3]"
proof -
  have "require_log_tables demo_log ''ours.db'' (branch_role Ours) = Inr ()" by code_simp
  moreover obtain f where "make_logged_statement no_parse id None (Some cascade_context) = Inr \<circ> f"
    using no_parse_makes by blast
  ultimately have "\<not> isl demo_loaded"
    by (simp add: demo_loaded_def load_logged_transactions_def load_logged_statements_def result_bind_def
        map_error_def results_of_all_Inr comp_assoc del: map_map)
  then have "demo_loaded = Inr (projr demo_loaded)" by (cases demo_loaded) simp_all
  note queue = loaded_queue_is_log [OF this [unfolded demo_loaded_def]]
  have len: "length (logged_rows_since demo_log 1) = 3" using arg_cong [OF demo_rows, of length] by simp
  then have "length (statements_of (projr demo_loaded)) = 3"
    using queue by (auto simp: demo_loaded_def dest: list_all2_lengthD)
  moreover have "ls_transaction_id (statements_of (projr demo_loaded) ! i) = [2, 2, 3] ! i" if "i < 3" for i
  proof -
    have "statement_of_row Ours (statements_of (projr demo_loaded) ! i) (enumerate 0 (logged_rows_since demo_log 1) ! i)"
      using queue that len by (auto simp: demo_loaded_def list_all2_conv_all_nth)
    then have "ls_transaction_id (statements_of (projr demo_loaded) ! i) =
        mr_transaction_id (map fst (logged_rows_since demo_log 1) ! i)"
      using that len by (auto simp: statement_of_row_def nth_enumerate_eq split: prod.splits)
    also have "\<dots> = [2, 2, 3] ! i" unfolding demo_rows using that by (auto simp: less_Suc_eq numeral_eq_Suc)
    finally show ?thesis .
  qed
  ultimately have "map ls_transaction_id (statements_of (projr demo_loaded)) = [2, 2, 3]"
    by (intro nth_equalityI) simp_all
  with queue show ?thesis by (simp add: demo_loaded_def)
qed

section \<open>Blocked statements\<close>

definition acknowledgeable :: "string \<Rightarrow> bool" where
  "acknowledgeable reason \<longleftrightarrow>
     list_ex (\<lambda>pre. take (length pre) reason = pre) ACKNOWLEDGEABLE_REPLAY_REASONS"

lemma accept_keeps [simp]:
  "is_replay_safe (accept_replay_warning s w) = is_replay_safe s"
  "replay_block_reason (accept_replay_warning s w) = replay_block_reason s"
  by (simp_all add: accept_replay_warning_def)

lemma accept_all_keeps [simp]:
  "is_replay_safe (foldl accept_replay_warning s ws) = is_replay_safe s"
  "replay_block_reason (foldl accept_replay_warning s ws) = replay_block_reason s"
  by (induction ws arbitrary: s) simp_all

lemma not_acknowledgeable_blocks:
  assumes "\<not> is_replay_safe s" "replay_block_reason s = Some r" "\<not> acknowledgeable r"
  shows "replay_warning_reason s = None" "unresolved_replay_block_reason s = Some (str_or (Some r) ''statement is unsafe for replay'')"
  using assms
  by (simp_all add: replay_warning_reason_def acknowledgeable_def unresolved_replay_block_reason_def)

lemma parse_reason_not_acknowledgeable: "\<not> acknowledgeable (METADATA_PARSE_ERROR_REASON @ text)"
  by (simp add: acknowledgeable_def METADATA_PARSE_ERROR_REASON_def ACKNOWLEDGEABLE_REPLAY_REASONS_def)

text \<open>
  C31. A statement the merge cannot parse is never replayed as it is: whatever warnings the user
  accepts, it stays blocked with the reason it was loaded with, and it never comes up as a
  warning that could be accepted, unless its log entry already carried an acknowledgeable reason.
\<close>

theorem unparsable_statement_stays_blocked:
  assumes "parse_statement_metadata_for_context parse
      (neutralize_rollback_conflict_resolution (in_sql_text inp)) ctx = Inl Parse_Failed"
    and "make_logged_statement parse error_text tables (Some ctx) inp = Inr s"
    and "\<not> acknowledgeable (str_or (in_replay_block_reason inp) [])"
  shows "\<not> is_replay_safe (foldl accept_replay_warning s warnings) \<and>
    replay_block_reason s \<noteq> None \<and>
    unresolved_replay_block_reason (foldl accept_replay_warning s warnings) = replay_block_reason s \<and>
    pending_replay_warning (foldl accept_replay_warning s warnings) = None"
proof -
  let ?s = "foldl accept_replay_warning s warnings"
  obtain r where r: "replay_block_reason s = Some r" "\<not> is_replay_safe s"
    and reason: "r = str_or (in_replay_block_reason inp)
      (METADATA_PARSE_ERROR_REASON @ '': '' @ error_text (neutralize_rollback_conflict_resolution (in_sql_text inp)))"
    using assms(1,2) by (auto simp: make_logged_statement_def build_logged_statement_def Let_def)
  have "\<not> acknowledgeable r" "r \<noteq> []"
    using assms(3) parse_reason_not_acknowledgeable reason
    by (auto simp: str_or_def METADATA_PARSE_ERROR_REASON_def split: option.splits if_splits)
  with not_acknowledgeable_blocks [of ?s r] r show ?thesis
    by (simp add: pending_replay_warning_def str_or_def)
qed

definition demo_unparsable :: statement_input where
  "demo_unparsable =
     \<lparr>in_branch = Ours, in_branch_index = 0, in_transaction_id = 2, in_committed_at = [],
      in_sql_text = ''SELEC'', in_original_sql_text = None, in_is_replay_safe = True,
      in_replay_block_reason = None\<rparr>"

theorem unparsable_statement_stays_blocked_witness:
  "let s = projr (make_logged_statement no_parse id None (Some cascade_context) demo_unparsable)
   in unresolved_replay_block_reason (foldl accept_replay_warning s [''w'', the (replay_block_reason s)]) =
        Some ''statement could not be parsed for merge analysis: SELEC''"
proof -
  let ?made = "make_logged_statement no_parse id None (Some cascade_context) demo_unparsable"
  have fails: "parse_statement_metadata_for_context no_parse
      (neutralize_rollback_conflict_resolution (in_sql_text demo_unparsable)) cascade_context = Inl Parse_Failed"
    by (rule no_parse_fails)
  have "\<not> isl ?made" by (simp add: make_logged_statement_def no_parse_fails Let_def)
  then have made: "?made = Inr (projr ?made)" by (cases ?made) simp_all
  have demo_neutral: "neutralize_rollback_conflict_resolution ''SELEC'' = ''SELEC''" by code_simp
  have "\<not> acknowledgeable (str_or (in_replay_block_reason demo_unparsable) [])" by code_simp
  note blocked = unparsable_statement_stays_blocked [OF fails made this,
      of "[''w'', the (replay_block_reason (projr ?made))]"]
  have "replay_block_reason (projr ?made) = Some ''statement could not be parsed for merge analysis: SELEC''"
    by (simp add: make_logged_statement_def no_parse_fails build_logged_statement_def demo_unparsable_def Let_def
        str_or_def METADATA_PARSE_ERROR_REASON_def demo_neutral)
  with blocked show ?thesis by (simp add: Let_def)
qed

end
