(* ===== verification/Replay_Preparation.thy ===== *)
theory Replay_Preparation
  imports Models
begin

text \<open>
  Preparing the logged form of a statement: \<open>src/sqlite_replay_preparation.py\<close>. Calls whose value
  depends on when they run are evaluated once and written into the SQL as literals, or the
  statement is blocked. A parsed tree is given by what the module asks of it: the calls in the
  order \<open>find_all\<close> yields them, the target and the rows; \<open>render\<close> is sqlglot's text of a tree with
  some calls replaced and columns added, and \<open>evaluate\<close> runs \<open>SELECT expression\<close>.
\<close>

section \<open>The tree and the connection\<close>

datatype call_class = Current_Date_Call | Current_Time_Call | Current_Timestamp_Call | Anonymous_Call string

datatype ancestor = Select_Ancestor | Subquery_Ancestor | Other_Ancestor

text \<open>A call: its class, its rendered arguments, its text, the nodes strictly between it and the root.\<close>

record call_node =
  call_class :: call_class
  call_arguments :: "string list"
  call_sql :: string
  call_ancestors :: "ancestor list"

datatype insert_target = Table_Target string | Schema_Target "string option" "string list" | Other_Target

record prepared_tree =
  tree_is_insert :: bool
  tree_target :: insert_target
  tree_is_values :: bool
  tree_rows :: nat
  tree_calls :: "call_node list"

datatype sqlite_value = Null_Value | Integer_Value int | Real_Value string | Text_Value string | Blob_Value string

datatype sql_literal = Null_Literal | Number_Literal string | String_Literal string

record tree_edit =
  replaced_calls :: "(nat \<times> sql_literal) list"
  appended_columns :: "string list"
  appended_values :: "sql_literal list list"

text \<open>A row of \<open>PRAGMA table_info\<close>: the name and the text of the default.\<close>

record 'c preparation =
  parse_tree :: "string \<Rightarrow> prepared_tree option"
  render_tree :: "prepared_tree \<Rightarrow> tree_edit \<Rightarrow> string"
  evaluate :: "string \<Rightarrow> 'c \<Rightarrow> (string + sqlite_value) \<times> 'c"
  column_defaults :: "string \<Rightarrow> 'c \<Rightarrow> (string \<times> string option) list"

section \<open>Nondeterministic calls\<close>

definition STATEMENT_LEVEL_NONDETERMINISTIC :: "string list" where
  "STATEMENT_LEVEL_NONDETERMINISTIC =
     [''changes'', ''last_insert_rowid'', ''sqlite_source_id'', ''sqlite_version'', ''sqlite3_version'',
      ''total_changes'']"

definition PER_EVALUATION_NONDETERMINISTIC :: "string list" where
  "PER_EVALUATION_NONDETERMINISTIC = [''random'', ''randomblob'']"

definition CURRENT_TIME_KEYWORDS :: "string list" where
  "CURRENT_TIME_KEYWORDS = [''current_date'', ''current_time'', ''current_timestamp'']"

definition DATE_TIME_FUNCTIONS :: "string list" where
  "DATE_TIME_FUNCTIONS = [''date'', ''datetime'', ''julianday'', ''strftime'', ''time'', ''unixepoch'']"

definition function_name :: "call_node \<Rightarrow> string" where
  "function_name node =
     (case call_class node of
        Current_Date_Call \<Rightarrow> ''current_date''
      | Current_Time_Call \<Rightarrow> ''current_time''
      | Current_Timestamp_Call \<Rightarrow> ''current_timestamp''
      | Anonymous_Call name \<Rightarrow> ascii_lower name)"

definition date_time_function_is_current_time :: "call_node \<Rightarrow> string \<Rightarrow> bool" where
  "date_time_function_is_current_time node name =
     (if name \<notin> set DATE_TIME_FUNCTIONS then False
      else if call_arguments node = [] then True
      else list_ex (\<lambda>argument. contains_text argument [CHR 0x27, CHR ''n'', CHR ''o'', CHR ''w'', CHR 0x27] \<or>
             contains_text argument ''localtime'' \<or> contains_text argument ''utc'')
           (map ascii_lower (call_arguments node)))"

definition is_nondeterministic_function :: "call_node \<Rightarrow> bool" where
  "is_nondeterministic_function node \<longleftrightarrow>
     (let name = function_name node in
      name \<in> set CURRENT_TIME_KEYWORDS \<or> name \<in> set STATEMENT_LEVEL_NONDETERMINISTIC \<or>
      name \<in> set PER_EVALUATION_NONDETERMINISTIC \<or> date_time_function_is_current_time node name)"

definition is_safe_per_evaluation_context :: "prepared_tree \<Rightarrow> call_node \<Rightarrow> bool" where
  "is_safe_per_evaluation_context root node =
     (if \<not> tree_is_insert root then False
      else if \<not> tree_is_values root then False
      else \<not> list_ex (\<lambda>a. a \<in> {Select_Ancestor, Subquery_Ancestor}) (call_ancestors node))"

definition unsafe_nondeterministic_functions :: "prepared_tree \<Rightarrow> call_node list" where
  "unsafe_nondeterministic_functions root =
     filter (\<lambda>node. function_name node \<in> set PER_EVALUATION_NONDETERMINISTIC \<and>
       \<not> is_safe_per_evaluation_context root node) (tree_calls root)"

section \<open>Literals\<close>

text \<open>\<open>str(value)\<close> of a blob is the text of the Python bytes literal, handed in as such.\<close>

definition literal_of :: "sqlite_value \<Rightarrow> sql_literal" where
  "literal_of value =
     (case value of
        Null_Value \<Rightarrow> Null_Literal
      | Integer_Value n \<Rightarrow> Number_Literal (decimal_int n)
      | Real_Value text \<Rightarrow> Number_Literal text
      | Text_Value text \<Rightarrow> String_Literal text
      | Blob_Value python_repr \<Rightarrow> String_Literal python_repr)"

text \<open>Evaluating and replacing, in order; the first error ends the preparation.\<close>

fun replace_calls ::
    "'c preparation \<Rightarrow> (nat \<times> call_node) list \<Rightarrow> 'c \<Rightarrow> (string + (nat \<times> sql_literal) list) \<times> 'c" where
  "replace_calls env [] c = (Inr [], c)"
| "replace_calls env ((i, node) # nodes) c =
     (if \<not> is_nondeterministic_function node then replace_calls env nodes c
      else case evaluate env (call_sql node) c of
        (Inl e, c1) \<Rightarrow> (Inl e, c1)
      | (Inr value, c1) \<Rightarrow>
          (case replace_calls env nodes c1 of
             (Inl e, c2) \<Rightarrow> (Inl e, c2)
           | (Inr replaced, c2) \<Rightarrow> (Inr ((i, literal_of value) # replaced), c2)))"

definition replace_safe_nondeterministic_functions ::
    "'c preparation \<Rightarrow> prepared_tree \<Rightarrow> 'c \<Rightarrow> (string + (nat \<times> sql_literal) list) \<times> 'c" where
  "replace_safe_nondeterministic_functions env root c = replace_calls env (enumerate 0 (tree_calls root)) c"

section \<open>Omitted defaults\<close>

definition default_is_nondeterministic :: "'c preparation \<Rightarrow> string option \<Rightarrow> bool" where
  "default_is_nondeterministic env default_sql =
     (case default_sql of
        None \<Rightarrow> False
      | Some text \<Rightarrow>
          (case parse_tree env text of
             None \<Rightarrow> False
           | Some tree \<Rightarrow> list_ex is_nondeterministic_function (tree_calls tree)))"

definition table_name_from_target :: "insert_target \<Rightarrow> string option" where
  "table_name_from_target target =
     (case target of Table_Target name \<Rightarrow> Some name | Schema_Target name _ \<Rightarrow> name | Other_Target \<Rightarrow> None)"

definition explicit_insert_columns :: "'c preparation \<Rightarrow> prepared_tree \<Rightarrow> 'c \<Rightarrow> string set" where
  "explicit_insert_columns env root c =
     (case tree_target root of
        Schema_Target _ columns \<Rightarrow> {column \<in> set columns. column \<noteq> []}
      | Table_Target table \<Rightarrow> set (map fst (column_defaults env table c))
      | Other_Target \<Rightarrow> {})"

definition nondeterministic_default_columns ::
    "'c preparation \<Rightarrow> string \<Rightarrow> string set \<Rightarrow> 'c \<Rightarrow> (string \<times> string) list" where
  "nondeterministic_default_columns env table explicit_columns c =
     map (\<lambda>(name, default_sql). (name, the default_sql))
       (filter (\<lambda>(name, default_sql). name \<notin> explicit_columns \<and> default_is_nondeterministic env default_sql)
         (column_defaults env table c))"

fun evaluate_all ::
    "'c preparation \<Rightarrow> string list \<Rightarrow> 'c \<Rightarrow> (string + sql_literal list) \<times> 'c" where
  "evaluate_all env [] c = (Inr [], c)"
| "evaluate_all env (default_sql # rest) c =
     (case evaluate env default_sql c of
        (Inl e, c1) \<Rightarrow> (Inl e, c1)
      | (Inr value, c1) \<Rightarrow>
          (case evaluate_all env rest c1 of
             (Inl e, c2) \<Rightarrow> (Inl e, c2)
           | (Inr values, c2) \<Rightarrow> (Inr (literal_of value # values), c2)))"

fun append_values_defaults ::
    "'c preparation \<Rightarrow> nat \<Rightarrow> string list \<Rightarrow> 'c \<Rightarrow> (string + sql_literal list list) \<times> 'c" where
  "append_values_defaults env 0 defaults c = (Inr [], c)"
| "append_values_defaults env (Suc rows) defaults c =
     (case evaluate_all env defaults c of
        (Inl e, c1) \<Rightarrow> (Inl e, c1)
      | (Inr values, c1) \<Rightarrow>
          (case append_values_defaults env rows defaults c1 of
             (Inl e, c2) \<Rightarrow> (Inl e, c2)
           | (Inr rest, c2) \<Rightarrow> (Inr (values # rest), c2)))"

text \<open>Whether the statement is safe, and the columns and values to append.\<close>

definition rewrite_insert_defaults ::
    "'c preparation \<Rightarrow> prepared_tree \<Rightarrow> 'c \<Rightarrow> (string + bool \<times> string list \<times> sql_literal list list) \<times> 'c" where
  "rewrite_insert_defaults env root c =
     (if \<not> tree_is_insert root then (Inr (True, [], []), c)
      else case table_name_from_target (tree_target root) of
        None \<Rightarrow> (Inr (True, [], []), c)
      | Some table \<Rightarrow>
          let defaults = nondeterministic_default_columns env table (explicit_insert_columns env root c) c in
          if defaults = [] then (Inr (True, [], []), c)
          else if tree_is_values root
          then (case append_values_defaults env (tree_rows root) (map snd defaults) c of
              (Inl e, c1) \<Rightarrow> (Inl e, c1)
            | (Inr values, c1) \<Rightarrow> (Inr (True, map fst defaults, values), c1))
          else (Inr (False, [], []), c))"

section \<open>The entry\<close>

definition PREPARE_PARSE_ERROR_REASON :: string where
  "PREPARE_PARSE_ERROR_REASON = ''statement could not be parsed for replay preparation''"

definition UNSAFE_NONDETERMINISTIC_REASON :: string where
  "UNSAFE_NONDETERMINISTIC_REASON = ''nondeterministic expression cannot be safely materialized''"

definition PARAMETERIZED_REWRITE_REASON :: string where
  "PARAMETERIZED_REWRITE_REASON = ''parameterized statement cannot be replayed without bound parameters''"

definition unsafe_log_entry :: "string \<Rightarrow> string \<Rightarrow> log_entry" where
  "unsafe_log_entry sql reason =
     \<lparr>original_sql_text = sql, entry_replay_sql_text = sql, entry_is_replay_safe = False,
      entry_block_reason = Some reason\<rparr>"

definition safe_log_entry :: "string \<Rightarrow> string \<Rightarrow> log_entry" where
  "safe_log_entry sql replay_sql =
     \<lparr>original_sql_text = sql, entry_replay_sql_text = replay_sql, entry_is_replay_safe = True,
      entry_block_reason = None\<rparr>"

definition replace_default_values :: "string \<Rightarrow> string" where
  "replace_default_values sql =
     (case first_some (\<lambda>i. map_option (\<lambda>e. (i, e)) (DEFAULT_VALUES_INSERT_PATTERN sql i)) [0..<length sql] of
        None \<Rightarrow> sql
      | Some (i, e) \<Rightarrow> take i sql @ ''VALUES ()'' @ drop e sql)"

definition rewrite_default_values_insert ::
    "'c preparation \<Rightarrow> string \<Rightarrow> 'c \<Rightarrow> log_entry option \<times> 'c" where
  "rewrite_default_values_insert env sql c =
     (let normalized = replace_default_values sql in
      if normalized = sql then (None, c)
      else case parse_tree env normalized of
        None \<Rightarrow> (None, c)
      | Some tree \<Rightarrow>
          if \<not> tree_is_insert tree then (None, c)
          else case table_name_from_target (tree_target tree) of
            None \<Rightarrow> (None, c)
          | Some table \<Rightarrow>
              let defaults = nondeterministic_default_columns env table {} c in
              if defaults = [] then (Some (safe_log_entry sql sql), c)
              else case append_values_defaults env (tree_rows tree) (map snd defaults) c of
                (Inl _, c1) \<Rightarrow> (Some (unsafe_log_entry sql PARAMETERIZED_REWRITE_REASON), c1)
              | (Inr values, c1) \<Rightarrow>
                  (Some (safe_log_entry sql (render_tree env tree
                     \<lparr>replaced_calls = [], appended_columns = map fst defaults, appended_values = values\<rparr>)), c1))"

text \<open>The part after parsing; \<open>compatible\<close> is set when only the normalized text parsed.\<close>

definition prepare_tree ::
    "'c preparation \<Rightarrow> string \<Rightarrow> compatible_sql option \<Rightarrow> prepared_tree \<Rightarrow> 'c \<Rightarrow> log_entry \<times> 'c" where
  "prepare_tree env sql compatible tree c =
     (if unsafe_nondeterministic_functions tree \<noteq> []
      then (unsafe_log_entry sql UNSAFE_NONDETERMINISTIC_REASON, c)
      else case replace_safe_nondeterministic_functions env tree c of
        (Inl _, c1) \<Rightarrow> (unsafe_log_entry sql PARAMETERIZED_REWRITE_REASON, c1)
      | (Inr replaced, c1) \<Rightarrow>
          (case rewrite_insert_defaults env tree c1 of
             (Inl _, c2) \<Rightarrow> (unsafe_log_entry sql PARAMETERIZED_REWRITE_REASON, c2)
           | (Inr (defaults_safe, columns, values), c2) \<Rightarrow>
               if \<not> defaults_safe then (unsafe_log_entry sql UNSAFE_NONDETERMINISTIC_REASON, c2)
               else if replaced = [] \<and> columns = [] then (safe_log_entry sql sql, c2)
               else if (case compatible of None \<Rightarrow> False | Some normalized \<Rightarrow> stripped_upsert normalized)
               then (unsafe_log_entry sql UNSAFE_NONDETERMINISTIC_REASON, c2)
               else let replay_sql = render_tree env tree
                        \<lparr>replaced_calls = replaced, appended_columns = columns, appended_values = values\<rparr> in
                    (safe_log_entry sql (case compatible of
                       None \<Rightarrow> replay_sql
                     | Some normalized \<Rightarrow> restore_update_conflict_resolution replay_sql (compat_resolution normalized)), c2)))"

definition prepare_logged_sql :: "'c preparation \<Rightarrow> string \<Rightarrow> 'c \<Rightarrow> log_entry \<times> 'c" where
  "prepare_logged_sql env sql c =
     (case parse_tree env sql of
        Some tree \<Rightarrow> prepare_tree env sql None tree c
      | None \<Rightarrow>
          (case rewrite_default_values_insert env sql c of
             (Some entry, c1) \<Rightarrow> (entry, c1)
           | (None, c1) \<Rightarrow>
               let compatible = normalize_sql_for_sqlglot sql in
               if compat_sql compatible = sql then (unsafe_log_entry sql PREPARE_PARSE_ERROR_REASON, c1)
               else case parse_tree env (compat_sql compatible) of
                 None \<Rightarrow> (unsafe_log_entry sql PREPARE_PARSE_ERROR_REASON, c1)
               | Some tree \<Rightarrow> prepare_tree env sql (Some compatible) tree c1))"

end
