(* ===== verification/Replay_Preparation_Props.thy ===== *)
theory Replay_Preparation_Props
  imports Replay_Preparation
begin

text \<open>
  An entry that is marked safe has nothing left in it that depends on when it runs: every
  nondeterministic call and every omitted nondeterministic default is replaced by a literal.
\<close>

text \<open>The calls that have to be replaced, and the columns whose default has to be written out.\<close>

definition calls_to_replace :: "prepared_tree \<Rightarrow> nat list" where
  "calls_to_replace tree = map fst (filter (is_nondeterministic_function \<circ> snd) (enumerate 0 (tree_calls tree)))"

definition omitted_defaults :: "'c preparation \<Rightarrow> prepared_tree \<Rightarrow> 'c \<Rightarrow> string list" where
  "omitted_defaults env tree c =
     (if \<not> tree_is_insert tree then []
      else case table_name_from_target (tree_target tree) of
        None \<Rightarrow> []
      | Some table \<Rightarrow> map fst (nondeterministic_default_columns env table (explicit_insert_columns env tree c) c))"

text \<open>An edit writes out everything the tree leaves open, with one value per row and column.\<close>

definition edit_complete :: "'c preparation \<Rightarrow> prepared_tree \<Rightarrow> 'c \<Rightarrow> tree_edit \<Rightarrow> bool" where
  "edit_complete env tree c edit \<longleftrightarrow>
     map fst (replaced_calls edit) = calls_to_replace tree \<and>
     appended_columns edit = omitted_defaults env tree c \<and>
     (appended_columns edit \<noteq> [] \<longrightarrow> tree_is_values tree \<and>
        map length (appended_values edit) = replicate (tree_rows tree) (length (appended_columns edit)))"

text \<open>Where a call is evaluated once per row, one literal cannot stand for it.\<close>

definition evaluated_once :: "prepared_tree \<Rightarrow> bool" where
  "evaluated_once tree \<longleftrightarrow>
     (\<forall>node \<in> set (tree_calls tree). function_name node \<in> {''random'', ''randomblob''} \<longrightarrow>
        tree_is_insert tree \<and> tree_is_values tree \<and>
        Select_Ancestor \<notin> set (call_ancestors node) \<and> Subquery_Ancestor \<notin> set (call_ancestors node))"

lemma no_unsafe_calls: "unsafe_nondeterministic_functions tree = [] \<longleftrightarrow> evaluated_once tree"
  by (auto simp: unsafe_nondeterministic_functions_def evaluated_once_def filter_empty_conv
      is_safe_per_evaluation_context_def PER_EVALUATION_NONDETERMINISTIC_def list_ex_iff)

lemma replace_calls_complete:
  "replace_calls env nodes c = (Inr replaced, c') \<Longrightarrow>
     map fst replaced = map fst (filter (is_nondeterministic_function \<circ> snd) nodes)"
proof (induction env nodes c arbitrary: replaced c' rule: replace_calls.induct)
  case (1 env c)
  then show ?case by simp
next
  case (2 env i node nodes c)
  show ?case
  proof (cases "is_nondeterministic_function node")
    case False
    then show ?thesis using 2 by simp
  next
    case True
    then obtain v c1 rest where "evaluate env (call_sql node) c = (Inr v, c1)"
        "replace_calls env nodes c1 = (Inr rest, c')" "replaced = (i, literal_of v) # rest"
      using "2.prems" by (auto split: prod.splits sum.splits)
    then show ?thesis using "2.IH"(2) True by simp
  qed
qed

lemma evaluate_all_length: "evaluate_all env defaults c = (Inr values, c') \<Longrightarrow> length values = length defaults"
  by (induction env defaults c arbitrary: "values" c' rule: evaluate_all.induct)
    (auto split: prod.splits sum.splits)

lemma append_values_lengths:
  "append_values_defaults env rows defaults c = (Inr values, c') \<Longrightarrow>
     map length values = replicate rows (length defaults)"
  by (induction env rows defaults c arbitrary: "values" c' rule: append_values_defaults.induct)
    (auto split: prod.splits sum.splits dest!: evaluate_all_length)

lemma rewrite_insert_defaults_complete:
  assumes "rewrite_insert_defaults env tree c = (Inr (True, columns, rows), c')"
  shows "columns = omitted_defaults env tree c \<and>
    (columns \<noteq> [] \<longrightarrow> tree_is_values tree \<and> map length rows = replicate (tree_rows tree) (length columns))"
  using assms
  by (auto simp: rewrite_insert_defaults_def omitted_defaults_def Let_def
      split: if_splits option.splits sum.splits prod.splits dest!: append_values_lengths)

lemma safe_entry_simps [simp]:
  "\<not> entry_is_replay_safe (unsafe_log_entry sql reason)" "entry_is_replay_safe (safe_log_entry sql text)"
  "entry_replay_sql_text (safe_log_entry sql text) = text" "original_sql_text (safe_log_entry sql text) = sql"
  "original_sql_text (unsafe_log_entry sql reason) = sql" "entry_replay_sql_text (unsafe_log_entry sql reason) = sql"
  "entry_block_reason (unsafe_log_entry sql reason) = Some reason"
  by (simp_all add: unsafe_log_entry_def safe_log_entry_def)

text \<open>The logged text of an edit: the statement itself when there is nothing to replace.\<close>

definition replay_text_of ::
    "'c preparation \<Rightarrow> string \<Rightarrow> compatible_sql option \<Rightarrow> prepared_tree \<Rightarrow> tree_edit \<Rightarrow> string" where
  "replay_text_of env sql compatible tree edit =
     (if replaced_calls edit = [] \<and> appended_columns edit = [] then sql
      else case compatible of
        None \<Rightarrow> render_tree env tree edit
      | Some normalized \<Rightarrow>
          restore_update_conflict_resolution (render_tree env tree edit) (compat_resolution normalized))"

lemma prepare_tree_safe:
  assumes "prepare_tree env sql compatible tree c = (entry, c')" "entry_is_replay_safe entry"
  shows "evaluated_once tree \<and> (\<exists>c1 edit. edit_complete env tree c1 edit \<and>
    entry_replay_sql_text entry = replay_text_of env sql compatible tree edit)"
proof -
  have once: "unsafe_nondeterministic_functions tree = []"
    using assms by (auto simp: prepare_tree_def split: if_splits)
  obtain replaced c1 where calls: "replace_safe_nondeterministic_functions env tree c = (Inr replaced, c1)"
    using assms once by (auto simp: prepare_tree_def split: sum.splits prod.splits)
  obtain columns rows c2 where defaults: "rewrite_insert_defaults env tree c1 = (Inr (True, columns, rows), c2)"
    using assms once calls by (auto simp: prepare_tree_def split: sum.splits prod.splits if_splits)
  let ?edit = "\<lparr>replaced_calls = replaced, appended_columns = columns, appended_values = rows\<rparr>"
  have "edit_complete env tree c1 ?edit"
    using replace_calls_complete [OF calls [unfolded replace_safe_nondeterministic_functions_def]]
      rewrite_insert_defaults_complete [OF defaults]
    by (simp add: edit_complete_def calls_to_replace_def)
  moreover have "entry_replay_sql_text entry = replay_text_of env sql compatible tree ?edit"
    using assms once calls defaults
    by (auto simp: prepare_tree_def replay_text_of_def Let_def split: if_splits option.splits)
  ultimately show ?thesis using once no_unsafe_calls by blast
qed

text \<open>The tree an entry is prepared from, and the INSERT that only parses with \<open>VALUES ()\<close>.\<close>

definition prepared_from :: "'c preparation \<Rightarrow> string \<Rightarrow> compatible_sql option \<Rightarrow> prepared_tree \<Rightarrow> bool" where
  "prepared_from env sql compatible tree \<longleftrightarrow>
     (case compatible of
        None \<Rightarrow> parse_tree env sql = Some tree
      | Some normalized \<Rightarrow> parse_tree env sql = None \<and> normalized = normalize_sql_for_sqlglot sql \<and>
          compat_sql normalized \<noteq> sql \<and> parse_tree env (compat_sql normalized) = Some tree)"

definition default_values_entry :: "'c preparation \<Rightarrow> string \<Rightarrow> 'c \<Rightarrow> string \<Rightarrow> bool" where
  "default_values_entry env sql c replay_sql \<longleftrightarrow>
     (\<exists>tree table columns rows.
        parse_tree env sql = None \<and> parse_tree env (replace_default_values sql) = Some tree \<and>
        table_name_from_target (tree_target tree) = Some table \<and>
        columns = map fst (nondeterministic_default_columns env table {} c) \<and>
        (if columns = [] then replay_sql = sql
         else map length rows = replicate (tree_rows tree) (length columns) \<and>
           replay_sql = render_tree env tree
             \<lparr>replaced_calls = [], appended_columns = columns, appended_values = rows\<rparr>))"

lemma default_values_safe:
  assumes "parse_tree env sql = None" "rewrite_default_values_insert env sql c = (Some entry, c')"
    and "entry_is_replay_safe entry"
  shows "default_values_entry env sql c (entry_replay_sql_text entry)"
  using assms
  by (fastforce simp: rewrite_default_values_insert_def default_values_entry_def Let_def
      split: if_splits option.splits sum.splits prod.splits dest!: append_values_lengths)

lemma prepare_tree_original: "prepare_tree env sql compatible tree c = (entry, c') \<Longrightarrow> original_sql_text entry = sql"
  by (auto simp: prepare_tree_def Let_def split: if_splits sum.splits prod.splits)

lemma prepare_tree_blocked:
  "prepare_tree env sql compatible tree c = (entry, c') \<Longrightarrow> \<not> entry_is_replay_safe entry \<Longrightarrow>
     entry_replay_sql_text entry = sql \<and> entry_block_reason entry \<noteq> None"
  by (auto simp: prepare_tree_def Let_def split: if_splits sum.splits prod.splits)

lemma default_values_original:
  "rewrite_default_values_insert env sql c = (Some entry, c') \<Longrightarrow> original_sql_text entry = sql \<and>
     (\<not> entry_is_replay_safe entry \<longrightarrow> entry_replay_sql_text entry = sql \<and> entry_block_reason entry \<noteq> None)"
  by (auto simp: rewrite_default_values_insert_def Let_def split: if_splits option.splits sum.splits prod.splits)


section \<open>An example\<close>

text \<open>\<open>INSERT INTO t VALUES (randomblob(1))\<close>; the text of an edited tree shows its literals.\<close>

definition demo_preparation :: "unit preparation" where
  "demo_preparation =
     \<lparr>parse_tree = (\<lambda>sql. if sql = ''INSERT INTO t VALUES (randomblob(1))''
        then Some \<lparr>tree_is_insert = True, tree_target = Table_Target ''t'', tree_is_values = True, tree_rows = 1,
          tree_calls = [\<lparr>call_class = Anonymous_Call ''randomblob'', call_arguments = [''1''],
            call_sql = ''randomblob(1)'', call_ancestors = [Other_Ancestor]\<rparr>]\<rparr>
        else None),
      render_tree = (\<lambda>_ edit. case replaced_calls edit of
         [(_, String_Literal text)] \<Rightarrow> ''INSERT INTO t VALUES (text '' @ text @ '')'' | _ \<Rightarrow> []),
      evaluate = (\<lambda>_ c. (Inr (Blob_Value ''b(01)''), c)),
      column_defaults = (\<lambda>_ _. [(''a'', None)])\<rparr>"


text \<open>
  A blob is written out as the text of Python's bytes literal, so the INSERT that is logged and
  run stores a string: the literal of the blob is the literal of that string.
\<close>

lemma blob_is_logged_as_text:
  "literal_of (Blob_Value python_repr) = literal_of (Text_Value python_repr) \<and>
   entry_replay_sql_text (fst (prepare_logged_sql demo_preparation ''INSERT INTO t VALUES (randomblob(1))'' ())) =
     ''INSERT INTO t VALUES (text b(01))''"
proof
  show "literal_of (Blob_Value python_repr) = literal_of (Text_Value python_repr)" by (simp add: literal_of_def)
  show "entry_replay_sql_text (fst (prepare_logged_sql demo_preparation ''INSERT INTO t VALUES (randomblob(1))'' ())) =
     ''INSERT INTO t VALUES (text b(01))''" by code_simp
qed

end
