(* ===== verification/Terminal_Ui.thy ===== *)
theory Terminal_Ui
  imports Log_Merge
begin

text \<open>
  The dialogue with the user: \<open>src/merge/terminal_ui.py\<close>. A reply is what the user types at one
  prompt together with the text the editor would hand back if the command opened it (\<open>None\<close> when
  the editor fails). A prompt consumes replies until it has a decision; running out of replies is
  the \<open>EOFError\<close> of \<open>input()\<close>. What is printed is not modelled.
\<close>

type_synonym reply = "string \<times> string option"

text \<open>\<open>prepare_logged_sql\<close> on the replay connection, and the text of a \<open>ParseError\<close>.\<close>

record 'db terminal =
  prepare_entry :: "string \<Rightarrow> 'db \<Rightarrow> log_entry"
  parse_error_text :: "string \<Rightarrow> string"

datatype ui_error = End_Of_Input | Ui_Metadata_Error metadata_error | Ui_Value_Error | Ui_Index_Error

section \<open>Commands\<close>

text \<open>\<open>raw.strip().rstrip(";").strip()\<close>.\<close>

definition command_text :: "string \<Rightarrow> string" where
  "command_text raw = strip (rstrip_semicolons (strip raw))"

text \<open>\<open>text.split(maxsplit=1)[1].strip().upper()\<close> of a text with at least two words.\<close>

definition argument_label :: "string \<Rightarrow> string" where
  "argument_label text = ascii_upper (strip (dropWhile (\<lambda>c. \<not> is_space c) (lstrip text)))"

definition parse_edit_command :: "string \<Rightarrow> string option" where
  "parse_edit_command raw =
     (let text = command_text raw; upper_text = ascii_upper text;
          with_prefix = (\<lambda>pre. if upper_text = pre then Some []
            else if starts_with upper_text (pre @ '' '') then Some (argument_label text) else None) in
      case with_prefix '':EDIT'' of
        Some label \<Rightarrow> Some label
      | None \<Rightarrow> with_prefix ''EDIT'')"

definition parse_delete_command :: "string \<Rightarrow> string option" where
  "parse_delete_command raw =
     (let text = command_text raw; upper_text = ascii_upper text in
      if upper_text = ''DELETE'' then Some []
      else if starts_with upper_text ''DELETE '' then Some (argument_label text) else None)"

text \<open>\<open>text.split()\<close>.\<close>

function split_words :: "string \<Rightarrow> string list" where
  "split_words text =
     (let rest = dropWhile is_space text in
      if rest = [] then []
      else takeWhile (\<lambda>c. \<not> is_space c) rest # split_words (dropWhile (\<lambda>c. \<not> is_space c) rest))"
  by pat_completeness auto
termination
proof (relation "measure length")
  fix t rest :: string
  assume rest: "rest = dropWhile is_space t" "rest \<noteq> []"
  then obtain c cs where c: "rest = c # cs" "\<not> is_space c"
    by (metis hd_dropWhile list.exhaust list.sel(1))
  have "length (dropWhile (\<lambda>c. \<not> is_space c) cs) \<le> length cs" by (rule length_dropWhile_le)
  moreover have "length rest \<le> length t" unfolding rest(1) by (rule length_dropWhile_le)
  ultimately show "(dropWhile (\<lambda>c. \<not> is_space c) rest, t) \<in> measure length" using c by simp
qed simp

declare split_words.simps [simp del]

definition parse_insert_command :: "string \<Rightarrow> (string \<times> string) option" where
  "parse_insert_command raw =
     (case split_words (command_text raw) of
        [verb, position, anchor] \<Rightarrow>
          if ascii_upper verb \<noteq> ''INSERT'' then None
          else if ascii_lower position \<notin> {''before'', ''after''} then None
          else Some (ascii_lower position, ascii_upper anchor)
      | _ \<Rightarrow> None)"

section \<open>Edited statements and transactions\<close>

definition input_of_entry ::
    "branch \<Rightarrow> int \<Rightarrow> int \<Rightarrow> string \<Rightarrow> log_entry \<Rightarrow> statement_input" where
  "input_of_entry branch branch_index transaction_id committed_at prepared =
     \<lparr>in_branch = branch, in_branch_index = branch_index, in_transaction_id = transaction_id,
      in_committed_at = committed_at, in_sql_text = entry_replay_sql_text prepared,
      in_original_sql_text = Some (original_sql_text prepared),
      in_is_replay_safe = entry_is_replay_safe prepared,
      in_replay_block_reason = entry_block_reason prepared\<rparr>"

definition replace_statement_sql ::
    "'db terminal \<Rightarrow> 'db merge_context \<Rightarrow> 'db \<Rightarrow> logged_statement \<Rightarrow> string \<Rightarrow> metadata_error + logged_statement"
where
  "replace_statement_sql term ctx db statement sql_text =
     make_logged_statement (parse_sql ctx) (parse_error_text term)
       (Some (cache_table_columns (ctx_cache (schema_context ctx)))) (Some (schema_context ctx))
       (input_of_entry (ls_branch statement) (ls_branch_index statement) (ls_transaction_id statement)
          (ls_committed_at statement) (prepare_entry term sql_text db))"

definition new_branch_index :: "logged_statement list \<Rightarrow> int" where
  "new_branch_index statements =
     min (case map ls_branch_index statements of [] \<Rightarrow> 0 | i # is \<Rightarrow> foldl min i is) 0 - 1"

definition new_statement_sql ::
    "'db terminal \<Rightarrow> 'db merge_context \<Rightarrow> 'db \<Rightarrow> logged_transaction \<Rightarrow> logged_statement list \<Rightarrow> string \<Rightarrow>
     metadata_error + logged_statement" where
  "new_statement_sql term ctx db transaction statements sql_text =
     make_logged_statement (parse_sql ctx) (parse_error_text term)
       (Some (cache_table_columns (ctx_cache (schema_context ctx)))) (Some (schema_context ctx))
       (input_of_entry (lt_branch transaction) (new_branch_index statements) (lt_transaction_id transaction)
          (lt_committed_at transaction) (prepare_entry term sql_text db))"

definition transaction_with_statements :: "logged_transaction \<Rightarrow> logged_statement list \<Rightarrow> logged_transaction" where
  "transaction_with_statements transaction statements =
     transaction\<lparr>lt_statements := statements, lt_metadata := transaction_metadata (map ls_metadata statements)\<rparr>"

text \<open>
  The loops compare objects with \<open>is\<close>; the statements of one transaction are distinct objects,
  told apart here by their value, which differs at least in the branch index.
\<close>

definition replace_transaction_statement ::
    "logged_transaction \<Rightarrow> logged_statement \<Rightarrow> logged_statement option \<Rightarrow> logged_transaction" where
  "replace_transaction_statement transaction target replacement =
     transaction_with_statements transaction
       (concat (map (\<lambda>statement.
          if statement = target then (case replacement of None \<Rightarrow> [] | Some r \<Rightarrow> [r]) else [statement])
          (lt_statements transaction)))"

definition insert_transaction_statement ::
    "logged_transaction \<Rightarrow> logged_statement \<Rightarrow> string \<Rightarrow> logged_statement \<Rightarrow> logged_transaction" where
  "insert_transaction_statement transaction anchor position inserted =
     transaction_with_statements transaction
       (concat (map (\<lambda>statement.
          (if statement = anchor \<and> position = ''before'' then [inserted] else []) @ [statement] @
          (if statement = anchor \<and> position = ''after'' then [inserted] else []))
          (lt_statements transaction)))"

section \<open>Labels\<close>

definition transaction_statement_label :: "string \<Rightarrow> logged_statement \<Rightarrow> nat \<Rightarrow> string" where
  "transaction_statement_label label statement index =
     (if ls_branch_index statement < 0 then label @ ''.N'' @ decimal (nat \<bar>ls_branch_index statement\<bar>)
      else label @ ''.'' @ decimal (index + 1))"

type_synonym shown = "(string, logged_transaction) dict"

definition statement_lookup :: "shown \<Rightarrow> (string, string \<times> logged_transaction \<times> logged_statement) dict" where
  "statement_lookup transactions_by_label =
     foldl (\<lambda>lookup (label, transaction, index, statement).
        dict_set (transaction_statement_label label statement index) (label, transaction, statement) lookup) []
       (concat (map (\<lambda>(label, transaction).
          map (\<lambda>(index, statement). (label, transaction, index, statement))
            (enumerate 0 (lt_statements transaction))) transactions_by_label))"

section \<open>One command\<close>

datatype edit_result = Changed | Handled | Not_Command

text \<open>What the editor hands back: its file, stripped.\<close>

definition edit_sql_in_editor :: "reply \<Rightarrow> string option" where
  "edit_sql_in_editor reply = map_option strip (snd reply)"

definition handle_delete :: "string \<Rightarrow> shown \<Rightarrow> edit_result \<times> shown" where
  "handle_delete delete_label transactions_by_label =
     (let lookup = statement_lookup transactions_by_label in
      if lookup = [] then (Handled, transactions_by_label)
      else if delete_label = [] then (Handled, transactions_by_label)
      else case map_of transactions_by_label delete_label of
        Some transaction \<Rightarrow>
          (Changed, dict_set delete_label (transaction_with_statements transaction []) transactions_by_label)
      | None \<Rightarrow>
          (case map_of lookup delete_label of
             None \<Rightarrow> (Handled, transactions_by_label)
           | Some (label, transaction, statement) \<Rightarrow>
               (Changed, dict_set label (replace_transaction_statement transaction statement None)
                  transactions_by_label)))"

definition handle_insert ::
    "'db terminal \<Rightarrow> 'db merge_context \<Rightarrow> 'db \<Rightarrow> reply \<Rightarrow> string \<times> string \<Rightarrow> shown \<Rightarrow>
     metadata_error + edit_result \<times> shown" where
  "handle_insert term ctx db reply command transactions_by_label =
     (let lookup = statement_lookup transactions_by_label in
      if lookup = [] then Inr (Handled, transactions_by_label)
      else case map_of lookup (snd command) of
        None \<Rightarrow> Inr (Handled, transactions_by_label)
      | Some (label, transaction, anchor) \<Rightarrow>
          (case edit_sql_in_editor reply of
             None \<Rightarrow> Inr (Handled, transactions_by_label)
           | Some edited_sql \<Rightarrow>
               if strip edited_sql = [] then Inr (Handled, transactions_by_label)
               else result_bind
                 (new_statement_sql term ctx db transaction (lt_statements transaction) edited_sql)
                 (\<lambda>inserted. Inr (Changed, dict_set label
                    (insert_transaction_statement transaction anchor (fst command) inserted)
                    transactions_by_label))))"

definition handle_edit ::
    "'db terminal \<Rightarrow> 'db merge_context \<Rightarrow> 'db \<Rightarrow> reply \<Rightarrow> string \<Rightarrow> shown \<Rightarrow> metadata_error + edit_result \<times> shown"
where
  "handle_edit term ctx db reply edit_label transactions_by_label =
     (let lookup = statement_lookup transactions_by_label in
      if lookup = [] then Inr (Handled, transactions_by_label)
      else if edit_label = [] then Inr (Handled, transactions_by_label)
      else case map_of lookup edit_label of
        None \<Rightarrow> Inr (Handled, transactions_by_label)
      | Some (label, transaction, statement) \<Rightarrow>
          (case edit_sql_in_editor reply of
             None \<Rightarrow> Inr (Handled, transactions_by_label)
           | Some edited_sql \<Rightarrow>
               result_bind
                 (if strip edited_sql = [] then Inr None
                  else result_bind (replace_statement_sql term ctx db statement edited_sql)
                    (\<lambda>replacement. Inr (Some replacement)))
                 (\<lambda>replacement. Inr (Changed, dict_set label
                    (replace_transaction_statement transaction statement replacement)
                    transactions_by_label))))"

definition handle_transaction_edit_command ::
    "'db terminal \<Rightarrow> 'db merge_context \<Rightarrow> 'db \<Rightarrow> reply \<Rightarrow> shown \<Rightarrow> metadata_error + edit_result \<times> shown" where
  "handle_transaction_edit_command term ctx db reply transactions_by_label =
     (let raw = strip (fst reply) in
      case parse_delete_command raw of
        Some label \<Rightarrow> Inr (handle_delete label transactions_by_label)
      | None \<Rightarrow>
          (case parse_insert_command raw of
             Some command \<Rightarrow> handle_insert term ctx db reply command transactions_by_label
           | None \<Rightarrow>
               (case parse_edit_command raw of
                  Some label \<Rightarrow> handle_edit term ctx db reply label transactions_by_label
                | None \<Rightarrow> Inr (Not_Command, transactions_by_label))))"

section \<open>Prompts\<close>

text \<open>
  The loop both prompts share: it ends when no statement is left, on an empty reply that is
  allowed, or on \<open>DELETE\<close> and \<open>;\<close>. The result comes with the replies that are left.
\<close>

datatype prompt_end = All_Deleted | Entered shown bool | Delete_Typed

fun prompt_loop ::
    "'db terminal \<Rightarrow> 'db merge_context \<Rightarrow> 'db \<Rightarrow> bool \<Rightarrow> bool \<Rightarrow> shown \<Rightarrow> reply list \<Rightarrow>
     ui_error + prompt_end \<times> reply list" where
  "prompt_loop term ctx db allow_accept changed_any labels replies =
     (if statement_lookup labels = [] then Inr (All_Deleted, replies)
      else case replies of
        [] \<Rightarrow> Inl End_Of_Input
      | reply # rest \<Rightarrow>
          let raw = strip (fst reply) in
          if raw = []
          then (if changed_any \<or> allow_accept then Inr (Entered labels changed_any, rest)
                else prompt_loop term ctx db allow_accept changed_any labels rest)
          else if ascii_upper raw = ''DELETE'' \<or> raw = '';'' then Inr (Delete_Typed, rest)
          else case handle_transaction_edit_command term ctx db reply labels of
            Inl e \<Rightarrow> Inl (Ui_Metadata_Error e)
          | Inr (result, labels') \<Rightarrow>
              prompt_loop term ctx db allow_accept (changed_any \<or> result = Changed) labels' rest)"

declare prompt_loop.simps [simp del]

text \<open>What one reply of a finished prompt did.\<close>

lemma prompt_loop_cases:
  assumes "prompt_loop term ctx db allow_accept changed_any labels (reply # rest) = Inr outcome"
  obtains (finished) "outcome = (All_Deleted, reply # rest)" "statement_lookup labels = []"
    | (enter) "outcome = (Entered labels changed_any, rest)" "changed_any \<or> allow_accept"
    | (again) "\<not> changed_any" "prompt_loop term ctx db allow_accept changed_any labels rest = Inr outcome"
    | (delete) "outcome = (Delete_Typed, rest)"
    | (command) result labels' where "handle_transaction_edit_command term ctx db reply labels = Inr (result, labels')"
        "prompt_loop term ctx db allow_accept (changed_any \<or> result = Changed) labels' rest = Inr outcome"
  using assms unfolding prompt_loop.simps [of "term" ctx db allow_accept changed_any labels "reply # rest"]
  by (auto simp: Let_def split: if_splits sum.splits prod.splits)

datatype pair_action = Accept_Action | Replace_Action

record pair_resolution =
  pr_action :: pair_action
  pr_ours :: "logged_transaction option"
  pr_theirs :: "logged_transaction option"
  pr_changed_ours :: bool
  pr_changed_theirs :: bool

definition both_deleted :: pair_resolution where
  "both_deleted =
     \<lparr>pr_action = Replace_Action, pr_ours = None, pr_theirs = None, pr_changed_ours = True,
      pr_changed_theirs = True\<rparr>"

definition pair_resolution_from_labels ::
    "shown \<Rightarrow> string \<Rightarrow> string \<Rightarrow> logged_transaction \<Rightarrow> logged_transaction \<Rightarrow> pair_resolution" where
  "pair_resolution_from_labels resolved_labels ours_label theirs_label ours_transaction theirs_transaction =
     (let ours_updated = the (map_of resolved_labels ours_label);
          theirs_updated = the (map_of resolved_labels theirs_label);
          kept = (\<lambda>t. if lt_statements t = [] then None else Some t) in
      \<lparr>pr_action = Replace_Action, pr_ours = kept ours_updated, pr_theirs = kept theirs_updated,
       pr_changed_ours = (ours_updated \<noteq> ours_transaction),
       pr_changed_theirs = (theirs_updated \<noteq> theirs_transaction)\<rparr>)"

definition refreshed :: "logged_transaction \<Rightarrow> logged_transaction" where
  "refreshed transaction = transaction_with_statements transaction (lt_statements transaction)"

text \<open>\<open>queue[conflict.index_for_branch(branch)]\<close>.\<close>

definition conflicting_transaction ::
    "conflict_pair \<Rightarrow> branch \<Rightarrow> logged_transaction list \<Rightarrow> ui_error + logged_transaction" where
  "conflicting_transaction conflict branch queue =
     (case index_for_branch conflict branch of
        None \<Rightarrow> Inl Ui_Value_Error
      | Some i \<Rightarrow> if i < length queue then Inr (queue ! i) else Inl Ui_Index_Error)"

definition shown_pair :: "conflict_pair \<Rightarrow> logged_transaction \<Rightarrow> logged_transaction \<Rightarrow> shown" where
  "shown_pair conflict ours_transaction theirs_transaction =
     (let labels_by_branch = dict_set (transaction_label theirs_transaction) (refreshed theirs_transaction)
            [(transaction_label ours_transaction, refreshed ours_transaction)];
          display_labels = (if pair_current_branch conflict = Ours
            then [transaction_label ours_transaction, transaction_label theirs_transaction]
            else [transaction_label theirs_transaction, transaction_label ours_transaction]) in
      foldl (\<lambda>d label. dict_set label (the (map_of labels_by_branch label)) d) [] display_labels)"

definition prompt_pair_transaction_resolution ::
    "'db terminal \<Rightarrow> 'db merge_context \<Rightarrow> 'db \<Rightarrow> conflict_pair \<Rightarrow> logged_transaction list \<Rightarrow>
     logged_transaction list \<Rightarrow> bool \<Rightarrow> reply list \<Rightarrow> ui_error + pair_resolution \<times> reply list" where
  "prompt_pair_transaction_resolution term ctx db conflict ours theirs allow_accept replies =
     result_bind (conflicting_transaction conflict Ours ours) (\<lambda>ours_transaction.
     result_bind (conflicting_transaction conflict Theirs theirs) (\<lambda>theirs_transaction.
     result_bind
       (prompt_loop term ctx db allow_accept False
          (shown_pair conflict ours_transaction theirs_transaction) replies)
       (\<lambda>(finished, rest). Inr
          (case finished of
             All_Deleted \<Rightarrow> both_deleted
           | Delete_Typed \<Rightarrow> both_deleted
           | Entered labels changed_any \<Rightarrow>
               if changed_any
               then pair_resolution_from_labels labels (transaction_label ours_transaction)
                      (transaction_label theirs_transaction) ours_transaction theirs_transaction
               else \<lparr>pr_action = Accept_Action, pr_ours = Some ours_transaction,
                      pr_theirs = Some theirs_transaction, pr_changed_ours = False,
                      pr_changed_theirs = False\<rparr>,
           rest))))"

text \<open>\<open>[]\<close> and \<open>None\<close> of the code are both the deletion of the transaction: callers test truth.\<close>

definition prompt_standalone_transaction_resolution ::
    "'db terminal \<Rightarrow> 'db merge_context \<Rightarrow> 'db \<Rightarrow> logged_transaction \<Rightarrow> bool \<Rightarrow> reply list \<Rightarrow>
     ui_error + logged_statement list option \<times> reply list" where
  "prompt_standalone_transaction_resolution term ctx db transaction allow_accept replies =
     (let label = transaction_label transaction in
      result_bind
        (prompt_loop term ctx db allow_accept False [(label, refreshed transaction)] replies)
        (\<lambda>(finished, rest). Inr
           (case finished of
              All_Deleted \<Rightarrow> Some []
            | Delete_Typed \<Rightarrow> None
            | Entered labels changed_any \<Rightarrow> Some (lt_statements (the (map_of labels label))),
            rest)))"

end
