(* ===== verification/Terminal_Mergetool.thy ===== *)
theory Terminal_Mergetool
  imports Terminal_Ui Control_Db
begin

text \<open>
  The mergetool: \<open>src/merge/terminal_mergetool.py\<close>. Each branch is first replayed alone on a
  fresh copy of the base; then the two queues are merged, a turn for each branch accepting its
  head once the scan against the opposite queue and the final replay find nothing the user has
  not settled. The queues, their metadata indexes, the locals of a turn and the replies still to
  be typed are one object beside the connection. Opening connections and writing the file are
  parameters.
\<close>

section \<open>Issues of one branch\<close>

record branch_replay_issue =
  bi_conflict :: statement_conflict
  bi_warning :: "(logged_statement \<times> string) option"

definition issue_allows_accept :: "branch_replay_issue \<Rightarrow> bool" where
  "issue_allows_accept issue \<longleftrightarrow> bi_warning issue \<noteq> None"

definition sqlite_replay_conflict_kind :: "sqlite_error \<Rightarrow> conflict_kind" where
  "sqlite_replay_conflict_kind error = (case error of Integrity_Error _ \<Rightarrow> Integrity | Other_Error _ \<Rightarrow> Replay_Error)"

definition branch_replay_conflict ::
    "conflict_kind \<Rightarrow> string \<Rightarrow> branch \<Rightarrow> logged_statement option \<Rightarrow> statement_conflict" where
  "branch_replay_conflict kind message scope statement =
     \<lparr>conflict_kind = kind, conflict_message = message, conflict_scope = branch_scope scope,
      conflict_details = (case statement of
          None \<Rightarrow> []
        | Some s \<Rightarrow> [(''statement_branch_index'', decimal_int (ls_branch_index s))])\<rparr>"

definition branch_replay_warning_issue :: "branch \<Rightarrow> logged_statement \<Rightarrow> string \<Rightarrow> branch_replay_issue" where
  "branch_replay_warning_issue scope statement warning =
     \<lparr>bi_conflict = branch_replay_conflict Replay_Error (''warning: '' @ warning) scope (Some statement),
      bi_warning = Some (statement, warning)\<rparr>"

definition statement_replay_warning :: "logged_statement \<Rightarrow> string option" where
  "statement_replay_warning statement =
     (case pending_replay_warning statement of
        Some warning \<Rightarrow> Some warning
      | None \<Rightarrow> find (\<lambda>warning. warning \<noteq> UPDATE_FROM_DUPLICATE_TARGET_WARNING \<and>
                  warning \<notin> accepted_replay_warnings statement) (replay_warnings statement))"

section \<open>Replaying one branch\<close>

text \<open>\<open>con.commit()\<close>: nothing to do when no transaction is open.\<close>

definition commit_connection :: "'db sqlite \<Rightarrow> ('db replay_state, unit) action" where
  "commit_connection eng s =
     (if stack s = [] then (Inr (), s)
      else case commit_error eng (transaction_start s) (content s) of
        None \<Rightarrow> (Inr (), s\<lparr>stack := []\<rparr>)
      | Some e \<Rightarrow> (Inl (Sqlite_Exn e), s))"

text \<open>The local \<open>last_statement\<close>, which the handler reads, is the object beside the connection.\<close>

definition stop_with ::
    "'db sqlite \<Rightarrow> string \<Rightarrow> branch_replay_issue \<Rightarrow>
     ('db, logged_statement option, branch_replay_issue option) object_action" where
  "stop_with eng name issue =
     and_then (on_connection (rollback_savepoint eng name)) (\<lambda>_. return_value (Some issue))"

definition replay_branch_statement ::
    "'db merge_context \<Rightarrow> string \<Rightarrow> branch \<Rightarrow> logged_statement \<Rightarrow>
     ('db, logged_statement option, branch_replay_issue option) object_action" where
  "replay_branch_statement ctx name branch statement =
     and_then (update_object (\<lambda>_. Some statement)) (\<lambda>_.
       case statement_replay_warning statement of
         Some warning \<Rightarrow> stop_with (engine ctx) name (branch_replay_warning_issue branch statement warning)
       | None \<Rightarrow>
       case unresolved_replay_block_reason statement of
         Some reason \<Rightarrow> stop_with (engine ctx) name
           \<lparr>bi_conflict = branch_replay_conflict Replay_Error reason branch (Some statement), bi_warning = None\<rparr>
       | None \<Rightarrow>
       and_then
         (if UPDATE_FROM_DUPLICATE_TARGET_WARNING \<in> accepted_replay_warnings statement then return_value False
          else on_connection (update_from_has_duplicate_target_rows ctx (ls_metadata statement)))
         (\<lambda>duplicates.
       if duplicates
       then stop_with (engine ctx) name
              (branch_replay_warning_issue branch statement UPDATE_FROM_DUPLICATE_TARGET_WARNING)
       else
       and_then (on_connection (conflict_resolution_branch_warning ctx statement)) (\<lambda>resolution_warning.
         case resolution_warning of
           Some warning \<Rightarrow>
             if warning \<notin> accepted_replay_warnings statement
             then stop_with (engine ctx) name (branch_replay_warning_issue branch statement warning)
             else and_then (on_connection (execute (engine ctx) (statement_sql_text statement)))
                    (\<lambda>_. return_value None)
         | None \<Rightarrow> and_then (on_connection (execute (engine ctx) (statement_sql_text statement)))
                    (\<lambda>_. return_value None))))"

definition replay_branch_statements ::
    "'db merge_context \<Rightarrow> string \<Rightarrow> logged_transaction \<Rightarrow>
     ('db, logged_statement option, branch_replay_issue option) object_action" where
  "replay_branch_statements ctx name transaction =
     catch_sqlite
       (and_then
          (for_until (replay_branch_statement ctx name (lt_branch transaction)) (lt_statements transaction))
          (\<lambda>stopped. case stopped of
             Some issue \<Rightarrow> return_value (Some issue)
           | None \<Rightarrow>
               and_then (on_connection (validate_database (engine ctx))) (\<lambda>errors.
                 if errors \<noteq> []
                 then stop_with (engine ctx) name
                   \<lparr>bi_conflict = branch_replay_conflict Integrity (join_with [CHR 0x0A] errors)
                      (lt_branch transaction) None, bi_warning = None\<rparr>
                 else and_then (on_connection (release (engine ctx) name)) (\<lambda>_.
                      and_then (on_connection (commit_connection (engine ctx))) (\<lambda>_. return_value None)))))
       (\<lambda>e. and_then the_object (\<lambda>last_statement.
          stop_with (engine ctx) name
            \<lparr>bi_conflict = branch_replay_conflict (sqlite_replay_conflict_kind e) (sqlite_error_text e)
               (lt_branch transaction) last_statement, bi_warning = None\<rparr>))"

definition branch_transaction_replay_issue ::
    "'db merge_context \<Rightarrow> logged_transaction \<Rightarrow> ('db replay_state, branch_replay_issue option) action" where
  "branch_transaction_replay_issue ctx transaction =
     and_then (open_savepoint (engine ctx) ''sqlite_merge_branch_'') (\<lambda>name c.
       case replay_branch_statements ctx name transaction (c, None) of (r, (c1, _)) \<Rightarrow> (r, c1))"

fun accept_warning_if_statement_still_present ::
    "logged_statement list \<Rightarrow> logged_statement \<Rightarrow> string \<Rightarrow> logged_statement list" where
  "accept_warning_if_statement_still_present [] warning_statement warning = []"
| "accept_warning_if_statement_still_present (statement # statements) warning_statement warning =
     (if statement = warning_statement then accept_replay_warning statement warning # statements
      else statement # accept_warning_if_statement_still_present statements warning_statement warning)"

section \<open>Asking the user\<close>

definition ui_exn :: "ui_error \<Rightarrow> exn" where
  "ui_exn e =
     (case e of
        End_Of_Input \<Rightarrow> End_Of_File_Exn
      | Ui_Metadata_Error m \<Rightarrow> metadata_exn m
      | Ui_Value_Error \<Rightarrow> Value_Exn ''standalone conflict has no opposite-branch index''
      | Ui_Index_Error \<Rightarrow> Index_Exn)"

text \<open>A prompt reads the connection and takes the replies it needs.\<close>

definition ask :: "('db \<Rightarrow> reply list \<Rightarrow> ui_error + 'a \<times> reply list) \<Rightarrow> ('db, reply list, 'a) object_action" where
  "ask prompt s =
     (case prompt (content (fst s)) (snd s) of
        Inl e \<Rightarrow> (Inl (ui_exn e), s)
      | Inr (x, replies) \<Rightarrow> (Inr x, (fst s, replies)))"

text \<open>
  The warning is recorded on the statement the prompt shows, and not afterwards on the statement
  that is the same object: the prompt hands an unedited statement back as it is, and a new
  statement, without accepted warnings, for one that was edited.
\<close>

definition transaction_to_ask :: "logged_transaction \<Rightarrow> branch_replay_issue \<Rightarrow> logged_transaction" where
  "transaction_to_ask current issue =
     (case bi_warning issue of
        None \<Rightarrow> current
      | Some (statement, warning) \<Rightarrow> current\<lparr>lt_statements :=
          accept_warning_if_statement_still_present (lt_statements current) statement warning\<rparr>)"

text \<open>One turn of the loop of \<open>_resolve_branch_transaction\<close>: the transaction to try next, or the result.\<close>

definition prompt_branch_issue ::
    "'db terminal \<Rightarrow> 'db merge_context \<Rightarrow> logged_transaction \<Rightarrow> branch_replay_issue \<Rightarrow>
     ('db, reply list, logged_transaction option) object_action" where
  "prompt_branch_issue term ctx current issue =
     and_then
       (ask (\<lambda>db. prompt_standalone_transaction_resolution term ctx db (transaction_to_ask current issue)
                    (issue_allows_accept issue)))
       (\<lambda>replacement_statements. return_value (case replacement_statements of
          None \<Rightarrow> None
        | Some statements \<Rightarrow>
            if statements = [] then None else Some (transaction_with_statements current statements)))"

text \<open>A prompt that hands statements back has taken a reply.\<close>

lemma prompt_loop_left:
  "prompt_loop term ctx db allow_accept changed_any labels replies = Inr outcome \<Longrightarrow>
     length (snd outcome) \<le> length replies \<and>
     (fst outcome \<noteq> All_Deleted \<longrightarrow> length (snd outcome) < length replies)"
proof (induction replies arbitrary: changed_any labels)
  case Nil
  then show ?case by (auto simp: prompt_loop.simps [of _ _ _ _ _ _ "[]"] split: if_splits)
next
  case (Cons reply rest)
  from Cons.prems show ?case
  proof (cases rule: prompt_loop_cases)
    case again
    from Cons.IH [OF again(2)] show ?thesis by auto
  next
    case command
    from Cons.IH [OF command(2)] show ?thesis by auto
  qed auto
qed

lemma standalone_prompt_left:
  assumes "prompt_standalone_transaction_resolution term ctx db transaction allow_accept replies = Inr (Some statements, rest)"
    and "statements \<noteq> []"
  shows "length rest < length replies"
  using assms
  by (auto simp: prompt_standalone_transaction_resolution_def Let_def result_bind_def
      split: sum.splits prod.splits prompt_end.splits dest!: prompt_loop_left)

lemma prompt_branch_issue_left:
  "prompt_branch_issue term ctx current issue s = (Inr (Some next), s') \<Longrightarrow> length (snd s') < length (snd s)"
  by (auto simp: prompt_branch_issue_def and_then_def ask_def return_value_def
      split: sum.splits prod.splits option.splits if_splits dest!: standalone_prompt_left)

lemma on_connection_object: "on_connection m s = (r, s') \<Longrightarrow> snd s' = snd s"
  by (auto simp: on_connection_def split: prod.splits)

function resolve_branch_transaction ::
    "'db terminal \<Rightarrow> 'db merge_context \<Rightarrow> logged_transaction \<Rightarrow>
     ('db, reply list, logged_transaction option) object_action" where
  "resolve_branch_transaction term ctx current s =
     (case on_connection (branch_transaction_replay_issue ctx current) s of
        (Inl e, s1) \<Rightarrow> (Inl e, s1)
      | (Inr None, s1) \<Rightarrow> (Inr (Some current), s1)
      | (Inr (Some issue), s1) \<Rightarrow>
          (case prompt_branch_issue term ctx current issue s1 of
             (Inl e, s2) \<Rightarrow> (Inl e, s2)
           | (Inr None, s2) \<Rightarrow> (Inr None, s2)
           | (Inr (Some next), s2) \<Rightarrow> resolve_branch_transaction term ctx next s2))"
  by pat_completeness auto
termination
  by (relation "measure (\<lambda>(_, _, _, s). length (snd s))")
    (auto dest!: sym [of "(_, _)" "on_connection _ _"] sym [of "(_, _)" "prompt_branch_issue _ _ _ _ _"]
      on_connection_object prompt_branch_issue_left)

declare resolve_branch_transaction.simps [simp del]

text \<open>Each branch is checked on a connection of its own, opened on a copy of the base.\<close>

definition new_connection :: "'db \<Rightarrow> nat \<Rightarrow> 'db replay_state" where
  "new_connection db draws = (replay_start db)\<lparr>uuid_draws := draws\<rparr>"

fun resolve_branch_transactions ::
    "'db terminal \<Rightarrow> 'db merge_context \<Rightarrow> logged_transaction list \<Rightarrow> logged_transaction list \<Rightarrow>
     ('db, reply list, logged_transaction list) object_action" where
  "resolve_branch_transactions term ctx resolved [] = return_value resolved"
| "resolve_branch_transactions term ctx resolved (transaction # transactions) =
     and_then (resolve_branch_transaction term ctx transaction) (\<lambda>replayed.
       resolve_branch_transactions term ctx
         (case replayed of None \<Rightarrow> resolved | Some t \<Rightarrow> resolved @ [t]) transactions)"

text \<open>The context of a branch check: no control copy.\<close>

definition branch_context :: "'db merge_context \<Rightarrow> 'db merge_context" where
  "branch_context ctx = ctx\<lparr>control_schema := None, control_sql_rewriter := None\<rparr>"

definition resolve_branch_replay_safety ::
    "'db terminal \<Rightarrow> 'db merge_context \<Rightarrow> 'db \<Rightarrow> logged_transaction list \<Rightarrow> nat \<Rightarrow> reply list \<Rightarrow>
     exn + logged_transaction list \<times> nat \<times> reply list" where
  "resolve_branch_replay_safety term ctx base_copy transactions draws replies =
     (case resolve_branch_transactions term (branch_context ctx) [] transactions
             (new_connection base_copy draws, replies) of
        (Inl e, _) \<Rightarrow> Inl e
      | (Inr resolved, (c, rest)) \<Rightarrow> Inr (resolved, uuid_draws c, rest))"

section \<open>The merge\<close>

record merge_run =
  mr_ours :: "logged_transaction list"
  mr_theirs :: "logged_transaction list"
  mr_index_ours :: remaining_index
  mr_index_theirs :: remaining_index
  mr_replies :: "reply list"
  mr_accepted_pair_keys :: "resolution_key set"
  mr_scan :: "current_scan option"
  mr_followup :: "conflict_pair option"

definition other_branch :: "branch \<Rightarrow> branch" where
  "other_branch branch = (case branch of Ours \<Rightarrow> Theirs | Theirs \<Rightarrow> Ours)"

definition queue_of :: "branch \<Rightarrow> merge_run \<Rightarrow> logged_transaction list" where
  "queue_of branch run = (case branch of Ours \<Rightarrow> mr_ours run | Theirs \<Rightarrow> mr_theirs run)"

definition metadata_index_of :: "branch \<Rightarrow> merge_run \<Rightarrow> remaining_index" where
  "metadata_index_of branch run = (case branch of Ours \<Rightarrow> mr_index_ours run | Theirs \<Rightarrow> mr_index_theirs run)"

definition set_branch :: "branch \<Rightarrow> logged_transaction list \<Rightarrow> remaining_index \<Rightarrow> merge_run \<Rightarrow> merge_run" where
  "set_branch branch queue index run =
     (case branch of
        Ours \<Rightarrow> run\<lparr>mr_ours := queue, mr_index_ours := index\<rparr>
      | Theirs \<Rightarrow> run\<lparr>mr_theirs := queue, mr_index_theirs := index\<rparr>)"

definition ask_user ::
    "('db \<Rightarrow> reply list \<Rightarrow> ui_error + 'a \<times> reply list) \<Rightarrow> ('db, merge_run, 'a) object_action" where
  "ask_user prompt s =
     (case ask prompt (fst s, mr_replies (snd s)) of
        (r, (c, replies)) \<Rightarrow> (r, (c, (snd s)\<lparr>mr_replies := replies\<rparr>)))"

text \<open>A method of the scan of this turn.\<close>

definition on_scan :: "('db, current_scan, 'a) object_action \<Rightarrow> ('db, merge_run, 'a) object_action" where
  "on_scan m s =
     (case mr_scan (snd s) of
        None \<Rightarrow> (Inl Assertion_Exn, s)
      | Some scan \<Rightarrow>
          (case m (fst s, scan) of (r, (c, scan')) \<Rightarrow> (r, (c, (snd s)\<lparr>mr_scan := Some scan'\<rparr>))))"

definition with_replacement ::
    "'db merge_context \<Rightarrow> branch \<Rightarrow> nat \<Rightarrow> logged_transaction option \<Rightarrow> merge_run \<Rightarrow> merge_run" where
  "with_replacement ctx branch index replacement run =
     (let queue = queue_of branch run;
          removed = remove_transaction (schema_context ctx) (queue ! index) (metadata_index_of branch run) in
      case replacement of
        None \<Rightarrow> set_branch branch (take index queue @ drop (Suc index) queue) removed run
      | Some t \<Rightarrow> set_branch branch (queue[index := t]) (add_transaction (schema_context ctx) t removed) run)"

definition replace_or_delete_transaction ::
    "'db merge_context \<Rightarrow> branch \<Rightarrow> nat \<Rightarrow> logged_transaction option \<Rightarrow> ('db, merge_run, unit) object_action" where
  "replace_or_delete_transaction ctx branch index replacement =
     and_then the_object (\<lambda>run.
     and_then (list_item (queue_of branch run) index) (\<lambda>_.
       update_object (with_replacement ctx branch index replacement)))"

section \<open>Resolving a conflict\<close>

datatype standalone_outcome = Current_Removed | Current_Changed

datatype side_outcome = Side_Unchanged | Side_Edited | Side_Deleted

datatype pair_outcome = Pair_Accepted | Pair_Resolved side_outcome side_outcome

definition outcome_side :: "pair_outcome \<Rightarrow> branch \<Rightarrow> side_outcome" where
  "outcome_side outcome branch =
     (case outcome of
        Pair_Accepted \<Rightarrow> Side_Unchanged
      | Pair_Resolved ours theirs \<Rightarrow> if branch = Ours then ours else theirs)"

definition pair_side_outcome :: "bool \<Rightarrow> logged_transaction option \<Rightarrow> side_outcome" where
  "pair_side_outcome changed replacement =
     (if \<not> changed then Side_Unchanged else if replacement = None then Side_Deleted else Side_Edited)"

definition is_reviewable_pair_conflict :: "conflict_pair \<Rightarrow> bool" where
  "is_reviewable_pair_conflict conflict \<longleftrightarrow>
     pair_conflicts conflict \<noteq> [] \<and>
     list_all (\<lambda>c. conflict_kind c \<notin> {Integrity, Replay_Error}) (pair_conflicts conflict)"

definition is_current_standalone_replay :: "conflict_pair \<Rightarrow> branch \<Rightarrow> bool" where
  "is_current_standalone_replay conflict current_branch \<longleftrightarrow>
     pair_is_standalone conflict \<and> pair_current_branch conflict = current_branch"

definition standalone_head_conflict :: "statement_conflict \<Rightarrow> branch \<Rightarrow> conflict_pair" where
  "standalone_head_conflict conflict current_branch =
     \<lparr>pair_current_branch = current_branch, pair_other_index = None, pair_ours_sql = [],
      pair_theirs_sql = [], pair_conflicts = [conflict], pair_resolution_key = None,
      pair_is_standalone = True\<rparr>"

definition unresolved_replay_safety_conflict :: "logged_transaction \<Rightarrow> statement_conflict option" where
  "unresolved_replay_safety_conflict transaction =
     (case List.find (\<lambda>statement. unresolved_replay_block_reason statement \<noteq> None) (lt_statements transaction) of
        None \<Rightarrow> None
      | Some statement \<Rightarrow>
          Some \<lparr>conflict_kind = Replay_Error,
                conflict_message = the (unresolved_replay_block_reason statement),
                conflict_scope = branch_scope (lt_branch transaction),
                conflict_details = [(''statement_branch_index'', decimal_int (ls_branch_index statement))]\<rparr>)"

text \<open>The conflict a standalone prompt is about is only printed.\<close>

definition resolve_standalone_replay ::
    "'db terminal \<Rightarrow> 'db merge_context \<Rightarrow> branch \<Rightarrow> conflict_pair \<Rightarrow>
     ('db, merge_run, standalone_outcome) object_action" where
  "resolve_standalone_replay term ctx scope conflict =
     and_then the_object (\<lambda>run.
     and_then (list_item (queue_of scope run) 0) (\<lambda>target_transaction.
     and_then
       (ask_user (\<lambda>db. prompt_standalone_transaction_resolution term ctx db target_transaction False))
       (\<lambda>replacement_statements.
          let replacement = (case replacement_statements of
                None \<Rightarrow> None
              | Some statements \<Rightarrow>
                  if statements = [] then None
                  else Some (transaction_with_statements target_transaction statements)) in
          and_then (replace_or_delete_transaction ctx scope 0 replacement) (\<lambda>_.
            return_value (if replacement = None then Current_Removed else Current_Changed)))))"

definition required_index :: "conflict_pair \<Rightarrow> branch \<Rightarrow> ('s, nat) action" where
  "required_index conflict branch =
     (case index_for_branch conflict branch of
        None \<Rightarrow> raise_exn (ui_exn Ui_Value_Error) | Some i \<Rightarrow> return_value i)"

definition change_side ::
    "'db merge_context \<Rightarrow> conflict_pair \<Rightarrow> branch \<Rightarrow> bool \<Rightarrow> logged_transaction option \<Rightarrow>
     ('db, merge_run, unit) object_action" where
  "change_side ctx conflict branch changed replacement =
     (if changed
      then and_then (required_index conflict branch) (\<lambda>index.
             replace_or_delete_transaction ctx branch index replacement)
      else return_value ())"

definition resolve_remaining_pair_conflict ::
    "'db terminal \<Rightarrow> 'db merge_context \<Rightarrow> conflict_pair \<Rightarrow> ('db, merge_run, pair_outcome) object_action" where
  "resolve_remaining_pair_conflict term ctx conflict =
     and_then the_object (\<lambda>run.
     and_then
       (ask_user (\<lambda>db. prompt_pair_transaction_resolution term ctx db conflict (mr_ours run) (mr_theirs run)
                         (is_reviewable_pair_conflict conflict)))
       (\<lambda>resolution.
          if pr_action resolution = Accept_Action then return_value Pair_Accepted
          else
            and_then (change_side ctx conflict Ours (pr_changed_ours resolution) (pr_ours resolution)) (\<lambda>_.
            and_then (change_side ctx conflict Theirs (pr_changed_theirs resolution) (pr_theirs resolution)) (\<lambda>_.
              return_value (Pair_Resolved
                (pair_side_outcome (pr_changed_ours resolution) (pr_ours resolution))
                (pair_side_outcome (pr_changed_theirs resolution) (pr_theirs resolution)))))))"

section \<open>One turn\<close>

definition forget_scan :: "'db merge_context \<Rightarrow> ('db, merge_run, unit) object_action" where
  "forget_scan ctx =
     and_then (on_scan (close_current_scan ctx)) (\<lambda>_.
       update_object (\<lambda>run. run\<lparr>mr_scan := None\<rparr>))"

text \<open>The next conflict: one that followed an accepted pair, or the next of the scan.\<close>

definition next_pair_of_turn ::
    "'db merge_context \<Rightarrow> branch \<Rightarrow> ('db, merge_run, conflict_pair option) object_action" where
  "next_pair_of_turn ctx branch =
     and_then the_object (\<lambda>run.
       case mr_followup run of
         Some conflict \<Rightarrow>
           and_then (update_object (\<lambda>r. r\<lparr>mr_followup := None\<rparr>)) (\<lambda>_. return_value (Some conflict))
       | None \<Rightarrow> on_scan (next_pair ctx (queue_of (other_branch branch) run)))"

text \<open>\<open>True\<close> ends the turn, \<open>False\<close> is \<open>continue\<close>.\<close>

definition ends_turn :: "standalone_outcome \<Rightarrow> bool" where
  "ends_turn outcome \<longleftrightarrow> outcome = Current_Removed"

definition handle_accepted_pair ::
    "'db merge_context \<Rightarrow> branch \<Rightarrow> conflict_pair \<Rightarrow> ('db, merge_run, bool) object_action" where
  "handle_accepted_pair ctx branch conflict =
     and_then
       (update_object (\<lambda>r. case pair_resolution_key conflict of
          None \<Rightarrow> r | Some key \<Rightarrow> r\<lparr>mr_accepted_pair_keys := insert key (mr_accepted_pair_keys r)\<rparr>)) (\<lambda>_.
     and_then the_object (\<lambda>run.
     and_then (on_scan (accept_pair ctx conflict (queue_of (other_branch branch) run))) (\<lambda>followup.
     and_then (update_object (\<lambda>r. r\<lparr>mr_followup := followup\<rparr>)) (\<lambda>_. return_value False))))"

definition handle_resolved_pair ::
    "'db merge_context \<Rightarrow> branch \<Rightarrow> side_outcome \<Rightarrow> side_outcome \<Rightarrow> ('db, merge_run, bool) object_action" where
  "handle_resolved_pair ctx branch current_outcome other_outcome =
     (if current_outcome = Side_Deleted
      then and_then (on_scan (close_current_scan ctx)) (\<lambda>_. return_value True)
      else if current_outcome = Side_Edited then and_then (forget_scan ctx) (\<lambda>_. return_value False)
      else if other_outcome = Side_Edited
      then and_then the_object (\<lambda>run.
           and_then
             (on_scan (enable_checks_after_other_edit ctx (metadata_index_of (other_branch branch) run)))
             (\<lambda>_. return_value False))
      else return_value False)"

definition handle_conflict ::
    "'db terminal \<Rightarrow> 'db merge_context \<Rightarrow> branch \<Rightarrow> conflict_pair \<Rightarrow> ('db, merge_run, bool) object_action" where
  "handle_conflict term ctx branch conflict =
     (if is_current_standalone_replay conflict branch
      then and_then (resolve_standalone_replay term ctx branch conflict) (\<lambda>outcome.
           and_then (forget_scan ctx) (\<lambda>_. return_value (ends_turn outcome)))
      else and_then (resolve_remaining_pair_conflict term ctx conflict) (\<lambda>outcome.
           if outcome = Pair_Accepted then handle_accepted_pair ctx branch conflict
           else handle_resolved_pair ctx branch (outcome_side outcome branch)
                  (outcome_side outcome (other_branch branch))))"

text \<open>No conflict is left: replay the current transaction for good.\<close>

definition accept_current ::
    "'db terminal \<Rightarrow> 'db merge_context \<Rightarrow> branch \<Rightarrow> logged_transaction \<Rightarrow> ('db, merge_run, bool) object_action" where
  "accept_current term ctx branch current =
     and_then (forget_scan ctx) (\<lambda>_.
     and_then (on_connection (apply_accepted_transaction ctx current)) (\<lambda>replay_error.
       case replay_error of
         Some conflict \<Rightarrow>
           and_then (resolve_standalone_replay term ctx branch (standalone_head_conflict conflict branch))
             (\<lambda>outcome. return_value (ends_turn outcome))
       | None \<Rightarrow>
           and_then
             (update_object (\<lambda>run. set_branch branch (tl (queue_of branch run))
                (remove_transaction (schema_context ctx) current (metadata_index_of branch run)) run))
             (\<lambda>_. return_value True)))"

definition close_open_scan :: "'db merge_context \<Rightarrow> ('db, merge_run, unit) object_action" where
  "close_open_scan ctx =
     and_then the_object (\<lambda>run. if mr_scan run = None then return_value () else forget_scan ctx)"

definition open_turn_scan ::
    "'db merge_context \<Rightarrow> branch \<Rightarrow> logged_transaction \<Rightarrow> ('db, merge_run, unit) object_action" where
  "open_turn_scan ctx branch current =
     update_object (\<lambda>run. if mr_scan run \<noteq> None then run
       else run\<lparr>mr_scan := Some (new_current_scan ctx current branch
              (metadata_index_of (other_branch branch) run) (mr_accepted_pair_keys run))\<rparr>)"

text \<open>One iteration for the current head.\<close>

definition check_current ::
    "'db terminal \<Rightarrow> 'db merge_context \<Rightarrow> branch \<Rightarrow> logged_transaction \<Rightarrow> ('db, merge_run, bool) object_action" where
  "check_current term ctx branch current =
     (case unresolved_replay_safety_conflict current of
        Some conflict \<Rightarrow>
          and_then (close_open_scan ctx) (\<lambda>_.
          and_then (resolve_standalone_replay term ctx branch (standalone_head_conflict conflict branch))
            (\<lambda>outcome. return_value (ends_turn outcome)))
      | None \<Rightarrow>
          and_then (open_turn_scan ctx branch current) (\<lambda>_.
          and_then (next_pair_of_turn ctx branch) (\<lambda>conflict.
            case conflict of
              Some pair \<Rightarrow> handle_conflict term ctx branch pair
            | None \<Rightarrow> accept_current term ctx branch current)))"

definition check_accept_step ::
    "'db terminal \<Rightarrow> 'db merge_context \<Rightarrow> branch \<Rightarrow> ('db, merge_run, bool) object_action" where
  "check_accept_step term ctx branch =
     and_then the_object (\<lambda>run.
     and_then (list_item (queue_of branch run) 0) (check_current term ctx branch))"

end
