(* ===== verification/Terminal_Merge_Loop.thy ===== *)
theory Terminal_Merge_Loop
  imports Terminal_Mergetool Conflict_Detection_Props
begin

text \<open>
  The loops of the mergetool. A turn that goes round again has taken a reply from the user; a
  turn that ends has shortened its own queue by one and not lengthened the other, so both loops
  are functions. Then the whole merge and its entry points.
\<close>

section \<open>What a prompt does to a run\<close>

lemma ask_user_result:
  "ask_user prompt s = (Inr x, s') \<Longrightarrow>
     \<exists>rest. prompt (content (fst s)) (mr_replies (snd s)) = Inr (x, rest) \<and>
       s' = (fst s, (snd s)\<lparr>mr_replies := rest\<rparr>)"
  by (auto simp: ask_user_def ask_def split: sum.splits prod.splits)

lemma and_then_result:
  "and_then m f s = (Inr y, s') \<Longrightarrow> \<exists>x s1. m s = (Inr x, s1) \<and> f x s1 = (Inr y, s')"
  by (auto simp: and_then_def split: prod.splits sum.splits)

lemma and_then_obtain:
  assumes "and_then m f s = (Inr y, s')"
  obtains x s1 where "m s = (Inr x, s1)" "f x s1 = (Inr y, s')"
  using assms and_then_result by metis

lemma queue_set_branch [simp]:
  "queue_of b (set_branch b q i run) = q"
  "queue_of (other_branch b) (set_branch b q i run) = queue_of (other_branch b) run"
  "mr_replies (set_branch b q i run) = mr_replies run"
  "mr_scan (set_branch b q i run) = mr_scan run"
  "mr_followup (set_branch b q i run) = mr_followup run"
  "mr_accepted_pair_keys (set_branch b q i run) = mr_accepted_pair_keys run"
  by (cases b; simp add: queue_of_def set_branch_def other_branch_def)+

lemma queue_other_fields [simp]:
  "queue_of b (run\<lparr>mr_replies := r\<rparr>) = queue_of b run"
  "queue_of b (run\<lparr>mr_scan := sc\<rparr>) = queue_of b run"
  "queue_of b (run\<lparr>mr_followup := fo\<rparr>) = queue_of b run"
  "queue_of b (run\<lparr>mr_accepted_pair_keys := ks\<rparr>) = queue_of b run"
  "metadata_index_of b (run\<lparr>mr_replies := r\<rparr>) = metadata_index_of b run"
  by (cases b; simp add: queue_of_def metadata_index_of_def)+

lemma other_branch_simps [simp]:
  "other_branch b \<noteq> b" "b \<noteq> other_branch b" "other_branch (other_branch b) = b"
  by (cases b; simp add: other_branch_def)+

lemma replace_result:
  "replace_or_delete_transaction ctx b i t s = (Inr u, s') \<Longrightarrow>
     i < length (queue_of b (snd s)) \<and> s' = (fst s, with_replacement ctx b i t (snd s))"
  by (auto simp: replace_or_delete_transaction_def and_then_def the_object_def list_item_def update_object_def
      return_value_def raise_exn_def split: if_splits)

text \<open>The standalone prompt deletes the head, or puts the statements it hands back in its place.\<close>

definition standalone_resolved ::
    "'db terminal \<Rightarrow> 'db merge_context \<Rightarrow> 'db \<Rightarrow> branch \<Rightarrow> standalone_outcome \<Rightarrow> merge_run \<Rightarrow> merge_run \<Rightarrow> bool"
where
  "standalone_resolved term ctx db b outcome run run' \<longleftrightarrow>
     queue_of b run \<noteq> [] \<and>
     (\<exists>rest. case outcome of
        Current_Removed \<Rightarrow>
          (\<exists>statements. prompt_standalone_transaction_resolution term ctx db (hd (queue_of b run)) False
            (mr_replies run) = Inr (statements, rest)) \<and>
          run' = with_replacement ctx b 0 None (run\<lparr>mr_replies := rest\<rparr>)
      | Current_Changed \<Rightarrow> (\<exists>statements. statements \<noteq> [] \<and>
          prompt_standalone_transaction_resolution term ctx db (hd (queue_of b run)) False (mr_replies run) =
            Inr (Some statements, rest) \<and>
          run' = with_replacement ctx b 0
            (Some (transaction_with_statements (hd (queue_of b run)) statements)) (run\<lparr>mr_replies := rest\<rparr>)))"

lemma standalone_prompt_le:
  "prompt_standalone_transaction_resolution term ctx db transaction allow_accept replies = Inr (statements, rest) \<Longrightarrow>
     length rest \<le> length replies"
  by (auto simp: prompt_standalone_transaction_resolution_def Let_def result_bind_def
      split: sum.splits prod.splits prompt_end.splits dest!: prompt_loop_left)

lemma standalone_result:
  assumes "resolve_standalone_replay term ctx b conflict (c, run) = (Inr outcome, s')"
  shows "fst s' = c \<and> standalone_resolved term ctx (content c) b outcome run (snd s')"
proof -
  let ?t = "queue_of b run ! 0"
  obtain statements rest where nonempty: "queue_of b run \<noteq> []" and prompt:
      "prompt_standalone_transaction_resolution term ctx (content c) ?t False (mr_replies run) =
         Inr (statements, rest)"
    and rest: "(let replacement = (case statements of None \<Rightarrow> None
        | Some sts \<Rightarrow> if sts = [] then None else Some (transaction_with_statements ?t sts)) in
      and_then (replace_or_delete_transaction ctx b 0 replacement)
        (\<lambda>_. return_value (if replacement = None then Current_Removed else Current_Changed)))
        (c, run\<lparr>mr_replies := rest\<rparr>) = (Inr outcome, s')"
    using assms
    by (auto simp: resolve_standalone_replay_def the_object_def list_item_def return_value_def raise_exn_def
        dest!: and_then_result ask_user_result split: if_splits)
  show ?thesis
  proof (cases "statements = None \<or> statements = Some []")
    case True
    then show ?thesis
      using rest nonempty prompt
      by (auto simp: standalone_resolved_def return_value_def hd_conv_nth dest!: and_then_result replace_result
          intro!: exI [of _ rest])
  next
    case False
    then obtain sts where sts: "statements = Some sts" "sts \<noteq> []" by (cases statements) auto
    then show ?thesis
      using rest nonempty prompt
      by (auto simp: standalone_resolved_def return_value_def hd_conv_nth dest!: and_then_result replace_result
          intro!: exI [of _ rest] exI [of _ sts])
  qed
qed

text \<open>
  The pair prompt accepts, or replaces or deletes the two transactions the conflict names. Only a
  deletion of both can have taken no reply.
\<close>

definition side_applied ::
    "'db merge_context \<Rightarrow> branch \<Rightarrow> nat \<Rightarrow> bool \<Rightarrow> logged_transaction option \<Rightarrow> merge_run \<Rightarrow> merge_run" where
  "side_applied ctx b i changed replacement run = (if changed then with_replacement ctx b i replacement run else run)"

definition pair_resolved ::
    "'db merge_context \<Rightarrow> conflict_pair \<Rightarrow> pair_resolution \<Rightarrow> reply list \<Rightarrow> pair_outcome \<Rightarrow> merge_run \<Rightarrow> merge_run \<Rightarrow> bool" where
  "pair_resolved ctx conflict resolution rest outcome run run' \<longleftrightarrow>
     (\<exists>i j. index_for_branch conflict Ours = Some i \<and> index_for_branch conflict Theirs = Some j \<and>
        i < length (mr_ours run) \<and> j < length (mr_theirs run) \<and>
        length rest \<le> length (mr_replies run) \<and>
        (length rest = length (mr_replies run) \<longrightarrow> resolution = both_deleted) \<and>
        (if pr_action resolution = Accept_Action
         then outcome = Pair_Accepted \<and> run' = run\<lparr>mr_replies := rest\<rparr>
         else outcome = Pair_Resolved (pair_side_outcome (pr_changed_ours resolution) (pr_ours resolution))
                (pair_side_outcome (pr_changed_theirs resolution) (pr_theirs resolution)) \<and>
              run' = side_applied ctx Theirs j (pr_changed_theirs resolution) (pr_theirs resolution)
                (side_applied ctx Ours i (pr_changed_ours resolution) (pr_ours resolution)
                  (run\<lparr>mr_replies := rest\<rparr>))))"

lemma pair_prompt_left:
  assumes "prompt_pair_transaction_resolution term ctx db conflict ours theirs allow replies = Inr (resolution, rest)"
  obtains i j where "index_for_branch conflict Ours = Some i" "i < length ours"
    "index_for_branch conflict Theirs = Some j" "j < length theirs"
    "length rest \<le> length replies" "length rest = length replies \<longrightarrow> resolution = both_deleted"
proof -
  obtain x y outcome where x: "conflicting_transaction conflict Ours ours = Inr x"
    and y: "conflicting_transaction conflict Theirs theirs = Inr y"
    and loop: "prompt_loop term ctx db allow False (shown_pair conflict x y) replies = Inr outcome"
    and res: "rest = snd outcome" "fst outcome = All_Deleted \<longrightarrow> resolution = both_deleted"
    using assms
    by (auto simp: prompt_pair_transaction_resolution_def result_bind_def split: sum.splits prod.splits)
  from x y obtain i j where "index_for_branch conflict Ours = Some i" "i < length ours"
    "index_for_branch conflict Theirs = Some j" "j < length theirs"
    by (auto simp: conflicting_transaction_def split: option.splits if_splits)
  then show thesis using that prompt_loop_left [OF loop] res by auto
qed

lemma change_side_result:
  "change_side ctx conflict b changed replacement s = (Inr u, s') \<Longrightarrow>
   index_for_branch conflict b = Some i \<Longrightarrow> s' = (fst s, side_applied ctx b i changed replacement (snd s))"
  by (auto simp: change_side_def side_applied_def required_index_def return_value_def raise_exn_def
      dest!: and_then_result replace_result split: if_splits)

lemma pair_result:
  assumes "resolve_remaining_pair_conflict term ctx conflict (c, run) = (Inr outcome, s')"
  obtains resolution rest where "fst s' = c" "pair_resolved ctx conflict resolution rest outcome run (snd s')"
    "prompt_pair_transaction_resolution term ctx (content c) conflict (mr_ours run) (mr_theirs run)
       (is_reviewable_pair_conflict conflict) (mr_replies run) = Inr (resolution, rest)"
proof -
  obtain resolution rest where prompt:
      "prompt_pair_transaction_resolution term ctx (content c) conflict (mr_ours run) (mr_theirs run)
         (is_reviewable_pair_conflict conflict) (mr_replies run) = Inr (resolution, rest)"
    and run: "(if pr_action resolution = Accept_Action then return_value Pair_Accepted
          else
            and_then (change_side ctx conflict Ours (pr_changed_ours resolution) (pr_ours resolution)) (\<lambda>_.
            and_then (change_side ctx conflict Theirs (pr_changed_theirs resolution) (pr_theirs resolution)) (\<lambda>_.
              return_value (Pair_Resolved
                (pair_side_outcome (pr_changed_ours resolution) (pr_ours resolution))
                (pair_side_outcome (pr_changed_theirs resolution) (pr_theirs resolution))))))
        (c, run\<lparr>mr_replies := rest\<rparr>) = (Inr outcome, s')"
    using assms
    by (auto simp: resolve_remaining_pair_conflict_def the_object_def dest!: and_then_result ask_user_result)
  obtain i j where ij: "index_for_branch conflict Ours = Some i" "i < length (mr_ours run)"
      "index_for_branch conflict Theirs = Some j" "j < length (mr_theirs run)"
      "length rest \<le> length (mr_replies run)" "length rest = length (mr_replies run) \<longrightarrow> resolution = both_deleted"
    using prompt by (rule pair_prompt_left)
  show thesis
  proof (cases "pr_action resolution = Accept_Action")
    case True
    then show thesis using that [OF _ _ prompt] run ij
      by (auto simp: pair_resolved_def return_value_def)
  next
    case False
    obtain s1 where ours: "change_side ctx conflict Ours (pr_changed_ours resolution) (pr_ours resolution)
          (c, run\<lparr>mr_replies := rest\<rparr>) = (Inr (), s1)"
      and theirs: "change_side ctx conflict Theirs (pr_changed_theirs resolution) (pr_theirs resolution)
          s1 = (Inr (), s')"
      and outcome: "outcome = Pair_Resolved (pair_side_outcome (pr_changed_ours resolution) (pr_ours resolution))
          (pair_side_outcome (pr_changed_theirs resolution) (pr_theirs resolution))"
      using run False by (auto simp: return_value_def dest!: and_then_result)
    show thesis
      using that [OF _ _ prompt] False outcome ij change_side_result [OF ours ij(1)]
        change_side_result [OF theirs ij(3)]
      by (auto simp: pair_resolved_def)
  qed
qed

section \<open>What the rest of a turn leaves alone\<close>

definition board ::
    "merge_run \<Rightarrow> logged_transaction list \<times> logged_transaction list \<times> remaining_index \<times> remaining_index \<times> reply list"
where
  "board run = (mr_ours run, mr_theirs run, mr_index_ours run, mr_index_theirs run, mr_replies run)"

definition same_board :: "('db, merge_run, 'a) object_action \<Rightarrow> bool" where
  "same_board m \<longleftrightarrow> (\<forall>s r s'. m s = (r, s') \<longrightarrow> board (snd s') = board (snd s))"

lemma same_boardD: "same_board m \<Longrightarrow> m s = (r, s') \<Longrightarrow> board (snd s') = board (snd s)"
  unfolding same_board_def by blast

lemma same_board_basic:
  "same_board (return_value x)" "same_board (raise_exn e)" "same_board the_object"
  "same_board (on_connection m)" "same_board (on_scan n)"
  "(\<And>run. board (f run) = board run) \<Longrightarrow> same_board (update_object f)"
  by (auto simp: same_board_def return_value_def raise_exn_def the_object_def on_connection_def on_scan_def
      update_object_def board_def split: option.splits prod.splits)

lemma same_board_and_then: "same_board m \<Longrightarrow> (\<And>x. same_board (f x)) \<Longrightarrow> same_board (and_then m f)"
  unfolding same_board_def and_then_def by (force split: prod.splits sum.splits)

lemma same_board_cases:
  "same_board m \<Longrightarrow> same_board n \<Longrightarrow> same_board (if q then m else n)"
  "same_board m \<Longrightarrow> (\<And>x. same_board (f x)) \<Longrightarrow> same_board (case opt of None \<Rightarrow> m | Some x \<Rightarrow> f x)"
  by (simp_all split: option.splits)

lemmas same_board_rules = same_board_basic same_board_and_then same_board_cases

lemma same_board_forget [simp, intro]: "same_board (forget_scan ctx)"
  unfolding forget_scan_def by (intro same_board_rules) (simp add: board_def)

lemma same_board_close_open [simp, intro]: "same_board (close_open_scan ctx)"
  unfolding close_open_scan_def by (intro same_board_rules same_board_forget)

lemma same_board_open_scan [simp, intro]: "same_board (open_turn_scan ctx b t)"
  unfolding open_turn_scan_def by (intro same_board_rules) (simp add: board_def)

lemma same_board_next_pair [simp, intro]: "same_board (next_pair_of_turn ctx b)"
  unfolding next_pair_of_turn_def by (intro same_board_rules) (simp add: board_def)

lemma same_board_accepted_pair [simp, intro]: "same_board (handle_accepted_pair ctx b conflict)"
  unfolding handle_accepted_pair_def by (intro same_board_rules) (simp_all add: board_def split: option.splits)

lemma same_board_resolved_pair [simp, intro]: "same_board (handle_resolved_pair ctx b x y)"
  unfolding handle_resolved_pair_def by (intro same_board_rules same_board_forget)

lemma board_queue: "board run' = board run \<Longrightarrow> queue_of b run' = queue_of b run"
  by (cases b) (simp_all add: board_def queue_of_def)

lemma board_replies: "board run' = board run \<Longrightarrow> mr_replies run' = mr_replies run"
  by (simp add: board_def)

section \<open>What a turn counts\<close>

lemma queue_with_replacement:
  "queue_of b' (with_replacement ctx b i t run) =
     (if b' = b
      then case t of None \<Rightarrow> take i (queue_of b run) @ drop (Suc i) (queue_of b run)
         | Some u \<Rightarrow> (queue_of b run)[i := u]
      else queue_of b' run)"
  by (cases b; cases b'; cases t) (simp_all add: with_replacement_def Let_def set_branch_def queue_of_def)

lemma with_replacement_fields [simp]:
  "mr_replies (with_replacement ctx b i t run) = mr_replies run"
  "mr_scan (with_replacement ctx b i t run) = mr_scan run"
  "mr_followup (with_replacement ctx b i t run) = mr_followup run"
  by (cases t; simp add: with_replacement_def Let_def)+

lemma length_with_replacement:
  "i < length (queue_of b run) \<Longrightarrow> length (queue_of b' (with_replacement ctx b i t run)) =
     length (queue_of b' run) - (if b' = b \<and> t = None then 1 else 0)"
  by (auto simp: queue_with_replacement split: option.splits)

lemma length_side_applied:
  "i < length (queue_of b run) \<Longrightarrow> length (queue_of b' (side_applied ctx b i changed t run)) =
     length (queue_of b' run) - (if b' = b \<and> pair_side_outcome changed t = Side_Deleted then 1 else 0)"
  by (auto simp: side_applied_def pair_side_outcome_def length_with_replacement)

definition step_counts :: "branch \<Rightarrow> bool \<Rightarrow> merge_run \<Rightarrow> merge_run \<Rightarrow> bool" where
  "step_counts b finished run run' \<longleftrightarrow>
     length (mr_replies run') \<le> length (mr_replies run) \<and>
     length (queue_of (other_branch b) run') \<le> length (queue_of (other_branch b) run) \<and>
     (if finished then Suc (length (queue_of b run')) = length (queue_of b run)
      else length (queue_of b run') = length (queue_of b run) \<and> length (mr_replies run') < length (mr_replies run))"

lemma step_counts_before:
  assumes "board run1 = board run" "step_counts b finished run1 run'"
  shows "step_counts b finished run run'"
  using assms(2) board_queue [OF assms(1), of b] board_queue [OF assms(1), of "other_branch b"]
    board_replies [OF assms(1)]
  by (auto simp: step_counts_def split: if_splits)

lemma step_counts_after:
  assumes "board run' = board run1" "step_counts b finished run run1"
  shows "step_counts b finished run run'"
  using assms(2) board_queue [OF assms(1), of b] board_queue [OF assms(1), of "other_branch b"]
    board_replies [OF assms(1)]
  by (auto simp: step_counts_def split: if_splits)

lemma standalone_counts:
  "standalone_resolved term ctx db b outcome run run' \<Longrightarrow> step_counts b (ends_turn outcome) run run'"
  by (cases outcome) (auto dest: standalone_prompt_left standalone_prompt_le simp: standalone_resolved_def step_counts_def ends_turn_def length_with_replacement
      queue_with_replacement)

lemma resolved_pair_ends:
  "handle_resolved_pair ctx b x y s = (Inr finished, s') \<Longrightarrow> finished = (x = Side_Deleted)"
  by (auto simp: handle_resolved_pair_def return_value_def dest!: and_then_result split: if_splits)

lemma pair_counts:
  assumes "pair_resolved ctx conflict resolution rest outcome run run'" "outcome \<noteq> Pair_Accepted"
  shows "step_counts b (outcome_side outcome b = Side_Deleted) run run'"
proof -
  obtain i j where ij: "i < length (mr_ours run)" "j < length (mr_theirs run)"
      and rest: "length rest \<le> length (mr_replies run)" "length rest = length (mr_replies run) \<longrightarrow> resolution = both_deleted"
      and outcome: "outcome = Pair_Resolved (pair_side_outcome (pr_changed_ours resolution) (pr_ours resolution))
            (pair_side_outcome (pr_changed_theirs resolution) (pr_theirs resolution))"
      and run': "run' = side_applied ctx Theirs j (pr_changed_theirs resolution) (pr_theirs resolution)
            (side_applied ctx Ours i (pr_changed_ours resolution) (pr_ours resolution) (run\<lparr>mr_replies := rest\<rparr>))"
    using assms by (auto simp: pair_resolved_def split: if_splits)
  let ?run1 = "side_applied ctx Ours i (pr_changed_ours resolution) (pr_ours resolution) (run\<lparr>mr_replies := rest\<rparr>)"
  have i: "i < length (queue_of Ours (run\<lparr>mr_replies := rest\<rparr>))" using ij by (simp add: queue_of_def)
  have "queue_of Theirs ?run1 = mr_theirs run"
    by (simp add: side_applied_def queue_with_replacement) (simp add: queue_of_def)
  then have j: "j < length (queue_of Theirs ?run1)" using ij by simp
  have "length (queue_of b' ?run1) = length (queue_of b' run) -
      (if b' = Ours \<and> pair_side_outcome (pr_changed_ours resolution) (pr_ours resolution) = Side_Deleted then 1 else 0)" for b'
    by (subst length_side_applied [OF i]) simp
  moreover have "length (queue_of b' run') = length (queue_of b' ?run1) -
      (if b' = Theirs \<and> pair_side_outcome (pr_changed_theirs resolution) (pr_theirs resolution) = Side_Deleted then 1 else 0)" for b'
    unfolding run' by (rule length_side_applied [OF j])
  ultimately have queues: "length (queue_of b' run') =
      length (queue_of b' run) - (if outcome_side outcome b' = Side_Deleted then 1 else 0)" for b'
    by (cases b') (simp_all add: outcome outcome_side_def)
  have replies: "mr_replies run' = rest" by (simp add: run' side_applied_def)
  have "0 < length (queue_of b run)" using ij by (cases b) (auto simp: queue_of_def)
  moreover have "outcome_side outcome b = Side_Deleted" if "resolution = both_deleted"
    using that outcome by (cases b) (simp_all add: outcome_side_def both_deleted_def pair_side_outcome_def)
  ultimately show ?thesis
    using queues [of b] queues [of "other_branch b"] replies rest
    by (auto simp: step_counts_def)
qed

lemma handle_conflict_counts:
  assumes "handle_conflict term ctx b conflict s = (Inr finished, s')"
  shows "step_counts b finished (snd s) (snd s')"
proof -
  obtain c run where s: "s = (c, run)" by fastforce
  show ?thesis
  proof (cases "is_current_standalone_replay conflict b")
    case True
    then obtain outcome s1 where one: "resolve_standalone_replay term ctx b conflict (c, run) = (Inr outcome, s1)"
        and two: "and_then (forget_scan ctx) (\<lambda>_. return_value (ends_turn outcome)) s1 = (Inr finished, s')"
      using and_then_result [OF assms [unfolded handle_conflict_def if_P [OF True] s]] by blast
    from two have "finished = ends_turn outcome" "board (snd s') = board (snd s1)"
      by (auto simp: return_value_def dest!: and_then_result dest: same_boardD [OF same_board_forget])
    moreover have "step_counts b (ends_turn outcome) run (snd s1)"
      by (rule standalone_counts [OF conjunct2 [OF standalone_result [OF one]]])
    ultimately show ?thesis using step_counts_after s by simp
  next
    case False
    then obtain outcome s1 where one: "resolve_remaining_pair_conflict term ctx conflict (c, run) = (Inr outcome, s1)"
        and two: "(if outcome = Pair_Accepted then handle_accepted_pair ctx b conflict
           else handle_resolved_pair ctx b (outcome_side outcome b) (outcome_side outcome (other_branch b))) s1
           = (Inr finished, s')"
      using and_then_result [OF assms [unfolded handle_conflict_def if_not_P [OF False] s]] by blast
    obtain resolution rest where pair: "pair_resolved ctx conflict resolution rest outcome run (snd s1)"
      using pair_result [OF one] by metis
    show ?thesis
    proof (cases "outcome = Pair_Accepted")
      case True
      have "\<not> finished" using two True
        by (auto simp: handle_accepted_pair_def return_value_def dest!: and_then_result)
      moreover have "board (snd s') = board (snd s1)"
        by (rule same_boardD [OF same_board_accepted_pair two [unfolded if_P [OF True]]])
      moreover have "step_counts b False run (snd s1)"
        using pair True by (auto simp: pair_resolved_def step_counts_def both_deleted_def order_less_le split: if_splits)
      ultimately show ?thesis using step_counts_after s by simp
    next
      case False
      note two = two [unfolded if_not_P [OF False]]
      show ?thesis
        using pair_counts [OF pair False, of b] resolved_pair_ends [OF two]
          step_counts_after [OF same_boardD [OF same_board_resolved_pair two]] s by simp
    qed
  qed
qed

lemma accept_current_counts:
  assumes "accept_current term ctx b current s = (Inr finished, s')" "queue_of b (snd s) \<noteq> []"
  shows "step_counts b finished (snd s) (snd s')"
proof -
  obtain u s1 where forgot: "forget_scan ctx s = (Inr u, s1)" and applying:
      "and_then (on_connection (apply_accepted_transaction ctx current)) (\<lambda>replay_error.
         case replay_error of
           Some conflict \<Rightarrow>
             and_then (resolve_standalone_replay term ctx b (standalone_head_conflict conflict b))
               (\<lambda>outcome. return_value (ends_turn outcome))
         | None \<Rightarrow>
             and_then
               (update_object (\<lambda>run. set_branch b (tl (queue_of b run))
                  (remove_transaction (schema_context ctx) current (metadata_index_of b run)) run))
               (\<lambda>_. return_value True)) s1 = (Inr finished, s')"
    by (rule and_then_obtain [OF assms(1) [unfolded accept_current_def]])
  obtain replay_error s2 where
      applied: "on_connection (apply_accepted_transaction ctx current) s1 = (Inr replay_error, s2)"
      and rest: "(case replay_error of
         Some conflict \<Rightarrow>
           and_then (resolve_standalone_replay term ctx b (standalone_head_conflict conflict b))
             (\<lambda>outcome. return_value (ends_turn outcome))
       | None \<Rightarrow>
           and_then
             (update_object (\<lambda>run. set_branch b (tl (queue_of b run))
                (remove_transaction (schema_context ctx) current (metadata_index_of b run)) run))
             (\<lambda>_. return_value True)) s2 = (Inr finished, s')"
    by (rule and_then_obtain [OF applying])
  have board: "board (snd s2) = board (snd s)"
    using same_boardD [OF same_board_forget forgot] on_connection_object [OF applied] by simp
  obtain c run where s2: "s2 = (c, run)" by fastforce
  have "step_counts b finished run (snd s')"
  proof (cases replay_error)
    case None
    then show ?thesis
      using rest s2 assms(2) board_queue [OF board, of b]
      by (auto simp: and_then_def update_object_def return_value_def step_counts_def)
  next
    case (Some conflict)
    then obtain outcome where "resolve_standalone_replay term ctx b (standalone_head_conflict conflict b) (c, run) =
        (Inr outcome, s')" "finished = ends_turn outcome"
      using rest s2 by (auto simp: return_value_def dest!: and_then_result)
    then show ?thesis using standalone_counts [OF conjunct2 [OF standalone_result]] by simp
  qed
  then have "step_counts b finished (snd s2) (snd s')" by (simp add: s2)
  with board show ?thesis by (rule step_counts_before)
qed

lemma check_current_counts:
  assumes "check_current term ctx b current s = (Inr finished, s')" "queue_of b (snd s) \<noteq> []"
  shows "step_counts b finished (snd s) (snd s')"
proof (cases "unresolved_replay_safety_conflict current")
  case (Some conflict)
  obtain c run where s: "s = (c, run)" by fastforce
  obtain c1 run1 outcome where closed: "close_open_scan ctx s = (Inr (), (c1, run1))"
      and one: "resolve_standalone_replay term ctx b (standalone_head_conflict conflict b) (c1, run1) = (Inr outcome, s')"
      and finished: "finished = ends_turn outcome"
    using assms(1) Some by (auto simp: check_current_def return_value_def dest!: and_then_result)
  have "board run1 = board run" using same_boardD [OF same_board_close_open closed] s by simp
  moreover have "step_counts b finished run1 (snd s')"
    using standalone_counts [OF conjunct2 [OF standalone_result [OF one]]] finished by simp
  ultimately show ?thesis unfolding s snd_conv by (rule step_counts_before)
next
  case None
  note run = assms(1) [unfolded check_current_def None option.case(1)]
  obtain u s1 where opened: "open_turn_scan ctx b current s = (Inr u, s1)"
      and finding: "and_then (next_pair_of_turn ctx b) (\<lambda>conflict.
          case conflict of Some pair \<Rightarrow> handle_conflict term ctx b pair
          | None \<Rightarrow> accept_current term ctx b current) s1 = (Inr finished, s')"
    by (rule and_then_obtain [OF run])
  obtain conflict s2 where found: "next_pair_of_turn ctx b s1 = (Inr conflict, s2)"
      and rest: "(case conflict of Some pair \<Rightarrow> handle_conflict term ctx b pair
           | None \<Rightarrow> accept_current term ctx b current) s2 = (Inr finished, s')"
    by (rule and_then_obtain [OF finding])
  have board: "board (snd s2) = board (snd s)"
    using same_boardD [OF same_board_open_scan opened] same_boardD [OF same_board_next_pair found] by simp
  have "step_counts b finished (snd s2) (snd s')"
  proof (cases conflict)
    case (Some pair)
    then show ?thesis using rest handle_conflict_counts by simp
  next
    case None
    have "queue_of b (snd s2) \<noteq> []" using board_queue [OF board] assms(2) by simp
    then show ?thesis using rest None accept_current_counts by simp
  qed
  with board show ?thesis by (rule step_counts_before)
qed

lemma check_accept_step_result:
  "check_accept_step term ctx b s = (Inr finished, s') \<Longrightarrow>
     queue_of b (snd s) \<noteq> [] \<and> check_current term ctx b (queue_of b (snd s) ! 0) s = (Inr finished, s')"
  by (auto simp: check_accept_step_def and_then_def the_object_def list_item_def return_value_def raise_exn_def
      split: if_splits)

lemma check_accept_step_counts:
  "check_accept_step term ctx b s = (Inr finished, s') \<Longrightarrow> step_counts b finished (snd s) (snd s')"
  using check_accept_step_result check_current_counts by blast

section \<open>The loops\<close>

function check_accept_loop ::
    "'db terminal \<Rightarrow> 'db merge_context \<Rightarrow> branch \<Rightarrow> ('db, merge_run, bool) object_action" where
  "check_accept_loop term ctx b s =
     (if queue_of b (snd s) = [] then (Inr True, s)
      else case check_accept_step term ctx b s of
        (Inl e, s1) \<Rightarrow> (Inl e, s1)
      | (Inr finished, s1) \<Rightarrow> if finished then (Inr True, s1) else check_accept_loop term ctx b s1)"
  by pat_completeness auto
termination
  by (relation "measure (\<lambda>(_, _, _, s). length (mr_replies (snd s)))")
    (auto dest!: sym [of "(_, _)" "check_accept_step _ _ _ _"] check_accept_step_counts simp: step_counts_def)

declare check_accept_loop.simps [simp del]

definition check_accept_current ::
    "'db terminal \<Rightarrow> 'db merge_context \<Rightarrow> branch \<Rightarrow> ('db, merge_run, bool) object_action" where
  "check_accept_current term ctx b =
     and_then (update_object (\<lambda>run. run\<lparr>mr_accepted_pair_keys := {}, mr_scan := None, mr_followup := None\<rparr>))
       (\<lambda>_. check_accept_loop term ctx b)"

definition turn_counts :: "branch \<Rightarrow> merge_run \<Rightarrow> merge_run \<Rightarrow> bool" where
  "turn_counts b run run' \<longleftrightarrow>
     length (mr_replies run') \<le> length (mr_replies run) \<and>
     length (queue_of (other_branch b) run') \<le> length (queue_of (other_branch b) run) \<and>
     length (queue_of b run') = length (queue_of b run) - 1"

lemma check_accept_loop_counts:
  "check_accept_loop term ctx b s = (Inr finished, s') \<Longrightarrow> finished \<and> turn_counts b (snd s) (snd s')"
proof (induction "term" ctx b s rule: check_accept_loop.induct)
  case (1 "term" ctx b s)
  show ?case
  proof (cases "queue_of b (snd s) = []")
    case True
    then show ?thesis using 1(2) check_accept_loop.simps [of "term" ctx b s] by (auto simp: turn_counts_def)
  next
    case False
    obtain r s1 where step: "check_accept_step term ctx b s = (r, s1)"
      by (cases "check_accept_step term ctx b s")
    then obtain ended where r: "r = Inr ended"
      using 1(2) False check_accept_loop.simps [of "term" ctx b s] by (cases r) auto
    note counts = check_accept_step_counts [OF step [unfolded r]]
    show ?thesis
    proof (cases ended)
      case True
      then show ?thesis
        using 1(2) False counts check_accept_loop.simps [of "term" ctx b s] step r
        by (auto simp: turn_counts_def step_counts_def)
    next
      case again: False
      then have "check_accept_loop term ctx b s1 = (Inr finished, s')"
        using 1(2) False check_accept_loop.simps [of "term" ctx b s] step r by simp
      from 1(1) [OF False step [symmetric] r again this] counts again
      show ?thesis by (auto simp: turn_counts_def step_counts_def)
    qed
  qed
qed

lemma check_accept_current_counts:
  "check_accept_current term ctx b s = (Inr finished, s') \<Longrightarrow> finished \<and> turn_counts b (snd s) (snd s')"
  by (auto simp: check_accept_current_def turn_counts_def update_object_def
      dest!: and_then_result check_accept_loop_counts)

text \<open>The result of the loop is \<open>True\<close>, or \<open>False\<close> where the code returns 1.\<close>

function merge_loop :: "'db terminal \<Rightarrow> 'db merge_context \<Rightarrow> ('db, merge_run, bool) object_action" where
  "merge_loop term ctx s =
     (if mr_ours (snd s) = [] \<and> mr_theirs (snd s) = [] then (Inr True, s)
      else case check_accept_current term ctx Ours s of
        (Inl e, s1) \<Rightarrow> (Inl e, s1)
      | (Inr finished, s1) \<Rightarrow>
          if \<not> finished then (Inr False, s1)
          else case check_accept_current term ctx Theirs s1 of
            (Inl e, s2) \<Rightarrow> (Inl e, s2)
          | (Inr finished, s2) \<Rightarrow> if \<not> finished then (Inr False, s2) else merge_loop term ctx s2)"
  by pat_completeness auto

lemma merge_round_counts:
  assumes "check_accept_current term ctx Ours s = (Inr x, s1)" "check_accept_current term ctx Theirs s1 = (Inr y, s2)"
    and "\<not> (mr_ours (snd s) = [] \<and> mr_theirs (snd s) = [])"
  shows "length (mr_ours (snd s2)) + length (mr_theirs (snd s2)) < length (mr_ours (snd s)) + length (mr_theirs (snd s))"
  using assms(3) check_accept_current_counts [OF assms(1)] check_accept_current_counts [OF assms(2)]
  by (cases "mr_ours (snd s)"; cases "mr_theirs (snd s)")
    (auto simp: turn_counts_def queue_of_def other_branch_def)

termination merge_loop
  by (relation "measure (\<lambda>(_, _, s). length (mr_ours (snd s)) + length (mr_theirs (snd s)))")
    (simp, simp only: in_measure split_conv, metis merge_round_counts)

declare merge_loop.simps [simp del]

section \<open>The whole merge\<close>

text \<open>What opening the databases gives: two working copies of the base, and one with its control copy.\<close>

record 'db opened =
  op_ours_copy :: 'db
  op_theirs_copy :: 'db
  op_working_copy :: 'db

definition start_merge ::
    "'db merge_context \<Rightarrow> logged_transaction list \<Rightarrow> logged_transaction list \<Rightarrow> reply list \<Rightarrow> merge_run" where
  "start_merge ctx ours theirs replies =
     \<lparr>mr_ours = ours, mr_theirs = theirs,
      mr_index_ours = from_transactions (schema_context ctx) ours,
      mr_index_theirs = from_transactions (schema_context ctx) theirs,
      mr_replies = replies, mr_accepted_pair_keys = {}, mr_scan = None, mr_followup = None\<rparr>"

text \<open>
  The exit code, and what was written. \<open>write_fails\<close> says whether SQLite or the file system
  refuses the backup of a content into the merged file; only that error is caught.
\<close>

definition write_working_result ::
    "'db merge_context \<Rightarrow> ('db \<Rightarrow> bool) \<Rightarrow> 'db replay_state \<Rightarrow> exn + nat \<times> 'db option" where
  "write_working_result ctx write_fails c =
     (case commit_connection (engine ctx) c of
        (Inl (Sqlite_Exn e), _) \<Rightarrow> Inr (1, None)
      | (Inl e, _) \<Rightarrow> Inl e
      | (Inr _, c1) \<Rightarrow> Inr (if write_fails (content c1) then (1, None) else (0, Some (content c1))))"

definition resolve_merge_transactions ::
    "'db terminal \<Rightarrow> 'db merge_context \<Rightarrow> 'db opened \<Rightarrow> ('db \<Rightarrow> bool) \<Rightarrow> logged_transaction list \<Rightarrow>
     logged_transaction list \<Rightarrow> reply list \<Rightarrow> exn + nat \<times> 'db option" where
  "resolve_merge_transactions term ctx opened write_fails ours theirs replies =
     result_bind (resolve_branch_replay_safety term ctx (op_ours_copy opened) ours 0 replies) (\<lambda>(ours1, draws1, replies1).
     result_bind (resolve_branch_replay_safety term ctx (op_theirs_copy opened) theirs draws1 replies1)
       (\<lambda>(theirs1, draws2, replies2).
       case merge_loop term ctx
              (new_connection (op_working_copy opened) draws2, start_merge ctx ours1 theirs1 replies2) of
         (Inl e, _) \<Rightarrow> Inl e
       | (Inr finished, (c, _)) \<Rightarrow>
           if finished then write_working_result ctx write_fails c else Inr (1, None)))"

text \<open>The merge context is the one the opened working connection gets, with the cache of the base.\<close>

definition resolve_direct_merge ::
    "'db terminal \<Rightarrow> 'db sqlite \<Rightarrow> sqlglot \<Rightarrow> (string \<Rightarrow> parsed_sql option) \<Rightarrow> (parsed_sql \<Rightarrow> rendered_sql) \<Rightarrow>
     'db opened \<Rightarrow> ('db \<Rightarrow> bool) \<Rightarrow> merge_files \<Rightarrow> reply list \<Rightarrow> exn + nat \<times> 'db option" where
  "resolve_direct_merge term eng glot parse rendering opened write_fails files replies =
     (case load_merge_inputs parse (parse_error_text term) files of
        Inl (Not_Applicable _ _ _ _ _) \<Rightarrow> Inr (1, None)
      | Inl (Metadata_Error e) \<Rightarrow> Inl (metadata_exn e)
      | Inr (ours, theirs, schema_cache) \<Rightarrow>
          resolve_merge_transactions term
            (merge_context_for eng glot parse rendering
               \<lparr>ctx_catalog = mf_base_catalog files, ctx_cache = schema_cache\<rparr>)
            opened write_fails ours theirs replies)"

section \<open>The command\<close>

definition SUPPORTED_DATABASE_SUFFIXES :: "string list" where
  "SUPPORTED_DATABASE_SUFFIXES = [''.db'', ''.sqlite'']"

text \<open>\<open>Path(p).suffix\<close>: of the last component, from its last dot, if that is neither first nor last.\<close>

definition path_name :: "string \<Rightarrow> string" where
  "path_name path =
     (case filter (\<lambda>part. part \<noteq> [] \<and> part \<noteq> ''.'')
             (foldr (\<lambda>c parts. if c = CHR ''/'' then [] # parts else (c # hd parts) # tl parts) path [[]]) of
        [] \<Rightarrow> [] | parts \<Rightarrow> last parts)"

definition path_suffix :: "string \<Rightarrow> string" where
  "path_suffix path =
     (let name = path_name path;
          after = takeWhile (\<lambda>c. c \<noteq> CHR ''.'') (rev name) in
      if length after + 1 < length name \<and> after \<noteq> [] then CHR ''.'' # rev after else [])"

text \<open>What a look at a path finds.\<close>

datatype file_probe = Not_A_File | Reads_As_Sqlite | Database_Error string | Os_Error string

definition sqlite_database_error :: "(string \<Rightarrow> file_probe) \<Rightarrow> string \<Rightarrow> string \<Rightarrow> load_error option" where
  "sqlite_database_error probe db_path role =
     (case probe db_path of
        Not_A_File \<Rightarrow> Some (Not_Applicable db_path role [] (Some ''does not exist'') [])
      | Database_Error message \<Rightarrow>
          Some (Not_Applicable db_path role [] (Some ''is not a readable SQLite database'') [message])
      | Os_Error message \<Rightarrow> Some (Not_Applicable db_path role [] (Some ''could not be read'') [message])
      | Reads_As_Sqlite \<Rightarrow> None)"

fun first_some :: "'a option list \<Rightarrow> 'a option" where
  "first_some [] = None"
| "first_some (None # rest) = first_some rest"
| "first_some (Some x # rest) = Some x"

definition sqlite_database_preflight ::
    "(string \<Rightarrow> file_probe) \<Rightarrow> string \<Rightarrow> string \<Rightarrow> string \<Rightarrow> load_error option" where
  "sqlite_database_preflight probe base ours theirs =
     first_some (map (\<lambda>(role, path). sqlite_database_error probe path role)
       [(''base'', base), (''ours'', ours), (''theirs'', theirs)])"

text \<open>
  The positional arguments, and the exit code with what was written into the merged file; a usage
  error exits with 2. \<open>merge_paths\<close> is the merge of three readable databases.
\<close>

definition mergetool_main ::
    "(string \<Rightarrow> file_probe) \<Rightarrow> (string \<Rightarrow> string \<Rightarrow> string \<Rightarrow> string \<Rightarrow> exn + nat \<times> 'db option) \<Rightarrow> string list \<Rightarrow>
     exn + nat \<times> 'db option" where
  "mergetool_main probe merge_paths paths =
     (if length paths = 3 \<or> length paths = 4
      then let base = paths ! 0; ours = paths ! 1; theirs = paths ! 2;
               merged = (if length paths = 4 then paths ! 3 else ours) in
        if ascii_lower (path_suffix merged) \<notin> set SUPPORTED_DATABASE_SUFFIXES then Inr (1, None)
        else if sqlite_database_preflight probe base ours theirs \<noteq> None then Inr (1, None)
        else merge_paths base ours theirs merged
      else Inr (2, None))"

lemma path_suffix_examples:
  "path_suffix ''/tmp/a.b/merged.db'' = ''.db''" "path_suffix ''.db'' = []" "path_suffix ''a.'' = []"
  "path_suffix ''x/y.sqlite/'' = ''.sqlite''" "path_suffix ''plain'' = []"
  by code_simp+

end
