(* ===== verification/Terminal_Ui_Props.thy ===== *)
theory Terminal_Ui_Props
  imports Terminal_Ui Log_Merge_Props Models_Props
begin

text \<open>
  What the user can do: one command edits one statement, inserts one, or deletes one or all
  statements of one shown transaction; a prompt is a sequence of such commands, and nothing is
  accepted unless the caller allows it.
\<close>

section \<open>Edit steps\<close>

text \<open>What a command may do to a transaction, stated without labels and loops.\<close>

inductive edit_step :: "logged_transaction \<Rightarrow> logged_statement list \<Rightarrow> bool" for t where
  delete_all: "edit_step t []"
| delete_one: "lt_statements t = xs @ s # ys \<Longrightarrow> edit_step t (xs @ ys)"
| replace_one: "lt_statements t = xs @ s # ys \<Longrightarrow> ls_branch s' = ls_branch s \<Longrightarrow>
    ls_branch_index s' = ls_branch_index s \<Longrightarrow> ls_transaction_id s' = ls_transaction_id s \<Longrightarrow>
    ls_committed_at s' = ls_committed_at s \<Longrightarrow> edit_step t (xs @ s' # ys)"
| insert_one: "lt_statements t = xs @ ys \<Longrightarrow> ls_branch s' = lt_branch t \<Longrightarrow>
    ls_transaction_id s' = lt_transaction_id t \<Longrightarrow> ls_committed_at s' = lt_committed_at t \<Longrightarrow>
    ls_branch_index s' < 0 \<Longrightarrow> ls_branch_index s' \<notin> ls_branch_index ` set (lt_statements t) \<Longrightarrow>
    edit_step t (xs @ s' # ys)"

inductive_cases edit_stepE: "edit_step t ss"

definition indexes_distinct :: "logged_transaction \<Rightarrow> bool" where
  "indexes_distinct t \<longleftrightarrow> distinct (map ls_branch_index (lt_statements t))"

lemma edit_step_distinct:
  "edit_step t ss \<Longrightarrow> indexes_distinct t \<Longrightarrow> distinct (map ls_branch_index ss)"
  by (auto simp: indexes_distinct_def elim!: edit_stepE)

lemma transaction_with_statements_fields [simp]:
  "lt_statements (transaction_with_statements t ss) = ss"
  "lt_metadata (transaction_with_statements t ss) = transaction_metadata (map ls_metadata ss)"
  "lt_branch (transaction_with_statements t ss) = lt_branch t"
  "lt_branch_index (transaction_with_statements t ss) = lt_branch_index t"
  "lt_transaction_id (transaction_with_statements t ss) = lt_transaction_id t"
  "lt_committed_at (transaction_with_statements t ss) = lt_committed_at t"
  "transaction_label (transaction_with_statements t ss) = transaction_label t"
  by (simp_all add: transaction_with_statements_def transaction_label_def)

lemma with_statements_twice [simp]:
  "transaction_with_statements (transaction_with_statements t ss) ss' = transaction_with_statements t ss'"
  by (simp add: transaction_with_statements_def)

section \<open>The loops over statements\<close>

lemma loop_skips:
  "s \<notin> set xs \<Longrightarrow> concat (map (\<lambda>x. if x = s then r else [x]) xs) = xs"
  by (induction xs) auto

lemma replace_at:
  assumes "indexes_distinct t" "lt_statements t = xs @ s # ys"
  shows "replace_transaction_statement t s r =
    transaction_with_statements t (xs @ (case r of None \<Rightarrow> [] | Some s' \<Rightarrow> [s']) @ ys)"
proof -
  have "s \<notin> set xs" "s \<notin> set ys" using assms by (auto simp: indexes_distinct_def)
  then show ?thesis by (simp add: replace_transaction_statement_def assms(2) loop_skips)
qed

lemma insert_skips:
  "s \<notin> set xs \<Longrightarrow> concat (map (\<lambda>x. (if x = s then [i] else []) @ [x]) xs) = xs"
  "s \<notin> set xs \<Longrightarrow> concat (map (\<lambda>x. x # (if x = s then [i] else [])) xs) = xs"
  by (induction xs) auto

lemma insert_at:
  assumes "indexes_distinct t" "lt_statements t = xs @ s # ys" "position \<in> {''before'', ''after''}"
  shows "insert_transaction_statement t s position i =
    transaction_with_statements t (if position = ''before'' then xs @ i # s # ys else xs @ s # i # ys)"
proof -
  have "s \<notin> set xs" "s \<notin> set ys" using assms by (auto simp: indexes_distinct_def)
  then show ?thesis
    using assms(3) by (elim insertE emptyE) (simp_all add: insert_transaction_statement_def assms(2) insert_skips)
qed

lemma foldl_min_le: "foldl min (a :: int) is \<le> a \<and> (\<forall>i \<in> set is. foldl min a is \<le> i)"
  by (induction "is" arbitrary: a) (auto, (meson min.cobounded1 min.cobounded2 order_trans)+)

lemma new_branch_index_fresh:
  "new_branch_index ss < 0 \<and> (\<forall>s \<in> set ss. new_branch_index ss < ls_branch_index s)"
proof (cases ss)
  case Nil
  then show ?thesis by (simp add: new_branch_index_def)
next
  case (Cons s rest)
  have "foldl min (ls_branch_index s) (map ls_branch_index rest) \<le> ls_branch_index s'" if "s' \<in> set ss" for s'
    using foldl_min_le [of "ls_branch_index s" "map ls_branch_index rest"] that Cons by auto
  then show ?thesis using Cons by (force simp: new_branch_index_def)
qed

section \<open>Looking statements up\<close>

lemma map_of_foldl_set:
  "map_of (foldl (\<lambda>d x. dict_set (f x) (g x) d) d xs) k =
     (case find (\<lambda>x. f x = k) (rev xs) of Some x \<Rightarrow> Some (g x) | None \<Rightarrow> map_of d k)"
proof (induction xs rule: rev_induct)
  case Nil
  show ?case by simp
next
  case (snoc x xs)
  then show ?case by simp
qed

lemma foldl_set_empty: "foldl (\<lambda>d x. dict_set (f x) (g x) d) d xs = [] \<longleftrightarrow> xs = [] \<and> d = []"
proof (induction xs arbitrary: d)
  case (Cons x xs)
  have "dict_set (f x) (g x) d \<noteq> []" by (cases d) auto
  then show ?case by (simp add: Cons)
qed simp

text \<open>The items of the lookup, as the nested loops produce them.\<close>

definition lookup_items :: "shown \<Rightarrow> (string \<times> logged_transaction \<times> nat \<times> logged_statement) list" where
  "lookup_items labels =
     concat (map (\<lambda>(label, t). map (\<lambda>(i, s). (label, t, i, s)) (enumerate 0 (lt_statements t))) labels)"

definition item_label :: "string \<times> logged_transaction \<times> nat \<times> logged_statement \<Rightarrow> string" where
  "item_label = (\<lambda>(label, t, i, s). transaction_statement_label label s i)"

lemma statement_lookup_items:
  "statement_lookup labels =
     foldl (\<lambda>d x. dict_set (item_label x) (case x of (label, t, i, s) \<Rightarrow> (label, t, s)) d) [] (lookup_items labels)"
  unfolding statement_lookup_def lookup_items_def item_label_def
  by (rule arg_cong [where f = "\<lambda>f. foldl f [] _"]) (auto simp: fun_eq_iff)

lemma in_lookup_items:
  "(label, t, i, s) \<in> set (lookup_items labels) \<longleftrightarrow>
     (label, t) \<in> set labels \<and> i < length (lt_statements t) \<and> s = lt_statements t ! i"
proof
  assume "(label, t, i, s) \<in> set (lookup_items labels)"
  then show "(label, t) \<in> set labels \<and> i < length (lt_statements t) \<and> s = lt_statements t ! i"
    by (auto simp: lookup_items_def in_set_enumerate_eq)
next
  assume *: "(label, t) \<in> set labels \<and> i < length (lt_statements t) \<and> s = lt_statements t ! i"
  then have "(i, s) \<in> set (enumerate 0 (lt_statements t))" by (simp add: in_set_enumerate_eq)
  then have "(label, t, i, s) \<in> set (map (\<lambda>(i, s). (label, t, i, s)) (enumerate 0 (lt_statements t)))"
    by force
  with * show "(label, t, i, s) \<in> set (lookup_items labels)"
    unfolding lookup_items_def set_concat set_map by (intro UN_I [OF imageI]) auto
qed

lemma find_SomeD: "find P xs = Some x \<Longrightarrow> x \<in> set xs \<and> P x"
  by (auto simp: find_Some_iff)

lemma lookup_sound:
  assumes "map_of (statement_lookup labels) k = Some (label, t, s)"
  shows "\<exists>i. (label, t) \<in> set labels \<and> i < length (lt_statements t) \<and> s = lt_statements t ! i"
proof -
  obtain x where x: "find (\<lambda>x. item_label x = k) (rev (lookup_items labels)) = Some x"
    and same: "(case x of (label, t, i, s) \<Rightarrow> (label, t, s)) = (label, t, s)"
    using assms by (auto simp: statement_lookup_items map_of_foldl_set split: option.splits)
  obtain l t' i s' where p: "x = (l, t', i, s')" by (metis prod.exhaust)
  have "x \<in> set (lookup_items labels)" using find_SomeD [OF x] by simp
  then show ?thesis using same p by (auto simp: in_lookup_items)
qed

lemma enumerate_empty: "enumerate n xs = [] \<longleftrightarrow> xs = []"
  by (metis length_0_conv length_enumerate)

lemma lookup_empty: "statement_lookup labels = [] \<longleftrightarrow> (\<forall>(label, t) \<in> set labels. lt_statements t = [])"
proof -
  have "lookup_items labels = [] \<longleftrightarrow> (\<forall>(label, t) \<in> set labels. lt_statements t = [])"
    unfolding lookup_items_def
    by (auto simp: case_prod_beta enumerate_empty)
  then show ?thesis by (simp add: statement_lookup_items foldl_set_empty)
qed

section \<open>One command\<close>

definition shown_ok :: "shown \<Rightarrow> bool" where
  "shown_ok labels \<longleftrightarrow> dict_ok labels \<and> (\<forall>(label, t) \<in> set labels. indexes_distinct t)"

definition one_edit :: "shown \<Rightarrow> shown \<Rightarrow> bool" where
  "one_edit labels labels' \<longleftrightarrow>
     (\<exists>label t ss. map_of labels label = Some t \<and> edit_step t ss \<and>
        labels' = dict_set label (transaction_with_statements t ss) labels)"

lemma one_edit_ok: "one_edit labels labels' \<Longrightarrow> shown_ok labels \<Longrightarrow> shown_ok labels'"
proof -
  assume edit: "one_edit labels labels'" and ok: "shown_ok labels"
  obtain label t ss where e: "map_of labels label = Some t" "edit_step t ss"
      "labels' = dict_set label (transaction_with_statements t ss) labels"
    using edit by (auto simp: one_edit_def)
  have "indexes_distinct t" using ok map_of_SomeD [OF e(1)] by (auto simp: shown_ok_def)
  then have "indexes_distinct (transaction_with_statements t ss)"
    using edit_step_distinct [OF e(2)] by (simp add: indexes_distinct_def)
  then show ?thesis using ok e(3) by (auto simp: shown_ok_def dest: set_dict_set_items)
qed

lemma lookup_split:
  assumes "shown_ok labels" "map_of (statement_lookup labels) k = Some (label, t, s)"
  obtains xs ys where "map_of labels label = Some t" "indexes_distinct t" "lt_statements t = xs @ s # ys"
proof -
  obtain i where i: "(label, t) \<in> set labels" "i < length (lt_statements t)" "s = lt_statements t ! i"
    using lookup_sound [OF assms(2)] by blast
  have "map_of labels label = Some t" "indexes_distinct t"
    using assms(1) i(1) by (auto simp: shown_ok_def dict_ok_def)
  moreover have "lt_statements t = take i (lt_statements t) @ s # drop (Suc i) (lt_statements t)"
    using i(2,3) by (simp add: id_take_nth_drop)
  ultimately show ?thesis by (rule that)
qed

text \<open>Each command either does one edit, or nothing.\<close>

definition does_one_edit :: "shown \<Rightarrow> edit_result \<times> shown \<Rightarrow> bool" where
  "does_one_edit labels outcome \<longleftrightarrow>
     (if fst outcome = Changed then one_edit labels (snd outcome) else snd outcome = labels)"

lemma does_nothing [simp]: "does_one_edit labels (Handled, labels)" "does_one_edit labels (Not_Command, labels)"
  by (simp_all add: does_one_edit_def)

lemma does_edit:
  "map_of labels label = Some t \<Longrightarrow> edit_step t ss \<Longrightarrow> t' = transaction_with_statements t ss \<Longrightarrow>
     does_one_edit labels (Changed, dict_set label t' labels)"
  by (auto simp: does_one_edit_def one_edit_def)

lemma handle_delete_edits: "shown_ok labels \<Longrightarrow> does_one_edit labels (handle_delete delete_label labels)"
proof -
  assume ok: "shown_ok labels"
  have one: "does_one_edit labels (Changed, dict_set label (replace_transaction_statement t s None) labels)"
    if found: "map_of (statement_lookup labels) k = Some (label, t, s)" for k label t s
  proof -
    obtain xs ys where p: "map_of labels label = Some t" "indexes_distinct t" "lt_statements t = xs @ s # ys"
      by (rule lookup_split [OF ok found])
    show ?thesis using replace_at [OF p(2,3), of None] by (intro does_edit [OF p(1) delete_one [OF p(3)]]) simp
  qed
  show ?thesis
    unfolding handle_delete_def Let_def
    by (auto intro!: one does_edit delete_all split: option.splits prod.splits)
qed

lemma new_statement_fields:
  "new_statement_sql term ctx db t ss sql = Inr s \<Longrightarrow> ls_branch s = lt_branch t \<and>
     ls_branch_index s = new_branch_index ss \<and> ls_transaction_id s = lt_transaction_id t \<and>
     ls_committed_at s = lt_committed_at t"
  unfolding new_statement_sql_def by (drule make_logged_statement_fields) (simp add: input_of_entry_def)

lemma replaced_statement_fields:
  "replace_statement_sql term ctx db s0 sql = Inr s \<Longrightarrow> ls_branch s = ls_branch s0 \<and>
     ls_branch_index s = ls_branch_index s0 \<and> ls_transaction_id s = ls_transaction_id s0 \<and>
     ls_committed_at s = ls_committed_at s0"
  unfolding replace_statement_sql_def by (drule make_logged_statement_fields) (simp add: input_of_entry_def)

lemma handle_insert_edits:
  assumes ok: "shown_ok labels" and position: "fst command \<in> {''before'', ''after''}"
    and run: "handle_insert term ctx db reply command labels = Inr outcome"
  shows "does_one_edit labels outcome"
proof -
  have one: "does_one_edit labels (Changed, dict_set label (insert_transaction_statement t s (fst command) s') labels)"
    if found: "map_of (statement_lookup labels) k = Some (label, t, s)"
      and new: "new_statement_sql term ctx db t (lt_statements t) sql = Inr s'" for k label t s s' sql
  proof -
    obtain xs ys where p: "map_of labels label = Some t" "indexes_distinct t" "lt_statements t = xs @ s # ys"
      by (rule lookup_split [OF ok found])
    have fresh: "ls_branch_index s' < 0" "ls_branch_index s' \<notin> ls_branch_index ` set (lt_statements t)"
      using new_branch_index_fresh [of "lt_statements t"] new_statement_fields [OF new] by force+
    have "edit_step t (if fst command = ''before'' then xs @ s' # s # ys else xs @ s # s' # ys)"
      using insert_one [of t xs "s # ys" s'] insert_one [of t "xs @ [s]" ys s'] p(3)
        new_statement_fields [OF new] fresh by simp
    then show ?thesis using insert_at [OF p(2,3) position] by (intro does_edit [OF p(1)]) auto
  qed
  show ?thesis
    using run unfolding handle_insert_def Let_def result_bind_def
    by (auto intro!: one split: if_splits option.splits prod.splits sum.splits)
qed

lemma handle_edit_edits:
  assumes ok: "shown_ok labels" and run: "handle_edit term ctx db reply edit_label labels = Inr outcome"
  shows "does_one_edit labels outcome"
proof -
  have one: "does_one_edit labels (Changed, dict_set label (replace_transaction_statement t s r) labels)"
    if found: "map_of (statement_lookup labels) k = Some (label, t, s)"
      and new: "case r of None \<Rightarrow> True | Some s' \<Rightarrow> replace_statement_sql term ctx db s sql = Inr s'"
    for k label t s r sql
  proof -
    obtain xs ys where p: "map_of labels label = Some t" "indexes_distinct t" "lt_statements t = xs @ s # ys"
      by (rule lookup_split [OF ok found])
    have "edit_step t (xs @ (case r of None \<Rightarrow> [] | Some s' \<Rightarrow> [s']) @ ys)"
      using delete_one [OF p(3)] new
      by (cases r) (auto intro!: replace_one [OF p(3)] dest!: replaced_statement_fields)
    then show ?thesis by (rule does_edit [OF p(1)]) (rule replace_at [OF p(2,3)])
  qed
  let ?lookup = "statement_lookup labels"
  show ?thesis
  proof (cases "?lookup = [] \<or> edit_label = [] \<or> map_of ?lookup edit_label = None \<or> edit_sql_in_editor reply = None")
    case True
    then show ?thesis using run by (auto simp: handle_edit_def Let_def split: if_splits option.splits)
  next
    case False
    then obtain label t s sql where found: "map_of ?lookup edit_label = Some (label, t, s)"
      and editor: "edit_sql_in_editor reply = Some sql" by auto
    let ?r = "if strip sql = [] then Inr None
      else result_bind (replace_statement_sql term ctx db s sql) (\<lambda>replacement. Inr (Some replacement))"
    have bound: "result_bind ?r (\<lambda>r. Inr (Changed,
        dict_set label (replace_transaction_statement t s r) labels)) = Inr outcome"
      using run found editor False by (simp add: handle_edit_def Let_def)
    obtain r where r: "?r = Inr r"
      and outcome: "outcome = (Changed, dict_set label (replace_transaction_statement t s r) labels)"
      using bound unfolding result_bind_Inr by blast
    have "case r of None \<Rightarrow> True | Some s' \<Rightarrow> replace_statement_sql term ctx db s sql = Inr s'"
      using r by (auto simp: result_bind_def split: if_splits sum.splits)
    then show ?thesis unfolding outcome by (rule one [OF found])
  qed
qed

lemma parse_insert_position: "parse_insert_command raw = Some command \<Longrightarrow> fst command \<in> {''before'', ''after''}"
  by (auto simp: parse_insert_command_def split: list.splits if_splits)

lemma command_does_one_edit:
  assumes "shown_ok labels" "handle_transaction_edit_command term ctx db reply labels = Inr outcome"
  shows "does_one_edit labels outcome"
proof -
  let ?raw = "strip (fst reply)"
  consider (delete) label where "parse_delete_command ?raw = Some label" "outcome = handle_delete label labels"
    | (insertion) command where "parse_insert_command ?raw = Some command"
        "handle_insert term ctx db reply command labels = Inr outcome"
    | (edit) label where "handle_edit term ctx db reply label labels = Inr outcome"
    | (other) "outcome = (Not_Command, labels)"
    using assms(2) unfolding handle_transaction_edit_command_def Let_def
    by (cases "parse_delete_command ?raw"; cases "parse_insert_command ?raw"; cases "parse_edit_command ?raw") auto
  then show ?thesis
  proof cases
    case delete
    then show ?thesis using handle_delete_edits [OF assms(1)] by simp
  next
    case insertion
    show ?thesis
      by (rule handle_insert_edits [OF assms(1) parse_insert_position [OF insertion(1)] insertion(2)])
  next
    case edit
    then show ?thesis by (rule handle_edit_edits [OF assms(1)])
  next
    case other
    then show ?thesis by simp
  qed
qed

section \<open>Addressing a statement\<close>

definition no_dot :: "string \<Rightarrow> bool" where
  "no_dot label \<longleftrightarrow> CHR ''.'' \<notin> set label"

lemma dot_split:
  "no_dot l \<Longrightarrow> no_dot l' \<Longrightarrow> l @ CHR ''.'' # r = l' @ CHR ''.'' # r' \<longleftrightarrow> l = l' \<and> r = r'"
proof (induction l arbitrary: l')
  case Nil
  then show ?case by (cases l') (auto simp: no_dot_def)
next
  case (Cons c l)
  then show ?case by (cases l') (auto simp: no_dot_def)
qed

text \<open>The part of a statement label after the dot identifies the statement in its transaction.\<close>

lemma statement_label_suffix:
  "transaction_statement_label label s i = label @ CHR ''.'' #
     (if ls_branch_index s < 0 then CHR ''N'' # decimal (nat \<bar>ls_branch_index s\<bar>) else decimal (i + 1))"
  by (simp add: transaction_statement_label_def)

lemma statement_labels_identify:
  assumes "no_dot l" "no_dot l'"
  shows "transaction_statement_label l s i = transaction_statement_label l' s' i' \<longleftrightarrow>
    l = l' \<and> (if ls_branch_index s < 0 then ls_branch_index s' = ls_branch_index s
               else 0 \<le> ls_branch_index s' \<and> i' = i)"
  unfolding statement_label_suffix dot_split [OF assms]
  by (auto simp: decimal_injective decimal_not_sign)

definition labels_plain :: "shown \<Rightarrow> bool" where
  "labels_plain labels \<longleftrightarrow> (\<forall>label \<in> fst ` set labels. no_dot label)"

lemma lookup_complete:
  assumes "shown_ok labels" "labels_plain labels" "map_of labels label = Some t" "i < length (lt_statements t)"
  shows "map_of (statement_lookup labels) (transaction_statement_label label (lt_statements t ! i) i) =
    Some (label, t, lt_statements t ! i)"
proof -
  let ?s = "lt_statements t ! i"
  let ?k = "transaction_statement_label label ?s i"
  have item: "(label, t, i, ?s) \<in> set (lookup_items labels)"
    using assms(3,4) by (simp add: in_lookup_items map_of_SomeD)
  moreover have "item_label (label, t, i, ?s) = ?k" by (simp add: item_label_def)
  ultimately have "find (\<lambda>x. item_label x = ?k) (rev (lookup_items labels)) \<noteq> None"
    unfolding find_None_iff set_rev by blast
  then obtain x where x: "find (\<lambda>x. item_label x = ?k) (rev (lookup_items labels)) = Some x" by blast
  obtain l' t' i' s' where p: "x = (l', t', i', s')" by (metis prod.exhaust)
  have "x \<in> set (lookup_items labels)" "item_label x = ?k" using find_SomeD [OF x] by simp_all
  then have x': "(l', t') \<in> set labels" "i' < length (lt_statements t')" "s' = lt_statements t' ! i'"
      "transaction_statement_label l' s' i' = ?k"
    using p by (simp_all add: in_lookup_items item_label_def)
  have plain: "no_dot l'" "no_dot label"
    using assms(2) x'(1) map_of_SomeD [OF assms(3)] by (force simp: labels_plain_def)+
  note same = statement_labels_identify [OF plain, of s' i' ?s i, unfolded x'(4)]
  have "l' = label" using same by simp
  then have t: "t' = t" using x'(1) assms(1,3) by (auto simp: shown_ok_def dict_ok_def)
  have distinct: "distinct (map ls_branch_index (lt_statements t))"
    using assms(1) map_of_SomeD [OF assms(3)] by (auto simp: shown_ok_def indexes_distinct_def)
  have "s' = ?s"
  proof (cases "ls_branch_index s' < 0")
    case True
    then have "ls_branch_index ?s = ls_branch_index s'" using same by simp
    then show ?thesis
      using distinct x'(2,3) t assms(4) by (auto simp: distinct_conv_nth)
  next
    case False
    then show ?thesis using same x'(3) t by simp
  qed
  then show ?thesis using x p t \<open>l' = label\<close> by (simp add: statement_lookup_items map_of_foldl_set)
qed

definition plain_char :: "char \<Rightarrow> bool" where
  "plain_char c \<longleftrightarrow> is_digit c \<or> c \<in> {CHR ''L'', CHR ''R'', CHR ''N'', CHR ''-'', CHR ''.''}"

lemma plain_char_facts:
  "plain_char c \<Longrightarrow> \<not> is_space c \<and> c \<noteq> CHR '';'' \<and> ascii_upper_char c = c"
  by (auto simp: plain_char_def is_digit_def is_space_def ascii_upper_char_def Let_def)

lemma plain_decimal: "c \<in> set (decimal n) \<Longrightarrow> is_digit c"
  using decimal_digits by blast

lemma plain_labels:
  "\<forall>c \<in> set (transaction_label t). plain_char c \<and> c \<noteq> CHR ''.''"
  "label = transaction_label t \<Longrightarrow> \<forall>c \<in> set (transaction_statement_label label s i). plain_char c"
  by (auto simp: transaction_label_def decimal_int_def transaction_statement_label_def plain_char_def
      is_digit_def dest!: plain_decimal split: if_splits)

lemma plain_upper: "\<forall>c \<in> set s. plain_char c \<Longrightarrow> ascii_upper s = s"
  unfolding ascii_upper_def by (rule map_idI) (simp add: plain_char_facts)

lemma strip_same: "s \<noteq> [] \<Longrightarrow> \<not> is_space (hd s) \<Longrightarrow> \<not> is_space (last s) \<Longrightarrow> strip s = s"
proof -
  assume s: "s \<noteq> []" "\<not> is_space (hd s)" "\<not> is_space (last s)"
  have "lstrip s = s" using s by (cases s) (simp_all add: lstrip_def)
  moreover have "rstrip s = s" using s by (cases s rule: rev_cases) (simp_all add: rstrip_def)
  ultimately show ?thesis by (simp add: strip_def)
qed

lemma delete_command_roundtrip:
  assumes "k \<noteq> []" "\<forall>c \<in> set k. plain_char c"
  shows "parse_delete_command (strip (''delete '' @ k @ '';'')) = Some k"
proof -
  have k: "\<not> is_space (hd k)" "\<not> is_space (last k)" "last k \<noteq> CHR '';''"
    using assms plain_char_facts by (metis hd_in_set last_in_set)+
  have d: "\<not> is_space (CHR ''d'')" "\<not> is_space (CHR '';'')" by (simp_all add: is_space_def)
  have raw: "strip (''delete '' @ k @ '';'') = ''delete '' @ k @ '';''"
    by (rule strip_same) (use d in simp_all)
  have "rstrip_semicolons (''delete '' @ k @ '';'') = ''delete '' @ k"
    using assms(1) k(3) by (cases k rule: rev_cases) (simp_all add: rstrip_semicolons_def)
  moreover have "strip (''delete '' @ k) = ''delete '' @ k"
    by (rule strip_same) (use assms(1) k d in simp_all)
  ultimately have t: "command_text (''delete '' @ k @ '';'') = ''delete '' @ k"
    unfolding command_text_def raw by (rule trans [OF arg_cong [where f = strip]])
  have upper: "ascii_upper (''delete '' @ k) = ''DELETE '' @ k"
  proof -
    have "ascii_upper ''delete '' = ''DELETE ''" by code_simp
    then show ?thesis
      using plain_upper [OF assms(2)] unfolding ascii_upper_def map_append by (simp only:)
  qed
  have "strip (CHR '' '' # k) = k"
  proof -
    have "strip (CHR '' '' # k) = strip k" by (simp add: strip_def lstrip_def is_space_def)
    then show ?thesis using strip_same [OF assms(1) k(1,2)] by simp
  qed
  moreover have "dropWhile (\<lambda>c. \<not> is_space c) (lstrip (''delete '' @ k)) = CHR '' '' # k"
    by (simp add: lstrip_def is_space_def)
  ultimately have "argument_label (''delete '' @ k) = k"
    using plain_upper [OF assms(2)] by (simp add: argument_label_def)
  then show ?thesis
    using assms(1) unfolding parse_delete_command_def raw t upper Let_def by (simp add: starts_with_def)
qed

text \<open>
  C10. The label shown for a statement addresses exactly that statement: typing delete with the
  label printed for the i-th statement of a shown transaction removes the i-th statement of that
  transaction and nothing else, whatever has been edited and inserted before, as long as branch
  indexes are distinct (which every command keeps).
\<close>

theorem shown_label_addresses_statement:
  assumes "shown_ok labels" and "\<forall>(label, t) \<in> set labels. label = transaction_label t"
    and "map_of labels label = Some t" and "i < length (lt_statements t)"
  shows "handle_transaction_edit_command term ctx db
      (''delete '' @ transaction_statement_label label (lt_statements t ! i) i @ '';'', editor) labels =
    Inr (Changed, dict_set label (transaction_with_statements t
      (take i (lt_statements t) @ drop (Suc i) (lt_statements t))) labels)"
proof -
  let ?s = "lt_statements t ! i"
  let ?k = "transaction_statement_label label ?s i"
  have label: "label = transaction_label t" using assms(2) map_of_SomeD [OF assms(3)] by auto
  have "labels_plain labels"
    using assms(2) plain_labels(1) by (force simp: labels_plain_def no_dot_def)
  note found = lookup_complete [OF assms(1) this assms(3,4)]
  have dot: "CHR ''.'' \<in> set ?k" by (simp add: statement_label_suffix)
  have unknown: "map_of labels ?k = None"
  proof (rule ccontr)
    assume "map_of labels ?k \<noteq> None"
    then have "no_dot ?k" using \<open>labels_plain labels\<close> by (force simp: labels_plain_def dest: map_of_SomeD)
    then show False using dot by (simp add: no_dot_def)
  qed
  have parsed: "parse_delete_command (strip (''delete '' @ ?k @ '';'')) = Some ?k"
    by (rule delete_command_roundtrip) (use dot plain_labels(2) [OF label] in auto)
  have ss: "lt_statements t = take i (lt_statements t) @ ?s # drop (Suc i) (lt_statements t)"
    using assms(4) by (simp add: id_take_nth_drop)
  have "indexes_distinct t" using assms(1) map_of_SomeD [OF assms(3)] by (auto simp: shown_ok_def)
  from replace_at [OF this ss, of None]
  have replaced: "replace_transaction_statement t ?s None =
      transaction_with_statements t (take i (lt_statements t) @ drop (Suc i) (lt_statements t))" by simp
  have "?k \<noteq> []" "statement_lookup labels \<noteq> []" using dot found by auto
  then have "handle_delete ?k labels = (Changed, dict_set label (transaction_with_statements t
      (take i (lt_statements t) @ drop (Suc i) (lt_statements t))) labels)"
    using unknown found replaced by (simp add: handle_delete_def)
  then show ?thesis
    using parsed by (simp add: handle_transaction_edit_command_def del: append.simps append_Cons)
qed

section \<open>Prompts\<close>

lemma one_edits_ok: "one_edit\<^sup>*\<^sup>* labels labels' \<Longrightarrow> shown_ok labels \<Longrightarrow> shown_ok labels'"
  by (induction rule: rtranclp_induct) (auto intro: one_edit_ok)

text \<open>What a finished loop has consumed and done.\<close>

definition loop_outcome :: "bool \<Rightarrow> bool \<Rightarrow> shown \<Rightarrow> reply list \<Rightarrow> prompt_end \<times> reply list \<Rightarrow> bool" where
  "loop_outcome allow_accept changed_any labels replies outcome \<longleftrightarrow>
     (case outcome of (finished, rest) \<Rightarrow>
        (\<exists>consumed. replies = consumed @ rest \<and> (statement_lookup labels \<noteq> [] \<longrightarrow> consumed \<noteq> [])) \<and>
        (case finished of
           Entered labels' changed \<Rightarrow>
             one_edit\<^sup>*\<^sup>* labels labels' \<and> (changed \<or> allow_accept) \<and>
             (\<not> changed \<longrightarrow> \<not> changed_any \<and> labels' = labels)
         | _ \<Rightarrow> True))"

lemma loop_outcome_later:
  assumes "loop_outcome allow changed' labels' rest outcome" "one_edit\<^sup>*\<^sup>* labels labels'"
    and "changed \<Longrightarrow> changed'" "\<not> changed' \<Longrightarrow> labels' = labels"
  shows "loop_outcome allow changed labels (reply # rest) outcome"
  using assms
  by (auto simp: loop_outcome_def split: prompt_end.splits intro: rtranclp_trans)

lemma prompt_loop_outcome:
  "prompt_loop term ctx db allow_accept changed_any labels replies = Inr outcome \<Longrightarrow> shown_ok labels \<Longrightarrow>
     loop_outcome allow_accept changed_any labels replies outcome"
proof (induction replies arbitrary: changed_any labels)
  case Nil
  then show ?case by (auto simp: prompt_loop.simps [of _ _ _ _ _ _ "[]"] loop_outcome_def split: if_splits)
next
  case (Cons reply rest)
  from Cons.prems(1) show ?case
  proof (cases rule: prompt_loop_cases)
    case again
    from loop_outcome_later [OF Cons.IH [OF again(2) Cons.prems(2)]] show ?thesis by simp
  next
    case (command result labels')
    have step: "does_one_edit labels (result, labels')" by (rule command_does_one_edit [OF Cons.prems(2) command(1)])
    then have ok: "shown_ok labels'" using Cons.prems(2) one_edit_ok by (auto simp: does_one_edit_def split: if_splits)
    show ?thesis
      by (rule loop_outcome_later [OF Cons.IH [OF command(2) ok]])
        (use step in \<open>auto simp: does_one_edit_def split: if_splits\<close>)
  qed (auto simp: loop_outcome_def)
qed

text \<open>
  C12. Every command the user can type refines an edit step: it removes, replaces or inserts one
  statement of one shown transaction, or removes all of them, keeps the identity of the
  transaction and of a replaced statement, gives an inserted statement a fresh negative branch
  index, and refreshes the metadata; any other input changes nothing. Branch indexes stay distinct.
\<close>

theorem edit_command_refines_edit_step:
  assumes "shown_ok labels"
    and "handle_transaction_edit_command term ctx db reply labels = Inr (result, labels')"
  shows "(if result = Changed then one_edit labels labels' else labels' = labels) \<and> shown_ok labels'"
  using command_does_one_edit [OF assms] one_edit_ok assms(1) by (auto simp: does_one_edit_def)

definition edited :: "logged_transaction \<Rightarrow> logged_transaction \<Rightarrow> bool" where
  "edited t t' \<longleftrightarrow> (\<exists>ss. edit_step t ss \<and> t' = transaction_with_statements t ss)"

lemma one_edits_edited:
  "one_edit\<^sup>*\<^sup>* labels labels' \<Longrightarrow> map_of labels label = Some t \<Longrightarrow>
     \<exists>t'. map_of labels' label = Some t' \<and> edited\<^sup>*\<^sup>* t t'"
proof (induction rule: rtranclp_induct)
  case base
  then show ?case by auto
next
  case (step labels1 labels2)
  then obtain t1 where t1: "map_of labels1 label = Some t1" "edited\<^sup>*\<^sup>* t t1" by blast
  obtain l u ss where u: "map_of labels1 l = Some u" "edit_step u ss"
      "labels2 = dict_set l (transaction_with_statements u ss) labels1"
    using step.hyps(2) by (auto simp: one_edit_def)
  show ?case
  proof (cases "l = label")
    case True
    then have "edited t1 (transaction_with_statements u ss)" using t1 u by (auto simp: edited_def)
    with t1(2) show ?thesis using u True by (auto intro: rtranclp.rtrancl_into_rtrancl)
  next
    case False
    then show ?thesis using t1 u by simp
  qed
qed

lemma edited_identity:
  "edited\<^sup>*\<^sup>* t t' \<Longrightarrow> lt_branch t' = lt_branch t \<and> lt_branch_index t' = lt_branch_index t \<and>
     lt_transaction_id t' = lt_transaction_id t \<and> lt_committed_at t' = lt_committed_at t"
  by (induction rule: rtranclp_induct) (auto simp: edited_def)

lemma edited_metadata:
  "edited\<^sup>*\<^sup>* t t' \<Longrightarrow> lt_metadata t = transaction_metadata (map ls_metadata (lt_statements t)) \<Longrightarrow>
     lt_metadata t' = transaction_metadata (map ls_metadata (lt_statements t'))"
  by (induction rule: rtranclp_induct) (auto simp: edited_def)

text \<open>One side of a pair resolution: deleted, or what edits of the shown transaction lead to.\<close>

definition side_resolved :: "logged_transaction \<Rightarrow> bool \<Rightarrow> logged_transaction option \<Rightarrow> bool" where
  "side_resolved t changed replacement \<longleftrightarrow>
     (case replacement of
        None \<Rightarrow> changed
      | Some t' \<Rightarrow> edited\<^sup>*\<^sup>* (refreshed t) t' \<and> lt_statements t' \<noteq> [] \<and> changed = (t' \<noteq> t))"

lemma shown_pair_lookup:
  assumes "transaction_label t \<noteq> transaction_label u"
  shows "map_of (shown_pair conflict t u) (transaction_label t) = Some (refreshed t)"
    and "map_of (shown_pair conflict t u) (transaction_label u) = Some (refreshed u)"
    and "dict_ok (shown_pair conflict t u)"
    and "snd ` set (shown_pair conflict t u) = {refreshed t, refreshed u}"
    and "(l, v) \<in> set (shown_pair conflict t u) \<Longrightarrow> l = transaction_label v"
  using assms by (auto simp: shown_pair_def Let_def dict_ok_def refreshed_def split: if_splits)

lemma refreshed_fields [simp]:
  "lt_statements (refreshed t) = lt_statements t" "indexes_distinct (refreshed t) = indexes_distinct t"
  by (simp_all add: refreshed_def indexes_distinct_def)

lemma shown_pair_ok:
  assumes "transaction_label t \<noteq> transaction_label u" "indexes_distinct t" "indexes_distinct u"
  shows "shown_ok (shown_pair conflict t u)"
proof -
  have "indexes_distinct v" if "(l, v) \<in> set (shown_pair conflict t u)" for l v
    using shown_pair_lookup(4) [OF assms(1), of conflict] that assms(2,3) by (metis insertE image_eqI refreshed_fields(2) singletonD snd_conv)
  then show ?thesis using shown_pair_lookup(3) [OF assms(1)] by (auto simp: shown_ok_def)
qed

lemma kept_side:
  assumes "lt_statements t \<noteq> []" "edited\<^sup>*\<^sup>* (refreshed t) t'"
  shows "side_resolved t (t' \<noteq> t) (if lt_statements t' = [] then None else Some t')"
  using assms by (auto simp: side_resolved_def)

lemma pair_prompt_decides:
  assumes "conflicting_transaction conflict Ours ours = Inr t"
    and "conflicting_transaction conflict Theirs theirs = Inr u"
    and "lt_branch t = Ours" and "lt_branch u = Theirs" and "indexes_distinct t" and "indexes_distinct u"
    and "lt_statements t \<noteq> []" and "lt_statements u \<noteq> []"
    and "prompt_pair_transaction_resolution term ctx db conflict ours theirs allow_accept replies =
      Inr (resolution, rest)"
  shows "(if pr_action resolution = Accept_Action
      then allow_accept \<and> pr_ours resolution = Some t \<and> pr_theirs resolution = Some u \<and>
        \<not> pr_changed_ours resolution \<and> \<not> pr_changed_theirs resolution
      else side_resolved t (pr_changed_ours resolution) (pr_ours resolution) \<and>
        side_resolved u (pr_changed_theirs resolution) (pr_theirs resolution)) \<and>
    length rest < length replies"
proof -
  have differ: "transaction_label t \<noteq> transaction_label u" using assms(3,4) labels_identify by simp
  let ?shown = "shown_pair conflict t u"
  note ok = shown_pair_ok [OF differ assms(5,6)]
  obtain finished where loop: "prompt_loop term ctx db allow_accept False ?shown replies = Inr (finished, rest)"
    and resolution: "resolution = (case finished of
       All_Deleted \<Rightarrow> both_deleted
     | Delete_Typed \<Rightarrow> both_deleted
     | Entered labels changed_any \<Rightarrow>
         if changed_any
         then pair_resolution_from_labels labels (transaction_label t) (transaction_label u) t u
         else \<lparr>pr_action = Accept_Action, pr_ours = Some t, pr_theirs = Some u, pr_changed_ours = False,
                pr_changed_theirs = False\<rparr>)"
    using assms(9) by (auto simp: prompt_pair_transaction_resolution_def assms(1,2) result_bind_Inr)
  note outcome = prompt_loop_outcome [OF loop ok]
  have "statement_lookup ?shown \<noteq> []"
    using shown_pair_lookup(1) [OF differ, of conflict] assms(7) by (force simp: lookup_empty dest: map_of_SomeD)
  then have shorter: "length rest < length replies"
    using outcome by (auto simp: loop_outcome_def)
  have decided: "if pr_action resolution = Accept_Action
      then allow_accept \<and> pr_ours resolution = Some t \<and> pr_theirs resolution = Some u \<and>
        \<not> pr_changed_ours resolution \<and> \<not> pr_changed_theirs resolution
      else side_resolved t (pr_changed_ours resolution) (pr_ours resolution) \<and>
        side_resolved u (pr_changed_theirs resolution) (pr_theirs resolution)"
  proof (cases finished)
    case (Entered labels changed)
    then have edits: "one_edit\<^sup>*\<^sup>* ?shown labels" and allowed: "changed \<or> allow_accept"
      using outcome by (simp_all add: loop_outcome_def)
    obtain t' where t': "map_of labels (transaction_label t) = Some t'" "edited\<^sup>*\<^sup>* (refreshed t) t'"
      using one_edits_edited [OF edits shown_pair_lookup(1) [OF differ]] by blast
    obtain u' where u': "map_of labels (transaction_label u) = Some u'" "edited\<^sup>*\<^sup>* (refreshed u) u'"
      using one_edits_edited [OF edits shown_pair_lookup(2) [OF differ]] by blast
    show ?thesis
      using kept_side [OF assms(7) t'(2)] kept_side [OF assms(8) u'(2)] allowed t'(1) u'(1)
      by (auto simp: resolution Entered pair_resolution_from_labels_def Let_def)
  qed (simp_all add: resolution both_deleted_def side_resolved_def)
  from decided shorter show ?thesis by simp
qed

text \<open>
  C9. The pair prompt decides only what the user may decide: it accepts the original pair only
  where the caller allows it and nothing was edited, and otherwise each side is deleted or is what
  a sequence of edits makes of it, with the changed flag exactly when it differs; it consumes at
  least one reply unless both transactions are already empty.
\<close>

theorem pair_prompt_sound:
  assumes "conflicting_transaction conflict Ours ours = Inr t"
    and "conflicting_transaction conflict Theirs theirs = Inr u"
    and "lt_branch t = Ours" and "lt_branch u = Theirs" and "indexes_distinct t" and "indexes_distinct u"
    and "lt_statements t \<noteq> []" and "lt_statements u \<noteq> []"
    and "prompt_pair_transaction_resolution term ctx db conflict ours theirs allow_accept replies =
      Inr (resolution, rest)"
  shows "(if pr_action resolution = Accept_Action
      then allow_accept \<and> pr_ours resolution = Some t \<and> pr_theirs resolution = Some u \<and>
        \<not> pr_changed_ours resolution \<and> \<not> pr_changed_theirs resolution
      else side_resolved t (pr_changed_ours resolution) (pr_ours resolution) \<and>
        side_resolved u (pr_changed_theirs resolution) (pr_theirs resolution)) \<and>
    length rest < length replies"
  using assms by (rule pair_prompt_decides)

section \<open>Examples\<close>

definition demo_numbered :: "branch \<Rightarrow> string list \<Rightarrow> logged_transaction" where
  "demo_numbered b sqls =
     (demo_transaction_of sqls)\<lparr>lt_branch := b, lt_statements :=
        map (\<lambda>(i, sql). (demo_statement sql)\<lparr>ls_branch := b, ls_branch_index := int i\<rparr>) (enumerate 0 sqls)\<rparr>"

definition demo_terminal :: "string list terminal" where
  "demo_terminal =
     \<lparr>prepare_entry = (\<lambda>sql _. \<lparr>original_sql_text = sql, entry_replay_sql_text = sql,
        entry_is_replay_safe = True, entry_block_reason = None\<rparr>), parse_error_text = id\<rparr>"

definition demo_shown :: shown where
  "demo_shown = [(''L1'', demo_numbered Ours [''a'', ''b'']), (''R1'', demo_numbered Theirs [''c''])]"

lemma demo_shown_ok: "shown_ok demo_shown"
  by (simp add: shown_ok_def demo_shown_def dict_ok_def indexes_distinct_def demo_numbered_def enumerate_eq_zip)

lemma demo_shown_labels: "\<forall>(label, t) \<in> set demo_shown. label = transaction_label t"
proof -
  have "list_all (\<lambda>(label, t). label = transaction_label t) demo_shown" by code_simp
  then show ?thesis by (simp add: list_all_iff)
qed

theorem shown_label_addresses_statement_witness:
  "case handle_transaction_edit_command demo_terminal demo_merge_context [] (''delete L1.2;'', None) demo_shown of
     Inr (result, labels) \<Rightarrow> result = Changed \<and>
       map (map statement_sql_text \<circ> lt_statements \<circ> snd) labels = [[''a''], [''c'']]
   | Inl _ \<Rightarrow> False"
proof -
  have t: "map_of demo_shown ''L1'' = Some (demo_numbered Ours [''a'', ''b''])" by (simp add: demo_shown_def)
  have len: "1 < length (lt_statements (demo_numbered Ours [''a'', ''b'']))" by (simp add: demo_numbered_def)
  have label: "transaction_statement_label ''L1'' (lt_statements (demo_numbered Ours [''a'', ''b'']) ! 1) 1 = ''L1.2''"
    by code_simp
  from shown_label_addresses_statement [OF demo_shown_ok demo_shown_labels t len, unfolded label,
      of demo_terminal demo_merge_context "[]" None]
  show ?thesis
    by (simp add: demo_shown_def demo_numbered_def transaction_with_statements_def enumerate_eq_zip demo_statement_def
        statement_sql_text_def)
qed

theorem edit_command_refines_edit_step_witness:
  "case handle_transaction_edit_command demo_terminal demo_merge_context [] (''delete R1'', None) demo_shown of
     Inr (result, labels) \<Rightarrow> result = Changed \<and> one_edit demo_shown labels
   | Inl _ \<Rightarrow> False"
proof -
  let ?run = "handle_transaction_edit_command demo_terminal demo_merge_context [] (''delete R1'', None) demo_shown"
  have changed: "\<not> isl ?run \<and> fst (projr ?run) = Changed" by code_simp
  then have run: "?run = Inr (Changed, snd (projr ?run))" by (cases ?run) auto
  from edit_command_refines_edit_step [OF demo_shown_ok run] show ?thesis by (subst run) simp
qed

definition demo_pair :: conflict_pair where
  "demo_pair =
     \<lparr>pair_current_branch = Ours, pair_other_index = Some 0, pair_ours_sql = [], pair_theirs_sql = [],
      pair_conflicts = [], pair_resolution_key = None, pair_is_standalone = False\<rparr>"

theorem pair_prompt_sound_witness:
  "case prompt_pair_transaction_resolution demo_terminal demo_merge_context [] demo_pair
      [demo_numbered Ours [''a'', ''b'']] [demo_numbered Theirs [''c'']] False
      [([], None), (''delete L1.2;'', None), ([], None)] of
     Inr (resolution, rest) \<Rightarrow> pr_action resolution = Replace_Action \<and> pr_changed_ours resolution \<and> rest = []
   | Inl _ \<Rightarrow> False"
proof -
  let ?run = "prompt_pair_transaction_resolution demo_terminal demo_merge_context [] demo_pair
      [demo_numbered Ours [''a'', ''b'']] [demo_numbered Theirs [''c'']] False
      [([], None), (''delete L1.2;'', None), ([], None)]"
  have ok: "\<not> isl ?run \<and> pr_changed_ours (fst (projr ?run))" by code_simp
  then have run: "?run = Inr (fst (projr ?run), snd (projr ?run))" by (cases ?run) auto
  have pair: "conflicting_transaction demo_pair Ours [demo_numbered Ours [''a'', ''b'']] = Inr (demo_numbered Ours [''a'', ''b''])"
    "conflicting_transaction demo_pair Theirs [demo_numbered Theirs [''c'']] = Inr (demo_numbered Theirs [''c''])"
    by (simp_all add: conflicting_transaction_def index_for_branch_def demo_pair_def)
  have side: "lt_branch (demo_numbered b sqls) = b" "indexes_distinct (demo_numbered b [''c''])"
    "indexes_distinct (demo_numbered b [''a'', ''b''])" "sqls \<noteq> [] \<Longrightarrow> lt_statements (demo_numbered b sqls) \<noteq> []" for b sqls
    by (auto simp: demo_numbered_def indexes_distinct_def enumerate_eq_zip dest: arg_cong [where f = length])
  have "length (snd (projr ?run)) = 0" by code_simp
  with pair_prompt_sound [OF pair side(1) side(1) side(3) side(2) side(4) side(4) run] ok
  show ?thesis by (subst run) (auto split: if_splits intro: pair_action.exhaust)
qed

end
