(* ===== verification/Terminal_Merge_Props.thy ===== *)
theory Terminal_Merge_Props
  imports Terminal_Merge_Loop Terminal_Ui_Props "HOL-Library.Sublist"
begin

text \<open>
  What a merge does to the database: nothing but a serial replay. Scans and prompts leave the
  connection where it was, so the content moves only when a queue head is accepted, by the atomic
  step of that transaction; the queues only lose transactions or have them edited.
\<close>

section \<open>A scan gives the connection back\<close>

text \<open>An execution scanner inside its savepoint, over a content \<open>db\<close> with no other savepoint.\<close>

definition exec_running :: "'db merge_context \<Rightarrow> 'db \<Rightarrow> 'db replay_state \<times> exec_scanner \<Rightarrow> bool" where
  "exec_running ctx db s \<longleftrightarrow> cache_coherent ctx (fst s) \<and> (\<exists>name. scanning name [(name, db)] s)"

definition exec_broken :: "'db merge_context \<Rightarrow> 'db \<Rightarrow> 'db replay_state \<times> exec_scanner \<Rightarrow> bool" where
  "exec_broken ctx db s \<longleftrightarrow> cache_coherent ctx (fst s) \<and> (\<exists>name. scan_failed name [(name, db)] s)"

definition idle :: "'db merge_context \<Rightarrow> 'db \<Rightarrow> 'db replay_state \<Rightarrow> bool" where
  "idle ctx db c \<longleftrightarrow> cache_coherent ctx c \<and> content c = db \<and> stack c = []"

definition engine_ok :: "'db merge_context \<Rightarrow> bool" where
  "engine_ok ctx \<longleftrightarrow> commits_no_change (engine ctx) \<and> probes_never_abort (engine ctx)"

lemma engine_okD:
  "engine_ok ctx \<Longrightarrow> commits_no_change (engine ctx)" "engine_ok ctx \<Longrightarrow> probes_never_abort (engine ctx)"
  by (simp_all add: engine_ok_def)

lemma running_is_broken: "exec_running ctx db s \<Longrightarrow> exec_broken ctx db s"
  by (auto simp: exec_running_def exec_broken_def scan_failed_def)

lemma check_next_running:
  assumes "engine_ok ctx" "exec_running ctx db s" "check_next ctx ours theirs static_result s = (Inr r, s')"
  shows "exec_running ctx db s'"
proof -
  obtain name where name: "scanning name [(name, db)] s" and tidy: "cache_coherent ctx (fst s)"
    using assms(2) by (auto simp: exec_running_def)
  have "cache_coherent ctx (fst s')"
    using keepsD [OF object_tidy_check_next(1) assms(3) tidy] .
  then show ?thesis
    using yieldsD [OF yields_check_next [OF engine_okD(1) [OF assms(1)]] _ assms(3), of "[(name, db)]" "content (fst s)" "snd s"] name
    by (auto simp: exec_running_def scanning_def at_def step_done_def stack_at_def)
qed

lemma accept_next_running:
  assumes "engine_ok ctx" "exec_running ctx db s" "accept_next ctx other result s = (Inr r, s')"
  shows "exec_running ctx db s'"
proof -
  obtain name where name: "scanning name [(name, db)] s" and tidy: "cache_coherent ctx (fst s)"
    using assms(2) by (auto simp: exec_running_def)
  have "cache_coherent ctx (fst s')"
    using keepsD [OF object_tidy_check_next(2) assms(3) tidy] .
  then show ?thesis
    using yieldsD [OF yields_accept_next [OF engine_okD(1) [OF assms(1)]] _ assms(3), of "[(name, db)]" "content (fst s)" "snd s"] name
    by (auto simp: exec_running_def scanning_def at_def step_done_def stack_at_def)
qed

lemma exec_start_running:
  assumes "engine_ok ctx" "idle ctx db (fst s)" "exec_start ctx s = (Inr r, s')"
  shows "if has_conflict r then exec_broken ctx db s' else exec_running ctx db s'"
proof -
  have "cache_coherent ctx (fst s')"
    using object_tidyD [OF object_tidy_exec_start assms(3)] assms(2) by (simp add: idle_def)
  then show ?thesis
    using yieldsD [OF yields_exec_start [OF engine_okD(2) [OF assms(1)], of "[]" db] _ assms(3)] assms(2)
    by (auto simp: idle_def exec_running_def exec_broken_def split: if_splits)
qed

lemma exec_close_idle:
  assumes "engine_ok ctx" "exec_broken ctx db s" "exec_close ctx s = (Inr r, s')"
  shows "idle ctx db (fst s') \<and> es_savepoint (snd s') = None"
proof -
  obtain name where name: "scan_failed name [(name, db)] s" and tidy: "cache_coherent ctx (fst s)"
    using assms(2) by (auto simp: exec_broken_def)
  have "object_tidy ctx (exec_close ctx)" unfolding exec_close_def by (intro tidying)
  from keepsD [OF this assms(3) tidy] have "cache_coherent ctx (fst s')" .
  then show ?thesis
    using exec_close_restores [OF engine_okD(1) [OF assms(1)], of s name db "[]" "Inr r" "fst s'" "snd s'"] name assms(3)
    by (auto simp: idle_def scan_failed_def scanning_def)
qed

text \<open>The same for the conflict scanner that owns it.\<close>

definition scan_state :: "'db merge_context \<Rightarrow> 'db \<Rightarrow> bool \<Rightarrow> 'db replay_state \<times> conflict_scanner \<Rightarrow> bool" where
  "scan_state ctx db broken s \<longleftrightarrow>
     cs_started (snd s) \<and>
     (if broken then exec_broken ctx db (fst s, cs_scanner (snd s)) else exec_running ctx db (fst s, cs_scanner (snd s)))"

definition unstarted :: "'db merge_context \<Rightarrow> 'db \<Rightarrow> 'db replay_state \<times> conflict_scanner \<Rightarrow> bool" where
  "unstarted ctx db s \<longleftrightarrow> \<not> cs_started (snd s) \<and> es_savepoint (cs_scanner (snd s)) = None \<and> idle ctx db (fst s)"

lemma on_scanner_result:
  "on_scanner m s = (r, s') \<Longrightarrow>
     \<exists>c e. m (fst s, cs_scanner (snd s)) = (r, (c, e)) \<and> s' = (c, (snd s)\<lparr>cs_scanner := e\<rparr>)"
  by (auto simp: on_scanner_def split: prod.splits)

lemma check_other_running:
  assumes "engine_ok ctx" "scan_state ctx db False s" "check_other ctx other s = (Inr r, s')"
  shows "scan_state ctx db False s' \<and> (\<nexists>x. r = Some (None, x))"
proof -
  obtain c scanner where s: "s = (c, scanner)" by fastforce
  obtain result s1 where check: "on_scanner (check_pair ctx scanner other) s = (Inr result, s1)"
    and rest: "(if \<not> has_conflict result then return_value None
       else let other_index = cs_next_other_index scanner; key = pair_key scanner other result in
         if key \<notin> cs_accepted_pair_keys scanner then return_value (Some (Some other_index, result, Some key))
         else and_then (on_scanner (accept_next ctx other result)) (\<lambda>advance_result.
           if has_conflict advance_result then return_value (Some (Some other_index, advance_result, Some key))
           else return_value None)) s1 = (Inr r, s')"
    using assms(3) s by (auto simp: check_other_def the_object_def dest!: and_then_result)
  have one: "scan_state ctx db False s1"
    using on_scanner_result [OF check] assms(2) check_next_running [OF assms(1)] s
    by (auto simp: check_pair_def scan_state_def split: prod.splits)
  have accept: "scan_state ctx db False s2" if "on_scanner (accept_next ctx other result) s1 = (Inr a, s2)" for a s2
    using on_scanner_result [OF that] one accept_next_running [OF assms(1)] by (auto simp: scan_state_def)
  show ?thesis
    using rest one accept by (auto simp: Let_def return_value_def dest!: and_then_result split: if_splits)
qed

lemma scan_loop_running:
  "scan_loop ctx others s = (Inr r, s') \<Longrightarrow> engine_ok ctx \<Longrightarrow> scan_state ctx db False s \<Longrightarrow>
     scan_state ctx db False s' \<and> (\<nexists>x. r = Some (None, x))"
proof (induction ctx others s rule: scan_loop.induct)
  case (1 ctx others s)
  let ?i = "cs_next_other_index (snd s)"
  show ?case
  proof (cases "?i < length others")
    case False
    then show ?thesis using "1.prems" by (auto simp: scan_loop.simps [of ctx others s])
  next
    case True
    obtain r1 s1 where check: "check_other ctx (others ! ?i) s = (r1, s1)" by (metis prod.exhaust)
    show ?thesis
    proof (cases "r1 = Inr None")
      case none: True
      then have loop: "scan_loop ctx others (fst s1, next_index (snd s1)) = (Inr r, s')"
        using "1.prems"(1) True check by (simp add: scan_loop.simps [of ctx others s])
      have "scan_state ctx db False s1"
        using check_other_running [OF "1.prems"(2,3) check [unfolded none]] by simp
      then have "scan_state ctx db False (fst s1, next_index (snd s1))"
        by (simp add: scan_state_def next_index_def)
      from "1.IH" [OF _ check [unfolded none, symmetric] refl refl loop "1.prems"(2) this] True
      show ?thesis by simp
    next
      case False
      then obtain found where "r1 = Inr (Some found)" "s' = s1" "r = Some found"
        using "1.prems"(1) True check by (auto simp: scan_loop.simps [of ctx others s] split: sum.splits option.splits)
      then show ?thesis using check_other_running [OF "1.prems"(2,3), of "others ! ?i" "Some found" s1] check by simp
    qed
  qed
qed

text \<open>A reported conflict without an index is the failed start, the only way the scan breaks.\<close>

lemma next_conflict_state:
  assumes "next_conflict ctx others s = (Inr r, s')" "engine_ok ctx"
    and "unstarted ctx db s \<or> scan_state ctx db False s"
  shows "scan_state ctx db (\<exists>x. r = Some (None, x)) s'"
proof (cases "cs_started (snd s)")
  case True
  then have "scan_state ctx db False s" using assms(3) by (auto simp: unstarted_def)
  then show ?thesis
    using scan_loop_running [OF assms(1) [unfolded next_conflict_started [OF True]] assms(2), of db] by simp
next
  case False
  then have idle: "idle ctx db (fst s)" using assms(3) by (auto simp: unstarted_def scan_state_def)
  let ?s0 = "(fst s, (snd s)\<lparr>cs_started := True\<rparr>)"
  obtain start_result s1 where start: "on_scanner (exec_start ctx) ?s0 = (Inr start_result, s1)"
    and rest: "(if has_conflict start_result then return_value (Some (None, start_result, None))
          else scan_loop ctx others) s1 = (Inr r, s')"
    using assms(1) False
    by (auto simp: next_conflict_def the_object_def update_object_def dest!: and_then_result)
  obtain c e where e: "exec_start ctx (fst s, cs_scanner (snd s)) = (Inr start_result, (c, e))"
      "s1 = (c, (snd s)\<lparr>cs_started := True, cs_scanner := e\<rparr>)"
    using on_scanner_result [OF start] by auto
  note started = exec_start_running [OF assms(2) _ e(1), of db, unfolded fst_conv, OF idle]
  show ?thesis
  proof (cases "has_conflict start_result")
    case True
    then show ?thesis using started rest e(2) by (auto simp: scan_state_def return_value_def)
  next
    case False
    then have "scan_state ctx db False s1" using started e(2) by (simp add: scan_state_def)
    then show ?thesis using scan_loop_running [OF _ assms(2)] rest False by auto
  qed
qed

lemma accept_current_state:
  assumes "accept_current_conflict ctx others i result key s = (Inr r, s')" "engine_ok ctx"
    and "scan_state ctx db False s"
  shows "scan_state ctx db False s' \<and> (\<nexists>x. r = Some (None, x))"
proof -
  let ?s1 = "(fst s, accept_resolution_key key (snd s))"
  have one: "scan_state ctx db False ?s1"
    using assms(3) by (simp add: scan_state_def accept_resolution_key_def split: option.splits)
  obtain other advance s2 where acc: "on_scanner (accept_next ctx other result) ?s1 = (Inr advance, s2)"
    and rest: "(if has_conflict advance then return_value (Some (Some i, advance, key))
      else and_then (update_object next_index) (\<lambda>_. return_value None)) s2 = (Inr r, s')"
    using assms(1)
    by (auto simp: accept_current_conflict_def the_object_def update_object_def list_item_def return_value_def
        raise_exn_def dest!: and_then_result split: if_splits)
  have "scan_state ctx db False s2"
    using on_scanner_result [OF acc] one accept_next_running [OF assms(2)] by (auto simp: scan_state_def)
  then show ?thesis
    using rest
    by (auto simp: return_value_def update_object_def scan_state_def next_index_def dest!: and_then_result
        split: if_splits)
qed

lemma scan_close_idle:
  assumes "scan_close ctx s = (Inr r, s')" "engine_ok ctx"
    and "unstarted ctx db s \<or> scan_state ctx db broken s"
  shows "idle ctx db (fst s')"
proof -
  obtain c e where close: "exec_close ctx (fst s, cs_scanner (snd s)) = (Inr r, (c, e))" and c: "fst s' = c"
    using on_scanner_result [OF assms(1) [unfolded scan_close_def]] by auto
  show ?thesis
  proof (cases "unstarted ctx db s")
    case True
    then show ?thesis
      using close c by (auto simp: unstarted_def exec_close_def and_then_def the_object_def return_value_def)
  next
    case False
    then have "exec_broken ctx db (fst s, cs_scanner (snd s))"
      using assms(3) running_is_broken by (auto simp: scan_state_def split: if_splits)
    from exec_close_idle [OF assms(2) this close] c show ?thesis by simp
  qed
qed

text \<open>And for the scan of a turn, which may have no scanner.\<close>

definition scan_at :: "'db merge_context \<Rightarrow> 'db \<Rightarrow> branch \<Rightarrow> bool \<Rightarrow> 'db replay_state \<times> current_scan \<Rightarrow> bool" where
  "scan_at ctx db b broken s \<longleftrightarrow>
     sc_current_branch (snd s) = b \<and>
     (case sc_scanner (snd s) of
        None \<Rightarrow> \<not> broken \<and> idle ctx db (fst s)
      | Some scanner \<Rightarrow> scan_state ctx db broken (fst s, scanner))"

definition scan_new :: "'db merge_context \<Rightarrow> 'db \<Rightarrow> branch \<Rightarrow> 'db replay_state \<times> current_scan \<Rightarrow> bool" where
  "scan_new ctx db b s \<longleftrightarrow>
     sc_current_branch (snd s) = b \<and>
     (case sc_scanner (snd s) of
        None \<Rightarrow> idle ctx db (fst s)
      | Some scanner \<Rightarrow> unstarted ctx db (fst s, scanner))"

lemma new_current_scan_new:
  "idle ctx db c \<Longrightarrow> scan_new ctx db b (c, new_current_scan ctx current b index accepted)"
  by (simp add: scan_new_def new_current_scan_def Let_def unstarted_def new_conflict_scanner_def new_exec_scanner_def)

text \<open>A pair the scan of branch \<open>b\<close> reports.\<close>

definition pair_of_scan :: "branch \<Rightarrow> conflict_pair \<Rightarrow> bool" where
  "pair_of_scan b pair \<longleftrightarrow> pair_current_branch pair = b \<and> (pair_is_standalone pair \<longleftrightarrow> pair_other_index pair = None)"

lemma found_pair_result:
  assumes "found_pair others found s = (Inr r, s')"
  shows "s' = s \<and> (case found of None \<Rightarrow> r = None
    | Some (i, x) \<Rightarrow> \<exists>pair. r = Some pair \<and> pair_of_scan (sc_current_branch (snd s)) pair \<and>
        (pair_is_standalone pair \<longleftrightarrow> i = None))"
  using assms
  by (auto simp: found_pair_def the_object_def current_conflict_pair_def return_value_def list_item_def
      raise_exn_def pair_of_scan_def dest!: and_then_result split: option.splits if_splits)

lemma on_current_scanner_result:
  assumes "on_current_scanner m absent s = (r, s')" "sc_scanner (snd s) = Some scanner"
  obtains c scanner' where "m (fst s, scanner) = (r, (c, scanner'))" "s' = (c, (snd s)\<lparr>sc_scanner := Some scanner'\<rparr>)"
  using assms by (auto simp: on_current_scanner_def split: prod.splits)

lemma next_pair_state:
  assumes "next_pair ctx others s = (Inr r, s')" "engine_ok ctx"
    and "scan_new ctx db b s \<or> scan_at ctx db b False s"
  shows "scan_at ctx db b (\<exists>pair. r = Some pair \<and> pair_is_standalone pair) s' \<and>
    (\<forall>pair. r = Some pair \<longrightarrow> pair_of_scan b pair \<and> sc_scanner (snd s') \<noteq> None)"
proof -
  obtain found s1 where first: "on_current_scanner (next_conflict ctx others) (return_value None) s = (Inr found, s1)"
    and found: "found_pair others found s1 = (Inr r, s')"
    using assms(1) unfolding next_pair_def by (rule and_then_obtain)
  note pair = found_pair_result [OF found]
  have branch: "sc_current_branch (snd s) = b" using assms(3) by (auto simp: scan_new_def scan_at_def)
  show ?thesis
  proof (cases "sc_scanner (snd s)")
    case None
    then have "found = None" "s1 = s" using first by (auto simp: on_current_scanner_def return_value_def)
    then show ?thesis using pair assms(3) None by (auto simp: scan_new_def scan_at_def)
  next
    case (Some scanner)
    obtain c scanner' where n: "next_conflict ctx others (fst s, scanner) = (Inr found, (c, scanner'))"
        and s1: "s1 = (c, (snd s)\<lparr>sc_scanner := Some scanner'\<rparr>)"
      using on_current_scanner_result [OF first Some] by metis
    have "unstarted ctx db (fst s, scanner) \<or> scan_state ctx db False (fst s, scanner)"
      using assms(3) Some by (auto simp: scan_new_def scan_at_def)
    from next_conflict_state [OF n assms(2) this]
    have state: "scan_state ctx db (\<exists>x. found = Some (None, x)) (c, scanner')" .
    have broken: "(\<exists>x. found = Some (None, x)) \<longleftrightarrow> (\<exists>pair. r = Some pair \<and> pair_is_standalone pair)"
      using pair by (cases found) auto
    show ?thesis
      using state [unfolded broken] pair s1 branch by (cases found) (auto simp: scan_at_def)
  qed
qed

lemma accept_pair_state:
  assumes "accept_pair ctx conflict others s = (Inr r, s')" "engine_ok ctx" "scan_at ctx db b False s"
  shows "scan_at ctx db b False s' \<and>
    (\<forall>pair. r = Some pair \<longrightarrow> pair_of_scan b pair \<and> \<not> pair_is_standalone pair \<and> sc_scanner (snd s') \<noteq> None)"
proof -
  obtain scanner i where scanner: "sc_scanner (snd s) = Some scanner"
    and run: "and_then
        (on_current_scanner
           (accept_current_conflict ctx others i (check_result_of (pair_conflicts conflict)) (pair_resolution_key conflict))
           (return_value None)) (found_pair others) s = (Inr r, s')"
    using assms(1)
    by (auto simp: accept_pair_def the_object_def raise_exn_def dest!: and_then_result [of the_object]
        split: if_splits option.splits)
  obtain found s1 where first: "on_current_scanner
        (accept_current_conflict ctx others i (check_result_of (pair_conflicts conflict)) (pair_resolution_key conflict))
        (return_value None) s = (Inr found, s1)"
    and found: "found_pair others found s1 = (Inr r, s')"
    using run by (rule and_then_obtain)
  obtain c scanner' where a: "accept_current_conflict ctx others i (check_result_of (pair_conflicts conflict))
        (pair_resolution_key conflict) (fst s, scanner) = (Inr found, (c, scanner'))"
      and s1: "s1 = (c, (snd s)\<lparr>sc_scanner := Some scanner'\<rparr>)"
    using on_current_scanner_result [OF first scanner] by metis
  have "scan_state ctx db False (fst s, scanner)" "sc_current_branch (snd s) = b"
    using assms(3) scanner by (auto simp: scan_at_def)
  then show ?thesis
    using accept_current_state [OF a assms(2)] found_pair_result [OF found] s1
    by (cases found) (auto simp: scan_at_def)
qed

lemma close_current_scan_idle:
  assumes "close_current_scan ctx s = (Inr r, s')" "engine_ok ctx"
    and "scan_new ctx db b s \<or> scan_at ctx db b broken s"
  shows "idle ctx db (fst s')"
proof (cases "sc_scanner (snd s)")
  case None
  then show ?thesis
    using assms by (auto simp: close_current_scan_def on_current_scanner_def return_value_def scan_new_def scan_at_def)
next
  case (Some scanner)
  obtain c scanner' where "scan_close ctx (fst s, scanner) = (Inr r, (c, scanner'))" "fst s' = c"
    using on_current_scanner_result [OF assms(1) [unfolded close_current_scan_def] Some] by (metis fst_conv)
  then show ?thesis
    using scan_close_idle [OF _ assms(2)] assms(3) Some by (fastforce simp: scan_new_def scan_at_def)
qed

lemma enable_checks_state:
  assumes "enable_checks_after_other_edit ctx index s = (Inr r, s')" "scan_at ctx db b False s"
  shows "scan_at ctx db b False s' \<and> sc_scanner (snd s') \<noteq> None"
proof -
  obtain scanner where scanner: "sc_scanner (snd s) = Some scanner"
    using assms(1)
    by (auto simp: enable_checks_after_other_edit_def the_object_def on_current_scanner_def raise_exn_def
        dest!: and_then_result split: option.splits)
  then show ?thesis
    using assms
    by (auto simp: enable_checks_after_other_edit_def the_object_def on_current_scanner_def update_object_def
        enable_scan_kinds_def enable_exec_kinds_def scan_at_def scan_state_def exec_running_def scanning_def
        dest!: and_then_result)
qed

section \<open>What becomes of a queue\<close>

text \<open>Transactions as the log gives them and edits keep them.\<close>

definition transaction_ok :: "branch \<Rightarrow> logged_transaction \<Rightarrow> bool" where
  "transaction_ok b t \<longleftrightarrow>
     lt_branch t = b \<and> indexes_distinct t \<and> lt_statements t \<noteq> [] \<and>
     lt_metadata t = transaction_metadata (map ls_metadata (lt_statements t))"

definition queue_ok :: "branch \<Rightarrow> logged_transaction list \<Rightarrow> bool" where
  "queue_ok b q \<longleftrightarrow> (\<forall>t \<in> set q. transaction_ok b t)"

text \<open>
  The first queue is the second, in its order, but for at most \<open>k\<close> transactions that were deleted
  or changed as \<open>R\<close> allows.
\<close>

inductive within :: "('a \<Rightarrow> 'a \<Rightarrow> bool) \<Rightarrow> nat \<Rightarrow> 'a list \<Rightarrow> 'a list \<Rightarrow> bool" for R where
  within_none: "within R k [] []"
| within_same: "within R k q' q \<Longrightarrow> within R k (t # q') (t # q)"
| within_changed: "within R k q' q \<Longrightarrow> R t t' \<Longrightarrow> within R (Suc k) (t' # q') (t # q)"
| within_deleted: "within R k q' q \<Longrightarrow> within R (Suc k) q' (t # q)"

inductive_cases within_NilE: "within R k q' []"
inductive_cases within_ConsE: "within R k q' (t # q)"

lemma within_refl [simp]: "within R k q q"
  by (induction q) (auto intro: within.intros)

lemma within_more: "within R j q' q \<Longrightarrow> j \<le> k \<Longrightarrow> within R k q' q"
proof (induction arbitrary: k rule: within.induct)
  case (within_changed j q' q t t')
  then show ?case using within.within_changed [of R "k - 1" q' q t t'] by (cases k) auto
next
  case (within_deleted j q' q t)
  then show ?case using within.within_deleted [of R "k - 1" q' q t] by (cases k) auto
qed (auto intro: within.intros)

lemma within_weaken: "within R k q' q \<Longrightarrow> (\<And>x y. R x y \<Longrightarrow> S x y) \<Longrightarrow> within S k q' q"
  by (induction rule: within.induct) (auto intro: within.intros)

lemma within_zero: "within R k q' q \<Longrightarrow> k = 0 \<Longrightarrow> q' = q"
  by (induction rule: within.induct) auto

lemma within_append: "within R j q1 q2 \<Longrightarrow> within R k r1 r2 \<Longrightarrow> within R (j + k) (q1 @ r1) (q2 @ r2)"
  by (induction rule: within.induct) (auto intro: within.intros within_more)

lemma within_trans:
  "within R k q2 q3 \<Longrightarrow> transp R \<Longrightarrow> within R j q1 q2 \<Longrightarrow> within R (j + k) q1 q3"
proof (induction arbitrary: q1 j rule: within.induct)
  case (within_none k)
  then show ?case by (auto elim: within_NilE intro: within.intros)
next
  case (within_same k q' q t)
  from within_same.prems(2) show ?case
  proof (rule within_ConsE, goal_cases)
    case (1 q1')
    then show ?thesis using within_same by (auto intro: within.intros)
  next
    case (2 i q1' t')
    then have "within R (Suc (i + k)) q1 (t # q)" using within_same by (auto intro: within.intros)
    then show ?thesis using 2 by simp
  next
    case (3 i)
    then have "within R (Suc (i + k)) q1 (t # q)" using within_same by (auto intro: within.intros)
    then show ?thesis using 3 by simp
  qed
next
  case (within_changed k q' q t t')
  from within_changed.prems(2) show ?case
  proof (rule within_ConsE, goal_cases)
    case (1 q1')
    then show ?thesis using within_changed by (auto intro: within.intros)
  next
    case (2 i q1' t'')
    then have "R t t''" using within_changed.hyps(2) within_changed.prems(1) by (blast dest: transpD)
    then have "within R (Suc (i + k)) q1 (t # q)" using 2 within_changed by (auto intro: within.intros)
    then show ?thesis using 2 by (auto intro: within_more)
  next
    case (3 i)
    then have "within R (Suc (i + k)) q1 (t # q)" using within_changed by (auto intro: within.intros)
    then show ?thesis using 3 by (auto intro: within_more)
  qed
next
  case (within_deleted k q' q t)
  then show ?case by (auto intro: within.intros)
qed

lemma within_embeds: "within R k q' q \<Longrightarrow> reflp R \<Longrightarrow> list_emb (\<lambda>t' t. R t t') q' q"
  by (induction rule: within.induct) (auto dest: reflpD)

lemma within_one_deleted: "within R (Suc k) (take i q @ drop (Suc i) q) q"
proof (cases "i < length q")
  case True
  have "within R (0 + Suc k) (take i q @ drop (Suc i) q) (take i q @ q ! i # drop (Suc i) q)"
    by (intro within_append within_refl within_deleted)
  then show ?thesis using True by (simp add: id_take_nth_drop [symmetric])
qed simp

lemma within_one_changed: "i < length q \<Longrightarrow> R (q ! i) t \<Longrightarrow> within R (Suc k) (q[i := t]) q"
proof -
  assume i: "i < length q" and e: "R (q ! i) t"
  have "within R (0 + Suc k) (take i q @ t # drop (Suc i) q) (take i q @ q ! i # drop (Suc i) q)"
    by (intro within_append within_refl within_changed e)
  then show ?thesis using i by (simp add: id_take_nth_drop [symmetric] upd_conv_take_nth_drop)
qed

abbreviation within_edits :: "nat \<Rightarrow> logged_transaction list \<Rightarrow> logged_transaction list \<Rightarrow> bool" where
  "within_edits \<equiv> within edited\<^sup>*\<^sup>*"

lemma within_edits_trans: "within_edits j q1 q2 \<Longrightarrow> within_edits k q2 q3 \<Longrightarrow> within_edits (j + k) q1 q3"
  by (rule within_trans) (auto intro: transpI rtranclp_trans)

lemma queue_ok_take_drop: "queue_ok b q \<Longrightarrow> queue_ok b (take i q @ drop j q)"
  by (auto simp: queue_ok_def dest: in_set_takeD in_set_dropD)

lemma queue_ok_update: "queue_ok b q \<Longrightarrow> transaction_ok b t \<Longrightarrow> queue_ok b (q[i := t])"
  by (auto simp: queue_ok_def dest: set_update_subset_insert [THEN subsetD])

lemma transaction_ok_refreshed: "transaction_ok b t \<Longrightarrow> refreshed t = t"
  by (simp add: transaction_ok_def refreshed_def transaction_with_statements_def)

lemma edited_distinct: "edited\<^sup>*\<^sup>* t t' \<Longrightarrow> indexes_distinct t \<Longrightarrow> indexes_distinct t'"
  by (induction rule: rtranclp_induct) (auto simp: edited_def indexes_distinct_def dest: edit_step_distinct)

lemma edited_ok: "edited\<^sup>*\<^sup>* t t' \<Longrightarrow> transaction_ok b t \<Longrightarrow> lt_statements t' \<noteq> [] \<Longrightarrow> transaction_ok b t'"
  using edited_identity [of t t'] edited_metadata [of t t'] edited_distinct [of t t']
  by (simp add: transaction_ok_def)

text \<open>One state of the run after another: every reply taken changes or deletes at most one transaction of each queue.\<close>

definition replies_taken :: "merge_run \<Rightarrow> merge_run \<Rightarrow> nat" where
  "replies_taken run run' = length (mr_replies run) - length (mr_replies run')"

lemma some_taken: "length (mr_replies run') < length (mr_replies run) \<Longrightarrow> \<exists>k. replies_taken run run' = Suc k"
  by (simp add: replies_taken_def) presburger

definition evolves :: "merge_run \<Rightarrow> merge_run \<Rightarrow> bool" where
  "evolves run run' \<longleftrightarrow> length (mr_replies run') \<le> length (mr_replies run) \<and>
     (\<forall>b. within_edits (replies_taken run run') (queue_of b run') (queue_of b run) \<and> queue_ok b (queue_of b run'))"

definition queues_ok :: "merge_run \<Rightarrow> bool" where
  "queues_ok run \<longleftrightarrow> (\<forall>b. queue_ok b (queue_of b run))"

lemma evolves_same: "board run' = board run \<Longrightarrow> queues_ok run \<Longrightarrow> evolves run run'"
  using board_queue [of run' run] board_replies [of run' run] by (simp add: evolves_def queues_ok_def)

lemma evolves_trans: "evolves run1 run2 \<Longrightarrow> evolves run2 run3 \<Longrightarrow> evolves run1 run3"
proof -
  assume one: "evolves run1 run2" and two: "evolves run2 run3"
  then have "replies_taken run2 run3 + replies_taken run1 run2 = replies_taken run1 run3"
    by (simp add: evolves_def replies_taken_def)
  then have "within_edits (replies_taken run1 run3) (queue_of b run3) (queue_of b run1)" for b
    using within_edits_trans [of "replies_taken run2 run3" "queue_of b run3" "queue_of b run2" "replies_taken run1 run2" "queue_of b run1"]
      one two by (simp add: evolves_def)
  then show ?thesis using one two by (simp add: evolves_def)
qed

lemma evolves_ok: "evolves run run' \<Longrightarrow> queues_ok run'"
  by (simp add: evolves_def queues_ok_def)

lemma evolves_board:
  assumes "board run1 = board run" "board run1' = board run'" "evolves run1 run1'"
  shows "evolves run run'"
proof -
  have "queue_of b run1 = queue_of b run" "queue_of b run1' = queue_of b run'" for b
    using board_queue assms(1,2) by blast+
  then show ?thesis
    using assms(3) board_replies [OF assms(1)] board_replies [OF assms(2)] by (simp add: evolves_def replies_taken_def)
qed

text \<open>A side replaced by an edited transaction, or deleted.\<close>

lemma replacement_within:
  assumes "queues_ok run" "i < length (queue_of b run)"
    and "\<And>t'. replacement = Some t' \<Longrightarrow> edited\<^sup>*\<^sup>* (queue_of b run ! i) t' \<and> lt_statements t' \<noteq> []"
  shows "within_edits (Suc k) (queue_of b' (with_replacement ctx b i replacement run)) (queue_of b' run) \<and>
    queue_ok b' (queue_of b' (with_replacement ctx b i replacement run))"
proof -
  have at_i: "transaction_ok b (queue_of b run ! i)"
    using assms(1,2) by (simp add: queues_ok_def queue_ok_def)
  have ok: "queue_ok b' (queue_of b' run)" for b' using assms(1) by (simp add: queues_ok_def)
  show ?thesis
  proof (cases replacement)
    case None
    then show ?thesis using ok by (simp add: queue_with_replacement within_one_deleted queue_ok_take_drop)
  next
    case (Some t')
    then have "edited\<^sup>*\<^sup>* (queue_of b run ! i) t'" "lt_statements t' \<noteq> []" using assms(3) by auto
    then show ?thesis
      using Some ok edited_ok [OF _ at_i]
      by (simp add: queue_with_replacement within_one_changed [OF assms(2)] queue_ok_update)
  qed
qed

lemma standalone_prompt_edits:
  assumes "prompt_standalone_transaction_resolution term ctx db t allow replies = Inr (Some statements, rest)"
    and "statements \<noteq> []" "transaction_ok b t"
  shows "edited\<^sup>*\<^sup>* t (transaction_with_statements t statements)"
proof -
  let ?shown = "[(transaction_label t, refreshed t)]"
  have shown: "shown_ok ?shown"
    using assms(3) by (simp add: shown_ok_def dict_ok_def transaction_ok_def)
  obtain labels changed where loop: "prompt_loop term ctx db allow False ?shown replies = Inr (Entered labels changed, rest)"
    and statements: "statements = lt_statements (the (map_of labels (transaction_label t)))"
    using assms(1,2)
    by (auto simp: prompt_standalone_transaction_resolution_def Let_def result_bind_def
        split: sum.splits prod.splits prompt_end.splits)
  have "one_edit\<^sup>*\<^sup>* ?shown labels" using prompt_loop_outcome [OF loop shown] by (simp add: loop_outcome_def)
  then obtain t' where t': "map_of labels (transaction_label t) = Some t'" "edited\<^sup>*\<^sup>* t t'"
    using one_edits_edited [of ?shown labels "transaction_label t" "refreshed t"] transaction_ok_refreshed [OF assms(3)] by auto
  have "t' = transaction_with_statements t (lt_statements t')"
    using edited_identity [OF t'(2)] edited_metadata [OF t'(2)] assms(3)
    by (simp add: transaction_ok_def transaction_with_statements_def)
  then show ?thesis using t' statements by simp
qed

lemma standalone_prompt_takes:
  assumes "prompt_standalone_transaction_resolution term ctx db t allow replies = Inr (statements, rest)"
    and "transaction_ok b t"
  shows "length rest < length replies"
proof -
  let ?shown = "[(transaction_label t, refreshed t)]"
  have "shown_ok ?shown" using assms(2) by (simp add: shown_ok_def dict_ok_def transaction_ok_def)
  moreover have "statement_lookup ?shown \<noteq> []" using assms(2) by (simp add: lookup_empty transaction_ok_def)
  moreover obtain finished where "prompt_loop term ctx db allow False ?shown replies = Inr (finished, rest)"
    using assms(1) by (auto simp: prompt_standalone_transaction_resolution_def Let_def result_bind_def split: sum.splits prod.splits)
  ultimately show ?thesis using prompt_loop_outcome by (fastforce simp: loop_outcome_def)
qed

lemma evolves_standalone:
  assumes "standalone_resolved term ctx db b outcome run run'" "queues_ok run"
  shows "evolves run run'"
proof -
  have head: "queue_of b run \<noteq> []" and ok: "transaction_ok b (hd (queue_of b run))"
    using assms by (auto simp: standalone_resolved_def queues_ok_def queue_ok_def)
  obtain statements rest replacement where
      prompt: "prompt_standalone_transaction_resolution term ctx db (hd (queue_of b run)) False (mr_replies run) =
        Inr (statements, rest)"
    and run': "run' = with_replacement ctx b 0 replacement (run\<lparr>mr_replies := rest\<rparr>)"
    and replacement: "replacement = None \<or> (\<exists>sts. statements = Some sts \<and> sts \<noteq> [] \<and>
        replacement = Some (transaction_with_statements (hd (queue_of b run)) sts))"
    using assms(1) by (cases outcome) (auto simp: standalone_resolved_def)
  let ?run0 = "run\<lparr>mr_replies := rest\<rparr>"
  have shorter: "length rest < length (mr_replies run)" by (rule standalone_prompt_takes [OF prompt ok])
  then obtain k where k: "replies_taken run run' = Suc k"
    using some_taken [of run' run] by (auto simp: run')
  have new: "edited\<^sup>*\<^sup>* (queue_of b ?run0 ! 0) t' \<and> lt_statements t' \<noteq> []" if "replacement = Some t'" for t'
    using that replacement standalone_prompt_edits [OF _ _ ok, of "term" ctx db False "mr_replies run" _ rest] prompt
      hd_conv_nth [OF head] by auto
  have "within_edits (Suc k) (queue_of b' run') (queue_of b' ?run0) \<and> queue_ok b' (queue_of b' run')" for b'
    unfolding run' by (rule replacement_within) (use assms(2) head new in \<open>simp_all add: queues_ok_def\<close>)
  then show ?thesis using shorter k run' by (simp add: evolves_def)
qed

lemma side_within:
  assumes "queues_ok run" "i < length (queue_of b run)" "side_resolved (queue_of b run ! i) changed replacement"
  shows "within_edits (Suc k) (queue_of b (side_applied ctx b i changed replacement run)) (queue_of b run) \<and>
    queue_ok b (queue_of b (side_applied ctx b i changed replacement run)) \<and>
    queue_of (other_branch b) (side_applied ctx b i changed replacement run) = queue_of (other_branch b) run"
proof (cases changed)
  case False
  then show ?thesis using assms(1) by (simp add: side_applied_def queues_ok_def)
next
  case True
  have "refreshed (queue_of b run ! i) = queue_of b run ! i"
    by (rule transaction_ok_refreshed [of b]) (use assms(1,2) in \<open>simp add: queues_ok_def queue_ok_def\<close>)
  then have "replacement = Some t' \<Longrightarrow> edited\<^sup>*\<^sup>* (queue_of b run ! i) t' \<and> lt_statements t' \<noteq> []" for t'
    using assms(3) by (auto simp: side_resolved_def)
  then show ?thesis
    using True replacement_within [OF assms(1,2), of replacement k b ctx]
    by (simp add: side_applied_def queue_with_replacement)
qed

text \<open>The run a pair prompt leaves: its queues evolve, and a side that is unchanged stays.\<close>

lemma evolves_pair:
  assumes "pair_resolved ctx conflict resolution rest outcome run run'" "queues_ok run"
    and "prompt_pair_transaction_resolution term ctx db conflict (mr_ours run) (mr_theirs run) allow
      (mr_replies run) = Inr (resolution, rest)"
  shows "evolves run run'"
proof -
  obtain i j where ij: "index_for_branch conflict Ours = Some i" "i < length (mr_ours run)"
      "index_for_branch conflict Theirs = Some j" "j < length (mr_theirs run)"
    using assms(1) by (auto simp: pair_resolved_def)
  let ?t = "mr_ours run ! i" and ?u = "mr_theirs run ! j"
  have found: "conflicting_transaction conflict Ours (mr_ours run) = Inr ?t"
      "conflicting_transaction conflict Theirs (mr_theirs run) = Inr ?u"
    using ij by (simp_all add: conflicting_transaction_def)
  have "transaction_ok Ours ?t" "transaction_ok Theirs ?u"
    using assms(2) ij(2,4) unfolding queues_ok_def queue_ok_def queue_of_def by (metis branch.simps(3,4) nth_mem)+
  then have decided: "(if pr_action resolution = Accept_Action then True
      else side_resolved ?t (pr_changed_ours resolution) (pr_ours resolution) \<and>
        side_resolved ?u (pr_changed_theirs resolution) (pr_theirs resolution)) \<and> length rest < length (mr_replies run)"
    using pair_prompt_decides [OF found _ _ _ _ _ _ assms(3)] by (auto simp: transaction_ok_def split: if_splits)
  let ?run0 = "run\<lparr>mr_replies := rest\<rparr>"
  have ok0: "queues_ok ?run0" using assms(2) by (simp add: queues_ok_def)
  have start: "queue_of Ours ?run0 = mr_ours run" "queue_of Theirs ?run0 = mr_theirs run" by (simp_all add: queue_of_def)
  show ?thesis
  proof (cases "pr_action resolution = Accept_Action")
    case True
    then have "run' = ?run0" using assms(1) by (auto simp: pair_resolved_def)
    then show ?thesis using assms(2) decided by (simp add: evolves_def queues_ok_def)
  next
    case False
    let ?run1 = "side_applied ctx Ours i (pr_changed_ours resolution) (pr_ours resolution) ?run0"
    have run': "run' = side_applied ctx Theirs j (pr_changed_theirs resolution) (pr_theirs resolution) ?run1"
      using assms(1) False ij by (auto simp: pair_resolved_def)
    have replies: "mr_replies run' = rest" by (simp add: run' side_applied_def)
    then obtain k where k: "replies_taken run run' = Suc k"
      using some_taken [of run' run] conjunct2 [OF decided] by metis
    have ours: "side_resolved (queue_of Ours ?run0 ! i) (pr_changed_ours resolution) (pr_ours resolution)"
        "i < length (queue_of Ours ?run0)"
      unfolding start using decided False ij by simp_all
    note one = side_within [OF ok0 ours(2,1), of k ctx, unfolded other_branch_def branch.case]
    have first: "within_edits (Suc k) (queue_of Ours ?run1) (queue_of Ours ?run0)" "queue_ok Ours (queue_of Ours ?run1)"
        "queue_of Theirs ?run1 = queue_of Theirs ?run0"
      by (rule one [THEN conjunct1], rule one [THEN conjunct2, THEN conjunct1], rule one [THEN conjunct2, THEN conjunct2])
    have other: "queue_ok Theirs (queue_of Theirs ?run1)"
      unfolding first(3) by (rule spec [OF ok0 [unfolded queues_ok_def]])
    have "queue_ok b (queue_of b ?run1)" for b
      by (cases b) (simp_all only: first(2) other)
    then have ok1: "queues_ok ?run1" unfolding queues_ok_def by (rule allI)
    have theirs: "side_resolved (queue_of Theirs ?run1 ! j) (pr_changed_theirs resolution) (pr_theirs resolution)"
        "j < length (queue_of Theirs ?run1)"
      unfolding first(3) start using decided False ij by simp_all
    note two = side_within [OF ok1 theirs(2,1), of k ctx, unfolded other_branch_def branch.case]
    have "within_edits (Suc k) (queue_of Theirs run') (queue_of Theirs ?run1)" "queue_ok Theirs (queue_of Theirs run')"
        "queue_of Ours run' = queue_of Ours ?run1"
      unfolding run'
      by (rule two [THEN conjunct1], rule two [THEN conjunct2, THEN conjunct1], rule two [THEN conjunct2, THEN conjunct2])
    then have "within_edits (Suc k) (queue_of b run') (queue_of b run) \<and> queue_ok b (queue_of b run')" for b
      using first start by (cases b) simp_all
    then show ?thesis using decided k replies by (simp add: evolves_def)
  qed
qed

lemma unchanged_side_stays:
  assumes "pair_resolved ctx conflict resolution rest outcome run run'"
    and "outcome = Pair_Accepted \<or> outcome_side outcome b = Side_Unchanged"
  shows "queue_of b run' = queue_of b run"
  using assms
  by (cases b) (auto simp: pair_resolved_def outcome_side_def pair_side_outcome_def side_applied_def
      queue_with_replacement split: if_splits)

lemma pair_resolved_fields:
  "pair_resolved ctx conflict resolution rest outcome run run' \<Longrightarrow>
     mr_scan run' = mr_scan run \<and> mr_followup run' = mr_followup run"
  by (auto simp: pair_resolved_def side_applied_def split: if_splits)

lemma standalone_resolved_fields:
  "standalone_resolved term ctx db b outcome run run' \<Longrightarrow>
     mr_scan run' = mr_scan run \<and> mr_followup run' = mr_followup run"
  by (cases outcome) (auto simp: standalone_resolved_def)

section \<open>One turn\<close>

definition turn_ok :: "'db merge_context \<Rightarrow> branch \<Rightarrow> 'db \<Rightarrow> 'db replay_state \<times> merge_run \<Rightarrow> bool" where
  "turn_ok ctx b db s \<longleftrightarrow>
     queues_ok (snd s) \<and>
     (case mr_scan (snd s) of
        None \<Rightarrow> idle ctx db (fst s) \<and> mr_followup (snd s) = None
      | Some scan \<Rightarrow>
          scan_at ctx db b False (fst s, scan) \<and>
          unresolved_replay_safety_conflict (hd (queue_of b (snd s))) = None \<and>
          (\<forall>pair. mr_followup (snd s) = Some pair \<longrightarrow> pair_of_scan b pair \<and> \<not> pair_is_standalone pair))"

text \<open>
  What one iteration does over a content \<open>db\<close>: nothing to the database, or, as the last one, the
  atomic step of the head, which nothing blocks.
\<close>

definition head_accepted ::
    "'db merge_context \<Rightarrow> branch \<Rightarrow> 'db \<Rightarrow> 'db replay_state \<times> merge_run \<Rightarrow> 'db replay_state \<times> merge_run \<Rightarrow> bool" where
  "head_accepted ctx b db s s' \<longleftrightarrow>
     (\<exists>t db'. queue_of b (snd s) = t # queue_of b (snd s') \<and>
        queue_of (other_branch b) (snd s') = queue_of (other_branch b) (snd s) \<and>
        length (mr_replies (snd s')) \<le> length (mr_replies (snd s)) \<and>
        unresolved_replay_safety_conflict t = None \<and> db' \<in> accept_result ctx False t db \<and>
        idle ctx db' (fst s'))"

definition step_effect ::
    "'db merge_context \<Rightarrow> branch \<Rightarrow> 'db \<Rightarrow> bool \<Rightarrow> 'db replay_state \<times> merge_run \<Rightarrow> 'db replay_state \<times> merge_run \<Rightarrow> bool" where
  "step_effect ctx b db finished s s' \<longleftrightarrow>
     (if finished then idle ctx db (fst s') \<and> evolves (snd s) (snd s') \<or> head_accepted ctx b db s s'
      else turn_ok ctx b db s' \<and> evolves (snd s) (snd s'))"

lemma on_scan_result:
  assumes "on_scan m s = (Inr r, s')"
  obtains scan c scan' where "mr_scan (snd s) = Some scan" "m (fst s, scan) = (Inr r, (c, scan'))"
    "s' = (c, (snd s)\<lparr>mr_scan := Some scan'\<rparr>)"
  using assms by (auto simp: on_scan_def split: option.splits prod.splits)

lemma forget_scan_result:
  assumes "forget_scan ctx s = (Inr r, s')" "engine_ok ctx"
    and "mr_scan (snd s) = Some scan" "scan_new ctx db b (fst s, scan) \<or> scan_at ctx db b broken (fst s, scan)"
  shows "idle ctx db (fst s') \<and> snd s' = (snd s)\<lparr>mr_scan := None\<rparr>"
proof -
  obtain u s1 where close: "on_scan (close_current_scan ctx) s = (Inr u, s1)"
    and upd: "update_object (\<lambda>run. run\<lparr>mr_scan := None\<rparr>) s1 = (Inr r, s')"
    using assms(1) unfolding forget_scan_def by (rule and_then_obtain)
  obtain c scan' where one: "close_current_scan ctx (fst s, scan) = (Inr u, (c, scan'))"
      "s1 = (c, (snd s)\<lparr>mr_scan := Some scan'\<rparr>)"
    using on_scan_result [OF close] assms(3) by (metis option.inject)
  show ?thesis
    using close_current_scan_idle [OF one(1) assms(2,4)] one(2) upd by (auto simp: update_object_def)
qed

lemma standalone_step:
  assumes "resolve_standalone_replay term ctx b conflict s = (Inr outcome, s')" "queues_ok (snd s)"
  shows "fst s' = fst s \<and> evolves (snd s) (snd s') \<and> mr_scan (snd s') = mr_scan (snd s) \<and>
    mr_followup (snd s') = mr_followup (snd s)"
proof -
  obtain c run where s: "s = (c, run)" by fastforce
  note one = standalone_result [OF assms(1) [unfolded s]]
  show ?thesis
    using one evolves_standalone [OF conjunct2 [OF one]] standalone_resolved_fields [OF conjunct2 [OF one]] assms(2)
    by (simp add: s)
qed

lemma accepted_pair_effect:
  assumes "handle_accepted_pair ctx b conflict s = (Inr finished, s')" "engine_ok ctx"
    and "mr_scan (snd s) = Some scan" "scan_at ctx db b False (fst s, scan)"
  shows "\<not> finished \<and> queue_of b' (snd s') = queue_of b' (snd s) \<and> mr_replies (snd s') = mr_replies (snd s) \<and>
    (\<exists>scan'. mr_scan (snd s') = Some scan' \<and> scan_at ctx db b False (fst s', scan')) \<and>
    (\<forall>pair. mr_followup (snd s') = Some pair \<longrightarrow> pair_of_scan b pair \<and> \<not> pair_is_standalone pair)"
proof -
  let ?keys = "\<lambda>r. case pair_resolution_key conflict of
      None \<Rightarrow> r | Some key \<Rightarrow> r\<lparr>mr_accepted_pair_keys := insert key (mr_accepted_pair_keys r)\<rparr>"
  have same: "mr_scan (?keys r) = mr_scan r" "queue_of b'' (?keys r) = queue_of b'' r" "mr_replies (?keys r) = mr_replies r"
    for r b''
    by (simp_all split: option.splits)
  obtain others followup s2 where scanned: "on_scan (accept_pair ctx conflict others) (fst s, ?keys (snd s)) = (Inr followup, s2)"
    and s': "s' = (fst s2, (snd s2)\<lparr>mr_followup := followup\<rparr>)" and finished: "\<not> finished"
    using assms(1)
    by (auto simp: handle_accepted_pair_def update_object_def the_object_def return_value_def dest!: and_then_result)
  obtain c scan' where one: "accept_pair ctx conflict others (fst s, scan) = (Inr followup, (c, scan'))"
      "s2 = (c, (?keys (snd s))\<lparr>mr_scan := Some scan'\<rparr>)"
    using on_scan_result [OF scanned] assms(3) same(1) by (metis fst_conv option.inject snd_conv)
  note state = accept_pair_state [OF one(1) assms(2,4)]
  show ?thesis using state s' one(2) finished same(2,3) by simp
qed

lemma resolved_pair_effect:
  assumes "handle_resolved_pair ctx b x y s = (Inr finished, s')" "engine_ok ctx"
    and "mr_scan (snd s) = Some scan" "scan_at ctx db b False (fst s, scan)"
  shows "(\<forall>b'. queue_of b' (snd s') = queue_of b' (snd s)) \<and> mr_replies (snd s') = mr_replies (snd s) \<and> mr_followup (snd s') = mr_followup (snd s) \<and>
    (case x of
       Side_Deleted \<Rightarrow> finished \<and> idle ctx db (fst s')
     | Side_Edited \<Rightarrow> \<not> finished \<and> mr_scan (snd s') = None \<and> idle ctx db (fst s')
     | Side_Unchanged \<Rightarrow> \<not> finished \<and> (\<exists>scan'. mr_scan (snd s') = Some scan' \<and> scan_at ctx db b False (fst s', scan')))"
proof (cases x)
  case Side_Deleted
  obtain u where close: "on_scan (close_current_scan ctx) s = (Inr u, s')" and finished
    using assms(1) Side_Deleted by (auto simp: handle_resolved_pair_def return_value_def dest!: and_then_result)
  obtain c scan' where one: "close_current_scan ctx (fst s, scan) = (Inr u, (c, scan'))"
      "s' = (c, (snd s)\<lparr>mr_scan := Some scan'\<rparr>)"
    using on_scan_result [OF close] assms(3) by (metis option.inject)
  show ?thesis
    using close_current_scan_idle [OF one(1) assms(2) disjI2 [OF assms(4)]] one(2) \<open>finished\<close> Side_Deleted by simp
next
  case Side_Edited
  obtain u where forget: "forget_scan ctx s = (Inr u, s')" and "\<not> finished"
    using assms(1) Side_Edited by (auto simp: handle_resolved_pair_def return_value_def dest!: and_then_result)
  then show ?thesis using forget_scan_result [OF forget assms(2,3) disjI2 [OF assms(4)]] Side_Edited by simp
next
  case Side_Unchanged
  show ?thesis
  proof (cases "y = Side_Edited")
    case True
    obtain index u where enable: "on_scan (enable_checks_after_other_edit ctx index) s = (Inr u, s')" and "\<not> finished"
      using assms(1) Side_Unchanged True
      by (auto simp: handle_resolved_pair_def the_object_def return_value_def dest!: and_then_result)
    obtain c scan' where one: "enable_checks_after_other_edit ctx index (fst s, scan) = (Inr u, (c, scan'))"
        "s' = (c, (snd s)\<lparr>mr_scan := Some scan'\<rparr>)"
      using on_scan_result [OF enable] assms(3) by (metis option.inject)
    show ?thesis using enable_checks_state [OF one(1) assms(4)] one(2) \<open>\<not> finished\<close> Side_Unchanged by simp
  next
    case False
    then show ?thesis
      using assms Side_Unchanged by (auto simp: handle_resolved_pair_def return_value_def)
  qed
qed

lemma handle_conflict_effect:
  assumes "handle_conflict term ctx b conflict s = (Inr finished, s')" "engine_ok ctx" "queues_ok (snd s)"
    and "mr_scan (snd s) = Some scan" "scan_at ctx db b (pair_is_standalone conflict) (fst s, scan)"
    and "pair_of_scan b conflict" "mr_followup (snd s) = None"
    and "unresolved_replay_safety_conflict (hd (queue_of b (snd s))) = None"
  shows "step_effect ctx b db finished s s'"
proof (cases "is_current_standalone_replay conflict b")
  case True
  obtain outcome s1 where one: "resolve_standalone_replay term ctx b conflict s = (Inr outcome, s1)"
      and two: "and_then (forget_scan ctx) (\<lambda>_. return_value (ends_turn outcome)) s1 = (Inr finished, s')"
    by (rule and_then_obtain [OF assms(1) [unfolded handle_conflict_def if_P [OF True]]])
  obtain u where forget: "forget_scan ctx s1 = (Inr u, s')"
    using two by (auto simp: return_value_def dest!: and_then_result)
  note alone = standalone_step [OF one assms(3)]
  have "idle ctx db (fst s') \<and> snd s' = (snd s1)\<lparr>mr_scan := None\<rparr>"
    by (rule forget_scan_result [OF forget assms(2), of scan db b "pair_is_standalone conflict"])
      (use alone assms(4,5) in simp_all)
  then show ?thesis
    using alone assms(7) evolves_ok [of "snd s" "snd s1"]
    by (auto simp: step_effect_def turn_ok_def evolves_def queues_ok_def replies_taken_def)
next
  case False
  then have joint: "\<not> pair_is_standalone conflict"
    using assms(6) by (simp add: is_current_standalone_replay_def pair_of_scan_def)
  obtain c run where s: "s = (c, run)" by fastforce
  obtain outcome s1 where one: "resolve_remaining_pair_conflict term ctx conflict (c, run) = (Inr outcome, s1)"
      and two: "(if outcome = Pair_Accepted then handle_accepted_pair ctx b conflict
         else handle_resolved_pair ctx b (outcome_side outcome b) (outcome_side outcome (other_branch b))) s1
         = (Inr finished, s')"
    by (rule and_then_obtain [OF assms(1) [unfolded handle_conflict_def if_not_P [OF False] s]])
  obtain resolution rest where c: "fst s1 = c"
    and pair: "pair_resolved ctx conflict resolution rest outcome run (snd s1)"
    and prompt: "prompt_pair_transaction_resolution term ctx (content c) conflict (mr_ours run) (mr_theirs run)
       (is_reviewable_pair_conflict conflict) (mr_replies run) = Inr (resolution, rest)"
    using pair_result [OF one] by metis
  have ev: "evolves (snd s) (snd s1)" using evolves_pair [OF pair _ prompt] assms(3) s by simp
  have fields: "mr_scan (snd s1) = Some scan" "mr_followup (snd s1) = None"
    using pair_resolved_fields [OF pair] assms(4,7) s by simp_all
  have scan: "scan_at ctx db b False (fst s1, scan)" using assms(5) joint c s by simp
  show ?thesis
  proof (cases "outcome = Pair_Accepted")
    case True
    have head: "queue_of b (snd s1) = queue_of b (snd s)" using unchanged_side_stays [OF pair] True s by simp
    note accepted = accepted_pair_effect [OF two [unfolded if_P [OF True]] assms(2) fields(1) scan]
    then obtain scan' where "mr_scan (snd s') = Some scan'" "scan_at ctx db b False (fst s', scan')" by blast
    moreover have "queue_of b' (snd s') = queue_of b' (snd s1)" for b' using accepted by blast
    ultimately show ?thesis
      using accepted ev head assms(8) by (simp add: step_effect_def turn_ok_def evolves_def queues_ok_def replies_taken_def)
  next
    case False
    have head: "outcome_side outcome b = Side_Unchanged \<Longrightarrow> queue_of b (snd s1) = queue_of b (snd s)"
      using unchanged_side_stays [OF pair] s by simp
    from resolved_pair_effect [OF two [unfolded if_not_P [OF False]] assms(2) fields(1) scan]
    show ?thesis
      using ev head assms(8) fields(2)
      by (cases "outcome_side outcome b") (auto simp: step_effect_def turn_ok_def evolves_def queues_ok_def replies_taken_def)
  qed
qed

text \<open>A standalone prompt on an idle connection, with no scan open.\<close>

lemma standalone_effect:
  assumes "and_then (resolve_standalone_replay term ctx b conflict) (\<lambda>outcome. return_value (ends_turn outcome)) s =
      (Inr finished, s')"
    and "idle ctx db (fst s)" "queues_ok (snd s)" "mr_scan (snd s) = None" "mr_followup (snd s) = None"
  shows "step_effect ctx b db finished s s'"
proof -
  obtain outcome where one: "resolve_standalone_replay term ctx b conflict s = (Inr outcome, s')"
    using assms(1) by (auto simp: return_value_def dest!: and_then_result)
  show ?thesis
    using standalone_step [OF one assms(3)] assms(2,4,5) evolves_ok [of "snd s" "snd s'"]
    by (simp add: step_effect_def turn_ok_def)
qed

lemma step_effect_from:
  assumes "step_effect ctx b db finished s1 s'" "\<And>b'. queue_of b' (snd s1) = queue_of b' (snd s)"
    and "mr_replies (snd s1) = mr_replies (snd s)"
  shows "step_effect ctx b db finished s s'"
  using assms by (auto simp: step_effect_def head_accepted_def evolves_def replies_taken_def)

lemma accept_current_effect:
  assumes "accept_current term ctx b (hd (queue_of b (snd s))) s = (Inr finished, s')" "engine_ok ctx"
    and "queues_ok (snd s)" "queue_of b (snd s) \<noteq> []"
    and "mr_scan (snd s) = Some scan" "scan_at ctx db b False (fst s, scan)" "mr_followup (snd s) = None"
    and "unresolved_replay_safety_conflict (hd (queue_of b (snd s))) = None"
  shows "step_effect ctx b db finished s s'"
proof -
  let ?t = "hd (queue_of b (snd s))"
  obtain u s1 where forgot: "forget_scan ctx s = (Inr u, s1)" and applying:
      "and_then (on_connection (apply_accepted_transaction ctx ?t)) (\<lambda>replay_error.
         case replay_error of
           Some conflict \<Rightarrow>
             and_then (resolve_standalone_replay term ctx b (standalone_head_conflict conflict b))
               (\<lambda>outcome. return_value (ends_turn outcome))
         | None \<Rightarrow>
             and_then
               (update_object (\<lambda>run. set_branch b (tl (queue_of b run))
                  (remove_transaction (schema_context ctx) ?t (metadata_index_of b run)) run))
               (\<lambda>_. return_value True)) s1 = (Inr finished, s')"
    by (rule and_then_obtain [OF assms(1) [unfolded accept_current_def]])
  obtain replay_error s2 where
      applied: "on_connection (apply_accepted_transaction ctx ?t) s1 = (Inr replay_error, s2)"
      and rest: "(case replay_error of
         Some conflict \<Rightarrow>
           and_then (resolve_standalone_replay term ctx b (standalone_head_conflict conflict b))
             (\<lambda>outcome. return_value (ends_turn outcome))
       | None \<Rightarrow>
           and_then
             (update_object (\<lambda>run. set_branch b (tl (queue_of b run))
                (remove_transaction (schema_context ctx) ?t (metadata_index_of b run)) run))
             (\<lambda>_. return_value True)) s2 = (Inr finished, s')"
    by (rule and_then_obtain [OF applying])
  have one: "idle ctx db (fst s1)" "snd s1 = (snd s)\<lparr>mr_scan := None\<rparr>"
    using forget_scan_result [OF forgot assms(2,5) disjI2 [OF assms(6)]] by simp_all
  have "lt_statements ?t \<noteq> []"
    using assms(3) hd_in_set [OF assms(4)] unfolding queues_ok_def queue_ok_def transaction_ok_def by blast
  moreover obtain c2 where c2: "apply_accepted_transaction ctx ?t (fst s1) = (Inr replay_error, c2)" "s2 = (c2, snd s1)"
    using applied by (auto simp: on_connection_def split: prod.splits)
  moreover have "stack (fst s1) = []" "content (fst s1) = db" "cache_coherent ctx (fst s1)" using one(1) by (simp_all add: idle_def)
  ultimately have effect: "cache_coherent ctx c2" "if replay_error = None then content c2 \<in> accept_result ctx False ?t db \<and> stack c2 = []
      else content c2 = db \<and> stack c2 = []"
    using apply_accepted_step [OF engine_okD(1) [OF assms(2)], of "fst s1" ?t]
    by (fastforce simp: accept_outcome_def accept_result_def split: option.splits)+
  show ?thesis
  proof (cases replay_error)
    case None
    then have db': "content c2 \<in> accept_result ctx False ?t db" "idle ctx (content c2) c2"
      using effect by (auto simp: idle_def)
    have "finished" "fst s' = c2" "mr_replies (snd s') = mr_replies (snd s)"
        "\<And>b'. queue_of b' (snd s') = (if b' = b then tl (queue_of b' (snd s)) else queue_of b' (snd s))"
      using rest None c2(2) one(2)
      by (auto simp: update_object_def return_value_def set_branch_def queue_of_def dest!: and_then_result split: branch.splits)
    then show ?thesis
      using db' assms(4,8) by (auto simp: step_effect_def head_accepted_def intro!: exI [of _ ?t])
  next
    case (Some conflict)
    then have "idle ctx db (fst s2)" using effect c2(2) by (auto simp: idle_def)
    moreover have "queues_ok (snd s2)" "mr_scan (snd s2) = None" "mr_followup (snd s2) = None"
      using c2(2) one(2) assms(3,7) by (simp_all add: queues_ok_def)
    ultimately have "step_effect ctx b db finished s2 s'"
      using standalone_effect rest Some by simp
    then show ?thesis by (rule step_effect_from) (simp_all add: c2(2) one(2))
  qed
qed

lemma next_pair_effect:
  assumes "next_pair_of_turn ctx b s = (Inr conflict, s')" "engine_ok ctx"
    and "mr_scan (snd s) = Some scan" "scan_new ctx db b (fst s, scan) \<and> mr_followup (snd s) = None \<or> scan_at ctx db b False (fst s, scan)"
    and "\<forall>pair. mr_followup (snd s) = Some pair \<longrightarrow> pair_of_scan b pair \<and> \<not> pair_is_standalone pair"
  shows "\<exists>scan'. mr_scan (snd s') = Some scan' \<and> mr_followup (snd s') = None \<and> board (snd s') = board (snd s) \<and>
    scan_at ctx db b (\<exists>pair. conflict = Some pair \<and> pair_is_standalone pair) (fst s', scan') \<and>
    (\<forall>pair. conflict = Some pair \<longrightarrow> pair_of_scan b pair)"
proof -
  have board: "board (snd s') = board (snd s)" by (rule same_boardD [OF same_board_next_pair assms(1)])
  show ?thesis
  proof (cases "mr_followup (snd s)")
    case (Some pair)
    then have "conflict = Some pair" "fst s' = fst s" "snd s' = (snd s)\<lparr>mr_followup := None\<rparr>"
      using assms(1)
      by (auto simp: next_pair_of_turn_def the_object_def update_object_def return_value_def dest!: and_then_result)
    then show ?thesis using assms(3-5) Some board by simp
  next
    case None
    obtain others where scanned: "on_scan (next_pair ctx others) s = (Inr conflict, s')"
      using assms(1) None by (auto simp: next_pair_of_turn_def the_object_def dest!: and_then_result)
    obtain c scan' where one: "next_pair ctx others (fst s, scan) = (Inr conflict, (c, scan'))"
        "s' = (c, (snd s)\<lparr>mr_scan := Some scan'\<rparr>)"
      using on_scan_result [OF scanned] assms(3) by (metis option.inject)
    have "scan_new ctx db b (fst s, scan) \<or> scan_at ctx db b False (fst s, scan)" using assms(4) by blast
    from next_pair_state [OF one(1) assms(2) this] show ?thesis using one(2) None board by simp
  qed
qed

lemma check_accept_step_effect:
  assumes "check_accept_step term ctx b s = (Inr finished, s')" "engine_ok ctx" "turn_ok ctx b db s"
  shows "step_effect ctx b db finished s s'"
proof -
  have nonempty: "queue_of b (snd s) \<noteq> []"
    and run: "check_current term ctx b (hd (queue_of b (snd s))) s = (Inr finished, s')"
    using check_accept_step_result [OF assms(1)] by (simp_all add: hd_conv_nth)
  let ?t = "hd (queue_of b (snd s))"
  have ok: "queues_ok (snd s)" using assms(3) by (simp add: turn_ok_def)
  show ?thesis
  proof (cases "unresolved_replay_safety_conflict ?t")
    case (Some conflict)
    then have none: "mr_scan (snd s) = None" "idle ctx db (fst s)" "mr_followup (snd s) = None"
      using assms(3) by (auto simp: turn_ok_def split: option.splits)
    have "and_then (resolve_standalone_replay term ctx b (standalone_head_conflict conflict b))
        (\<lambda>outcome. return_value (ends_turn outcome)) s = (Inr finished, s')"
      using run Some none(1)
      by (simp add: check_current_def close_open_scan_def and_then_def [of "and_then the_object _"]
          and_then_def [of the_object] the_object_def return_value_def)
    then show ?thesis using none ok by (intro standalone_effect)
  next
    case None
    note running = run [unfolded check_current_def None option.case(1)]
    obtain u s1 where opened: "open_turn_scan ctx b ?t s = (Inr u, s1)"
        and finding: "and_then (next_pair_of_turn ctx b) (\<lambda>conflict.
            case conflict of Some pair \<Rightarrow> handle_conflict term ctx b pair
            | None \<Rightarrow> accept_current term ctx b ?t) s1 = (Inr finished, s')"
      by (rule and_then_obtain [OF running])
    obtain conflict s2 where found: "next_pair_of_turn ctx b s1 = (Inr conflict, s2)"
        and rest: "(case conflict of Some pair \<Rightarrow> handle_conflict term ctx b pair
             | None \<Rightarrow> accept_current term ctx b ?t) s2 = (Inr finished, s')"
      by (rule and_then_obtain [OF finding])
    obtain scan where scan: "mr_scan (snd s1) = Some scan"
        "scan_new ctx db b (fst s1, scan) \<and> mr_followup (snd s1) = None \<or> scan_at ctx db b False (fst s1, scan)"
        "\<forall>pair. mr_followup (snd s1) = Some pair \<longrightarrow> pair_of_scan b pair \<and> \<not> pair_is_standalone pair"
      using opened assms(3) new_current_scan_new [of ctx db "fst s" b ?t "metadata_index_of (other_branch b) (snd s)"
          "mr_accepted_pair_keys (snd s)"]
      by (auto simp: open_turn_scan_def update_object_def turn_ok_def split: option.splits if_splits)
    obtain scan' where scan': "mr_scan (snd s2) = Some scan'" "mr_followup (snd s2) = None"
        "board (snd s2) = board (snd s1)"
        "scan_at ctx db b (\<exists>pair. conflict = Some pair \<and> pair_is_standalone pair) (fst s2, scan')"
        "\<forall>pair. conflict = Some pair \<longrightarrow> pair_of_scan b pair"
      using next_pair_effect [OF found assms(2) scan] by blast
    have board: "board (snd s2) = board (snd s)"
      using same_boardD [OF same_board_open_scan opened] scan'(3) by simp
    then have same: "queue_of b' (snd s2) = queue_of b' (snd s)" for b' by (rule board_queue)
    have ok2: "queues_ok (snd s2)" using ok same by (simp add: queues_ok_def)
    have "step_effect ctx b db finished s2 s'"
    proof (cases conflict)
      case (Some pair)
      then show ?thesis
        using handle_conflict_effect [OF _ assms(2) ok2 scan'(1) _ _ scan'(2)] rest scan'(4,5) None same by simp
    next
      case none: None
      then show ?thesis
        using accept_current_effect [OF _ assms(2) ok2 _ scan'(1) _ scan'(2)] rest scan'(4) None same nonempty by simp
    qed
    then show ?thesis by (rule step_effect_from) (rule same, rule board_replies [OF board])
  qed
qed

section \<open>The merge is a serial replay\<close>

text \<open>The contents the atomic steps of a list of transactions can lead to.\<close>

fun serial_replay :: "'db merge_context \<Rightarrow> logged_transaction list \<Rightarrow> 'db \<Rightarrow> 'db set" where
  "serial_replay ctx [] db = {db}"
| "serial_replay ctx (t # ts) db = \<Union> (serial_replay ctx ts ` accept_result ctx False t db)"

lemma serial_replay_append:
  "serial_replay ctx (ts @ us) db = \<Union> (serial_replay ctx us ` serial_replay ctx ts db)"
  by (induction ts arbitrary: db) auto

definition of_branch :: "branch \<Rightarrow> logged_transaction list \<Rightarrow> logged_transaction list" where
  "of_branch b = filter (\<lambda>t. lt_branch t = b)"

text \<open>
  From one state to another some transactions were accepted, in this order: the content is their
  serial replay, and for each branch they and what is left are the queue, in its order, but for at
  most one transaction changed or deleted for each reply taken.
\<close>

definition merges ::
    "'db merge_context \<Rightarrow> logged_transaction list \<Rightarrow> 'db replay_state \<times> merge_run \<Rightarrow> 'db replay_state \<times> merge_run \<Rightarrow> bool"
where
  "merges ctx accepted s s' \<longleftrightarrow>
     (\<exists>db' \<in> serial_replay ctx accepted (content (fst s)). idle ctx db' (fst s')) \<and>
     queues_ok (snd s') \<and> length (mr_replies (snd s')) \<le> length (mr_replies (snd s)) \<and>
     (\<forall>b. within_edits (replies_taken (snd s) (snd s')) (of_branch b accepted @ queue_of b (snd s')) (queue_of b (snd s))) \<and>
     (\<forall>t \<in> set accepted. unresolved_replay_safety_conflict t = None)"

lemma merges_trans: "merges ctx ts s1 s2 \<Longrightarrow> merges ctx us s2 s3 \<Longrightarrow> merges ctx (ts @ us) s1 s3"
proof -
  assume one: "merges ctx ts s1 s2" and two: "merges ctx us s2 s3"
  let ?taken = "\<lambda>x y. replies_taken (snd x) (snd y)"
  have sum: "?taken s2 s3 + ?taken s1 s2 = ?taken s1 s3" using one two by (simp add: merges_def replies_taken_def)
  have "within_edits (?taken s1 s3) (of_branch b (ts @ us) @ queue_of b (snd s3)) (queue_of b (snd s1))" for b
  proof -
    have "within_edits (0 + ?taken s2 s3) (of_branch b ts @ (of_branch b us @ queue_of b (snd s3)))
        (of_branch b ts @ queue_of b (snd s2))"
      using two by (intro within_append within_refl) (simp add: merges_def)
    moreover have "within_edits (?taken s1 s2) (of_branch b ts @ queue_of b (snd s2)) (queue_of b (snd s1))"
      using one by (simp add: merges_def)
    ultimately have "within_edits (?taken s2 s3 + ?taken s1 s2) (of_branch b ts @ of_branch b us @ queue_of b (snd s3))
        (queue_of b (snd s1))"
      using within_edits_trans by fastforce
    then show ?thesis by (simp only: sum of_branch_def filter_append append_assoc)
  qed
  then show ?thesis using one two by (auto simp: merges_def serial_replay_append idle_def)
qed

lemma merges_nothing:
  "idle ctx (content (fst s)) (fst s') \<Longrightarrow> evolves (snd s) (snd s') \<Longrightarrow> merges ctx [] s s'"
  by (simp add: merges_def of_branch_def evolves_def queues_ok_def)

lemma merges_head:
  assumes "head_accepted ctx b (content (fst s)) s s'" "queues_ok (snd s)"
  shows "\<exists>t. merges ctx [t] s s'"
proof -
  obtain t db' where t: "queue_of b (snd s) = t # queue_of b (snd s')"
      "queue_of (other_branch b) (snd s') = queue_of (other_branch b) (snd s)"
      "length (mr_replies (snd s')) \<le> length (mr_replies (snd s))"
      "unresolved_replay_safety_conflict t = None" "db' \<in> accept_result ctx False t (content (fst s))"
      "idle ctx db' (fst s')"
    using assms(1) by (auto simp: head_accepted_def)
  have branch: "lt_branch t = b" and rest: "queue_ok b (queue_of b (snd s'))"
  proof -
    have "queue_ok b (t # queue_of b (snd s'))" using assms(2) t(1) by (metis queues_ok_def)
    then show "lt_branch t = b" "queue_ok b (queue_of b (snd s'))"
      by (simp_all add: queue_ok_def transaction_ok_def)
  qed
  have "queue_ok b' (queue_of b' (snd s')) \<and> of_branch b' [t] @ queue_of b' (snd s') = queue_of b' (snd s)" for b'
  proof (cases "b' = b")
    case True
    then show ?thesis using rest branch t(1) by (simp add: of_branch_def)
  next
    case False
    then have "b' = other_branch b" by (cases b; cases b') (simp_all add: other_branch_def)
    then show ?thesis using t(2) branch assms(2) by (simp add: of_branch_def queues_ok_def)
  qed
  then show ?thesis using t by (intro exI [of _ t]) (auto simp: merges_def queues_ok_def)
qed

lemma check_accept_loop_merges:
  "check_accept_loop term ctx b s = (Inr finished, s') \<Longrightarrow> engine_ok ctx \<Longrightarrow> turn_ok ctx b db s \<Longrightarrow>
     (queue_of b (snd s) = [] \<longrightarrow> mr_scan (snd s) = None) \<Longrightarrow>
     (idle ctx db (fst s') \<and> evolves (snd s) (snd s')) \<or>
     (\<exists>s1. evolves (snd s) (snd s1) \<and> head_accepted ctx b db s1 s')"
proof (induction "term" ctx b s rule: check_accept_loop.induct)
  case (1 "term" ctx b s)
  note loop = check_accept_loop.simps [of "term" ctx b s]
  show ?case
  proof (cases "queue_of b (snd s) = []")
    case True
    then have "s' = s" "idle ctx db (fst s)" using "1.prems" loop by (auto simp: turn_ok_def)
    then show ?thesis using "1.prems"(3) by (simp add: turn_ok_def evolves_same)
  next
    case False
    obtain r s1 where step: "check_accept_step term ctx b s = (r, s1)"
      by (cases "check_accept_step term ctx b s")
    then obtain ended where r: "r = Inr ended"
      using "1.prems"(1) False loop by (cases r) auto
    note effect = check_accept_step_effect [OF step [unfolded r] "1.prems"(2,3)]
    have same: "evolves (snd s) (snd s)" using "1.prems"(3) by (simp add: turn_ok_def evolves_same)
    show ?thesis
    proof (cases ended)
      case True
      then have "s' = s1" using "1.prems"(1) False loop step r by simp
      then show ?thesis using effect True same unfolding step_effect_def by (metis (full_types))
    next
      case again: False
      then have "check_accept_loop term ctx b s1 = (Inr finished, s')"
        using "1.prems"(1) False loop step r by simp
      moreover have "queue_of b (snd s1) \<noteq> []"
        using check_accept_step_counts [OF step [unfolded r]] again False by (auto simp: step_counts_def)
      ultimately show ?thesis
        using "1.IH" [OF False step [symmetric] r again _ "1.prems"(2)] effect again
        by (auto simp: step_effect_def intro: evolves_trans)
    qed
  qed
qed

lemma check_accept_current_merges:
  assumes "check_accept_current term ctx b s = (Inr finished, s')" "engine_ok ctx"
    and "idle ctx (content (fst s)) (fst s)" "queues_ok (snd s)"
  shows "\<exists>accepted. length accepted \<le> 1 \<and> merges ctx accepted s s'"
proof -
  let ?db = "content (fst s)"
  let ?s0 = "(fst s, (snd s)\<lparr>mr_accepted_pair_keys := {}, mr_scan := None, mr_followup := None\<rparr>)"
  have same: "queue_of b' (snd ?s0) = queue_of b' (snd s)" "mr_replies (snd ?s0) = mr_replies (snd s)" for b'
    by (cases b'; simp add: queue_of_def)+
  have start: "turn_ok ctx b ?db ?s0" using assms(3,4) same by (simp add: turn_ok_def queues_ok_def)
  have loop: "check_accept_loop term ctx b ?s0 = (Inr finished, s')"
    using assms(1) by (auto simp: check_accept_current_def update_object_def dest!: and_then_result)
  from check_accept_loop_merges [OF loop assms(2) start]
  consider (dropped) "idle ctx ?db (fst s')" "evolves (snd ?s0) (snd s')"
    | (accepted) s1 where "evolves (snd ?s0) (snd s1)" "head_accepted ctx b ?db s1 s'" by auto
  then show ?thesis
  proof cases
    case dropped
    then have "evolves (snd s) (snd s')" using same by (simp add: evolves_def replies_taken_def)
    then show ?thesis using dropped(1) merges_nothing by (intro exI [of _ "[]"]) simp
  next
    case accepted
    let ?s1 = "(fst s, snd s1)"
    have ev: "evolves (snd s) (snd ?s1)" using accepted(1) same by (simp add: evolves_def replies_taken_def)
    then have first: "merges ctx [] s ?s1" by (intro merges_nothing) (simp_all add: assms(3))
    have "head_accepted ctx b (content (fst ?s1)) ?s1 s'" using accepted(2) by (simp add: head_accepted_def)
    from merges_head [OF this evolves_ok [OF ev]] obtain t where "merges ctx [t] ?s1 s'" by blast
    from merges_trans [OF first this] show ?thesis by (intro exI [of _ "[t]"]) simp
  qed
qed

lemma merge_loop_merges:
  "merge_loop term ctx s = (Inr finished, s') \<Longrightarrow> engine_ok ctx \<Longrightarrow> idle ctx (content (fst s)) (fst s) \<Longrightarrow>
     queues_ok (snd s) \<Longrightarrow>
     finished \<and> mr_ours (snd s') = [] \<and> mr_theirs (snd s') = [] \<and> (\<exists>accepted. merges ctx accepted s s')"
proof (induction "term" ctx s rule: merge_loop.induct)
  case (1 "term" ctx s)
  note loop = merge_loop.simps [of "term" ctx s]
  show ?case
  proof (cases "mr_ours (snd s) = [] \<and> mr_theirs (snd s) = []")
    case True
    have "merges ctx [] s s" using "1.prems"(3,4) by (simp add: merges_nothing evolves_same)
    then show ?thesis using "1.prems"(1) True loop by auto
  next
    case False
    obtain x s1 where ours: "check_accept_current term ctx Ours s = (Inr x, s1)"
      using "1.prems"(1) False loop by (cases "check_accept_current term ctx Ours s") (auto split: sum.splits)
    have x: "x" using check_accept_current_counts [OF ours] by simp
    obtain y s2 where theirs: "check_accept_current term ctx Theirs s1 = (Inr y, s2)"
      using "1.prems"(1) False loop ours x
      by (cases "check_accept_current term ctx Theirs s1") (auto split: sum.splits)
    have y: "y" using check_accept_current_counts [OF theirs] by simp
    obtain as where a: "merges ctx as s s1"
      using check_accept_current_merges [OF ours "1.prems"(2-4)] by blast
    then have mid: "idle ctx (content (fst s1)) (fst s1)" "queues_ok (snd s1)"
      by (auto simp: merges_def idle_def)
    obtain bs where b: "merges ctx bs s1 s2"
      using check_accept_current_merges [OF theirs "1.prems"(2) mid] by blast
    then have late: "idle ctx (content (fst s2)) (fst s2)" "queues_ok (snd s2)"
      by (auto simp: merges_def idle_def)
    have "merge_loop term ctx s2 = (Inr finished, s')"
      using "1.prems"(1) False loop ours theirs x y by simp
    from "1.IH" [OF False ours [symmetric] refl _ theirs [symmetric] refl _ this "1.prems"(2) late] x y
    show ?thesis using merges_trans [OF merges_trans [OF a b]] by blast
  qed
qed

text \<open>
  The merge is a serial replay. When it ends normally both queues are empty, no savepoint is
  open, and the working content is one a list of transactions gives, each applied whole by the
  atomic accept step; none of them has a statement still blocked from replay, and those of
  each branch are the transactions of its queue, in its order, but for at most as many edited or
  deleted ones as the user gave replies. Nothing a scan or a prompt did is left in the content.
\<close>

lemma merge_is_serial_replay:
  assumes "commits_no_change (engine ctx)" and "probes_never_abort (engine ctx)"
    and "queue_ok Ours ours" and "queue_ok Theirs theirs"
    and "merge_loop term ctx (new_connection db draws, start_merge ctx ours theirs replies) = (Inr finished, (c, run))"
  shows "finished \<and> mr_ours run = [] \<and> mr_theirs run = [] \<and> stack c = [] \<and>
    (\<exists>accepted. content c \<in> serial_replay ctx accepted db \<and>
       within_edits (length replies) (of_branch Ours accepted) ours \<and>
       within_edits (length replies) (of_branch Theirs accepted) theirs \<and>
       (\<forall>t \<in> set accepted. unresolved_replay_safety_conflict t = None))"
proof -
  let ?s = "(new_connection db draws, start_merge ctx ours theirs replies)"
  have queues: "queue_of b (snd ?s) = (case b of Ours \<Rightarrow> ours | Theirs \<Rightarrow> theirs)" for b
    by (cases b) (simp_all add: queue_of_def start_merge_def)
  have "engine_ok ctx" using assms(1,2) by (simp add: engine_ok_def)
  moreover have "idle ctx (content (fst ?s)) (fst ?s)"
    by (simp add: idle_def new_connection_def replay_start_def cache_coherent_def)
  moreover have "queues_ok (snd ?s)"
    using assms(3,4) queues by (auto simp: queues_ok_def split: branch.splits)
  ultimately obtain accepted where ended: "finished" "mr_ours run = []" "mr_theirs run = []"
      and accepted: "merges ctx accepted ?s (c, run)"
    using merge_loop_merges [OF assms(5)] by auto
  have start: "content (fst ?s) = db" by (simp add: new_connection_def replay_start_def)
  have empty: "queue_of b run = []" for b using ended by (cases b) (simp_all add: queue_of_def)
  have taken: "replies_taken (snd ?s) run \<le> length replies" by (simp add: replies_taken_def start_merge_def)
  have rest: "within_edits (length replies) (of_branch b accepted) (queue_of b (snd ?s))" for b
    using accepted empty [of b] within_more [OF _ taken] unfolding merges_def by (metis append_Nil2 snd_conv)
  have "content c \<in> serial_replay ctx accepted db" "stack c = []"
      "\<forall>t \<in> set accepted. unresolved_replay_safety_conflict t = None"
    using accepted unfolding merges_def fst_conv start [unfolded fst_conv] by (auto simp: idle_def)
  then show ?thesis
    using ended rest [of Ours, unfolded queues] rest [of Theirs, unfolded queues] by auto
qed

text \<open>
  C11. The dialogue cannot go round in circles: an iteration of a turn that continues has taken a
  reply from the user and kept both queues as long as they were or shortened the other one; an
  iteration that ends the turn has removed exactly one transaction of its own queue; and a round
  of the two turns removes at least one transaction of the merge.
\<close>

theorem merge_turns_progress:
  "(check_accept_step term ctx b s = (Inr finished, s') \<longrightarrow>
      length (queue_of (other_branch b) (snd s')) \<le> length (queue_of (other_branch b) (snd s)) \<and>
      (if finished then length (queue_of b (snd s)) = Suc (length (queue_of b (snd s')))
       else length (queue_of b (snd s')) = length (queue_of b (snd s)) \<and>
         length (mr_replies (snd s')) < length (mr_replies (snd s)))) \<and>
   (check_accept_current term ctx Ours s = (Inr ours_ended, s1) \<longrightarrow>
    check_accept_current term ctx Theirs s1 = (Inr theirs_ended, s2) \<longrightarrow>
    mr_ours (snd s) \<noteq> [] \<or> mr_theirs (snd s) \<noteq> [] \<longrightarrow>
      length (mr_ours (snd s2)) + length (mr_theirs (snd s2)) < length (mr_ours (snd s)) + length (mr_theirs (snd s)))"
proof -
  have "length (mr_ours (snd s2)) + length (mr_theirs (snd s2)) < length (mr_ours (snd s)) + length (mr_theirs (snd s))"
    if "check_accept_current term ctx Ours s = (Inr ours_ended, s1)"
      "check_accept_current term ctx Theirs s1 = (Inr theirs_ended, s2)"
      "mr_ours (snd s) \<noteq> [] \<or> mr_theirs (snd s) \<noteq> []"
    using merge_round_counts [OF that(1,2)] that(3) by blast
  then show ?thesis
    using check_accept_step_counts [of "term" ctx b s finished s'] by (auto simp: step_counts_def)
qed

section \<open>Examples\<close>

definition demo_merge :: "(exn + bool) \<times> string list replay_state \<times> merge_run" where
  "demo_merge = merge_loop demo_terminal demo_merge_context
     (new_connection [] 0,
      start_merge demo_merge_context [demo_numbered Ours [''a''], demo_numbered Ours [''b'']]
        [demo_numbered Theirs [''c'']] [])"

lemma demo_numbered_ok: "queue_ok b [demo_numbered b [x]]" "queue_ok b [demo_numbered b [x], demo_numbered b [y]]"
  by (simp_all add: queue_ok_def transaction_ok_def demo_numbered_def demo_transaction_of_def demo_statement_def
      indexes_distinct_def)

lemma merge_is_serial_replay_witness:
  "content (fst (snd demo_merge)) =
     [''control a'', ''a'', ''tx'', ''log a'', ''control c'', ''c'', ''tx'', ''log c'', ''control b'', ''b'', ''tx'', ''log b''] \<and>
   stack (fst (snd demo_merge)) = []"
proof -
  have quiet: "probes_never_abort (engine demo_merge_context)"
    by (simp add: probes_never_abort_def demo_merge_context_def demo_sqlite_def)
  have "fst demo_merge = Inr True" by code_simp
  then have "demo_merge = (Inr True, (fst (snd demo_merge), snd (snd demo_merge)))" by (simp add: prod_eq_iff)
  then have "stack (fst (snd demo_merge)) = []"
    using merge_is_serial_replay [OF demo_merge_context_ok(1) quiet demo_numbered_ok(2,1)]
    unfolding demo_merge_def by blast
  moreover have "content (fst (snd demo_merge)) =
     [''control a'', ''a'', ''tx'', ''log a'', ''control c'', ''c'', ''tx'', ''log c'', ''control b'', ''b'', ''tx'', ''log b'']"
    by code_simp
  ultimately show ?thesis by simp
qed

text \<open>The head is refused by SQLite; the user deletes its second statement and confirms.\<close>

definition demo_turn_start :: "string list replay_state \<times> merge_run" where
  "demo_turn_start =
     (new_connection [] 0,
      start_merge demo_merge_context [demo_numbered Ours [''a'', ''bad'']] []
        [(''delete L1.2'', None), ([], None)])"

definition demo_turn :: "(exn + bool) \<times> string list replay_state \<times> merge_run" where
  "demo_turn = check_accept_step demo_terminal demo_merge_context Ours demo_turn_start"

theorem merge_turns_progress_witness:
  "fst demo_turn = Inr False \<and> length (mr_replies (snd (snd demo_turn))) < 2"
proof -
  have one: "fst demo_turn = Inr False" by code_simp
  then have "demo_turn = (Inr False, snd demo_turn)" by (simp add: prod_eq_iff)
  from conjunct1 [OF merge_turns_progress, THEN mp, OF trans [OF demo_turn_def [symmetric] this]]
  have "length (mr_replies (snd (snd demo_turn))) < length (mr_replies (snd demo_turn_start))"
    by (simp only: if_False)
  moreover have "length (mr_replies (snd demo_turn_start)) = 2"
    by (simp add: demo_turn_start_def start_merge_def)
  ultimately show ?thesis using one by simp
qed

end
