(* ===== verification/Branch_Replay.thy ===== *)
theory Branch_Replay
  imports Terminal_Merge_Props
begin

text \<open>
  The check of one branch on its own connection: trying a transaction either commits exactly its
  statements or leaves the connection as it was, and the branch that comes out replays alone.
\<close>

section \<open>Both outcomes of an action\<close>

definition ends :: "('s \<Rightarrow> bool) \<Rightarrow> ('s, 'a) action \<Rightarrow> ('a \<Rightarrow> 's \<Rightarrow> bool) \<Rightarrow> ('s \<Rightarrow> bool) \<Rightarrow> bool" where
  "ends P m Q E \<longleftrightarrow> (\<forall>s r s'. P s \<longrightarrow> m s = (r, s') \<longrightarrow> (case r of Inr x \<Rightarrow> Q x s' | Inl _ \<Rightarrow> E s'))"

lemma endsD: "ends P m Q E \<Longrightarrow> P s \<Longrightarrow> m s = (r, s') \<Longrightarrow> case r of Inr x \<Rightarrow> Q x s' | Inl _ \<Rightarrow> E s'"
  by (simp add: ends_def)

lemma ends_and_then:
  assumes "ends P m Q E" "\<And>x. ends (Q x) (f x) R E"
  shows "ends P (and_then m f) R E"
  unfolding ends_def
proof (intro allI impI)
  fix s r s' assume "P s" and run: "and_then m f s = (r, s')"
  obtain r1 s1 where m: "m s = (r1, s1)" by fastforce
  show "case r of Inr x \<Rightarrow> R x s' | Inl _ \<Rightarrow> E s'"
    using endsD [OF assms(1) \<open>P s\<close> m] run m endsD [OF assms(2)]
    by (cases r1) (fastforce simp: and_then_def)+
qed

lemma ends_return: "(\<And>s. P s \<Longrightarrow> Q x s) \<Longrightarrow> ends P (return_value x) Q E"
  by (simp add: ends_def return_value_def)

lemma ends_weaken: "ends P m Q E \<Longrightarrow> (\<And>s. P' s \<Longrightarrow> P s) \<Longrightarrow> (\<And>x s. Q x s \<Longrightarrow> Q' x s) \<Longrightarrow> ends P' m Q' E"
  unfolding ends_def by (fastforce split: sum.splits)

section \<open>The states of a check\<close>

type_synonym 'db branch_state = "'db replay_state \<times> logged_statement option"

definition inside :: "string \<Rightarrow> 'db \<Rightarrow> 'db \<Rightarrow> 'db branch_state \<Rightarrow> bool" where
  "inside name start db s \<longleftrightarrow> stack (fst s) = [(name, start)] \<and> content (fst s) = db"

definition left_as_was :: "'db \<Rightarrow> 'db branch_state \<Rightarrow> bool" where
  "left_as_was start s \<longleftrightarrow> stack (fst s) = [] \<and> content (fst s) = start"

text \<open>Where an exception can leave the connection: in the savepoint, or after SQLite dropped it.\<close>

definition interrupted :: "string \<Rightarrow> 'db \<Rightarrow> 'db branch_state \<Rightarrow> bool" where
  "interrupted name start s \<longleftrightarrow> stack (fst s) = [(name, start)] \<or> stack (fst s) = []"

definition settled_statement :: "logged_statement \<Rightarrow> bool" where
  "settled_statement s \<longleftrightarrow> statement_replay_warning s = None \<and> unresolved_replay_block_reason s = None"

fun run_all :: "'db sqlite \<Rightarrow> logged_statement list \<Rightarrow> 'db \<Rightarrow> 'db option" where
  "run_all eng [] db = Some db"
| "run_all eng (s # ss) db = Option.bind (run_ok eng (statement_sql_text s) db) (run_all eng ss)"

definition database_valid :: "'db sqlite \<Rightarrow> 'db \<Rightarrow> bool" where
  "database_valid eng db \<longleftrightarrow> first_value eng ''PRAGMA integrity_check'' db \<in> {Inr None, Inr (Some ''ok'')} \<and>
     all_rows eng ''PRAGMA foreign_key_check'' db = Inr []"

text \<open>One committed transaction of a branch alone.\<close>

definition branch_step :: "'db sqlite \<Rightarrow> logged_transaction \<Rightarrow> 'db \<Rightarrow> 'db option" where
  "branch_step eng t start =
     (if \<not> list_all settled_statement (lt_statements t) then None
      else Option.bind (run_all eng (lt_statements t) start) (\<lambda>db.
        if database_valid eng db \<and> commit_error eng start db = None then Some db else None))"

lemma ends_probing:
  assumes "probing m"
  shows "ends (inside name start db) (on_connection m) (\<lambda>_. inside name start db) (interrupted name start)"
  unfolding ends_def
proof (intro allI impI)
  fix s r s' assume "inside name start db s" "on_connection m s = (r, s')"
  moreover obtain r1 c where m: "m (fst s) = (r1, c)" by fastforce
  ultimately show "case r of Inl _ \<Rightarrow> interrupted name start s' | Inr x \<Rightarrow> inside name start db s'"
    using probingD [OF assms m] by (auto simp: on_connection_def inside_def interrupted_def split: sum.splits)
qed

lemma ends_execute:
  "ends (inside name start db) (on_connection (execute eng sql))
     (\<lambda>_ s. \<exists>db'. run_ok eng sql db = Some db' \<and> inside name start db' s) (interrupted name start)"
  by (auto simp: ends_def on_connection_def inside_def interrupted_def execute_def run_ok_def
      split: prod.splits sum.splits run_result.splits)

lemma ends_stop_with:
  assumes "commits_no_change eng"
  shows "ends (inside name start db) (stop_with eng name issue) (\<lambda>r s. r = Some issue \<and> left_as_was start s) E"
  using rollback_savepoint_top [OF _ assms]
  by (auto simp: ends_def stop_with_def and_then_def on_connection_def return_value_def inside_def left_as_was_def)

text \<open>In the handler the savepoint may be gone: then the rollback raises.\<close>

lemma stop_with_interrupted:
  assumes "commits_no_change eng" "interrupted name start s" "stop_with eng name issue s = (Inr r, s')"
  shows "r = Some issue \<and> left_as_was start s'"
proof (cases "stack (fst s) = []")
  case True
  then show ?thesis
    using rollback_savepoint_lost [OF True, of eng name] assms(3)
    by (simp add: stop_with_def and_then_def on_connection_def)
next
  case False
  then have "inside name start (content (fst s)) s" using assms(2) by (simp add: interrupted_def inside_def)
  from endsD [OF ends_stop_with [OF assms(1)] this assms(3)] show ?thesis by simp
qed

lemma ends_update_object:
  "(\<And>c l l'. P (c, l) \<Longrightarrow> Q (c, l')) \<Longrightarrow> ends P (update_object f) (\<lambda>_. Q) E"
  by (auto simp: ends_def update_object_def)

section \<open>One statement, one transaction\<close>

text \<open>\<open>None\<close> goes on; an issue has rolled the transaction back.\<close>

definition tried :: "'db \<Rightarrow> ('db branch_state \<Rightarrow> bool) \<Rightarrow> 'a option \<Rightarrow> 'db branch_state \<Rightarrow> bool" where
  "tried start Q r s \<longleftrightarrow> (case r of None \<Rightarrow> Q s | Some _ \<Rightarrow> left_as_was start s)"

definition statement_ran :: "'db sqlite \<Rightarrow> string \<Rightarrow> 'db \<Rightarrow> 'db \<Rightarrow> logged_statement \<Rightarrow> 'db branch_state \<Rightarrow> bool" where
  "statement_ran eng name start db st s \<longleftrightarrow> settled_statement st \<and>
     (\<exists>db'. run_ok eng (statement_sql_text st) db = Some db' \<and> inside name start db' s)"

lemma ends_replay_branch_statement:
  assumes "commits_no_change (engine ctx)"
  shows "ends (inside name start db) (replay_branch_statement ctx name b st)
    (tried start (statement_ran (engine ctx) name start db st)) (interrupted name start)"
proof -
  let ?Q = "tried start (statement_ran (engine ctx) name start db st) :: branch_replay_issue option \<Rightarrow> _"
  let ?run = "and_then (on_connection (execute (engine ctx) (statement_sql_text st)))
      (\<lambda>_. return_value None) :: ('a, logged_statement option, branch_replay_issue option) object_action"
  have stop: "ends (inside name start db) (stop_with (engine ctx) name issue) ?Q (interrupted name start)" for issue
    by (rule ends_weaken [OF ends_stop_with [OF assms]]) (auto simp: tried_def)
  have run: "ends (inside name start db) ?run ?Q (interrupted name start)" if "settled_statement st"
    by (rule ends_and_then [OF ends_execute]) (rule ends_return, simp add: that tried_def statement_ran_def)
  show ?thesis
    unfolding replay_branch_statement_def
  proof (rule ends_and_then [OF ends_update_object [where Q = "inside name start db"]], goal_cases)
    case 1
    then show ?case by (simp add: inside_def)
  next
    case (2 x)
    show ?case
    proof (cases "settled_statement st")
      case False
      then show ?thesis
        using stop by (cases "statement_replay_warning st"; cases "unresolved_replay_block_reason st")
          (simp_all add: settled_statement_def)
    next
      case True
      then have settled: "statement_replay_warning st = None" "unresolved_replay_block_reason st = None"
        by (simp_all add: settled_statement_def)
      show ?thesis
        unfolding settled option.case
      proof (rule ends_and_then [where Q = "\<lambda>_. inside name start db"], goal_cases)
        case 1
        show ?case
          by (simp add: ends_return ends_probing silent_probing [OF silent_update_from_has_duplicate])
      next
        case (2 duplicates)
        have "ends (inside name start db)
            (and_then (on_connection (conflict_resolution_branch_warning ctx st)) (\<lambda>w. case w of
               Some warning \<Rightarrow> if warning \<notin> accepted_replay_warnings st
                 then stop_with (engine ctx) name (branch_replay_warning_issue b st warning) else ?run
             | None \<Rightarrow> ?run)) ?Q (interrupted name start)"
          using stop run [OF True]
          by (intro ends_and_then [OF ends_probing [OF probing_branch_warning [OF assms]]]) (simp split: option.split)
        then show ?case using stop by simp
      qed
    qed
  qed
qed

definition statements_ran :: "'db sqlite \<Rightarrow> string \<Rightarrow> 'db \<Rightarrow> 'db \<Rightarrow> logged_statement list \<Rightarrow> 'db branch_state \<Rightarrow> bool" where
  "statements_ran eng name start db sts s \<longleftrightarrow> list_all settled_statement sts \<and>
     (\<exists>db'. run_all eng sts db = Some db' \<and> inside name start db' s)"

lemma ends_replay_statements:
  assumes "commits_no_change (engine ctx)"
  shows "ends (inside name start db) (for_until (replay_branch_statement ctx name b) sts)
    (tried start (statements_ran (engine ctx) name start db sts)) (interrupted name start)"
proof (induction sts arbitrary: db)
  case Nil
  show ?case by (simp add: ends_return tried_def statements_ran_def)
next
  case (Cons st sts)
  show ?case
    unfolding for_until.simps
  proof (rule ends_and_then [OF ends_replay_branch_statement [OF assms]])
    fix r
    show "ends (tried start (statement_ran (engine ctx) name start db st) r)
        (case r of Some a \<Rightarrow> return_value (Some a) | None \<Rightarrow> for_until (replay_branch_statement ctx name b) sts)
        (tried start (statements_ran (engine ctx) name start db (st # sts))) (interrupted name start)"
    proof (cases r)
      case None
      show ?thesis
        unfolding None option.case ends_def
      proof (intro allI impI)
        fix s r' s'
        assume "tried start (statement_ran (engine ctx) name start db st) None s"
          and run: "for_until (replay_branch_statement ctx name b) sts s = (r', s')"
        then obtain db' where db': "settled_statement st" "run_ok (engine ctx) (statement_sql_text st) db = Some db'"
            "inside name start db' s"
          by (auto simp: tried_def statement_ran_def)
        show "case r' of Inl _ \<Rightarrow> interrupted name start s'
          | Inr x \<Rightarrow> tried start (statements_ran (engine ctx) name start db (st # sts)) x s'"
          using endsD [OF Cons.IH db'(3) run] db'(1,2)
          by (auto simp: tried_def statements_ran_def split: sum.splits option.splits)
      qed
    next
      case (Some a)
      show ?thesis unfolding Some option.case by (rule ends_return) (simp add: tried_def)
    qed
  qed
qed

lemma silent_validate [framing]: "silent (validate_database eng)"
proof -
  have "silent (fetch_first_value eng sql)" "silent (fetch_all eng sql)" for sql
    by (simp_all add: silent_def fetch_first_value_def fetch_all_def split: sum.splits)
  then show ?thesis unfolding validate_database_def by (intro framing)
qed

lemma validate_database_result:
  "validate_database eng c = (Inr [], c') \<Longrightarrow> database_valid eng (content c)"
  by (auto simp: validate_database_def and_then_def fetch_first_value_def fetch_all_def return_value_def database_valid_def
      split: sum.splits option.splits if_splits)

lemma ends_validate:
  "ends (inside name start db) (on_connection (validate_database eng))
     (\<lambda>errors s. inside name start db s \<and> (errors = [] \<longrightarrow> database_valid eng db)) (interrupted name start)"
  unfolding ends_def
proof (intro allI impI)
  fix s r s' assume "inside name start db s" "on_connection (validate_database eng) s = (r, s')"
  moreover obtain r1 c where m: "validate_database eng (fst s) = (r1, c)" by fastforce
  ultimately show "case r of Inl _ \<Rightarrow> interrupted name start s'
    | Inr x \<Rightarrow> inside name start db s' \<and> (x = [] \<longrightarrow> database_valid eng db)"
    using silentD [OF silent_validate m] validate_database_result [of eng "fst s" c]
    by (auto simp: on_connection_def inside_def interrupted_def split: sum.splits)
qed

lemma ends_release:
  "ends (inside name start db) (on_connection (release eng name))
     (\<lambda>_ s. stack (fst s) = [] \<and> content (fst s) = db \<and> commit_error eng start db = None) (interrupted name start)"
  by (auto simp: ends_def on_connection_def inside_def interrupted_def release_def from_savepoint_def
      split: prod.splits sum.splits option.splits)

definition transaction_tried :: "'db sqlite \<Rightarrow> logged_transaction \<Rightarrow> 'db \<Rightarrow> 'a option \<Rightarrow> 'db branch_state \<Rightarrow> bool" where
  "transaction_tried eng t start r s \<longleftrightarrow> stack (fst s) = [] \<and>
     (case r of None \<Rightarrow> branch_step eng t start = Some (content (fst s)) | Some _ \<Rightarrow> content (fst s) = start)"

lemma ends_finish_branch:
  assumes "commits_no_change (engine ctx)"
  shows "ends (statements_ran (engine ctx) name start start (lt_statements t))
    (and_then (on_connection (validate_database (engine ctx))) (\<lambda>errors.
       if errors \<noteq> []
       then stop_with (engine ctx) name
         \<lparr>bi_conflict = branch_replay_conflict Integrity (join_with [CHR 0x0A] errors) (lt_branch t) None, bi_warning = None\<rparr>
       else and_then (on_connection (release (engine ctx) name)) (\<lambda>_.
            and_then (on_connection (commit_connection (engine ctx))) (\<lambda>_. return_value None))))
    (transaction_tried (engine ctx) t start) (interrupted name start)"
  unfolding ends_def
proof (intro allI impI)
  fix s r s'
  let ?m = "and_then (on_connection (validate_database (engine ctx))) (\<lambda>errors.
       if errors \<noteq> []
       then stop_with (engine ctx) name
         \<lparr>bi_conflict = branch_replay_conflict Integrity (join_with [CHR 0x0A] errors) (lt_branch t) None, bi_warning = None\<rparr>
       else and_then (on_connection (release (engine ctx) name)) (\<lambda>_.
            and_then (on_connection (commit_connection (engine ctx))) (\<lambda>_. return_value None)))"
  assume "statements_ran (engine ctx) name start start (lt_statements t) s" and run: "?m s = (r, s')"
  then obtain db where db: "list_all settled_statement (lt_statements t)" "run_all (engine ctx) (lt_statements t) start = Some db"
      "inside name start db s"
    by (auto simp: statements_ran_def)
  have "ends (inside name start db) ?m (transaction_tried (engine ctx) t start) (interrupted name start)"
  proof (rule ends_and_then [OF ends_validate])
    fix errors
    show "ends (\<lambda>s. inside name start db s \<and> (errors = [] \<longrightarrow> database_valid (engine ctx) db))
       (if errors \<noteq> []
       then stop_with (engine ctx) name
         \<lparr>bi_conflict = branch_replay_conflict Integrity (join_with [CHR 0x0A] errors) (lt_branch t) None, bi_warning = None\<rparr>
       else and_then (on_connection (release (engine ctx) name)) (\<lambda>_.
            and_then (on_connection (commit_connection (engine ctx))) (\<lambda>_. return_value None)))
       (transaction_tried (engine ctx) t start) (interrupted name start)"
    proof (cases errors)
      case Nil
      have commit: "ends (\<lambda>s. database_valid (engine ctx) db \<and> stack (fst s) = [] \<and> content (fst s) = db \<and> commit_error (engine ctx) start db = None)
          (and_then (on_connection (commit_connection (engine ctx))) (\<lambda>_. return_value None))
          (transaction_tried (engine ctx) t start) (interrupted name start)"
        using db(1,2)
        by (auto simp: ends_def and_then_def on_connection_def commit_connection_def return_value_def transaction_tried_def
            branch_step_def)
      have "ends (\<lambda>s. inside name start db s \<and> database_valid (engine ctx) db) (on_connection (release (engine ctx) name))
          (\<lambda>_ s. database_valid (engine ctx) db \<and> stack (fst s) = [] \<and> content (fst s) = db \<and> commit_error (engine ctx) start db = None)
          (interrupted name start)"
        using ends_release [of name start db "engine ctx"] unfolding ends_def by (fastforce split: sum.splits)
      then show ?thesis unfolding Nil by (simp add: ends_and_then [OF _ commit])
    next
      case (Cons e es)
      then show ?thesis
        by simp (rule ends_weaken [OF ends_stop_with [OF assms]], auto simp: transaction_tried_def left_as_was_def)
    qed
  qed
  from endsD [OF this db(3) run] show "case r of Inl _ \<Rightarrow> interrupted name start s' | Inr x \<Rightarrow> transaction_tried (engine ctx) t start x s'"
    by simp
qed

lemma replay_branch_statements_result:
  assumes "commits_no_change (engine ctx)" "inside name start start s"
    and "replay_branch_statements ctx name t s = (Inr r, s')"
  shows "transaction_tried (engine ctx) t start r s'"
proof -
  let ?body = "and_then (for_until (replay_branch_statement ctx name (lt_branch t)) (lt_statements t))
    (\<lambda>stopped. case stopped of
       Some issue \<Rightarrow> return_value (Some issue)
     | None \<Rightarrow> and_then (on_connection (validate_database (engine ctx))) (\<lambda>errors.
         if errors \<noteq> []
         then stop_with (engine ctx) name
           \<lparr>bi_conflict = branch_replay_conflict Integrity (join_with [CHR 0x0A] errors) (lt_branch t) None, bi_warning = None\<rparr>
         else and_then (on_connection (release (engine ctx) name)) (\<lambda>_.
              and_then (on_connection (commit_connection (engine ctx))) (\<lambda>_. return_value None))))"
  have body: "ends (inside name start start) ?body (transaction_tried (engine ctx) t start) (interrupted name start)"
  proof (rule ends_and_then [OF ends_replay_statements [OF assms(1)]], goal_cases)
    case (1 stopped)
    show ?case
    proof (cases stopped)
      case None
      show ?thesis
        unfolding None option.case
        by (rule ends_weaken [OF ends_finish_branch [OF assms(1), of name start t]]) (simp_all add: tried_def)
    next
      case (Some issue)
      show ?thesis
        unfolding Some option.case by (rule ends_return) (simp add: tried_def transaction_tried_def left_as_was_def)
    qed
  qed
  obtain r1 s1 where run: "?body s = (r1, s1)" by (rule prod.exhaust)
  note outcome = endsD [OF body assms(2) run]
  show ?thesis
  proof (cases r1)
    case (Inr x)
    then show ?thesis using assms(3) run outcome by (simp add: replay_branch_statements_def catch_sqlite_def)
  next
    case (Inl e)
    then obtain issue where "stop_with (engine ctx) name issue s1 = (Inr r, s')"
      using assms(3) run by (cases e) (auto simp: replay_branch_statements_def catch_sqlite_def and_then_def the_object_def)
    then have "r = Some issue \<and> left_as_was start s'"
      using stop_with_interrupted [OF assms(1)] outcome Inl by simp
    then show ?thesis by (simp add: transaction_tried_def left_as_was_def)
  qed
qed

lemma branch_issue_atomic:
  assumes "commits_no_change (engine ctx)" "stack c = []"
    and "branch_transaction_replay_issue ctx t c = (Inr issue, c')"
  shows "stack c' = [] \<and>
    (case issue of None \<Rightarrow> branch_step (engine ctx) t (content c) = Some (content c') | Some _ \<Rightarrow> content c' = content c)"
proof -
  let ?name = "quote_identifier (''sqlite_merge_branch_'' @ uuid_hex (engine ctx) (uuid_draws c))"
  let ?c = "c\<lparr>uuid_draws := uuid_draws c + 1, stack := [(?name, content c)]\<rparr>"
  obtain last where "replay_branch_statements ctx ?name t (?c, None) = (Inr issue, (c', last))"
    using assms(2,3) by (auto simp: branch_transaction_replay_issue_def and_then_def open_savepoint_run split: prod.splits)
  from replay_branch_statements_result [OF assms(1) _ this, of "content c"]
  show ?thesis by (simp add: inside_def transaction_tried_def split: option.splits)
qed

section \<open>One branch\<close>

text \<open>A warning the user accepted is recorded on its statement, which stays what it is.\<close>

definition warned :: "logged_transaction \<Rightarrow> logged_transaction \<Rightarrow> bool" where
  "warned t t' \<longleftrightarrow> (\<exists>statement warning. t' = t\<lparr>lt_statements :=
     accept_warning_if_statement_still_present (lt_statements t) statement warning\<rparr>)"

definition settles :: "logged_transaction \<Rightarrow> logged_transaction \<Rightarrow> bool" where
  "settles = (\<lambda>t t'. edited t t' \<or> warned t t')\<^sup>*\<^sup>*"

lemma settles_trans: "settles t u \<Longrightarrow> settles u v \<Longrightarrow> settles t v"
  unfolding settles_def by (rule rtranclp_trans)

lemma edited_settles: "edited\<^sup>*\<^sup>* t t' \<Longrightarrow> settles t t'"
  unfolding settles_def by (induction rule: rtranclp_induct) (auto intro: rtranclp.rtrancl_into_rtrancl)

lemma warned_settles: "warned t t' \<Longrightarrow> settles t t'"
  unfolding settles_def by blast

lemma accept_warning_fields:
  "map ls_branch_index (accept_warning_if_statement_still_present ss s w) = map ls_branch_index ss"
  "map ls_metadata (accept_warning_if_statement_still_present ss s w) = map ls_metadata ss"
  by (induction ss) (simp_all add: accept_replay_warning_def)

lemma warned_ok: "warned t t' \<Longrightarrow> transaction_ok b t \<Longrightarrow> transaction_ok b t'"
proof -
  assume w: "warned t t'" and ok: "transaction_ok b t"
  then obtain s x where t': "t' = t\<lparr>lt_statements := accept_warning_if_statement_still_present (lt_statements t) s x\<rparr>"
    by (auto simp: warned_def)
  have "accept_warning_if_statement_still_present (lt_statements t) s x \<noteq> []"
    using ok accept_warning_fields(1) [of "lt_statements t" s x] unfolding transaction_ok_def by (metis map_is_Nil_conv)
  then show ?thesis using ok by (simp add: t' transaction_ok_def indexes_distinct_def accept_warning_fields)
qed

lemma asked_settles:
  "transaction_ok b t \<Longrightarrow> settles t (transaction_to_ask t issue) \<and> transaction_ok b (transaction_to_ask t issue)"
proof (cases "bi_warning issue")
  case None
  then show "transaction_ok b t \<Longrightarrow> ?thesis" by (simp add: transaction_to_ask_def settles_def)
next
  case (Some sw)
  then have "warned t (transaction_to_ask t issue)" by (cases sw) (auto simp: transaction_to_ask_def warned_def)
  then show "transaction_ok b t \<Longrightarrow> ?thesis" using warned_ok warned_settles by blast
qed

lemma prompt_branch_issue_settles:
  assumes "prompt_branch_issue term ctx t issue s = (Inr r, s')" "transaction_ok b t"
  shows "fst s' = fst s \<and> length (snd s') < length (snd s) \<and>
    (case r of None \<Rightarrow> True | Some t' \<Rightarrow> settles t t' \<and> transaction_ok b t')"
proof -
  let ?asked = "transaction_to_ask t issue"
  obtain answer replies where prompt: "prompt_standalone_transaction_resolution term ctx (content (fst s)) ?asked
        (issue_allows_accept issue) (snd s) = Inr (answer, replies)"
      and s': "s' = (fst s, replies)"
      and r: "r = (case answer of None \<Rightarrow> None
        | Some statements \<Rightarrow> if statements = [] then None else Some (transaction_with_statements t statements))"
    using assms(1) by (auto simp: prompt_branch_issue_def and_then_def ask_def return_value_def split: sum.splits prod.splits)
  have "settles t t' \<and> transaction_ok b t'" if new: "r = Some t'" for t'
  proof -
    obtain statements where statements: "answer = Some statements" "statements \<noteq> []" "t' = transaction_with_statements t statements"
      using new r by (auto split: option.splits if_splits)
    have same: "transaction_with_statements ?asked statements = transaction_with_statements t statements"
      by (simp add: transaction_with_statements_def transaction_to_ask_def split: option.splits prod.splits)
    note asked = asked_settles [OF assms(2), of issue]
    then have e: "edited\<^sup>*\<^sup>* ?asked t'"
      using standalone_prompt_edits [OF prompt [unfolded statements(1)] statements(2), of b] same statements(3) by simp
    have "transaction_ok b t'"
      using edited_ok [OF e] asked statements(2,3) by (simp add: transaction_with_statements_def)
    then show ?thesis using settles_trans [OF _ edited_settles [OF e]] asked by blast
  qed
  then show ?thesis
    using s' standalone_prompt_takes [OF prompt conjunct2 [OF asked_settles [OF assms(2)]]] by (simp split: option.splits)
qed

lemma resolve_branch_transaction_result:
  "resolve_branch_transaction term ctx t s = (Inr r, s') \<Longrightarrow> commits_no_change (engine ctx) \<Longrightarrow>
     stack (fst s) = [] \<Longrightarrow> transaction_ok b t \<Longrightarrow>
   stack (fst s') = [] \<and> (length (snd s') < length (snd s) \<or> r = Some t \<and> snd s' = snd s) \<and>
   (case r of None \<Rightarrow> content (fst s') = content (fst s)
    | Some t' \<Rightarrow> settles t t' \<and> transaction_ok b t' \<and> branch_step (engine ctx) t' (content (fst s)) = Some (content (fst s')))"
proof (induction "term" ctx t s rule: resolve_branch_transaction.induct)
  case (1 "term" ctx t s)
  obtain c issue where c: "branch_transaction_replay_issue ctx t (fst s) = (Inr issue, c)"
    and tried: "on_connection (branch_transaction_replay_issue ctx t) s = (Inr issue, (c, snd s))"
    using "1.prems"(1) by (auto simp: resolve_branch_transaction.simps [of "term" ctx t s] on_connection_def split: prod.splits sum.splits)
  note atomic = branch_issue_atomic [OF "1.prems"(2,3) c]
  show ?case
  proof (cases issue)
    case None
    then show ?thesis
      using "1.prems"(1,4) atomic tried by (auto simp: resolve_branch_transaction.simps [of "term" ctx t s] settles_def)
  next
    case (Some i)
    obtain next_t s2 where asked: "prompt_branch_issue term ctx t i (c, snd s) = (Inr next_t, s2)"
      using "1.prems"(1) tried Some by (auto simp: resolve_branch_transaction.simps [of "term" ctx t s] split: prod.splits sum.splits)
    note settled = prompt_branch_issue_settles [OF asked "1.prems"(4)]
    have same: "stack (fst s2) = []" "content (fst s2) = content (fst s)" "length (snd s2) < length (snd s)"
      using settled atomic Some by simp_all
    show ?thesis
    proof (cases next_t)
      case None
      then show ?thesis
        using "1.prems"(1) same tried asked Some by (simp add: resolve_branch_transaction.simps [of "term" ctx t s])
    next
      case (Some t1)
      then have t1: "settles t t1" "transaction_ok b t1" using settled by simp_all
      have run: "resolve_branch_transaction term ctx t1 s2 = (Inr r, s')"
        using "1.prems"(1) tried asked Some \<open>issue = Some i\<close> by (simp add: resolve_branch_transaction.simps [of "term" ctx t s])
      have "stack (fst s') = [] \<and> (length (snd s') < length (snd s2) \<or> r = Some t1 \<and> snd s' = snd s2) \<and>
          (case r of None \<Rightarrow> content (fst s') = content (fst s2)
          | Some t' \<Rightarrow> settles t1 t' \<and> transaction_ok b t' \<and> branch_step (engine ctx) t' (content (fst s2)) = Some (content (fst s')))"
        by (rule "1.IH" [OF tried [symmetric] refl \<open>issue = Some i\<close> asked [symmetric] refl Some run "1.prems"(2) same(1) t1(2)])
      then show ?thesis using same(2,3) settles_trans [OF t1(1)] by (auto split: option.splits)
    qed
  qed
qed

text \<open>The transactions of a branch one after the other on a copy of the base.\<close>

fun branch_replay :: "'db sqlite \<Rightarrow> logged_transaction list \<Rightarrow> 'db \<Rightarrow> 'db option" where
  "branch_replay eng [] db = Some db"
| "branch_replay eng (t # ts) db = Option.bind (branch_step eng t db) (branch_replay eng ts)"

definition settled_from :: "logged_transaction list \<Rightarrow> logged_transaction list \<Rightarrow> bool" where
  "settled_from q' q \<longleftrightarrow> list_emb (\<lambda>t' t. settles t t') q' q"

lemma resolve_branch_transactions_result:
  assumes "commits_no_change (engine ctx)"
  shows "resolve_branch_transactions term ctx resolved ts s = (Inr q, s') \<Longrightarrow> stack (fst s) = [] \<Longrightarrow> queue_ok b ts \<Longrightarrow>
    \<exists>q'. q = resolved @ q' \<and> length (snd s') \<le> length (snd s) \<and>
      within settles (length (snd s) - length (snd s')) q' ts \<and> queue_ok b q' \<and>
      branch_replay (engine ctx) q' (content (fst s)) = Some (content (fst s')) \<and> stack (fst s') = []"
proof (induction ts arbitrary: resolved s)
  case Nil
  then show ?case by (simp add: return_value_def queue_ok_def)
next
  case (Cons t ts)
  obtain r s1 where one: "resolve_branch_transaction term ctx t s = (Inr r, s1)"
    and rest: "resolve_branch_transactions term ctx (case r of None \<Rightarrow> resolved | Some t' \<Rightarrow> resolved @ [t']) ts s1 = (Inr q, s')"
    using Cons.prems(1) by (auto simp: and_then_def split: prod.splits sum.splits)
  have ok: "transaction_ok b t" "queue_ok b ts" using Cons.prems(3) by (simp_all add: queue_ok_def)
  note t = resolve_branch_transaction_result [OF one assms Cons.prems(2) ok(1)]
  then obtain q' where q': "q = (case r of None \<Rightarrow> resolved | Some t' \<Rightarrow> resolved @ [t']) @ q'"
      "length (snd s') \<le> length (snd s1)" "within settles (length (snd s1) - length (snd s')) q' ts" "queue_ok b q'"
      "branch_replay (engine ctx) q' (content (fst s1)) = Some (content (fst s'))" "stack (fst s') = []"
    using Cons.IH [OF rest _ ok(2)] by blast
  have fewer: "within settles (length (snd s) - length (snd s')) q'' (t # ts)"
    if "length (snd s1) < length (snd s)" "within settles (Suc (length (snd s1) - length (snd s'))) q'' (t # ts)" for q''
    by (rule within_more [OF that(2)]) (use that(1) q'(2) in simp)
  show ?case
  proof (cases r)
    case None
    then have "within settles (length (snd s) - length (snd s')) q' (t # ts)"
      using t by (intro fewer within_deleted q'(3)) simp
    then show ?thesis using q' t None by auto
  next
    case (Some t')
    then have "within settles (length (snd s) - length (snd s')) (t' # q') (t # ts)"
      using t fewer [OF _ within_changed [OF q'(3), of t t']] within_same [OF q'(3), of t] by auto
    then show ?thesis
      using q' t Some by (intro exI [of _ "t' # q'"]) (auto simp: queue_ok_def)
  qed
qed

lemma resolve_branch_result:
  assumes "commits_no_change (engine ctx)" "queue_ok b ts"
    and "resolve_branch_replay_safety term ctx base_copy ts draws replies = Inr (q, draws', replies')"
  shows "settled_from q ts \<and> queue_ok b q \<and> (\<exists>db. branch_replay (engine ctx) q base_copy = Some db) \<and>
    length replies' \<le> length replies \<and> within settles (length replies - length replies') q ts"
proof -
  obtain c where "resolve_branch_transactions term (branch_context ctx) [] ts (new_connection base_copy draws, replies) =
      (Inr q, (c, replies'))"
    using assms(3) by (auto simp: resolve_branch_replay_safety_def split: prod.splits sum.splits)
  moreover have "engine (branch_context ctx) = engine ctx" by (simp add: branch_context_def)
  ultimately obtain q' where "q = [] @ q'" "queue_ok b q'"
      "length replies' \<le> length replies" "within settles (length replies - length replies') q' ts"
      "branch_replay (engine ctx) q' (content (new_connection base_copy draws)) = Some (content c)"
    using resolve_branch_transactions_result [of "branch_context ctx" "term" "[]" ts _ q _ b] assms(1,2)
    by (force simp: new_connection_def replay_start_def)
  moreover from this have "settled_from q ts"
    using within_embeds [of settles _ q ts] by (auto simp: settled_from_def settles_def reflp_def)
  ultimately show ?thesis by (auto simp: new_connection_def replay_start_def)
qed

text \<open>
  C5. Trying a transaction on its branch is atomic: the check either finds nothing and has
  committed exactly its statements, each settled with the user and run in order, to a valid
  database, or it reports an issue and the connection is as it was; and a branch that comes out of
  the check consists of its transactions in order, some edited, warned about or deleted, and
  replays alone on a copy of the base.
\<close>

theorem branch_check_sound:
  assumes "commits_no_change (engine ctx)"
  shows "(stack c = [] \<longrightarrow> branch_transaction_replay_issue ctx t c = (Inr issue, c') \<longrightarrow> stack c' = [] \<and>
      (case issue of None \<Rightarrow> branch_step (engine ctx) t (content c) = Some (content c') | Some _ \<Rightarrow> content c' = content c)) \<and>
    (queue_ok b ts \<longrightarrow> resolve_branch_replay_safety term ctx base_copy ts draws replies = Inr (q, draws', replies') \<longrightarrow>
      settled_from q ts \<and> queue_ok b q \<and> (\<exists>db. branch_replay (engine ctx) q base_copy = Some db))"
  using branch_issue_atomic [OF assms] resolve_branch_result [OF assms] by blast

definition demo_branch_check :: "(exn + branch_replay_issue option) \<times> string list replay_state" where
  "demo_branch_check = branch_transaction_replay_issue demo_merge_context (demo_numbered Ours [''a'', ''b'']) (new_connection [] 0)"

definition demo_refused_check :: "(exn + branch_replay_issue option) \<times> string list replay_state" where
  "demo_refused_check = branch_transaction_replay_issue demo_merge_context (demo_numbered Ours [''a'', ''bad'']) (new_connection [] 0)"

theorem branch_check_sound_witness:
  "content (snd demo_branch_check) = [''a'', ''b''] \<and> stack (snd demo_branch_check) = [] \<and>
   fst demo_refused_check \<noteq> Inr None \<and> content (snd demo_refused_check) = []"
proof -
  have runs: "fst demo_branch_check = Inr None" "\<not> isl (fst demo_refused_check)" "fst demo_refused_check \<noteq> Inr None"
    by code_simp+
  have start: "stack (new_connection [] 0) = []" "content (new_connection [] 0) = []"
    by (simp_all add: new_connection_def replay_start_def)
  note sound = conjunct1 [OF branch_check_sound [OF demo_merge_context_ok(1)], rule_format, OF start(1)]
  have "branch_step (engine demo_merge_context) (demo_numbered Ours [''a'', ''b'']) [] = Some [''a'', ''b'']" by code_simp
  moreover have ran: "demo_branch_check = (Inr None, snd demo_branch_check)" using runs(1) by (simp add: prod_eq_iff)
  note sound [OF trans [OF demo_branch_check_def [symmetric] ran]]
  ultimately have "content (snd demo_branch_check) = [''a'', ''b'']" "stack (snd demo_branch_check) = []"
    by (simp_all add: start)
  moreover obtain issue where refused: "demo_refused_check = (Inr (Some issue), snd demo_refused_check)"
    using runs(2,3) by (metis isl_def not_None_eq prod.collapse sum.exhaust_sel)
  have "content (snd demo_refused_check) = []"
    using sound [OF trans [OF demo_refused_check_def [symmetric] refused]] by (simp add: start)
  ultimately show ?thesis using runs(3) by simp
qed

end
