(* ===== verification/Merge_Result.thy ===== *)
theory Merge_Result
  imports Branch_Replay Log_Merge_Props
begin

text \<open>
  From the three databases to the written file: what the whole merge leaves behind when it ends.
\<close>

section \<open>The loaded queues\<close>

lemma loaded_indexes_distinct:
  assumes "load_logged_transactions parse error_text log b since path ctx = Inr ts" "t \<in> set ts"
  shows "indexes_distinct t"
proof -
  have rows: "list_all2 (statement_of_row b) (statements_of ts) (enumerate 0 (logged_rows_since log since))"
    using loaded_queue [OF assms(1)] by blast
  have "map ls_branch_index (statements_of ts) = map int [0..<length (statements_of ts)]"
    by (rule nth_equalityI)
      (use rows in \<open>auto simp: list_all2_conv_all_nth statement_of_row_def nth_enumerate_eq case_prod_beta\<close>)
  then have "distinct (map ls_branch_index (statements_of ts))" by (simp add: distinct_map)
  moreover obtain xs ys where "ts = xs @ t # ys" using assms(2) by (meson split_list)
  ultimately show ?thesis by (simp add: indexes_distinct_def statements_of_def)
qed

lemma loaded_queue_ok:
  assumes "load_logged_transactions parse error_text log b since path ctx = Inr ts"
  shows "queue_ok b ts"
  using loaded_queue [OF assms] loaded_indexes_distinct [OF assms] by (auto simp: queue_ok_def transaction_ok_def)

lemma merge_inputs_ok:
  assumes "load_merge_inputs parse error_text files = Inr (ours, theirs, cache)"
  shows "queue_ok Ours ours \<and> queue_ok Theirs theirs"
  using assms by (auto simp: load_merge_inputs_def Let_def result_bind_def dest!: loaded_queue_ok split: sum.splits)

section \<open>The written result\<close>

text \<open>
  What the file holds after \<open>n\<close> replies: a serial replay of transactions of both branches, none
  blocked. Each branch is its logged queue, in its order, but for at most \<open>j\<close> transactions (\<open>k\<close> of the
  other branch) settled or deleted in its check, after which it replays alone on a copy of the base, and
  then at most \<open>m\<close> edited or deleted in the merge; \<open>j + k + m\<close> is at most the number of replies, so with no
  reply every logged transaction is in the file as it was logged.
\<close>

definition merged_from ::
    "'db merge_context \<Rightarrow> 'db opened \<Rightarrow> nat \<Rightarrow> logged_transaction list \<Rightarrow> logged_transaction list \<Rightarrow> 'db \<Rightarrow> bool" where
  "merged_from ctx opened n ours theirs db \<longleftrightarrow>
     (\<exists>accepted ours1 theirs1 j k m. j + k + m \<le> n \<and>
        db \<in> serial_replay ctx accepted (op_working_copy opened) \<and>
        (\<forall>t \<in> set accepted. unresolved_replay_safety_conflict t = None) \<and>
        within settles j ours1 ours \<and> within_edits m (of_branch Ours accepted) ours1 \<and>
        within settles k theirs1 theirs \<and> within_edits m (of_branch Theirs accepted) theirs1 \<and>
        branch_replay (engine ctx) ours1 (op_ours_copy opened) \<noteq> None \<and>
        branch_replay (engine ctx) theirs1 (op_theirs_copy opened) \<noteq> None)"

lemma merged_without_replies:
  assumes "merged_from ctx opened 0 ours theirs db"
  obtains accepted where "db \<in> serial_replay ctx accepted (op_working_copy opened)"
    "of_branch Ours accepted = ours" "of_branch Theirs accepted = theirs"
  using assms unfolding merged_from_def by (auto dest!: within_zero)

lemma written_content:
  "write_working_result ctx write_fails c = Inr (code, written) \<Longrightarrow>
     code = 1 \<and> written = None \<or> code = 0 \<and> written = Some (content c)"
  by (auto simp: write_working_result_def commit_connection_def split: sum.splits prod.splits exn.splits if_splits option.splits)

lemma resolved_merge:
  assumes "commits_no_change (engine ctx)" "probes_never_abort (engine ctx)"
    and "queue_ok Ours ours" "queue_ok Theirs theirs"
    and "resolve_merge_transactions term ctx opened write_fails ours theirs replies = Inr (code, written)"
  shows "case written of None \<Rightarrow> code = 1 | Some db \<Rightarrow> code = 0 \<and> merged_from ctx opened (length replies) ours theirs db"
proof -
  obtain ours1 draws1 replies1 theirs1 draws2 replies2 where
      o1: "resolve_branch_replay_safety term ctx (op_ours_copy opened) ours 0 replies = Inr (ours1, draws1, replies1)"
    and t1: "resolve_branch_replay_safety term ctx (op_theirs_copy opened) theirs draws1 replies1 = Inr (theirs1, draws2, replies2)"
    and rest: "(case merge_loop term ctx
              (new_connection (op_working_copy opened) draws2, start_merge ctx ours1 theirs1 replies2) of
         (Inl e, _) \<Rightarrow> Inl e
       | (Inr finished, (c, _)) \<Rightarrow>
           if finished then write_working_result ctx write_fails c else Inr (1, None)) = Inr (code, written)"
    using assms(5) by (auto simp: resolve_merge_transactions_def result_bind_Inr)
  obtain finished c run where loop: "merge_loop term ctx
        (new_connection (op_working_copy opened) draws2, start_merge ctx ours1 theirs1 replies2) = (Inr finished, (c, run))"
      and out: "(if finished then write_working_result ctx write_fails c else Inr (1, None)) = Inr (code, written)"
    using rest by (auto split: prod.splits sum.splits)
  note ours_ok = resolve_branch_result [OF assms(1,3) o1] and theirs_ok = resolve_branch_result [OF assms(1,4) t1]
  obtain accepted where merged: "finished" "content c \<in> serial_replay ctx accepted (op_working_copy opened)"
      "within_edits (length replies2) (of_branch Ours accepted) ours1"
      "within_edits (length replies2) (of_branch Theirs accepted) theirs1"
      "\<forall>t \<in> set accepted. unresolved_replay_safety_conflict t = None"
    using merge_is_serial_replay [OF assms(1,2) _ _ loop] ours_ok theirs_ok by blast
  have "(length replies - length replies1) + (length replies1 - length replies2) + length replies2 \<le> length replies"
    using ours_ok theirs_ok by simp
  then have "merged_from ctx opened (length replies) ours theirs (content c)"
    using merged(2-5) ours_ok theirs_ok unfolding merged_from_def by blast
  then show ?thesis using written_content [of ctx write_fails c code written] out merged(1) by auto
qed

text \<open>The context the direct merge reads: the base catalog and the metadata cache of both logs.\<close>

definition direct_merge_context ::
    "'db sqlite \<Rightarrow> sqlglot \<Rightarrow> (string \<Rightarrow> parsed_sql option) \<Rightarrow> (parsed_sql \<Rightarrow> rendered_sql) \<Rightarrow> merge_files \<Rightarrow> schema_cache \<Rightarrow> 'db merge_context" where
  "direct_merge_context eng glot parse rendering files cache =
     merge_context_for eng glot parse rendering \<lparr>ctx_catalog = mf_base_catalog files, ctx_cache = cache\<rparr>"

text \<open>
  C1. The whole merge: whatever the logs hold and the user types, when the mergetool ends it has
  either written nothing and exits with 1, or it exits with 0 and the written database is a serial
  replay, on a copy of the base, of the transactions of both logs, each applied whole by the atomic accept
  step and none blocked. Each branch comes in the order of its log, complete and as it was logged but
  for transactions the user edited, settled or deleted: over the check of both branches and the merge
  they are no more than the replies given, so what the user does not touch is in the file. Each checked
  branch also replays alone on a copy of the base.
\<close>

theorem written_merge_is_serial_replay:
  assumes "commits_no_change eng" and "probes_never_abort eng"
    and "load_merge_inputs parse (parse_error_text term) files = Inr (ours, theirs, cache)"
    and "resolve_direct_merge term eng glot parse rendering opened write_fails files replies = Inr (code, written)"
  shows "case written of None \<Rightarrow> code = 1 
    | Some db \<Rightarrow> code = 0 \<and>
        merged_from (direct_merge_context eng glot parse rendering files cache) opened (length replies) ours theirs db"
proof -
  let ?ctx = "direct_merge_context eng glot parse rendering files cache"
  have "engine ?ctx = eng" by (simp add: direct_merge_context_def merge_context_for_def)
  moreover have "resolve_merge_transactions term ?ctx opened write_fails ours theirs replies = Inr (code, written)"
    using assms(3,4) by (simp add: resolve_direct_merge_def direct_merge_context_def)
  ultimately show ?thesis using resolved_merge [of ?ctx ours theirs] merge_inputs_ok [OF assms(3)] assms(1,2) by simp
qed

section \<open>Examples\<close>

definition any_glot :: sqlglot where
  "any_glot =
     (let tree = \<lparr>ast_class = Select_Expr, ast_target = None, ast_tree = Inner_Node [] []\<rparr>
      in \<lparr>parse_tree = (\<lambda>_. Some tree), tree_of = (\<lambda>_. tree), render = (\<lambda>_. ''c'')\<rparr>)"

definition any_parse :: "string \<Rightarrow> parsed_sql option" where
  "any_parse sql = (if sql = ''bad'' then None else Some unsupported_sql)"

definition any_row :: "int \<times> int \<times> string \<Rightarrow> merge_log_row" where
  "any_row = (\<lambda>(i, t, sql).
     \<lparr>mr_id = i, mr_transaction_id = t, mr_original_sql_text = sql, mr_to_replay_sql_text = sql,
      mr_is_replay_safe = True, mr_replay_block_reason = None\<rparr>)"

definition log_of :: "(int \<times> int \<times> string) list \<Rightarrow> merge_log" where
  "log_of rows = demo_log\<lparr>ml_rows := map any_row rows\<rparr>"

definition empty_catalog :: catalog where
  "empty_catalog =
     \<lparr>cat_tables = [], cat_table_info = (\<lambda>_. []), cat_index_list = (\<lambda>_. []), cat_index_xinfo = (\<lambda>_. []),
      cat_index_sql = (\<lambda>_. None), cat_index_columns = (\<lambda>_. None), cat_foreign_key_list = (\<lambda>_. [])\<rparr>"

definition demo_files :: merge_files where
  "demo_files =
     \<lparr>mf_base_path = ''base.db'', mf_ours_path = ''ours.db'', mf_theirs_path = ''theirs.db'',
      mf_base_catalog = empty_catalog, mf_base_errors = [],
      mf_base_log = demo_log\<lparr>ml_transactions := [(1, ''d1'')], ml_rows := []\<rparr>,
      mf_ours_log = log_of [(3, 3, ''bad''), (1, 1, ''old''), (2, 2, ''a'')],
      mf_theirs_log = log_of [(2, 2, ''b'')]\<rparr>"

definition demo_schema :: check_context where
  "demo_schema = \<lparr>ctx_catalog = empty_catalog, ctx_cache = load_schema_cache empty_catalog\<rparr>"

definition any_meta :: "string \<Rightarrow> statement_metadata" where
  "any_meta sql = (unsupported_statement_metadata sql)\<lparr>columns_updated := updated_columns unsupported_sql\<rparr>"

lemma any_metadata:
  assumes "sql \<in> {''a'', ''b''}"
  shows "parse_statement_metadata_for_context any_parse sql ctx = Inr (any_meta sql)"
proof -
  have normal: "normalize_sql_for_sqlglot ''a'' = \<lparr>compat_sql = ''a'', compat_resolution = None, stripped_upsert = False\<rparr>"
    "normalize_sql_for_sqlglot ''b'' = \<lparr>compat_sql = ''b'', compat_resolution = None, stripped_upsert = False\<rparr>"
    by code_simp+
  have parsed: "parse_one any_parse ''a'' = Inr unsupported_sql" "parse_one any_parse ''b'' = Inr unsupported_sql"
    by code_simp+
  have rest: "referenced_tables_to_columns unsupported_sql tc = []" for tc
    by (simp add: referenced_tables_to_columns_def unsupported_sql_def unsupported_fragment_def read_roots_def Let_def
        collect_root_references_def collect_non_select_column_references_def collect_select_scope_references_def
        collect_direct_references_def)
  show ?thesis
    using assms rest
    by (auto simp: parse_statement_metadata_for_context_def parse_statement_metadata_def Let_def normal parsed
        unsupported_sql_def statement_kind_of_def target_table_name_def written_tables_to_columns_def
        cascade_effects_for_metadata_def unsupported_statement_metadata_def
        no_effects_def has_effects_def any_meta_def
        is_reviewable_conflict_resolution_def)
qed

definition any_statement :: "branch \<Rightarrow> nat \<times> merge_log_row \<times> string \<Rightarrow> logged_statement" where
  "any_statement b item =
     (let inp = statement_input_of_row b item; sql = in_sql_text inp in
      build_logged_statement inp sql (if sql = ''bad'' then unsupported_statement_metadata sql else any_meta sql) (sql \<noteq> ''bad'')
        (if sql = ''bad'' then Some (METADATA_PARSE_ERROR_REASON @ '': bad'') else None))"

lemma any_statement_made:
  assumes "sql \<in> {''a'', ''b'', ''bad''}"
  shows "make_logged_statement any_parse id None (Some ctx) (statement_input_of_row b (n, any_row (i, t, sql), d)) =
    Inr (any_statement b (n, any_row (i, t, sql), d))"
proof -
  have same: "neutralize_rollback_conflict_resolution ''a'' = ''a''" "neutralize_rollback_conflict_resolution ''b'' = ''b''"
    "neutralize_rollback_conflict_resolution ''bad'' = ''bad''"
    by code_simp+
  have "parse_one any_parse (compat_sql (normalize_sql_for_sqlglot ''bad'')) = Inl Parse_Failed" by code_simp
  then have "parse_statement_metadata_for_context any_parse ''bad'' ctx = Inl Parse_Failed"
    by (simp add: parse_statement_metadata_for_context_def parse_statement_metadata_def Let_def)
  then show ?thesis using assms any_metadata same
    by (auto simp: make_logged_statement_def Let_def statement_input_of_row_def any_row_def any_statement_def
        build_logged_statement_def str_or_def)
qed

lemma demo_error_text: "parse_error_text demo_terminal = id"
  by (simp add: demo_terminal_def)

lemma demo_base_catalog: "mf_base_catalog demo_files = empty_catalog"
  by (simp add: demo_files_def)

lemma demo_rows_since:
  "logged_rows_since (mf_ours_log demo_files) 1 = [(any_row (2, 2, ''a''), ''d2''), (any_row (3, 3, ''bad''), ''d3'')]"
  "logged_rows_since (mf_theirs_log demo_files) 1 = [(any_row (2, 2, ''b''), ''d2'')]"
  by code_simp+

definition demo_ours :: "logged_transaction list" where
  "demo_ours = group_logged_transactions (map (any_statement Ours)
     [(0, any_row (2, 2, ''a''), ''d2''), (1, any_row (3, 3, ''bad''), ''d3'')])"

definition demo_theirs :: "logged_transaction list" where
  "demo_theirs = group_logged_transactions (map (any_statement Theirs) [(0, any_row (2, 2, ''b''), ''d2'')])"

lemma demo_inputs:
  "load_merge_inputs any_parse id demo_files = Inr (demo_ours, demo_theirs, load_schema_cache empty_catalog)"
proof -
  have tables: "require_log_tables (mf_ours_log demo_files) p r = Inr ()" "require_log_tables (mf_theirs_log demo_files) p r = Inr ()"
    for p r by code_simp+
  have mark: "get_base_watermark (mf_base_log demo_files) (mf_base_path demo_files) = Inr 1" by code_simp
  have base: "mf_base_errors demo_files = []" by (simp add: demo_files_def)
  show ?thesis
    by (simp add: load_merge_inputs_def Let_def result_bind_def mark require_valid_base_def base demo_base_catalog load_logged_transactions_def
        load_logged_statements_def tables demo_rows_since enumerate_eq_zip any_statement_made map_error_def
        demo_ours_def demo_theirs_def)
qed

definition demo_result :: "exn + nat \<times> string list option" where
  "demo_result = resolve_direct_merge demo_terminal demo_sqlite any_glot any_parse (rendered demo_merge_context)
     \<lparr>op_ours_copy = [], op_theirs_copy = [], op_working_copy = []\<rparr> (\<lambda>_. False) demo_files
     [(''delete L2'', None), ([], None)]"

lemma demo_result:
  "demo_result = Inr (0, Some [''c'', ''a'', ''tx'', ''log a'', ''c'', ''b'', ''tx'', ''log b''])"
proof -
  have "demo_result = resolve_merge_transactions demo_terminal
      (merge_context_for demo_sqlite any_glot any_parse (rendered demo_merge_context) demo_schema)
      \<lparr>op_ours_copy = [], op_theirs_copy = [], op_working_copy = []\<rparr> (\<lambda>_. False) demo_ours demo_theirs
      [(''delete L2'', None), ([], None)]"
    by (simp add: demo_result_def resolve_direct_merge_def demo_error_text demo_inputs demo_schema_def demo_base_catalog)
  also have "\<dots> = Inr (0, Some [''c'', ''a'', ''tx'', ''log a'', ''c'', ''b'', ''tx'', ''log b''])"
    by code_simp
  finally show ?thesis .
qed

lemma demo_engine_ok: "commits_no_change demo_sqlite" "probes_never_abort demo_sqlite"
  by (simp_all add: commits_no_change_def probes_never_abort_def demo_sqlite_def)

text \<open>One branch has a statement that does not parse, which the user deletes; the rest is merged.\<close>

theorem written_merge_is_serial_replay_witness:
  "demo_result = Inr (0, Some [''c'', ''a'', ''tx'', ''log a'', ''c'', ''b'', ''tx'', ''log b'']) \<and>
   merged_from (direct_merge_context demo_sqlite any_glot any_parse (rendered demo_merge_context) demo_files
       (load_schema_cache empty_catalog))
     \<lparr>op_ours_copy = [], op_theirs_copy = [], op_working_copy = []\<rparr> 2 demo_ours demo_theirs
     [''c'', ''a'', ''tx'', ''log a'', ''c'', ''b'', ''tx'', ''log b'']"
proof -
  note run = demo_result [unfolded demo_result_def]
  have inputs: "load_merge_inputs any_parse (parse_error_text demo_terminal) demo_files =
      Inr (demo_ours, demo_theirs, load_schema_cache empty_catalog)"
    by (simp add: demo_error_text demo_inputs)
  from written_merge_is_serial_replay [OF demo_engine_ok inputs run] show ?thesis
    by (simp add: demo_result numeral_2_eq_2)
qed

end
