(* ===== verification/Row_Merge.thy ===== *)
theory Row_Merge
  imports Prelude
begin

text \<open>
  The merge of table contents: \<open>src/row_merge/sqlite_reconcile.py\<close>. The changes of each branch
  are the statements \<open>sqldiff\<close> prints against the base, as views of the parsed expressions. One
  side is put into tables keyed by primary key, the other is looked up in them, and every
  statement index ends in a bucket. A database is what the queries of the code return on it.
\<close>

section \<open>Statements and rows\<close>

datatype row_error = Row_Assertion | Row_Type | Row_Value | Row_Key | Row_Index | Row_Parse | Row_Sqlite string

datatype expr_type = Insert_Expr | Update_Expr | Delete_Expr | Other_Expr

text \<open>A value node; two nodes are equal for sqlglot when these views are.\<close>

datatype value_node = Null_Node | Literal_Node string | Other_Node string

text \<open>One \<open>=\<close> or \<open>IS\<close> below a WHERE; the column is missing when the left side is no column.\<close>

record row_predicate =
  predicate_is :: bool
  predicate_column :: "string option"
  predicate_value :: value_node

datatype row_where = Parsed_Where string "row_predicate list" | Built_Where "row_predicate list"

record diff_statement =
  diff_type :: expr_type
  diff_table :: "string option"
  diff_where :: "row_where option"
  diff_schema :: "string list option"
  diff_rows :: "value_node list list"
  diff_sets :: "(string \<times> value_node) list"

type_synonym db_row = "(string, string option) dict"

text \<open>What the code asks a database; the last component is the text of a refusal.\<close>

record row_database =
  select_row :: "string \<Rightarrow> row_where \<Rightarrow> row_error + db_row option"
  primary_key_rows :: "string \<Rightarrow> (string \<times> nat) list"
  unique_index_rows :: "string \<Rightarrow> (string \<times> string) list"
  integrity_check_row :: "string \<Rightarrow> string"
  foreign_key_check_rows :: "(string \<times> string) list"
  foreign_key_rows :: "string \<Rightarrow> (int \<times> string \<times> string \<times> string option) list"

definition get_target_table :: "diff_statement \<Rightarrow> row_error + string" where
  "get_target_table expr =
     (if diff_type expr = Other_Expr then Inl Row_Type
      else case diff_table expr of None \<Rightarrow> Inl Row_Value | Some table \<Rightarrow> Inr table)"

section \<open>State\<close>

datatype row_conflict =
    Primary_Key_Conflict
  | Unique_Indexes_Conflict string "string list"
  | Foreign_Indexes_Conflict "string list" "string list"

definition conflict_type :: "row_conflict \<Rightarrow> string" where
  "conflict_type c =
     (case c of
        Primary_Key_Conflict \<Rightarrow> ''primary_key''
      | Unique_Indexes_Conflict _ _ \<Rightarrow> ''unique_index''
      | Foreign_Indexes_Conflict _ _ \<Rightarrow> ''foreign_index'')"

datatype json = Json_Text string | Json_List "string list"

definition conflict_to_dict :: "row_conflict \<Rightarrow> (string, json) dict" where
  "conflict_to_dict c =
     (''conflict_type'', Json_Text (conflict_type c)) #
     (case c of
        Primary_Key_Conflict \<Rightarrow> []
      | Unique_Indexes_Conflict name columns \<Rightarrow>
          [(''index_name'', Json_Text name), (''index_columns'', Json_List columns)]
      | Foreign_Indexes_Conflict parent child \<Rightarrow>
          [(''index_columns_parent'', Json_List parent), (''index_columns_child'', Json_List child)])"

datatype merge_side = Base_Side | Ours_Side | Theirs_Side

record invalid_table_state =
  invalid_reasons :: "(merge_side \<times> string \<times> string list) list"
  invalid_ours :: "nat list"
  invalid_theirs :: "nat list"

record unique_index_state =
  unique_index_name :: string
  unique_columns :: "string list"
  values_to_stmt_index :: "(string option list, nat) dict"

type_synonym key_tuple = "value_node list"

type_synonym key_value_data = "nat \<times> expr_type \<times> (string, value_node) dict option"

record table_conflict_state =
  primary_key_columns_to_index :: "(string, nat) dict"
  primary_key_value_to_data :: "(key_tuple, key_value_data) dict"
  unique_key_column_names :: "string list"
  unique_indexes :: "unique_index_state list"

text \<open>A referenced column is missing where the key names the parent's primary key implicitly.\<close>

record foreign_link =
  parent_references :: "(string list, string \<times> string option list) dict"
  child_references :: "string option list list"

record foreign_key_state =
  removed_parent_keys_by_ours :: "(string option list, nat) dict"
  removed_parent_keys_by_theirs :: "(string option list, nat) dict"

record diff_buckets =
  matched_ours_indices :: "nat list"
  extra_ours_indices :: "nat list"
  extra_theirs_indices :: "nat list"
  conflict_pairs :: "(nat \<times> nat, row_conflict list) dict"

text \<open>The dictionaries the passes share, and the buckets.\<close>

record row_run =
  run_tables :: "(string, table_conflict_state) dict"
  run_invalid :: "(string, invalid_table_state) dict"
  run_foreign :: "(string, foreign_key_state) dict"
  run_buckets :: diff_buckets

definition empty_buckets :: diff_buckets where
  "empty_buckets =
     \<lparr>matched_ours_indices = [], extra_ours_indices = [], extra_theirs_indices = [], conflict_pairs = []\<rparr>"

definition no_foreign_keys :: foreign_key_state where
  "no_foreign_keys = \<lparr>removed_parent_keys_by_ours = [], removed_parent_keys_by_theirs = []\<rparr>"

definition no_link :: foreign_link where
  "no_link = \<lparr>parent_references = [], child_references = []\<rparr>"

definition no_reasons :: invalid_table_state where
  "no_reasons = \<lparr>invalid_reasons = [], invalid_ours = [], invalid_theirs = []\<rparr>"

section \<open>Checks of the three databases\<close>

definition add_reason ::
    "string \<Rightarrow> merge_side \<times> string \<times> string list \<Rightarrow> (string, invalid_table_state) dict \<Rightarrow>
     (string, invalid_table_state) dict" where
  "add_reason table reason invalid_tables =
     (let state = dict_get invalid_tables table no_reasons in
      dict_set table (state\<lparr>invalid_reasons := invalid_reasons state @ [reason]\<rparr>) invalid_tables)"

definition pragma_integrity_check_table ::
    "string \<Rightarrow> (merge_side \<times> row_database) list \<Rightarrow> (string, invalid_table_state) dict \<Rightarrow>
     (string, invalid_table_state) dict" where
  "pragma_integrity_check_table table branches invalid_tables =
     foldl (\<lambda>invalid (branch, db).
        let integrity_check = integrity_check_row db table in
        if integrity_check \<noteq> ''ok''
        then add_reason table (branch, ''pragma_integrity_check_failed'', [integrity_check]) invalid
        else invalid) invalid_tables branches"

text \<open>
  The set of tables, here in the order of first occurrence, and the tables no statement of which
  may be merged. A row of the foreign key check is its child table and its text.
\<close>

fun collect_tables ::
    "(merge_side \<times> row_database) list \<Rightarrow> diff_statement list \<Rightarrow> string list \<Rightarrow>
     (string, invalid_table_state) dict \<Rightarrow> row_error + string list \<times> (string, invalid_table_state) dict" where
  "collect_tables branches [] tables_set invalid_tables = Inr (tables_set, invalid_tables)"
| "collect_tables branches (expr # exprs) tables_set invalid_tables =
     result_bind (get_target_table expr) (\<lambda>table.
       if table \<in> set tables_set then collect_tables branches exprs tables_set invalid_tables
       else collect_tables branches exprs (tables_set @ [table])
              (pragma_integrity_check_table table branches invalid_tables))"

definition foreign_check_failures ::
    "(merge_side \<times> row_database) list \<Rightarrow> string \<Rightarrow> (merge_side \<times> string \<times> string list) list" where
  "foreign_check_failures branches table =
     map (\<lambda>(branch, rows). (branch, ''pragma_foreign_check_failed - child table'', rows))
       (filter (\<lambda>(branch, rows). rows \<noteq> [])
         (map (\<lambda>(branch, db).
            (branch, map snd (filter (\<lambda>(child, _). child = table) (foreign_key_check_rows db)))) branches))"

definition check_valid_tables ::
    "diff_statement list \<Rightarrow> diff_statement list \<Rightarrow> row_database \<Rightarrow> row_database \<Rightarrow> row_database \<Rightarrow>
     row_error + string list \<times> (string, invalid_table_state) dict" where
  "check_valid_tables base_to_ours base_to_theirs base ours theirs =
     (let branches = [(Base_Side, base), (Ours_Side, ours), (Theirs_Side, theirs)] in
      result_bind (collect_tables branches (base_to_ours @ base_to_theirs) [] []) (\<lambda>(tables_set, invalid_tables).
        Inr (tables_set,
          foldl (\<lambda>invalid table.
             foldl (\<lambda>invalid reason. add_reason table reason invalid) invalid
               (foreign_check_failures branches table))
            invalid_tables tables_set)))"

section \<open>Foreign key links\<close>

definition check_and_add_table_foreign_link_entry ::
    "string \<Rightarrow> string \<Rightarrow> string list \<Rightarrow> string option list \<Rightarrow> (string, foreign_link) dict \<Rightarrow> (string, foreign_link) dict" where
  "check_and_add_table_foreign_link_entry child_table parent_table child_columns parent_columns links =
     (if child_columns = [] \<or> parent_columns = [] then links
      else let child = dict_get links child_table no_link;
               links1 = dict_set child_table
                 (child\<lparr>parent_references :=
                    dict_set child_columns (parent_table, parent_columns) (parent_references child)\<rparr>) links;
               parent = dict_get links1 parent_table no_link in
           dict_set parent_table
             (parent\<lparr>child_references := List.insert parent_columns (child_references parent)\<rparr>) links1)"

text \<open>The loop over the rows of one table, with the columns gathered for the current id.\<close>

fun foreign_link_loop ::
    "(string \<Rightarrow> bool) \<Rightarrow> string \<Rightarrow> int \<Rightarrow> string \<Rightarrow> string list \<Rightarrow> string option list \<Rightarrow>
     (int \<times> string \<times> string \<times> string option) list \<Rightarrow> (string, foreign_link) dict \<Rightarrow> (string, foreign_link) dict" where
  "foreign_link_loop usable table curr_id curr_parent children parents [] links =
     check_and_add_table_foreign_link_entry table curr_parent children parents links"
| "foreign_link_loop usable table curr_id curr_parent children parents ((key_id, parent, child_col, parent_col) # rows) links =
     (if key_id \<noteq> curr_id
      then let links1 = check_and_add_table_foreign_link_entry table curr_parent children parents links in
           if usable parent then foreign_link_loop usable table key_id parent [child_col] [parent_col] rows links1
           else foreign_link_loop usable table key_id parent [] [] rows links1
      else if usable curr_parent
      then foreign_link_loop usable table curr_id curr_parent (children @ [child_col]) (parents @ [parent_col]) rows links
      else foreign_link_loop usable table curr_id curr_parent children parents rows links)"

definition create_table_to_foreign_link_information ::
    "string list \<Rightarrow> (string, invalid_table_state) dict \<Rightarrow> row_database \<Rightarrow> (string, foreign_link) dict" where
  "create_table_to_foreign_link_information tables_set invalid_tables base =
     (let usable = (\<lambda>t. t \<in> set tables_set \<and> map_of invalid_tables t = None) in
      foldl (\<lambda>links table.
         if map_of invalid_tables table \<noteq> None then links
         else case foreign_key_rows base table of
           [] \<Rightarrow> links
         | (key_id, parent, child_col, parent_col) # rows \<Rightarrow>
             foreign_link_loop usable table key_id parent [] [] ((key_id, parent, child_col, parent_col) # rows) links)
        [] tables_set)"

section \<open>Keys\<close>

definition table_primary_keys :: "string \<Rightarrow> row_database \<Rightarrow> (string, nat) dict" where
  "table_primary_keys table db =
     foldl (\<lambda>d (column, pk). dict_set column (pk - 1) d) [] (filter (\<lambda>(_, pk). pk \<noteq> 0) (primary_key_rows db table))"

text \<open>Columns grouped by index name, in the order of the rows.\<close>

definition get_unique_indexes_column_names_and_data ::
    "string \<Rightarrow> row_database \<Rightarrow> string list \<times> unique_index_state list" where
  "get_unique_indexes_column_names_and_data table db =
     (let rows = unique_index_rows db table;
          index_to_cols = foldl (\<lambda>d (index, column). dict_set index (dict_get d index [] @ [column]) d) [] rows in
      (map snd rows,
       map (\<lambda>(index, cols). \<lparr>unique_index_name = index, unique_columns = cols, values_to_stmt_index = []\<rparr>)
         index_to_cols))"

definition where_predicates :: "row_where \<Rightarrow> row_predicate list" where
  "where_predicates w = (case w of Parsed_Where _ ps \<Rightarrow> ps | Built_Where ps \<Rightarrow> ps)"

text \<open>\<open>values[i] = v\<close>.\<close>

definition store_value :: "nat \<Rightarrow> value_node \<Rightarrow> value_node option list \<Rightarrow> row_error + value_node option list" where
  "store_value i v vs = (if i < length vs then Inr (vs[i := Some v]) else Inl Row_Index)"

fun values_of_predicates ::
    "(string, nat) dict \<Rightarrow> row_predicate list \<Rightarrow> value_node option list \<Rightarrow> row_error + value_node option list" where
  "values_of_predicates columns [] values = Inr values"
| "values_of_predicates columns (predicate # predicates) values =
     (case predicate_column predicate of
        None \<Rightarrow> Inl Row_Assertion
      | Some column \<Rightarrow>
          (case map_of columns column of
             None \<Rightarrow> Inl Row_Assertion
           | Some i \<Rightarrow>
               if (if predicate_is predicate then predicate_value predicate \<noteq> Null_Node
                   else (case predicate_value predicate of Literal_Node _ \<Rightarrow> False | _ \<Rightarrow> True))
               then Inl Row_Assertion
               else result_bind (store_value i (predicate_value predicate) values)
                      (values_of_predicates columns predicates)))"

text \<open>\<open>assert all(v is not None for v in values)\<close>.\<close>

definition all_present :: "value_node option list \<Rightarrow> row_error + key_tuple" where
  "all_present vs = (if None \<in> set vs then Inl Row_Assertion else Inr (map the vs))"

definition get_primary_key_values_from_where ::
    "(string, nat) dict \<Rightarrow> diff_statement \<Rightarrow> row_error + key_tuple option" where
  "get_primary_key_values_from_where columns expr =
     (case diff_where expr of
        None \<Rightarrow> Inr None
      | Some w \<Rightarrow>
          result_bind (values_of_predicates columns (where_predicates w) (replicate (length columns) None))
            (\<lambda>vs. result_bind (all_present vs) (\<lambda>key. Inr (Some key))))"

fun split_insert_row ::
    "(string, nat) dict \<Rightarrow> (string \<times> value_node) list \<Rightarrow> value_node option list \<Rightarrow> (string, value_node) dict \<Rightarrow>
     row_error + value_node option list \<times> (string, value_node) dict" where
  "split_insert_row columns [] values literals = Inr (values, literals)"
| "split_insert_row columns ((name, literal) # rest) values literals =
     (case map_of columns name of
        Some i \<Rightarrow> result_bind (store_value i literal values) (\<lambda>vs. split_insert_row columns rest vs literals)
      | None \<Rightarrow> split_insert_row columns rest values (dict_set name literal literals))"

definition get_key_values_and_column_to_literal_insert ::
    "value_node list \<Rightarrow> string list \<Rightarrow> (string, nat) dict \<Rightarrow> row_error + key_tuple \<times> (string, value_node) dict" where
  "get_key_values_and_column_to_literal_insert insert_row schema columns =
     result_bind (split_insert_row columns (zip schema insert_row) (replicate (length columns) None) [])
       (\<lambda>(values, literals). result_bind (all_present values) (\<lambda>key. Inr (key, literals)))"

text \<open>The one VALUES row \<open>sqldiff\<close> prints.\<close>

definition single_row :: "diff_statement \<Rightarrow> row_error + value_node list" where
  "single_row expr = (case diff_rows expr of [row] \<Rightarrow> Inr row | _ \<Rightarrow> Inl Row_Assertion)"

definition build_where_expr_from_insert :: "diff_statement \<Rightarrow> (string, nat) dict \<Rightarrow> row_error + row_where" where
  "build_where_expr_from_insert expr columns =
     (case diff_schema expr of
        None \<Rightarrow> Inl Row_Assertion
      | Some schema \<Rightarrow>
          result_bind (single_row expr) (\<lambda>insert_row.
            let predicates = map (\<lambda>(name, literal).
                  \<lparr>predicate_is = (literal = Null_Node), predicate_column = Some name, predicate_value = literal\<rparr>)
                  (filter (\<lambda>(name, _). map_of columns name \<noteq> None) (zip schema insert_row)) in
            if predicates = [] then Inl Row_Assertion else Inr (Built_Where predicates)))"

text \<open>\<open>row[column]\<close>, where \<open>row\<close> may be \<open>None\<close>.\<close>

definition row_value :: "db_row option \<Rightarrow> string option \<Rightarrow> row_error + string option" where
  "row_value row column =
     (case row of
        None \<Rightarrow> Inl Row_Type
      | Some cells \<Rightarrow>
          (case column of
             None \<Rightarrow> Inl Row_Index
           | Some name \<Rightarrow> (case map_of cells name of None \<Rightarrow> Inl Row_Index | Some v \<Rightarrow> Inr v)))"

fun row_values :: "db_row option \<Rightarrow> string option list \<Rightarrow> row_error + string option list" where
  "row_values row [] = Inr []"
| "row_values row (column # columns) =
     result_bind (row_value row column) (\<lambda>v. result_bind (row_values row columns) (\<lambda>vs. Inr (v # vs)))"

definition get_full_row_from_expr ::
    "diff_statement \<Rightarrow> string \<Rightarrow> row_database \<Rightarrow> (string, nat) dict \<Rightarrow> row_error + db_row option" where
  "get_full_row_from_expr expr table db columns =
     result_bind
       (if diff_type expr = Insert_Expr
        then (if columns = [] then Inl Row_Assertion else build_where_expr_from_insert expr columns)
        else (case diff_where expr of None \<Rightarrow> Inl Row_Key | Some w \<Rightarrow> Inr w))
       (select_row db table)"

section \<open>Unique indexes\<close>

text \<open>The columns up to the first that is NULL: whether one was updated, and whether one is NULL.\<close>

fun scan_index_columns :: "db_row option \<Rightarrow> string list \<Rightarrow> string list \<Rightarrow> bool \<Rightarrow> row_error + bool \<times> bool" where
  "scan_index_columns row updated [] seen = Inr (seen, False)"
| "scan_index_columns row updated (column # columns) seen =
     result_bind (row_value row (Some column)) (\<lambda>v.
       if v = None then Inr (seen \<or> column \<in> set updated, True)
       else scan_index_columns row updated columns (seen \<or> column \<in> set updated))"

fun get_relevant_unique_indexes_from_update ::
    "unique_index_state list \<Rightarrow> db_row option \<Rightarrow> string list \<Rightarrow> row_error + unique_index_state list" where
  "get_relevant_unique_indexes_from_update [] row updated = Inr []"
| "get_relevant_unique_indexes_from_update (index # indexes) row updated =
     result_bind (scan_index_columns row updated (unique_columns index) False) (\<lambda>(seen, has_null).
     result_bind (get_relevant_unique_indexes_from_update indexes row updated) (\<lambda>rest.
       Inr (if seen \<and> \<not> has_null then index # rest else rest)))"

text \<open>
  Adding: each relevant index of the table gets the values of the row. The code shares the index
  objects with the table state; here \<open>names\<close> are the indexes to add to.
\<close>

fun add_unique_indexes_value ::
    "db_row option \<Rightarrow> string list \<Rightarrow> nat \<Rightarrow> unique_index_state list \<Rightarrow> row_error + unique_index_state list" where
  "add_unique_indexes_value row names i [] = Inr []"
| "add_unique_indexes_value row names i (index # indexes) =
     (if unique_index_name index \<notin> set names
      then result_bind (add_unique_indexes_value row names i indexes) (\<lambda>rest. Inr (index # rest))
      else result_bind (row_values row (map Some (unique_columns index))) (\<lambda>vs.
           result_bind (add_unique_indexes_value row names i indexes) (\<lambda>rest.
             Inr ((if None \<in> set vs then index
                   else index\<lparr>values_to_stmt_index := dict_set vs i (values_to_stmt_index index)\<rparr>) # rest))))"

text \<open>Checking: the indexes that already have the values; none is the empty list.\<close>

fun check_unique_indexes_value ::
    "db_row option \<Rightarrow> unique_index_state list \<Rightarrow> row_error + (nat \<times> string \<times> string list) list" where
  "check_unique_indexes_value row [] = Inr []"
| "check_unique_indexes_value row (index # indexes) =
     result_bind (row_values row (map Some (unique_columns index))) (\<lambda>vs.
     result_bind (check_unique_indexes_value row indexes) (\<lambda>rest.
       Inr (if None \<in> set vs then rest
            else case map_of (values_to_stmt_index index) vs of
              None \<Rightarrow> rest
            | Some j \<Rightarrow> (j, unique_index_name index, unique_columns index) # rest)))"

section \<open>Removed parent keys\<close>

fun process_delete_for_foreign_link_as_parent ::
    "db_row option \<Rightarrow> nat \<Rightarrow> string option list list \<Rightarrow> (string option list, nat) dict \<Rightarrow>
     row_error + (string option list, nat) dict" where
  "process_delete_for_foreign_link_as_parent row i [] removed = Inr removed"
| "process_delete_for_foreign_link_as_parent row i (cols # references) removed =
     result_bind (row_values row cols) (\<lambda>vals.
       process_delete_for_foreign_link_as_parent row i references
         (if None \<in> set vals then removed else dict_set vals i removed))"

fun process_update_for_foreign_link_as_parent ::
    "db_row option \<Rightarrow> nat \<Rightarrow> unique_index_state list \<Rightarrow> string option list list \<Rightarrow>
     (string option list, nat) dict \<Rightarrow> row_error + (string option list, nat) dict" where
  "process_update_for_foreign_link_as_parent row i [] references removed = Inr removed"
| "process_update_for_foreign_link_as_parent row i (index # indexes) references removed =
     (if map Some (unique_columns index) \<notin> set references
      then process_update_for_foreign_link_as_parent row i indexes references removed
      else result_bind (row_values row (map Some (unique_columns index))) (\<lambda>vals.
             process_update_for_foreign_link_as_parent row i indexes references (dict_set vals i removed)))"

definition get_foreign_dict_to_add :: "foreign_key_state \<Rightarrow> bool \<Rightarrow> (string option list, nat) dict" where
  "get_foreign_dict_to_add state is_ours =
     (if is_ours then removed_parent_keys_by_ours state else removed_parent_keys_by_theirs state)"

definition set_foreign_dict ::
    "bool \<Rightarrow> (string option list, nat) dict \<Rightarrow> foreign_key_state \<Rightarrow> foreign_key_state" where
  "set_foreign_dict is_ours d state =
     (if is_ours then state\<lparr>removed_parent_keys_by_ours := d\<rparr> else state\<lparr>removed_parent_keys_by_theirs := d\<rparr>)"

definition change_removed ::
    "string \<Rightarrow> bool \<Rightarrow> ((string option list, nat) dict \<Rightarrow> row_error + (string option list, nat) dict) \<Rightarrow>
     row_run \<Rightarrow> row_error + row_run" where
  "change_removed table is_ours f run =
     (let state = dict_get (run_foreign run) table no_foreign_keys in
      result_bind (f (get_foreign_dict_to_add state is_ours)) (\<lambda>d.
        Inr (run\<lparr>run_foreign := dict_set table (set_foreign_dict is_ours d state) (run_foreign run)\<rparr>)))"

definition parent_columns_of :: "(string, foreign_link) dict \<Rightarrow> string \<Rightarrow> string option list list" where
  "parent_columns_of links table = (case map_of links table of None \<Rightarrow> [] | Some l \<Rightarrow> child_references l)"

text \<open>\<open>parent_columns_of links table \<noteq> []\<close> is \<open>table_is_parent\<close>.\<close>

definition remove_parent_row ::
    "row_database \<Rightarrow> (string, foreign_link) dict \<Rightarrow> bool \<Rightarrow> string \<Rightarrow> nat \<Rightarrow> diff_statement \<Rightarrow> row_run \<Rightarrow>
     row_error + row_run" where
  "remove_parent_row base links is_ours table i expr run =
     (if parent_columns_of links table = [] then Inr run
      else result_bind (get_full_row_from_expr expr table base []) (\<lambda>row.
             change_removed table is_ours
               (process_delete_for_foreign_link_as_parent row i (parent_columns_of links table)) run))"

definition update_parent_row ::
    "(string, foreign_link) dict \<Rightarrow> bool \<Rightarrow> string \<Rightarrow> nat \<Rightarrow> db_row option \<Rightarrow> unique_index_state list \<Rightarrow> row_run \<Rightarrow>
     row_error + row_run" where
  "update_parent_row links is_ours table i row relevant run =
     (if parent_columns_of links table = [] then Inr run
      else change_removed table is_ours
             (process_update_for_foreign_link_as_parent row i relevant (parent_columns_of links table)) run)"

section \<open>The build pass\<close>

definition record_invalid :: "string \<Rightarrow> nat \<Rightarrow> bool \<Rightarrow> bool \<Rightarrow> row_run \<Rightarrow> row_run" where
  "record_invalid table i with_ours is_building run =
     (let state = dict_get (run_invalid run) table no_reasons;
          state' = (if with_ours \<and> is_building \<or> \<not> with_ours \<and> \<not> is_building
            then state\<lparr>invalid_ours := invalid_ours state @ [i]\<rparr>
            else state\<lparr>invalid_theirs := invalid_theirs state @ [i]\<rparr>) in
      run\<lparr>run_invalid := dict_set table state' (run_invalid run)\<rparr>)"

definition new_table_state :: "string \<Rightarrow> row_database \<Rightarrow> table_conflict_state" where
  "new_table_state table base =
     (case get_unique_indexes_column_names_and_data table base of
        (columns, indexes) \<Rightarrow>
          \<lparr>primary_key_columns_to_index = table_primary_keys table base, primary_key_value_to_data = [],
           unique_key_column_names = columns, unique_indexes = indexes\<rparr>)"

definition table_state :: "row_database \<Rightarrow> string \<Rightarrow> row_run \<Rightarrow> table_conflict_state" where
  "table_state base table run =
     (case map_of (run_tables run) table of None \<Rightarrow> new_table_state table base | Some state \<Rightarrow> state)"

definition put_table :: "string \<Rightarrow> table_conflict_state \<Rightarrow> row_run \<Rightarrow> row_run" where
  "put_table table state run = run\<lparr>run_tables := dict_set table state (run_tables run)\<rparr>"

definition put_data :: "key_tuple \<Rightarrow> key_value_data \<Rightarrow> table_conflict_state \<Rightarrow> table_conflict_state" where
  "put_data key data state =
     state\<lparr>primary_key_value_to_data := dict_set key data (primary_key_value_to_data state)\<rparr>"

definition required_key :: "key_tuple option \<Rightarrow> row_error + key_tuple" where
  "required_key key_values = (case key_values of None \<Rightarrow> Inl Row_Assertion | Some key \<Rightarrow> Inr key)"

text \<open>The columns an UPDATE sets, with their last literal, and whether a unique index is concerned.\<close>

definition update_literals :: "diff_statement \<Rightarrow> (string, value_node) dict" where
  "update_literals expr = foldl (\<lambda>d (column, value). dict_set column value d) [] (diff_sets expr)"

definition updates_unique_column :: "diff_statement \<Rightarrow> table_conflict_state \<Rightarrow> bool" where
  "updates_unique_column expr state \<longleftrightarrow>
     list_ex (\<lambda>(column, _). column \<in> set (unique_key_column_names state)) (diff_sets expr)"

definition insert_columns :: "diff_statement \<Rightarrow> string list" where
  "insert_columns expr = (case diff_schema expr of None \<Rightarrow> [] | Some columns \<Rightarrow> columns)"

definition build_statement ::
    "row_database \<Rightarrow> row_database \<Rightarrow> (string, foreign_link) dict \<Rightarrow> bool \<Rightarrow> nat \<Rightarrow> diff_statement \<Rightarrow> row_run \<Rightarrow>
     row_error + row_run" where
  "build_statement base build links with_ours i expr run =
     result_bind (get_target_table expr) (\<lambda>table.
       if map_of (run_invalid run) table \<noteq> None then Inr (record_invalid table i with_ours True run)
       else
         let state = table_state base table run; columns = primary_key_columns_to_index state in
         result_bind (get_primary_key_values_from_where columns expr) (\<lambda>key_values.
         case diff_type expr of
           Delete_Expr \<Rightarrow>
             result_bind (required_key key_values) (\<lambda>key.
               remove_parent_row base links with_ours table i expr
                 (put_table table (put_data key (i, Delete_Expr, None) state) run))
         | Insert_Expr \<Rightarrow>
             result_bind (single_row expr) (\<lambda>insert_row.
             result_bind (get_key_values_and_column_to_literal_insert insert_row (insert_columns expr) columns)
               (\<lambda>(key, literals).
             result_bind (get_full_row_from_expr expr table build columns) (\<lambda>row.
             result_bind (add_unique_indexes_value row (map unique_index_name (unique_indexes state)) i (unique_indexes state))
               (\<lambda>indexes. Inr (put_table table
                  ((put_data key (i, Insert_Expr, Some literals) state)\<lparr>unique_indexes := indexes\<rparr>) run)))))
         | Update_Expr \<Rightarrow>
             result_bind (required_key key_values) (\<lambda>key.
               let stored = put_data key (i, Update_Expr, Some (update_literals expr)) state in
               if \<not> updates_unique_column expr state then Inr (put_table table stored run)
               else
                 result_bind (get_full_row_from_expr expr table build []) (\<lambda>row.
                 result_bind (get_relevant_unique_indexes_from_update (unique_indexes state) row (map fst (diff_sets expr)))
                   (\<lambda>relevant.
                 result_bind (add_unique_indexes_value row (map unique_index_name relevant) i (unique_indexes state))
                   (\<lambda>indexes. update_parent_row links with_ours table i row relevant
                      (put_table table (stored\<lparr>unique_indexes := indexes\<rparr>) run)))))
         | Other_Expr \<Rightarrow> Inr run))"

fun for_statements ::
    "(nat \<Rightarrow> diff_statement \<Rightarrow> row_run \<Rightarrow> row_error + row_run) \<Rightarrow> (nat \<times> diff_statement) list \<Rightarrow> row_run \<Rightarrow>
     row_error + row_run" where
  "for_statements f [] run = Inr run"
| "for_statements f ((i, expr) # exprs) run = result_bind (f i expr run) (for_statements f exprs)"

section \<open>The lookup pass\<close>

text \<open>\<open>i\<close> is the index on the side that is looked up, \<open>j\<close> the one of the table.\<close>

definition add_to_res_match :: "bool \<Rightarrow> nat \<Rightarrow> nat \<Rightarrow> row_run \<Rightarrow> row_run" where
  "add_to_res_match with_ours i j run =
     run\<lparr>run_buckets := (run_buckets run)\<lparr>matched_ours_indices :=
        matched_ours_indices (run_buckets run) @ [if with_ours then j else i]\<rparr>\<rparr>"

definition get_ours_and_theirs_index_ordered :: "bool \<Rightarrow> nat \<Rightarrow> nat \<Rightarrow> nat \<times> nat" where
  "get_ours_and_theirs_index_ordered with_ours i j = (if with_ours then (j, i) else (i, j))"

definition add_row_conflict :: "bool \<Rightarrow> nat \<Rightarrow> nat \<Rightarrow> row_conflict \<Rightarrow> row_run \<Rightarrow> row_run" where
  "add_row_conflict with_ours i j conflict run =
     (let key = get_ours_and_theirs_index_ordered with_ours i j; d = conflict_pairs (run_buckets run) in
      run\<lparr>run_buckets := (run_buckets run)\<lparr>conflict_pairs := dict_set key (dict_get d key [] @ [conflict]) d\<rparr>\<rparr>)"

definition add_extra :: "bool \<Rightarrow> nat list \<Rightarrow> row_run \<Rightarrow> row_run" where
  "add_extra is_ours is run =
     run\<lparr>run_buckets := (if is_ours
        then (run_buckets run)\<lparr>extra_ours_indices := extra_ours_indices (run_buckets run) @ is\<rparr>
        else (run_buckets run)\<lparr>extra_theirs_indices := extra_theirs_indices (run_buckets run) @ is\<rparr>)\<rparr>"

definition pop_data :: "string \<Rightarrow> table_conflict_state \<Rightarrow> key_tuple \<Rightarrow> row_run \<Rightarrow> row_run" where
  "pop_data table state key run =
     put_table table (state\<lparr>primary_key_value_to_data := dict_pop key (primary_key_value_to_data state)\<rparr>) run"

text \<open>\<open>==\<close> on dictionaries.\<close>

definition same_literals :: "(string, value_node) dict option \<Rightarrow> (string, value_node) dict \<Rightarrow> bool" where
  "same_literals stored literals =
     (case stored of
        None \<Rightarrow> False
      | Some d \<Rightarrow> list_all (\<lambda>(k, v). map_of literals k = Some v) d \<and> list_all (\<lambda>(k, v). map_of d k = Some v) literals)"

text \<open>The conflicts of a row with the values already stored, and whether there are any.\<close>

definition report_unique_conflicts ::
    "bool \<Rightarrow> nat \<Rightarrow> (nat \<times> string \<times> string list) list \<Rightarrow> row_run \<Rightarrow> row_run" where
  "report_unique_conflicts with_ours i entries run =
     foldl (\<lambda>r (j, name, columns). add_row_conflict with_ours i j (Unique_Indexes_Conflict name columns) r)
       run entries"

definition finish_lookup ::
    "bool \<Rightarrow> nat \<Rightarrow> bool \<Rightarrow> (nat \<times> string \<times> string list) list \<Rightarrow> row_run \<Rightarrow> row_run" where
  "finish_lookup with_ours i to_add_to_extra entries run =
     (if entries \<noteq> [] then report_unique_conflicts with_ours i entries run
      else if to_add_to_extra then add_extra (\<not> with_ours) [i] run else run)"

text \<open>What a DELETE meets under its key.\<close>

definition lookup_delete ::
    "bool \<Rightarrow> nat \<Rightarrow> string \<Rightarrow> table_conflict_state \<Rightarrow> key_tuple \<Rightarrow> row_run \<Rightarrow> row_run" where
  "lookup_delete with_ours i table state key run =
     (case map_of (primary_key_value_to_data state) key of
        None \<Rightarrow> add_extra (\<not> with_ours) [i] run
      | Some (j, t, _) \<Rightarrow> pop_data table state key
          (if t = Delete_Expr then add_to_res_match with_ours i j run
           else if t = Update_Expr then add_row_conflict with_ours i j Primary_Key_Conflict run
           else run))"

text \<open>
  What an INSERT or UPDATE meets under its key: \<open>None\<close> ends the statement with a match, otherwise
  the flag says whether nothing was met.
\<close>

definition lookup_insert ::
    "bool \<Rightarrow> nat \<Rightarrow> string \<Rightarrow> table_conflict_state \<Rightarrow> key_tuple \<Rightarrow> (string, value_node) dict \<Rightarrow> row_run \<Rightarrow>
     row_error + bool option \<times> row_run" where
  "lookup_insert with_ours i table state key literals run =
     (case map_of (primary_key_value_to_data state) key of
        None \<Rightarrow> Inr (Some True, run)
      | Some (j, t, stored) \<Rightarrow>
          if t \<noteq> Insert_Expr then Inl Row_Assertion
          else if same_literals stored literals
          then Inr (None, pop_data table state key (add_to_res_match with_ours i j run))
          else Inr (Some False, pop_data table state key (add_row_conflict with_ours i j Primary_Key_Conflict run)))"

definition lookup_update ::
    "bool \<Rightarrow> nat \<Rightarrow> string \<Rightarrow> table_conflict_state \<Rightarrow> key_tuple \<Rightarrow> (string, value_node) dict \<Rightarrow> row_run \<Rightarrow>
     bool option \<times> row_run" where
  "lookup_update with_ours i table state key literals run =
     (case map_of (primary_key_value_to_data state) key of
        None \<Rightarrow> (Some True, run)
      | Some (j, t, stored) \<Rightarrow>
          if t = Delete_Expr
          then (Some False, pop_data table state key (add_row_conflict with_ours i j Primary_Key_Conflict run))
          else if t = Update_Expr
          then (if same_literals stored literals
                then (None, pop_data table state key (add_to_res_match with_ours i j run))
                else (Some False, pop_data table state key (add_row_conflict with_ours i j Primary_Key_Conflict run)))
          else (Some False, pop_data table state key run))"

definition lookup_statement ::
    "row_database \<Rightarrow> row_database \<Rightarrow> (string, foreign_link) dict \<Rightarrow> bool \<Rightarrow> nat \<Rightarrow> diff_statement \<Rightarrow> row_run \<Rightarrow>
     row_error + row_run" where
  "lookup_statement base lookup links with_ours i expr run =
     result_bind (get_target_table expr) (\<lambda>table.
       if map_of (run_invalid run) table \<noteq> None then Inr (record_invalid table i with_ours False run)
       else case map_of (run_tables run) table of
         None \<Rightarrow> Inr (add_extra (\<not> with_ours) [i] run)
       | Some state \<Rightarrow>
         result_bind (get_primary_key_values_from_where (primary_key_columns_to_index state) expr) (\<lambda>key_values.
         case diff_type expr of
           Delete_Expr \<Rightarrow>
             result_bind (required_key key_values) (\<lambda>key.
             result_bind (remove_parent_row base links (\<not> with_ours) table i expr run) (\<lambda>run1.
               Inr (lookup_delete with_ours i table state key run1)))
         | Insert_Expr \<Rightarrow>
             result_bind (single_row expr) (\<lambda>insert_row.
             result_bind (get_key_values_and_column_to_literal_insert insert_row (insert_columns expr)
                 (primary_key_columns_to_index state)) (\<lambda>(key, literals).
             result_bind (lookup_insert with_ours i table state key literals run) (\<lambda>(met, run1).
             case met of
               None \<Rightarrow> Inr run1
             | Some to_add \<Rightarrow>
                 result_bind (get_full_row_from_expr expr table lookup (primary_key_columns_to_index state)) (\<lambda>row.
                 result_bind (check_unique_indexes_value row (unique_indexes state)) (\<lambda>entries.
                   Inr (finish_lookup with_ours i to_add entries run1))))))
         | Update_Expr \<Rightarrow>
             result_bind (required_key key_values) (\<lambda>key.
             case lookup_update with_ours i table state key (update_literals expr) run of
               (None, run1) \<Rightarrow> Inr run1
             | (Some to_add, run1) \<Rightarrow>
                 if \<not> updates_unique_column expr state then Inr (finish_lookup with_ours i to_add [] run1)
                 else
                   result_bind (get_full_row_from_expr expr table lookup []) (\<lambda>row.
                   result_bind (get_relevant_unique_indexes_from_update (unique_indexes state) row (map fst (diff_sets expr)))
                     (\<lambda>relevant.
                   result_bind (check_unique_indexes_value row relevant) (\<lambda>entries.
                     update_parent_row links with_ours table i row relevant
                       (finish_lookup with_ours i to_add entries run1)))))
         | Other_Expr \<Rightarrow> Inr run))"

text \<open>What is left in the tables after the lookups.\<close>

definition remaining_entries :: "row_run \<Rightarrow> nat list" where
  "remaining_entries run =
     concat (map (\<lambda>(_, state). map (\<lambda>(_, i, _). i) (primary_key_value_to_data state)) (run_tables run))"

definition check_conflict_and_return_diffs ::
    "diff_statement list \<Rightarrow> diff_statement list \<Rightarrow> (string, invalid_table_state) dict \<Rightarrow>
     (string, foreign_link) dict \<Rightarrow> row_database \<Rightarrow> row_database \<Rightarrow> row_database \<Rightarrow> row_error + row_run" where
  "check_conflict_and_return_diffs base_to_ours base_to_theirs invalid_tables links base ours theirs =
     (let with_ours = (length base_to_ours \<le> length base_to_theirs);
          (to_build, build, to_lookup, lookup) =
            (if with_ours then (base_to_ours, ours, base_to_theirs, theirs)
             else (base_to_theirs, theirs, base_to_ours, ours));
          start = \<lparr>run_tables = [], run_invalid = invalid_tables, run_foreign = [], run_buckets = empty_buckets\<rparr> in
      result_bind (for_statements (build_statement base build links with_ours) (enumerate 0 to_build) start) (\<lambda>built.
      result_bind (for_statements (lookup_statement base lookup links with_ours) (enumerate 0 to_lookup) built) (\<lambda>run.
        Inr (add_extra with_ours (remaining_entries run) run))))"

section \<open>The foreign key pass and the command\<close>

text \<open>
  \<open>for cols, link_data in parent_references\<close> goes over the keys of the dictionary, tuples of
  column names, and takes each apart into two.
\<close>

definition unpack_references :: "foreign_link \<Rightarrow> row_error + unit" where
  "unpack_references link =
     (if list_all (\<lambda>(cols, _). length cols = 2) (parent_references link) then Inr () else Inl Row_Value)"

definition check_fk_violation ::
    "diff_statement \<Rightarrow> row_database \<Rightarrow> (string, foreign_link) dict \<Rightarrow> (string, table_conflict_state) dict \<Rightarrow>
     row_error + unit" where
  "check_fk_violation expr db links tables =
     result_bind (get_target_table expr) (\<lambda>table.
       case map_of links table of
         None \<Rightarrow> Inr ()
       | Some link \<Rightarrow>
           if parent_references link = [] \<or> diff_type expr \<notin> {Insert_Expr, Update_Expr} then Inr ()
           else case map_of tables table of
             None \<Rightarrow> Inl Row_Key
           | Some state \<Rightarrow>
               result_bind (get_full_row_from_expr expr table db (primary_key_columns_to_index state))
                 (\<lambda>_. unpack_references link))"

fun check_all_fk ::
    "diff_statement list \<Rightarrow> row_database \<Rightarrow> (string, foreign_link) dict \<Rightarrow> (string, table_conflict_state) dict \<Rightarrow>
     nat list \<Rightarrow> row_error + unit" where
  "check_all_fk exprs db links tables [] = Inr ()"
| "check_all_fk exprs db links tables (i # is) =
     result_bind (check_fk_violation (exprs ! i) db links tables) (\<lambda>_. check_all_fk exprs db links tables is)"

text \<open>\<open>a, b = zip(*pairs)\<close> needs at least one pair.\<close>

definition unzip_pairs :: "(nat \<times> nat) list \<Rightarrow> row_error + nat list \<times> nat list" where
  "unzip_pairs pairs = (if pairs = [] then Inl Row_Value else Inr (map fst pairs, map snd pairs))"

definition foreign_key_check ::
    "diff_statement list \<Rightarrow> row_database \<Rightarrow> (string, foreign_link) dict \<Rightarrow> row_run \<Rightarrow> row_error + diff_buckets" where
  "foreign_key_check base_to_ours ours links run =
     result_bind (unzip_pairs (map fst (conflict_pairs (run_buckets run)))) (\<lambda>_.
     result_bind (check_all_fk base_to_ours ours links (run_tables run) (extra_ours_indices (run_buckets run))) (\<lambda>_.
       Inr (run_buckets run)))"

definition split_lines :: "string \<Rightarrow> string list" where
  "split_lines text =
     foldr (\<lambda>c lines. if c = CHR 0x0A then [] # lines else (c # hd lines) # tl lines) text [[]]"

fun parse_all :: "(string \<Rightarrow> diff_statement option) \<Rightarrow> string list \<Rightarrow> row_error + diff_statement list" where
  "parse_all parse [] = Inr []"
| "parse_all parse (text # texts) =
     (case parse text of
        None \<Rightarrow> Inl Row_Parse
      | Some expr \<Rightarrow> result_bind (parse_all parse texts) (\<lambda>exprs. Inr (expr # exprs)))"

text \<open>
  The exit code, the statements run on the copy of the base that replaces ours, and the report.
  Files stay as they are when the command raises.
\<close>

record row_outcome =
  exit_code :: nat
  applied_statements :: "string list"
  reported_conflicts :: "((string \<times> string) \<times> (string, json) dict list) list"
  reported_invalid :: "(string, invalid_table_state) dict"

definition stmts_to_apply :: "string list \<Rightarrow> string list \<Rightarrow> diff_buckets \<Rightarrow> string list" where
  "stmts_to_apply base_to_ours base_to_theirs diffs =
     map ((!) base_to_ours) (matched_ours_indices diffs) @ map ((!) base_to_ours) (extra_ours_indices diffs) @
     map ((!) base_to_theirs) (extra_theirs_indices diffs)"

text \<open>\<open>diff_ours\<close> and \<open>diff_theirs\<close> are what \<open>sqldiff\<close> prints; \<open>script_fails\<close> is the sqlite3 program.\<close>

definition row_merge_main ::
    "(string \<Rightarrow> diff_statement option) \<Rightarrow> string \<Rightarrow> string \<Rightarrow> row_database \<Rightarrow> row_database \<Rightarrow> row_database \<Rightarrow>
     (string list \<Rightarrow> bool) \<Rightarrow> row_error + row_outcome" where
  "row_merge_main parse diff_ours diff_theirs base ours theirs script_fails =
     (let base_to_ours = split_lines (strip diff_ours); base_to_theirs = split_lines (strip diff_theirs) in
      result_bind (parse_all parse base_to_ours) (\<lambda>ours_parsed.
      result_bind (parse_all parse base_to_theirs) (\<lambda>theirs_parsed.
      result_bind (check_valid_tables ours_parsed theirs_parsed base ours theirs) (\<lambda>(tables_set, invalid_tables).
      let links = create_table_to_foreign_link_information tables_set invalid_tables base in
      result_bind (check_conflict_and_return_diffs ours_parsed theirs_parsed invalid_tables links base ours theirs) (\<lambda>run.
      result_bind (foreign_key_check ours_parsed ours links run) (\<lambda>diffs.
        let statements = stmts_to_apply base_to_ours base_to_theirs diffs in
        if script_fails statements
        then Inr \<lparr>exit_code = 1, applied_statements = statements, reported_conflicts = [], reported_invalid = []\<rparr>
        else if conflict_pairs diffs \<noteq> [] \<or> run_invalid run \<noteq> []
        then Inr \<lparr>exit_code = 1, applied_statements = statements,
               reported_conflicts = map (\<lambda>((i, j), conflicts).
                 ((base_to_ours ! i, base_to_theirs ! j), map conflict_to_dict conflicts)) (conflict_pairs diffs),
               reported_invalid = run_invalid run\<rparr>
        else Inr \<lparr>exit_code = 0, applied_statements = statements, reported_conflicts = [],
               reported_invalid = []\<rparr>))))))"

end
