(* ===== verification/Row_Merge_Props.thy ===== *)
theory Row_Merge_Props
  imports Row_Merge
begin

text \<open>
  The row merge: what of both branches is applied never touches the same row twice, every
  statement ends in a bucket, and what the unfinished foreign key pass makes of a clean merge.
\<close>

section \<open>The table of one key\<close>

definition data_of :: "row_run \<Rightarrow> string \<times> key_tuple \<Rightarrow> key_value_data option" where
  "data_of run tk =
     (case map_of (run_tables run) (fst tk) of
        None \<Rightarrow> None | Some state \<Rightarrow> map_of (primary_key_value_to_data state) (snd tk))"

text \<open>The row a statement is about: its table and the primary key in its WHERE or its VALUES.\<close>

definition statement_key :: "row_database \<Rightarrow> diff_statement \<Rightarrow> (string \<times> key_tuple) option" where
  "statement_key base expr =
     (case get_target_table expr of
        Inl _ \<Rightarrow> None
      | Inr table \<Rightarrow>
          let columns = table_primary_keys table base in
          if diff_type expr = Insert_Expr
          then (case result_bind (single_row expr)
                  (\<lambda>row. get_key_values_and_column_to_literal_insert row (insert_columns expr) columns) of
                  Inr (key, _) \<Rightarrow> Some (table, key) | Inl _ \<Rightarrow> None)
          else (case get_primary_key_values_from_where columns expr of
                  Inr (Some key) \<Rightarrow> Some (table, key) | _ \<Rightarrow> None))"

definition state_ok :: "row_database \<Rightarrow> string \<Rightarrow> table_conflict_state \<Rightarrow> bool" where
  "state_ok base table state \<longleftrightarrow> dict_ok (primary_key_value_to_data state) \<and>
     primary_key_columns_to_index state = table_primary_keys table base"

definition tables_ok :: "row_database \<Rightarrow> row_run \<Rightarrow> bool" where
  "tables_ok base run \<longleftrightarrow> dict_ok (run_tables run) \<and>
     (\<forall>table state. map_of (run_tables run) table = Some state \<longrightarrow> state_ok base table state)"

definition conflicting :: "row_run \<Rightarrow> (nat \<times> nat) set" where
  "conflicting run = fst ` set (conflict_pairs (run_buckets run))"

definition extras :: "bool \<Rightarrow> row_run \<Rightarrow> nat list" where
  "extras is_ours run =
     (if is_ours then extra_ours_indices (run_buckets run) else extra_theirs_indices (run_buckets run))"

definition matched :: "row_run \<Rightarrow> nat list" where
  "matched run = matched_ours_indices (run_buckets run)"

lemmas bucket_defs = conflicting_def extras_def matched_def

lemma put_table_parts [simp]:
  "run_tables (put_table t st run) = dict_set t st (run_tables run)"
  "run_buckets (put_table t st run) = run_buckets run" "run_invalid (put_table t st run) = run_invalid run"
  by (simp_all add: put_table_def)

lemma put_data_parts [simp]:
  "primary_key_value_to_data (put_data k d st) = dict_set k d (primary_key_value_to_data st)"
  "primary_key_columns_to_index (put_data k d st) = primary_key_columns_to_index st"
  by (simp_all add: put_data_def)

lemma add_parts [simp]:
  "run_tables (add_to_res_match w i j run) = run_tables run" "run_tables (add_row_conflict w i j c run) = run_tables run"
  "run_tables (add_extra w is run) = run_tables run"
  "run_invalid (add_to_res_match w i j run) = run_invalid run" "run_invalid (add_row_conflict w i j c run) = run_invalid run"
  "run_invalid (add_extra w is run) = run_invalid run"
  by (simp_all add: add_to_res_match_def add_row_conflict_def add_extra_def Let_def)

lemma match_buckets [simp]:
  "matched (add_to_res_match w i j run) = matched run @ [if w then j else i]"
  "extras side (add_to_res_match w i j run) = extras side run"
  "conflicting (add_to_res_match w i j run) = conflicting run"
  by (simp_all add: bucket_defs add_to_res_match_def)

lemma conflict_buckets [simp]:
  "matched (add_row_conflict w i j c run) = matched run"
  "extras side (add_row_conflict w i j c run) = extras side run"
  "conflicting (add_row_conflict w i j c run) = insert (get_ours_and_theirs_index_ordered w i j) (conflicting run)"
  by (auto simp: bucket_defs add_row_conflict_def Let_def dom_update image_iff
      simp flip: dom_map_of_conv_image_fst)

lemma extra_buckets [simp]:
  "matched (add_extra w is run) = matched run"
  "extras side (add_extra w is run) = extras side run @ (if side = w then is else [])"
  "conflicting (add_extra w is run) = conflicting run"
  by (auto simp: bucket_defs add_extra_def)

lemma table_buckets [simp]:
  "matched (put_table t st run) = matched run" "extras side (put_table t st run) = extras side run"
  "conflicting (put_table t st run) = conflicting run"
  by (simp_all add: bucket_defs)

text \<open>The removed parent keys are beside the tables and the buckets.\<close>

lemma change_removed_parts:
  "change_removed table is_ours f run = Inr run' \<Longrightarrow>
     run_tables run' = run_tables run \<and> run_buckets run' = run_buckets run \<and> run_invalid run' = run_invalid run"
  by (auto simp: change_removed_def Let_def result_bind_Inr)

lemma parent_row_parts:
  "remove_parent_row base links is_ours table i expr run = Inr run' \<Longrightarrow>
     run_tables run' = run_tables run \<and> run_buckets run' = run_buckets run \<and> run_invalid run' = run_invalid run"
  "update_parent_row links is_ours table i row relevant run = Inr run' \<Longrightarrow>
     run_tables run' = run_tables run \<and> run_buckets run' = run_buckets run \<and> run_invalid run' = run_invalid run"
  by (auto simp: remove_parent_row_def update_parent_row_def result_bind_Inr dest: change_removed_parts split: if_splits)

lemma unchanged_parts:
  assumes "run_tables run' = run_tables run" "run_buckets run' = run_buckets run"
  shows "data_of run' = data_of run" "tables_ok base run' = tables_ok base run" "matched run' = matched run"
    "extras side run' = extras side run" "conflicting run' = conflicting run"
  using assms by (simp_all add: data_of_def fun_eq_iff tables_ok_def bucket_defs)

lemma tables_ok_state: "tables_ok base run \<Longrightarrow> map_of (run_tables run) table = Some state \<Longrightarrow> state_ok base table state"
  by (simp add: tables_ok_def)

lemma table_state_ok: "tables_ok base run \<Longrightarrow> state_ok base table (table_state base table run)"
  by (auto simp: table_state_def state_ok_def new_table_state_def dest: tables_ok_state
      split: option.splits prod.splits)

lemma tables_ok_put: "tables_ok base run \<Longrightarrow> state_ok base table state \<Longrightarrow> tables_ok base (put_table table state run)"
  by (simp add: tables_ok_def)

lemma data_of_put:
  "data_of (put_table table state run) tk =
     (if fst tk = table then map_of (primary_key_value_to_data state) (snd tk) else data_of run tk)"
  by (simp add: data_of_def)

lemma data_of_table_state:
  "map_of (primary_key_value_to_data (table_state base table run)) key = data_of run (table, key)"
  by (simp add: data_of_def table_state_def new_table_state_def split: option.splits prod.splits)

lemma data_of_store:
  assumes "primary_key_value_to_data state = dict_set key d (primary_key_value_to_data (table_state base table run))"
  shows "data_of (put_table table state run) = (data_of run)((table, key) \<mapsto> d)"
  using assms by (auto simp: data_of_put fun_eq_iff data_of_table_state)

lemma data_of_pop:
  assumes "map_of (run_tables run) table = Some state"
  shows "data_of (pop_data table state key run) = (data_of run)((table, key) := None)"
  using assms by (auto simp: pop_data_def data_of_put fun_eq_iff data_of_def delete_conv')

section \<open>One statement of the build pass\<close>

definition stored_statement :: "row_database \<Rightarrow> nat \<Rightarrow> diff_statement \<Rightarrow> string \<Rightarrow> row_run \<Rightarrow> row_run \<Rightarrow> bool" where
  "stored_statement base i expr table run run' \<longleftrightarrow> tables_ok base run' \<and> run_buckets run' = run_buckets run \<and>
     run_invalid run' = run_invalid run \<and>
     (\<exists>key literals. statement_key base expr = Some (table, key) \<and>
        data_of run' = (data_of run)((table, key) \<mapsto> (i, diff_type expr, literals)))"

lemma stored_statementI:
  assumes "tables_ok base run" "statement_key base expr = Some (table, key)"
    and "primary_key_value_to_data state =
      dict_set key (i, diff_type expr, literals) (primary_key_value_to_data (table_state base table run))"
    and "primary_key_columns_to_index state = primary_key_columns_to_index (table_state base table run)"
    and "run_tables run' = run_tables (put_table table state run)" "run_buckets run' = run_buckets run"
      "run_invalid run' = run_invalid run"
  shows "stored_statement base i expr table run run'"
proof -
  have "state_ok base table state"
    using table_state_ok [OF assms(1), of table] assms(3,4) by (simp add: state_ok_def)
  with assms(1) have "tables_ok base (put_table table state run)" by (rule tables_ok_put)
  then show ?thesis
    using unchanged_parts(1,2) [of run' "put_table table state run"] assms(2,5-7) data_of_store [OF assms(3)]
    by (auto simp: stored_statement_def)
qed

lemma statement_key_cases:
  assumes "get_target_table expr = Inr table"
    and "get_primary_key_values_from_where (table_primary_keys table base) expr = Inr key_values"
  shows "diff_type expr \<noteq> Insert_Expr \<Longrightarrow> required_key key_values = Inr key \<Longrightarrow> statement_key base expr = Some (table, key)"
    and "diff_type expr = Insert_Expr \<Longrightarrow> single_row expr = Inr row \<Longrightarrow>
      get_key_values_and_column_to_literal_insert row (insert_columns expr) (table_primary_keys table base) = Inr (key, literals) \<Longrightarrow>
      statement_key base expr = Some (table, key)"
  using assms by (auto simp: statement_key_def Let_def required_key_def split: option.splits)

lemma target_type: "get_target_table expr = Inr table \<Longrightarrow> diff_type expr \<noteq> Other_Expr"
  by (auto simp: get_target_table_def)

lemma build_statement_step:
  assumes "build_statement base build links w i expr run = Inr run'" "tables_ok base run"
  obtains table where "get_target_table expr = Inr table"
    "if map_of (run_invalid run) table \<noteq> None then run' = record_invalid table i w True run
     else stored_statement base i expr table run run'"
proof -
  obtain table where table: "get_target_table expr = Inr table"
    using assms(1) by (auto simp: build_statement_def result_bind_Inr)
  let ?state = "table_state base table run"
  have columns: "primary_key_columns_to_index ?state = table_primary_keys table base"
    using table_state_ok [OF assms(2)] by (simp add: state_ok_def)
  have "stored_statement base i expr table run run'" if valid: "map_of (run_invalid run) table = None"
  proof -
    obtain kv where kv: "get_primary_key_values_from_where (table_primary_keys table base) expr = Inr kv"
      using assms(1) valid by (auto simp: build_statement_def table Let_def columns result_bind_Inr)
    note key = statement_key_cases [OF table kv] and run = assms(1) [unfolded build_statement_def table]
    show ?thesis
    proof (cases "diff_type expr")
      case Delete_Expr
      then obtain k where k: "required_key kv = Inr k"
        "remove_parent_row base links w table i expr (put_table table (put_data k (i, Delete_Expr, None) ?state) run) = Inr run'"
        using run valid kv by (auto simp: Let_def columns result_bind_Inr)
      show ?thesis
        by (rule stored_statementI [OF assms(2) key(1) [OF _ k(1)]])
          (use parent_row_parts(1) [OF k(2)] Delete_Expr in auto)
    next
      case Update_Expr
      then obtain k where k: "required_key kv = Inr k" using run valid kv by (auto simp: Let_def columns result_bind_Inr)
      let ?stored = "put_data k (i, Update_Expr, Some (update_literals expr)) ?state"
      obtain idx where parts: "run_tables run' = run_tables (put_table table (?stored\<lparr>unique_indexes := idx\<rparr>) run) \<and>
          run_buckets run' = run_buckets run \<and> run_invalid run' = run_invalid run"
      proof (cases "updates_unique_column expr ?state")
        case False
        then show thesis using run valid kv k Update_Expr that [of "unique_indexes ?stored"]
          by (auto simp: Let_def columns result_bind_Inr)
      next
        case True
        then show thesis using run valid kv k Update_Expr that
          by (auto simp: Let_def columns result_bind_Inr dest!: parent_row_parts(2))
      qed
      show ?thesis
        by (rule stored_statementI [OF assms(2) key(1) [OF _ k(1)]]) (use parts Update_Expr in auto)
    next
      case Insert_Expr
      then obtain row k ls idx where k: "single_row expr = Inr row"
          "get_key_values_and_column_to_literal_insert row (insert_columns expr) (table_primary_keys table base) = Inr (k, ls)"
          "run' = put_table table ((put_data k (i, Insert_Expr, Some ls) ?state)\<lparr>unique_indexes := idx\<rparr>) run"
        using run valid kv by (auto simp: Let_def columns result_bind_Inr)
      show ?thesis
        by (rule stored_statementI [OF assms(2) key(2) [OF _ k(1,2)]]) (use k(3) Insert_Expr in auto)
    qed (use target_type [OF table] in simp)
  qed
  then show thesis
    using that [OF table] assms(1) by (cases "map_of (run_invalid run) table") (simp_all add: build_statement_def table)
qed

section \<open>One statement of the lookup pass\<close>

text \<open>\<open>side_index w i\<close> says which component of a conflict pair is the index of the looked-up side.\<close>

definition looked_up :: "bool \<Rightarrow> nat \<times> nat \<Rightarrow> nat" where
  "looked_up w pair = (if w then snd pair else fst pair)"

lemma looked_up_ordered [simp]: "looked_up w (get_ours_and_theirs_index_ordered w i j) = i"
  by (simp add: looked_up_def get_ours_and_theirs_index_ordered_def)

lemma report_unique_conflicts_parts:
  "run_tables (report_unique_conflicts w i entries run) = run_tables run"
  "run_invalid (report_unique_conflicts w i entries run) = run_invalid run"
  "matched (report_unique_conflicts w i entries run) = matched run"
  "extras side (report_unique_conflicts w i entries run) = extras side run"
  "conflicting (report_unique_conflicts w i entries run) =
     conflicting run \<union> (\<lambda>(j, _). get_ours_and_theirs_index_ordered w i j) ` set entries"
  unfolding report_unique_conflicts_def
  by (induction entries arbitrary: run) auto

text \<open>What the statement leaves alone besides the entry it met and its own bucket.\<close>

definition lookup_frame :: "row_run \<Rightarrow> row_run \<Rightarrow> bool" where
  "lookup_frame run run' \<longleftrightarrow> dom (map_of (run_tables run')) = dom (map_of (run_tables run)) \<and>
     run_invalid run' = run_invalid run \<and> set (matched run) \<subseteq> set (matched run') \<and>
     conflicting run \<subseteq> conflicting run'"

definition missed :: "bool \<Rightarrow> nat \<Rightarrow> row_run \<Rightarrow> row_run \<Rightarrow> bool" where
  "missed w i run run' \<longleftrightarrow> data_of run' = data_of run \<and> extras w run' = extras w run \<and>
     (extras (\<not> w) run' = extras (\<not> w) run @ [i] \<or>
      extras (\<not> w) run' = extras (\<not> w) run \<and> i \<in> looked_up w ` conflicting run')"

text \<open>The entry under the key is taken out; both statements are matched or in a conflict.\<close>

definition met :: "bool \<Rightarrow> nat \<Rightarrow> nat \<Rightarrow> bool \<Rightarrow> string \<times> key_tuple \<Rightarrow> row_run \<Rightarrow> row_run \<Rightarrow> bool" where
  "met w i j coherent tk run run' \<longleftrightarrow> data_of run' = (data_of run)(tk := None) \<and>
     (\<forall>side. extras side run' = extras side run) \<and>
     (coherent \<longrightarrow> (if w then j else i) \<in> set (matched run') \<or>
        get_ours_and_theirs_index_ordered w i j \<in> conflicting run')"

lemma pop_data_parts [simp]:
  "run_invalid (pop_data t st k run) = run_invalid run" "matched (pop_data t st k run) = matched run"
  "extras side (pop_data t st k run) = extras side run" "conflicting (pop_data t st k run) = conflicting run"
  "run_tables (pop_data t st k run) =
     dict_set t (st\<lparr>primary_key_value_to_data := dict_pop k (primary_key_value_to_data st)\<rparr>) (run_tables run)"
  by (simp_all add: pop_data_def)

lemma data_of_congr: "run_tables run' = run_tables run \<Longrightarrow> data_of run' = data_of run"
  by (simp add: data_of_def fun_eq_iff)

text \<open>The tables after the entry was taken out, whatever happened to the buckets.\<close>

lemma popped:
  assumes "tables_ok base run" "map_of (run_tables run) table = Some state"
    and "run_tables run' = run_tables (pop_data table state key run)"
  shows "tables_ok base run'" "data_of run' = (data_of run)((table, key) := None)"
    "dom (map_of (run_tables run')) = dom (map_of (run_tables run))"
proof -
  have "state_ok base table (state\<lparr>primary_key_value_to_data := dict_pop key (primary_key_value_to_data state)\<rparr>)"
    using tables_ok_state [OF assms(1,2)] by (auto simp: state_ok_def)
  then have "tables_ok base (pop_data table state key run)"
    unfolding pop_data_def by (rule tables_ok_put [OF assms(1)])
  then show "tables_ok base run'" using assms(3) by (simp add: tables_ok_def)
  show "data_of run' = (data_of run)((table, key) := None)"
    using data_of_pop [OF assms(2)] data_of_congr [OF assms(3)] by metis
  show "dom (map_of (run_tables run')) = dom (map_of (run_tables run))"
    using assms(2,3) by (auto split: if_splits)
qed

text \<open>A key the base has is updated or deleted by both sides, another one inserted by both.\<close>

definition coherent_types :: "expr_type \<Rightarrow> expr_type \<Rightarrow> bool" where
  "coherent_types t u \<longleftrightarrow> t \<noteq> Other_Expr \<and> (t = Insert_Expr) = (u = Insert_Expr)"

definition lookup_result ::
    "row_database \<Rightarrow> bool \<Rightarrow> nat \<Rightarrow> diff_statement \<Rightarrow> string \<times> key_tuple \<Rightarrow> row_run \<Rightarrow> row_run \<Rightarrow> bool" where
  "lookup_result base w i expr tk run run' \<longleftrightarrow> tables_ok base run' \<and> lookup_frame run run' \<and>
     (case data_of run tk of
        None \<Rightarrow> missed w i run run'
      | Some (j, t, _) \<Rightarrow> met w i j (coherent_types t (diff_type expr)) tk run run')"

lemma finish_parts [simp]:
  "run_tables (finish_lookup w i to_add entries run) = run_tables run"
  "run_invalid (finish_lookup w i to_add entries run) = run_invalid run"
  "matched (finish_lookup w i to_add entries run) = matched run"
  by (auto simp: finish_lookup_def report_unique_conflicts_parts)

text \<open>Filling buckets leaves the tables alone.\<close>

lemma bucket_tables:
  "data_of (add_extra side is run) = data_of run" "tables_ok base (add_extra side is run) = tables_ok base run"
  "data_of (add_to_res_match w i j run) = data_of run" "data_of (add_row_conflict w i j c run) = data_of run"
  "data_of (finish_lookup w i to_add entries run) = data_of run"
  "tables_ok base (finish_lookup w i to_add entries run) = tables_ok base run"
  by (simp_all add: data_of_def fun_eq_iff tables_ok_def)

lemma finish_buckets:
  "extras side (finish_lookup w i to_add [] run) = extras side run @ (if to_add \<and> side = (\<not> w) then [i] else [])"
  "entries \<noteq> [] \<Longrightarrow> extras side (finish_lookup w i to_add entries run) = extras side run"
  "extras side (finish_lookup w i False entries run) = extras side run"
  "entries \<noteq> [] \<Longrightarrow> i \<in> looked_up w ` conflicting (finish_lookup w i to_add entries run)"
proof -
  show "extras side (finish_lookup w i to_add [] run) = extras side run @ (if to_add \<and> side = (\<not> w) then [i] else [])"
    by (simp add: finish_lookup_def)
  show "entries \<noteq> [] \<Longrightarrow> extras side (finish_lookup w i to_add entries run) = extras side run"
    "extras side (finish_lookup w i False entries run) = extras side run"
    by (simp_all add: finish_lookup_def report_unique_conflicts_parts)
  show "i \<in> looked_up w ` conflicting (finish_lookup w i to_add entries run)" if entries: "entries \<noteq> []"
  proof -
    obtain j x where "(j, x) \<in> set entries" using entries by (cases entries) auto
    then have "get_ours_and_theirs_index_ordered w i j \<in> conflicting (finish_lookup w i to_add entries run)"
      using entries by (force simp: finish_lookup_def report_unique_conflicts_parts)
    then show ?thesis by (rule rev_image_eqI) simp
  qed
qed

lemma finish_conflicting: "conflicting run \<subseteq> conflicting (finish_lookup w i to_add entries run)"
  by (auto simp: finish_lookup_def report_unique_conflicts_parts)

lemma finish_missed:
  assumes "tables_ok base run" "data_of run tk = None"
  shows "lookup_result base w i expr tk run (finish_lookup w i True entries run)"
proof -
  have "missed w i run (finish_lookup w i True entries run)"
    using finish_buckets(4) [of entries i w True run]
    by (cases "entries = []") (simp_all add: missed_def bucket_tables finish_buckets)
  then show ?thesis
    using assms finish_conflicting [of run w i True entries] by (simp add: lookup_result_def lookup_frame_def bucket_tables)
qed

lemma finish_met:
  assumes "lookup_result base w i expr tk run run1" "data_of run tk = Some d"
  shows "lookup_result base w i expr tk run (finish_lookup w i False entries run1)"
proof -
  obtain j t stored where d: "d = (j, t, stored)" by (cases d)
  then show ?thesis
    using assms finish_conflicting [of run1 w i False entries]
    by (auto simp: lookup_result_def lookup_frame_def met_def bucket_tables finish_buckets(3))
qed

lemma entry_of:
  "map_of (run_tables run) table = Some state \<Longrightarrow>
     data_of run (table, key) = map_of (primary_key_value_to_data state) key"
  by (simp add: data_of_def)

text \<open>Taking out an entry after a match, after a conflict, or for nothing.\<close>

lemma pop_result:
  assumes "tables_ok base run" "map_of (run_tables run) table = Some state"
    and "data_of run (table, key) = Some (j, t, stored)" "run_tables run1 = run_tables run" "run_invalid run1 = run_invalid run"
    and "set (matched run) \<subseteq> set (matched run1)" "conflicting run \<subseteq> conflicting run1" "\<And>side. extras side run1 = extras side run"
    and "coherent_types t (diff_type expr) \<Longrightarrow> (if w then j else i) \<in> set (matched run1) \<or>
      get_ours_and_theirs_index_ordered w i j \<in> conflicting run1"
  shows "lookup_result base w i expr (table, key) run (pop_data table state key run1)"
proof -
  have "run_tables (pop_data table state key run1) = run_tables (pop_data table state key run)" using assms(4) by simp
  note p = popped [OF assms(1,2) this]
  show ?thesis using p assms(3,5-9) by (simp add: lookup_result_def lookup_frame_def met_def)
qed

lemma lookup_delete_result:
  assumes "tables_ok base run" "map_of (run_tables run) table = Some state" "diff_type expr = Delete_Expr"
  shows "lookup_result base w i expr (table, key) run (lookup_delete w i table state key run)"
proof (cases "data_of run (table, key)")
  case None
  have "lookup_delete w i table state key run = finish_lookup w i True [] run"
    using None by (simp add: lookup_delete_def entry_of [OF assms(2)] finish_lookup_def)
  then show ?thesis using finish_missed [OF assms(1) None] by metis
next
  case (Some d)
  obtain j t stored where d: "d = (j, t, stored)" by (cases d)
  let ?run1 = "if t = Delete_Expr then add_to_res_match w i j run
     else if t = Update_Expr then add_row_conflict w i j Primary_Key_Conflict run else run"
  have "lookup_delete w i table state key run = pop_data table state key ?run1"
    using Some d by (simp add: lookup_delete_def entry_of [OF assms(2)])
  moreover have "coherent_types t Delete_Expr \<Longrightarrow> t = Delete_Expr \<or> t = Update_Expr"
    by (cases t) (auto simp: coherent_types_def)
  ultimately show ?thesis
    using assms(3) by (auto intro!: pop_result [OF assms(1,2) Some [unfolded d]])
qed

text \<open>Before the unique indexes are checked: \<open>None\<close> is final, otherwise the flag says whether the key was missing.\<close>

definition met_before ::
    "row_database \<Rightarrow> bool \<Rightarrow> nat \<Rightarrow> diff_statement \<Rightarrow> string \<times> key_tuple \<Rightarrow> row_run \<Rightarrow> bool option \<Rightarrow> row_run \<Rightarrow> bool" where
  "met_before base w i expr tk run outcome run1 \<longleftrightarrow>
     (case outcome of
        None \<Rightarrow> lookup_result base w i expr tk run run1
      | Some True \<Rightarrow> run1 = run \<and> data_of run tk = None
      | Some False \<Rightarrow> lookup_result base w i expr tk run run1 \<and> data_of run tk \<noteq> None)"

lemma finish_met_before:
  assumes "tables_ok base run" "met_before base w i expr tk run (Some to_add) run1"
  shows "lookup_result base w i expr tk run (finish_lookup w i to_add entries run1)"
proof (cases to_add)
  case True
  then show ?thesis using assms finish_missed [OF assms(1)] by (simp add: met_before_def)
next
  case False
  then obtain d where "lookup_result base w i expr tk run run1" "data_of run tk = Some d"
    using assms(2) by (auto simp: met_before_def)
  from finish_met [OF this] False show ?thesis by simp
qed

lemma lookup_insert_result:
  assumes "tables_ok base run" "map_of (run_tables run) table = Some state" "diff_type expr = Insert_Expr"
    and "lookup_insert w i table state key literals run = Inr (outcome, run1)"
  shows "met_before base w i expr (table, key) run outcome run1"
proof (cases "data_of run (table, key)")
  case None
  moreover have "map_of (primary_key_value_to_data state) key = None" using None by (simp add: entry_of [OF assms(2)])
  ultimately show ?thesis using assms(4) by (auto simp: lookup_insert_def met_before_def)
next
  case (Some d)
  obtain j t stored where d: "d = (j, t, stored)" by (cases d)
  let ?run1 = "if same_literals stored literals then add_to_res_match w i j run
     else add_row_conflict w i j Primary_Key_Conflict run"
  have "run1 = pop_data table state key ?run1" "outcome = (if same_literals stored literals then None else Some False)"
    using Some d assms(4) by (auto simp: lookup_insert_def entry_of [OF assms(2)] split: if_splits)
  moreover have "lookup_result base w i expr (table, key) run (pop_data table state key ?run1)"
    by (auto intro!: pop_result [OF assms(1,2) Some [unfolded d]])
  ultimately show ?thesis using Some by (cases "same_literals stored literals") (simp_all add: met_before_def)
qed

lemma lookup_update_result:
  assumes "tables_ok base run" "map_of (run_tables run) table = Some state" "diff_type expr = Update_Expr"
    and "lookup_update w i table state key literals run = (outcome, run1)"
  shows "met_before base w i expr (table, key) run outcome run1"
proof (cases "data_of run (table, key)")
  case None
  moreover have "map_of (primary_key_value_to_data state) key = None" using None by (simp add: entry_of [OF assms(2)])
  ultimately show ?thesis using assms(4) by (auto simp: lookup_update_def met_before_def)
next
  case (Some d)
  obtain j t stored where d: "d = (j, t, stored)" by (cases d)
  let ?match = "t = Update_Expr \<and> same_literals stored literals"
  let ?run1 = "if ?match then add_to_res_match w i j run
     else if t = Delete_Expr \<or> t = Update_Expr then add_row_conflict w i j Primary_Key_Conflict run else run"
  have "run1 = pop_data table state key ?run1" "outcome = (if ?match then None else Some False)"
    using Some d assms(4) by (auto simp: lookup_update_def entry_of [OF assms(2)] split: if_splits)
  moreover have "coherent_types t Update_Expr \<Longrightarrow> t = Delete_Expr \<or> t = Update_Expr"
    by (cases t) (auto simp: coherent_types_def)
  then have "lookup_result base w i expr (table, key) run (pop_data table state key ?run1)"
    using assms(3) by (auto intro!: pop_result [OF assms(1,2) Some [unfolded d]])
  ultimately show ?thesis using Some by (cases ?match) (simp_all add: met_before_def)
qed

lemma lookup_result_congr:
  assumes "run_tables run1 = run_tables run" "run_buckets run1 = run_buckets run" "run_invalid run1 = run_invalid run"
  shows "lookup_result base w i expr tk run1 run' = lookup_result base w i expr tk run run'"
    "lookup_result base w i expr tk run' run1 = lookup_result base w i expr tk run' run"
  using assms unchanged_parts [OF assms(1,2)]
  by (simp_all add: lookup_result_def lookup_frame_def missed_def met_def split: option.splits)

lemma lookup_statement_step:
  assumes "lookup_statement base lookup links w i expr run = Inr run'" "tables_ok base run"
  obtains table where "get_target_table expr = Inr table"
    "if map_of (run_invalid run) table \<noteq> None then run' = record_invalid table i w False run
     else if map_of (run_tables run) table = None then run' = add_extra (\<not> w) [i] run
     else \<exists>key. statement_key base expr = Some (table, key) \<and> lookup_result base w i expr (table, key) run run'"
proof -
  obtain table where table: "get_target_table expr = Inr table"
    using assms(1) by (auto simp: lookup_statement_def result_bind_Inr)
  have "\<exists>key. statement_key base expr = Some (table, key) \<and> lookup_result base w i expr (table, key) run run'"
    if valid: "map_of (run_invalid run) table = None" and state: "map_of (run_tables run) table = Some state" for state
  proof -
    have columns: "primary_key_columns_to_index state = table_primary_keys table base"
      using tables_ok_state [OF assms(2) state] by (simp add: state_ok_def)
    note run = assms(1) [unfolded lookup_statement_def table result_bind_simps, simplified valid state, simplified, unfolded columns]
    obtain kv where kv: "get_primary_key_values_from_where (table_primary_keys table base) expr = Inr kv"
      using run by (cases "get_primary_key_values_from_where (table_primary_keys table base) expr") simp_all
    note key = statement_key_cases [OF table kv]
    show ?thesis
    proof (cases "diff_type expr")
      case Delete_Expr
      then obtain k run1 where k: "required_key kv = Inr k" "remove_parent_row base links (\<not> w) table i expr run = Inr run1"
          "run' = lookup_delete w i table state k run1"
        using run kv by (auto simp: result_bind_Inr)
      note same = parent_row_parts(1) [OF k(2)]
      then have "tables_ok base run1" "map_of (run_tables run1) table = Some state"
        using assms(2) state by (simp_all add: tables_ok_def)
      from lookup_delete_result [OF this Delete_Expr, of w i k] have "lookup_result base w i expr (table, k) run run'"
        using k(3) same lookup_result_congr(1) [of run1 run base w i expr "(table, k)" run'] by simp
      then show ?thesis using key(1) [OF _ k(1)] Delete_Expr by simp
    next
      case Insert_Expr
      note step = run [unfolded kv result_bind_simps Insert_Expr expr_type.case]
      then obtain row where row: "single_row expr = Inr row" by (cases "single_row expr") simp_all
      obtain k ls where k: "get_key_values_and_column_to_literal_insert row (insert_columns expr) (table_primary_keys table base) = Inr (k, ls)"
        using step row by (cases "get_key_values_and_column_to_literal_insert row (insert_columns expr) (table_primary_keys table base)") auto
      obtain outcome run1 where met: "lookup_insert w i table state k ls run = Inr (outcome, run1)"
        using step row k by (cases "lookup_insert w i table state k ls run") auto
      have rest: "outcome = None \<and> run' = run1 \<or> (\<exists>to_add entries. outcome = Some to_add \<and> run' = finish_lookup w i to_add entries run1)"
        using step row k met by (cases outcome) (auto simp: result_bind_Inr)
      from lookup_insert_result [OF assms(2) state Insert_Expr met] rest
      have "lookup_result base w i expr (table, k) run run'"
        using finish_met_before [OF assms(2)] by (auto simp: met_before_def)
      then show ?thesis using key(2) [OF _ row k] Insert_Expr by simp
    next
      case Update_Expr
      then obtain k where k: "required_key kv = Inr k" using run kv by (auto simp: result_bind_Inr)
      obtain outcome run1 where met: "lookup_update w i table state k (update_literals expr) run = (outcome, run1)" by fastforce
      note before = lookup_update_result [OF assms(2) state Update_Expr met]
      have "lookup_result base w i expr (table, k) run run'"
      proof (cases outcome)
        case None
        then show ?thesis using run kv k met before Update_Expr by (simp add: met_before_def)
      next
        case (Some to_add)
        obtain entries where "run_tables run' = run_tables (finish_lookup w i to_add entries run1) \<and>
            run_buckets run' = run_buckets (finish_lookup w i to_add entries run1) \<and>
            run_invalid run' = run_invalid (finish_lookup w i to_add entries run1)"
          using run kv k met Update_Expr Some by (auto simp: result_bind_Inr dest!: parent_row_parts(2) split: if_splits)
        then show ?thesis
          using finish_met_before [OF assms(2) before [unfolded Some]] lookup_result_congr(2) by metis
      qed
      then show ?thesis using key(1) [OF _ k] Update_Expr by simp
    qed (use target_type [OF table] in simp)
  qed
  then show thesis
    using that [OF table] assms(1)
    by (cases "map_of (run_invalid run) table"; cases "map_of (run_tables run) table") (simp_all add: lookup_statement_def table)
qed

section \<open>The passes\<close>

lemma for_statements_invariant:
  assumes "for_statements f xs run = Inr run'" "I [] run"
    and "\<And>before i e after r r'. xs = before @ (i, e) # after \<Longrightarrow> I before r \<Longrightarrow> f i e r = Inr r' \<Longrightarrow> I (before @ [(i, e)]) r'"
  shows "I xs run'"
proof -
  have "for_statements f ys r = Inr run' \<Longrightarrow> xs = before @ ys \<Longrightarrow> I before r \<Longrightarrow> I xs run'" for ys before r
  proof (induction ys arbitrary: before r)
    case (Cons ie ys)
    obtain i e where ie: "ie = (i, e)" by (cases ie)
    then obtain r1 where r1: "f i e r = Inr r1" "for_statements f ys r1 = Inr run'"
      using Cons.prems(1) by (auto simp: result_bind_Inr)
    show ?case
      using Cons.IH [OF r1(2), of "before @ [(i, e)]"] assms(3) [OF _ Cons.prems(3) r1(1)] Cons.prems(2) ie by simp
  qed simp
  from this [OF assms(1), of "[]"] assms(2) show ?thesis by simp
qed

definition valid_target :: "(string, invalid_table_state) dict \<Rightarrow> diff_statement \<Rightarrow> bool" where
  "valid_target invalid_tables expr \<longleftrightarrow>
     (\<forall>table. get_target_table expr = Inr table \<longrightarrow> map_of invalid_tables table = None)"

definition same_invalid :: "(string, invalid_table_state) dict \<Rightarrow> row_run \<Rightarrow> bool" where
  "same_invalid invalid_tables run \<longleftrightarrow>
     dom (map_of (run_invalid run)) = dom (map_of invalid_tables)"

lemma dom_dict_set: "dom (map_of (dict_set k v d)) = insert k (dom (map_of d))"
  by (auto split: if_splits)

lemma record_invalid_set: "\<exists>st. record_invalid t i w b run = run\<lparr>run_invalid := dict_set t st (run_invalid run)\<rparr>"
  by (auto simp: record_invalid_def Let_def)

lemma record_invalid_parts:
  "run_tables (record_invalid t i w b run) = run_tables run" "run_buckets (record_invalid t i w b run) = run_buckets run"
  "map_of (run_invalid run) t \<noteq> None \<Longrightarrow> same_invalid invalid_tables run \<Longrightarrow> same_invalid invalid_tables (record_invalid t i w b run)"
proof -
  obtain st where st: "record_invalid t i w b run = run\<lparr>run_invalid := dict_set t st (run_invalid run)\<rparr>"
    using record_invalid_set by blast
  show "run_tables (record_invalid t i w b run) = run_tables run" "run_buckets (record_invalid t i w b run) = run_buckets run"
    by (simp_all add: st)
  show "same_invalid invalid_tables (record_invalid t i w b run)"
    if "map_of (run_invalid run) t \<noteq> None" "same_invalid invalid_tables run"
  proof -
    have "t \<in> dom (map_of (run_invalid run))" using that(1) by (simp add: domIff)
    then show ?thesis using that(2) by (simp only: st same_invalid_def) (simp add: dom_dict_set insert_absorb)
  qed
qed

lemma same_invalid_iff: "same_invalid invalid_tables run \<Longrightarrow> map_of (run_invalid run) t = None \<longleftrightarrow> map_of invalid_tables t = None"
  by (auto simp: same_invalid_def domIff dest: equalityD1 equalityD2)

lemma statement_key_table: "statement_key base expr = Some (table, key) \<Longrightarrow> get_target_table expr = Inr table"
  by (auto simp: statement_key_def Let_def split: sum.splits if_splits option.splits)

text \<open>The entries after the statements \<open>before\<close> were stored; all of them, if their keys differ.\<close>

definition stored_sound :: "row_database \<Rightarrow> (nat \<times> diff_statement) list \<Rightarrow> row_run \<Rightarrow> bool" where
  "stored_sound base before run \<longleftrightarrow>
     (\<forall>tk j t stored. data_of run tk = Some (j, t, stored) \<longrightarrow>
        (\<exists>e. (j, e) \<in> set before \<and> statement_key base e = Some tk \<and> t = diff_type e \<and> t \<noteq> Other_Expr))"

definition stored_complete ::
    "row_database \<Rightarrow> (string, invalid_table_state) dict \<Rightarrow> (nat \<times> diff_statement) list \<Rightarrow> row_run \<Rightarrow> bool" where
  "stored_complete base invalid_tables before run \<longleftrightarrow>
     (distinct (map (statement_key base \<circ> snd) before) \<longrightarrow>
        (\<forall>j e. (j, e) \<in> set before \<longrightarrow> valid_target invalid_tables e \<longrightarrow>
          (\<exists>tk stored. statement_key base e = Some tk \<and> data_of run tk = Some (j, diff_type e, stored))))"

definition built :: "row_database \<Rightarrow> (string, invalid_table_state) dict \<Rightarrow> (nat \<times> diff_statement) list \<Rightarrow> row_run \<Rightarrow> bool" where
  "built base invalid_tables before run \<longleftrightarrow> tables_ok base run \<and> run_buckets run = empty_buckets \<and>
     same_invalid invalid_tables run \<and> stored_sound base before run \<and> stored_complete base invalid_tables before run"

lemma built_step:
  assumes "built base invalid_tables before run" "build_statement base build links w i e run = Inr run'"
  shows "built base invalid_tables (before @ [(i, e)]) run'"
proof -
  have run: "tables_ok base run" "run_buckets run = empty_buckets" "same_invalid invalid_tables run"
    using assms(1) by (simp_all add: built_def)
  obtain table where table: "get_target_table e = Inr table"
    and step: "if map_of (run_invalid run) table \<noteq> None then run' = record_invalid table i w True run
      else stored_statement base i e table run run'"
    using build_statement_step [OF assms(2) run(1)] by blast
  show ?thesis
  proof (cases "map_of (run_invalid run) table = None")
    case False
    then have eq: "run' = record_invalid table i w True run" using step by simp
    then have "data_of run' = data_of run" "tables_ok base run'" "run_buckets run' = empty_buckets"
      using run(1,2) unchanged_parts(1,2) [of run' run] by (simp_all add: record_invalid_parts)
    moreover have "\<not> valid_target invalid_tables e"
      using False run(3) table by (auto simp: valid_target_def same_invalid_iff)
    moreover have "same_invalid invalid_tables run'"
      using eq False run(3) by (simp add: record_invalid_parts)
    moreover have "stored_sound base before run" "stored_complete base invalid_tables before run"
      using assms(1) by (simp_all add: built_def)
    then have "stored_sound base (before @ [(i, e)]) run'"
      unfolding stored_sound_def \<open>data_of run' = data_of run\<close> set_append by blast
    moreover have "stored_complete base invalid_tables (before @ [(i, e)]) run'"
      using \<open>stored_complete base invalid_tables before run\<close> \<open>data_of run' = data_of run\<close>
        \<open>\<not> valid_target invalid_tables e\<close>
      by (simp add: stored_complete_def)
    ultimately show ?thesis by (simp add: built_def)
  next
    case True
    then obtain key literals where stored: "tables_ok base run'" "run_buckets run' = run_buckets run" "run_invalid run' = run_invalid run"
        "statement_key base e = Some (table, key)" "data_of run' = (data_of run)((table, key) \<mapsto> (i, diff_type e, literals))"
      using step by (auto simp: stored_statement_def)
    have "stored_sound base (before @ [(i, e)]) run'"
      unfolding stored_sound_def
    proof (intro allI impI)
      fix tk j t st
      assume d: "data_of run' tk = Some (j, t, st)"
      show "\<exists>x. (j, x) \<in> set (before @ [(i, e)]) \<and> statement_key base x = Some tk \<and> t = diff_type x \<and> t \<noteq> Other_Expr"
      proof (cases "tk = (table, key)")
        case True
        then show ?thesis using d stored(4,5) target_type [OF table] by auto
      next
        case False
        then have "data_of run tk = Some (j, t, st)" using d stored(5) by simp
        then show ?thesis using assms(1) unfolding built_def stored_sound_def set_append by blast
      qed
    qed
    moreover have "stored_complete base invalid_tables (before @ [(i, e)]) run'"
      unfolding stored_complete_def
    proof (intro impI allI)
      fix j x
      assume x: "distinct (map (statement_key base \<circ> snd) (before @ [(i, e)]))" "(j, x) \<in> set (before @ [(i, e)])"
        "valid_target invalid_tables x"
      show "\<exists>tk st. statement_key base x = Some tk \<and> data_of run' tk = Some (j, diff_type x, st)"
      proof (cases "(j, x) \<in> set before")
        case True
        then obtain tk st where tk: "statement_key base x = Some tk" "data_of run tk = Some (j, diff_type x, st)"
          using assms(1) x(1,3) unfolding built_def stored_complete_def map_append distinct_append by blast
        have "statement_key base x \<noteq> statement_key base e" using x(1) True by force
        then show ?thesis using tk stored(4,5) by simp
      next
        case False
        then show ?thesis using x(2) stored(4,5) by simp
      qed
    qed
    ultimately show ?thesis using run(2,3) stored(1-3) by (simp add: built_def same_invalid_def)
  qed
qed

text \<open>
  After the statements \<open>before\<close> were looked up in what the build pass left: what remains in the
  tables, what happened to the rest, and where the statements went.
\<close>

definition pair_of :: "bool \<Rightarrow> nat \<Rightarrow> nat \<Rightarrow> nat \<times> nat" where
  "pair_of w i j = (if w then (j, i) else (i, j))"

definition gone :: "bool \<Rightarrow> row_database \<Rightarrow> (nat \<times> diff_statement) list \<Rightarrow> nat \<Rightarrow> string \<times> key_tuple \<Rightarrow> row_run \<Rightarrow> bool" where
  "gone w base before j tk run \<longleftrightarrow>
     (\<exists>i e. (i, e) \<in> set before \<and> statement_key base e = Some tk \<and>
        ((if w then j else i) \<in> set (matched run) \<or> pair_of w i j \<in> conflicting run))"

definition placed ::
    "bool \<Rightarrow> row_database \<Rightarrow> row_run \<Rightarrow> nat \<Rightarrow> diff_statement \<Rightarrow> row_run \<Rightarrow> bool" where
  "placed w base start i e run \<longleftrightarrow> i \<in> set (extras (\<not> w) run) \<or> i \<in> looked_up w ` conflicting run \<or>
     (\<exists>tk j t stored. statement_key base e = Some tk \<and> data_of start tk = Some (j, t, stored) \<and>
        (if w then j else i) \<in> set (matched run))"

definition coherent_with :: "row_database \<Rightarrow> row_run \<Rightarrow> diff_statement \<Rightarrow> bool" where
  "coherent_with base start e \<longleftrightarrow>
     (\<forall>tk j t stored. statement_key base e = Some tk \<longrightarrow> data_of start tk = Some (j, t, stored) \<longrightarrow>
        coherent_types t (diff_type e))"

text \<open>No statement that was let through has a key that is still in the tables.\<close>

definition no_collision :: "bool \<Rightarrow> row_database \<Rightarrow> (nat \<times> diff_statement) list \<Rightarrow> row_run \<Rightarrow> bool" where
  "no_collision w base before run \<longleftrightarrow>
     (\<forall>i \<in> set (extras (\<not> w) run). \<exists>e. (i, e) \<in> set before \<and>
        (\<forall>tk. statement_key base e = Some tk \<longrightarrow> data_of run tk = None))"

definition accounted ::
    "bool \<Rightarrow> row_database \<Rightarrow> (string, invalid_table_state) dict \<Rightarrow> row_run \<Rightarrow> (nat \<times> diff_statement) list \<Rightarrow> row_run \<Rightarrow> bool" where
  "accounted w base invalid_tables start before run \<longleftrightarrow>
     (\<forall>i e. (i, e) \<in> set before \<longrightarrow> valid_target invalid_tables e \<longrightarrow> placed w base start i e run) \<and>
     (\<forall>tk j t stored. data_of start tk = Some (j, t, stored) \<longrightarrow>
        data_of run tk = Some (j, t, stored) \<or> gone w base before j tk run)"

definition looked_through ::
    "bool \<Rightarrow> row_database \<Rightarrow> (string, invalid_table_state) dict \<Rightarrow> row_run \<Rightarrow> (nat \<times> diff_statement) list \<Rightarrow> row_run \<Rightarrow> bool" where
  "looked_through w base invalid_tables start before run \<longleftrightarrow> tables_ok base run \<and> same_invalid invalid_tables run \<and>
     data_of run \<subseteq>\<^sub>m data_of start \<and> extras w run = [] \<and> no_collision w base before run \<and>
     ((\<forall>(i, e) \<in> set before. coherent_with base start e) \<longrightarrow> accounted w base invalid_tables start before run)"

lemma placed_mono:
  assumes "placed w base start i e run" "set (extras (\<not> w) run) \<subseteq> set (extras (\<not> w) run')"
    "set (matched run) \<subseteq> set (matched run')" "conflicting run \<subseteq> conflicting run'"
  shows "placed w base start i e run'"
  using assms unfolding placed_def by blast

lemma gone_mono:
  assumes "gone w base before j tk run" "set before \<subseteq> set before'"
    "set (matched run) \<subseteq> set (matched run')" "conflicting run \<subseteq> conflicting run'"
  shows "gone w base before' j tk run'"
  using assms unfolding gone_def by blast

lemma no_collision_step:
  assumes "no_collision w base before run" "data_of run' \<subseteq>\<^sub>m data_of run"
    and "extras (\<not> w) run' = extras (\<not> w) run \<or> extras (\<not> w) run' = extras (\<not> w) run @ [i] \<and>
      (\<forall>tk. statement_key base e = Some tk \<longrightarrow> data_of run' tk = None)"
  shows "no_collision w base (before @ [(i, e)]) run'"
proof -
  have less: "data_of run tk = None \<Longrightarrow> data_of run' tk = None" for tk
    using assms(2) by (metis domIff map_le_implies_dom_le subsetD)
  show ?thesis
    unfolding no_collision_def
  proof
    fix k assume k: "k \<in> set (extras (\<not> w) run')"
    show "\<exists>x. (k, x) \<in> set (before @ [(i, e)]) \<and> (\<forall>tk. statement_key base x = Some tk \<longrightarrow> data_of run' tk = None)"
    proof (cases "k \<in> set (extras (\<not> w) run)")
      case True
      then show ?thesis using assms(1) less unfolding no_collision_def set_append by blast
    next
      case False
      then have "k = i" "\<forall>tk. statement_key base e = Some tk \<longrightarrow> data_of run' tk = None" using assms(3) k by auto
      then show ?thesis by auto
    qed
  qed
qed

lemma accounted_step:
  assumes "accounted w base invalid_tables start before run" "valid_target invalid_tables e \<Longrightarrow> placed w base start i e run'"
    and "set (extras (\<not> w) run) \<subseteq> set (extras (\<not> w) run')" "set (matched run) \<subseteq> set (matched run')"
      "conflicting run \<subseteq> conflicting run'"
    and "\<And>tk d. data_of run tk = Some d \<Longrightarrow> data_of run' tk = Some d \<or> gone w base (before @ [(i, e)]) (fst d) tk run'"
  shows "accounted w base invalid_tables start (before @ [(i, e)]) run'"
  unfolding accounted_def
proof (intro conjI allI impI)
  fix k x assume "(k, x) \<in> set (before @ [(i, e)])" "valid_target invalid_tables x"
  then show "placed w base start k x run'"
    using assms(1,2) placed_mono [OF _ assms(3-5)] by (auto simp: accounted_def)
next
  fix tk j t st assume "data_of start tk = Some (j, t, st)"
  then consider "data_of run tk = Some (j, t, st)" | "gone w base before j tk run"
    using assms(1) unfolding accounted_def by blast
  then show "data_of run' tk = Some (j, t, st) \<or> gone w base (before @ [(i, e)]) j tk run'"
  proof cases
    case 1
    then show ?thesis using assms(6) [OF 1] by simp
  next
    case 2
    then have "gone w base (before @ [(i, e)]) j tk run'" by (rule gone_mono [OF _ _ assms(4,5)]) auto
    then show ?thesis by blast
  qed
qed

lemma looked_through_step:
  assumes "looked_through w base invalid_tables start before run"
    and "lookup_statement base lookup links w i e run = Inr run'"
  shows "looked_through w base invalid_tables start (before @ [(i, e)]) run'"
proof -
  have run: "tables_ok base run" "same_invalid invalid_tables run" "data_of run \<subseteq>\<^sub>m data_of start" "extras w run = []"
      "no_collision w base before run"
    and accounts: "(\<forall>(i, e) \<in> set before. coherent_with base start e) \<Longrightarrow> accounted w base invalid_tables start before run"
    using assms(1) by (simp_all add: looked_through_def)
  obtain table where table: "get_target_table e = Inr table"
    and step: "if map_of (run_invalid run) table \<noteq> None then run' = record_invalid table i w False run
      else if map_of (run_tables run) table = None then run' = add_extra (\<not> w) [i] run
      else \<exists>key. statement_key base e = Some (table, key) \<and> lookup_result base w i e (table, key) run run'"
    using lookup_statement_step [OF assms(2) run(1)] by blast
  consider (invalid) "map_of (run_invalid run) table \<noteq> None" "run' = record_invalid table i w False run"
    | (unknown) "map_of (run_tables run) table = None" "run' = add_extra (\<not> w) [i] run"
    | (known) key where "statement_key base e = Some (table, key)" "lookup_result base w i e (table, key) run run'"
    using step by (metis (no_types))
  then show ?thesis
  proof cases
    case invalid
    have same: "run_tables run' = run_tables run" "run_buckets run' = run_buckets run"
      using invalid(2) by (simp_all add: record_invalid_parts)
    note u = unchanged_parts [OF same]
    have "\<not> valid_target invalid_tables e" using invalid(1) run(2) table by (simp add: valid_target_def same_invalid_iff)
    moreover have "no_collision w base (before @ [(i, e)]) run'"
      by (rule no_collision_step [OF run(5)]) (simp_all add: u)
    moreover have "same_invalid invalid_tables run'" using invalid run(2) by (simp add: record_invalid_parts)
    ultimately show ?thesis
      using run(1,3,4) same(1) accounted_step [OF accounts, of e i run'] unfolding looked_through_def u by simp
  next
    case unknown
    have parts: "data_of run' = data_of run" "tables_ok base run'" "run_tables run' = run_tables run"
        "extras w run' = []" "extras (\<not> w) run' = extras (\<not> w) run @ [i]"
      using unknown(2) run(1,4) by (simp_all add: bucket_tables)
    have none: "data_of run' tk = None" if "statement_key base e = Some tk" for tk
      using that unknown(1) parts(1) statement_key_table [of base e "fst tk" "snd tk"] table by (simp add: data_of_def)
    have "no_collision w base (before @ [(i, e)]) run'"
      by (rule no_collision_step [OF run(5)]) (use none parts in auto)
    moreover have placed: "placed w base start i e run'" by (simp add: placed_def parts(5))
    have "accounted w base invalid_tables start (before @ [(i, e)]) run'"
      if "\<forall>(i, e) \<in> set (before @ [(i, e)]). coherent_with base start e"
      by (rule accounted_step [OF accounts]) (use that parts placed unknown(2) in auto)
    moreover have "same_invalid invalid_tables run'" using run(2) unknown(2) by (simp add: same_invalid_def)
    ultimately show ?thesis using run(3) parts unfolding looked_through_def by simp
  next
    case known
    have frame: "tables_ok base run'" "dom (map_of (run_tables run')) = dom (map_of (run_tables run))" "run_invalid run' = run_invalid run"
        "set (matched run) \<subseteq> set (matched run')" "conflicting run \<subseteq> conflicting run'"
      using known(2) by (simp_all add: lookup_result_def lookup_frame_def)
    have invalid': "same_invalid invalid_tables run'" using run(2) frame(3) by (simp add: same_invalid_def)
    show ?thesis
    proof (cases "data_of run (table, key)")
      case None
      then have m: "data_of run' = data_of run" "extras w run' = extras w run"
          "extras (\<not> w) run' = extras (\<not> w) run @ [i] \<or>
           extras (\<not> w) run' = extras (\<not> w) run \<and> i \<in> looked_up w ` conflicting run'"
        using known(2) by (simp_all add: lookup_result_def missed_def)
      have "no_collision w base (before @ [(i, e)]) run'"
        by (rule no_collision_step [OF run(5)]) (use m None known(1) in auto)
      moreover have "placed w base start i e run'" using m(3) by (auto simp: placed_def)
      moreover have "set (extras (\<not> w) run) \<subseteq> set (extras (\<not> w) run')" using m(3) by auto
      ultimately show ?thesis
        using run m frame invalid' accounted_step [OF accounts, of e i run'] unfolding looked_through_def by simp
    next
      case (Some d)
      obtain j t st where d: "d = (j, t, st)" by (cases d)
      then have m: "data_of run' = (data_of run)((table, key) := None)" "\<And>side. extras side run' = extras side run"
          "coherent_types t (diff_type e) \<Longrightarrow> (if w then j else i) \<in> set (matched run') \<or> pair_of w i j \<in> conflicting run'"
        using known(2) Some
        by (simp_all add: lookup_result_def met_def pair_of_def get_ours_and_theirs_index_ordered_def)
      have less: "data_of run' \<subseteq>\<^sub>m data_of run" using m(1) by (simp add: map_le_def)
      have start: "data_of start (table, key) = Some (j, t, st)"
        using run(3) Some d by (metis domI map_le_def)
      have "no_collision w base (before @ [(i, e)]) run'"
        by (rule no_collision_step [OF run(5) less]) (simp add: m(2))
      moreover have "accounted w base invalid_tables start (before @ [(i, e)]) run'"
        if "\<forall>(i, e) \<in> set (before @ [(i, e)]). coherent_with base start e"
      proof (rule accounted_step [OF accounts])
        have hit: "(if w then j else i) \<in> set (matched run') \<or> pair_of w i j \<in> conflicting run'"
          using that m(3) known(1) start by (auto simp: coherent_with_def)
        have "looked_up w (pair_of w i j) = i" by (simp add: looked_up_def pair_of_def)
        then show "placed w base start i e run'"
          using hit known(1) start unfolding placed_def by (metis image_eqI)
        have taken: "gone w base (before @ [(i, e)]) j (table, key) run'"
          unfolding gone_def using hit known(1) by (intro exI [of _ i] exI [of _ e]) simp
        show "data_of run' tk = Some x \<or> gone w base (before @ [(i, e)]) (fst x) tk run'"
          if "data_of run tk = Some x" for tk x
          using that Some d m(1) taken by (cases "tk = (table, key)") auto
      qed (use that m(2) frame in auto)
      ultimately show ?thesis
        using run m(2) frame invalid' map_le_trans [OF less] unfolding looked_through_def by simp
    qed
  qed
qed

section \<open>Both passes\<close>

definition builds_ours :: "diff_statement list \<Rightarrow> diff_statement list \<Rightarrow> bool" where
  "builds_ours base_to_ours base_to_theirs \<longleftrightarrow> length base_to_ours \<le> length base_to_theirs"

lemma passes:
  assumes "check_conflict_and_return_diffs base_to_ours base_to_theirs invalid_tables links base ours theirs = Inr run"
  defines "w \<equiv> builds_ours base_to_ours base_to_theirs"
  obtains start finish where
    "built base invalid_tables (enumerate 0 (if w then base_to_ours else base_to_theirs)) start"
    "looked_through w base invalid_tables start (enumerate 0 (if w then base_to_theirs else base_to_ours)) finish"
    "run = add_extra w (remaining_entries finish) finish"
proof -
  let ?start = "\<lparr>run_tables = [], run_invalid = invalid_tables, run_foreign = [], run_buckets = empty_buckets\<rparr>"
  let ?build = "if w then base_to_ours else base_to_theirs" and ?lookup = "if w then base_to_theirs else base_to_ours"
  obtain start finish where passes:
      "for_statements (build_statement base (if w then ours else theirs) links w) (enumerate 0 ?build) ?start = Inr start"
      "for_statements (lookup_statement base (if w then theirs else ours) links w) (enumerate 0 ?lookup) start = Inr finish"
      "run = add_extra w (remaining_entries finish) finish"
    using assms by (auto simp: check_conflict_and_return_diffs_def builds_ours_def Let_def result_bind_Inr split: if_splits)
  have "built base invalid_tables [] ?start"
    by (simp add: built_def tables_ok_def same_invalid_def stored_sound_def stored_complete_def data_of_def)
  then have start: "built base invalid_tables (enumerate 0 ?build) start"
    by (rule for_statements_invariant [OF passes(1)]) (rule built_step)
  then have "looked_through w base invalid_tables start [] start"
    by (auto simp: built_def looked_through_def no_collision_def accounted_def bucket_defs empty_buckets_def)
  then have "looked_through w base invalid_tables start (enumerate 0 ?lookup) finish"
    by (rule for_statements_invariant [OF passes(2)]) (rule looked_through_step)
  then show thesis using that [OF start _ passes(3)] by blast
qed

lemma remaining_entries_iff:
  assumes "tables_ok base run"
  shows "j \<in> set (remaining_entries run) \<longleftrightarrow> (\<exists>tk t stored. data_of run tk = Some (j, t, stored))"
proof -
  have ok: "dict_ok (run_tables run)" "\<And>table state. map_of (run_tables run) table = Some state \<Longrightarrow> dict_ok (primary_key_value_to_data state)"
    using assms by (auto simp: tables_ok_def state_ok_def)
  have "j \<in> set (remaining_entries run) \<longleftrightarrow>
      (\<exists>table state key t stored. (table, state) \<in> set (run_tables run) \<and>
         (key, j, t, stored) \<in> set (primary_key_value_to_data state))"
    by (force simp: remaining_entries_def)
  also have "\<dots> \<longleftrightarrow> (\<exists>table state key t stored. map_of (run_tables run) table = Some state \<and>
      map_of (primary_key_value_to_data state) key = Some (j, t, stored))"
    using dict_items_lookup [OF ok(1)] dict_items_lookup [OF ok(2)] by metis
  also have "\<dots> \<longleftrightarrow> (\<exists>table key t stored. data_of run (table, key) = Some (j, t, stored))"
    by (auto simp: data_of_def split: option.splits) (metis option.distinct(1) option.inject)+
  finally show ?thesis by auto
qed

section \<open>Properties\<close>

text \<open>
  C17. What is applied of both branches never touches the same row: no statement that is taken
  over from ours only and no statement taken over from theirs only have the same table and
  primary key, whatever the order and number of statements on either side.
\<close>

theorem applied_rows_disjoint:
  assumes "check_conflict_and_return_diffs base_to_ours base_to_theirs invalid_tables links base ours theirs = Inr run"
    and "i \<in> set (extra_ours_indices (run_buckets run))" "j \<in> set (extra_theirs_indices (run_buckets run))"
    and "statement_key base (base_to_ours ! i) = Some tk"
  shows "statement_key base (base_to_theirs ! j) \<noteq> Some tk"
proof
  assume same: "statement_key base (base_to_theirs ! j) = Some tk"
  let ?w = "builds_ours base_to_ours base_to_theirs"
  obtain start finish where p:
      "built base invalid_tables (enumerate 0 (if ?w then base_to_ours else base_to_theirs)) start"
      "looked_through ?w base invalid_tables start (enumerate 0 (if ?w then base_to_theirs else base_to_ours)) finish"
      "run = add_extra ?w (remaining_entries finish) finish"
    using passes [OF assms(1)] by blast
  define b l where "b = (if ?w then i else j)" and "l = (if ?w then j else i)"
  have "extras ?w finish = []" using p(2) by (simp add: looked_through_def)
  then have "extras ?w run = remaining_entries finish" "extras (\<not> ?w) run = extras (\<not> ?w) finish"
    unfolding p(3) by simp_all
  then have in_side: "b \<in> set (remaining_entries finish)" "l \<in> set (extras (\<not> ?w) finish)"
    using assms(2,3) by (auto simp: b_def l_def extras_def split: if_splits)
  have ok: "tables_ok base finish" "data_of finish \<subseteq>\<^sub>m data_of start" "no_collision ?w base (enumerate 0 (if ?w then base_to_theirs else base_to_ours)) finish"
    using p(2) by (simp_all add: looked_through_def)
  obtain tk' t st where d: "data_of finish tk' = Some (b, t, st)"
    using in_side(1) remaining_entries_iff [OF ok(1)] by blast
  then have "data_of start tk' = Some (b, t, st)" using ok(2) by (metis domI map_le_def)
  then obtain e where e: "(b, e) \<in> set (enumerate 0 (if ?w then base_to_ours else base_to_theirs))" "statement_key base e = Some tk'"
    using p(1) unfolding built_def stored_sound_def by blast
  then have "tk' = tk" using assms(4) same by (auto simp: b_def in_set_enumerate_eq split: if_splits)
  obtain x where "(l, x) \<in> set (enumerate 0 (if ?w then base_to_theirs else base_to_ours))"
      "\<forall>tk. statement_key base x = Some tk \<longrightarrow> data_of finish tk = None"
    using ok(3) in_side(2) unfolding no_collision_def by blast
  moreover from this(1) have "statement_key base x = Some tk"
    using assms(4) same by (auto simp: l_def in_set_enumerate_eq split: if_splits)
  ultimately show False using d \<open>tk' = tk\<close> by simp
qed

text \<open>\<open>sqldiff\<close> prints one statement per row, and inserts exactly the rows the base does not have.\<close>

definition coherent_diffs :: "row_database \<Rightarrow> diff_statement list \<Rightarrow> diff_statement list \<Rightarrow> bool" where
  "coherent_diffs base base_to_ours base_to_theirs \<longleftrightarrow>
     distinct (map (statement_key base) base_to_ours) \<and> distinct (map (statement_key base) base_to_theirs) \<and>
     list_all (\<lambda>e. list_all (\<lambda>e'. statement_key base e = statement_key base e' \<longrightarrow>
        (diff_type e = Insert_Expr) = (diff_type e' = Insert_Expr)) base_to_theirs) base_to_ours"

lemma passes_accounted:
  assumes "check_conflict_and_return_diffs base_to_ours base_to_theirs invalid_tables links base ours theirs = Inr run"
    and "coherent_diffs base base_to_ours base_to_theirs"
  defines "w \<equiv> builds_ours base_to_ours base_to_theirs"
  defines "build \<equiv> if w then base_to_ours else base_to_theirs" and "lookup \<equiv> if w then base_to_theirs else base_to_ours"
  shows "i < length lookup \<Longrightarrow> valid_target invalid_tables (lookup ! i) \<Longrightarrow>
      i \<in> set (extras (\<not> w) run) \<or> i \<in> looked_up w ` conflicting run \<or>
      (\<exists>j tk. j < length build \<and> statement_key base (build ! j) = Some tk \<and> statement_key base (lookup ! i) = Some tk \<and>
         (if w then j else i) \<in> set (matched run))" (is "_ \<Longrightarrow> _ \<Longrightarrow> ?placed i")
    and "j < length build \<Longrightarrow> valid_target invalid_tables (build ! j) \<Longrightarrow>
      j \<in> set (extras w run) \<or>
      (\<exists>i tk. i < length lookup \<and> statement_key base (build ! j) = Some tk \<and> statement_key base (lookup ! i) = Some tk \<and>
         ((if w then j else i) \<in> set (matched run) \<or> pair_of w i j \<in> conflicting run))" (is "_ \<Longrightarrow> _ \<Longrightarrow> ?kept j")
proof -
  obtain start finish where built: "built base invalid_tables (enumerate 0 build) start"
    and looked: "looked_through w base invalid_tables start (enumerate 0 lookup) finish"
    and run: "run = add_extra w (remaining_entries finish) finish"
    using passes [OF assms(1)] unfolding build_def lookup_def w_def by blast
  have ok: "tables_ok base finish" "extras w finish = []" using looked by (simp_all add: looked_through_def)
  have parts: "extras w run = remaining_entries finish" "extras (\<not> w) run = extras (\<not> w) finish"
      "matched run = matched finish" "conflicting run = conflicting finish"
    using ok(2) by (simp_all add: run)
  have sound: "\<exists>j < length build. k = j \<and> statement_key base (build ! j) = Some tk \<and> t = diff_type (build ! j) \<and> t \<noteq> Other_Expr"
    if "data_of start tk = Some (k, t, st)" for tk k t st
    using built that unfolding built_def stored_sound_def by (fastforce simp: in_set_enumerate_eq)
  have "coherent_with base start e" if "e \<in> set lookup" for e
    using assms(2) that sound unfolding coherent_with_def coherent_types_def coherent_diffs_def list_all_iff build_def lookup_def
    by (cases w) (simp, metis nth_mem)+
  then have accounts: "accounted w base invalid_tables start (enumerate 0 lookup) finish"
    using looked by (auto simp: looked_through_def in_set_enumerate_eq)
  show "?placed i" if "i < length lookup" "valid_target invalid_tables (lookup ! i)"
  proof -
    have "(i, lookup ! i) \<in> set (enumerate 0 lookup)" using that(1) by (simp add: in_set_enumerate_eq)
    then have "placed w base start i (lookup ! i) finish" using accounts that(2) by (simp add: accounted_def)
    then show ?thesis unfolding placed_def parts using sound by metis
  qed
  show "?kept j" if j: "j < length build" "valid_target invalid_tables (build ! j)"
  proof -
    have "(j, build ! j) \<in> set (enumerate 0 build)" using j(1) by (simp add: in_set_enumerate_eq)
    moreover have "distinct (map (statement_key base \<circ> snd) (enumerate 0 build))"
      using assms(2) unfolding coherent_diffs_def build_def by (simp flip: map_map)
    ultimately obtain tk st where tk: "statement_key base (build ! j) = Some tk" "data_of start tk = Some (j, diff_type (build ! j), st)"
      using built j(2) unfolding built_def stored_complete_def by blast
    then consider "data_of finish tk = Some (j, diff_type (build ! j), st)" | "gone w base (enumerate 0 lookup) j tk finish"
      using accounts unfolding accounted_def by blast
    then show ?thesis
    proof cases
      case 1
      then show ?thesis unfolding parts using remaining_entries_iff [OF ok(1)] by blast
    next
      case 2
      then show ?thesis unfolding parts gone_def using tk(1) by (auto simp: in_set_enumerate_eq)
    qed
  qed
qed

text \<open>
  C18. No change is lost: with one statement per row on each side, and rows inserted by both
  sides or by none, every statement on a table that passed the checks is in a bucket: one of ours
  is applied as matched or extra or is in a conflict pair; one of theirs is applied as extra, is in
  a conflict pair, or is about the row of a matched statement of ours.
\<close>

theorem row_statements_accounted:
  assumes "check_conflict_and_return_diffs base_to_ours base_to_theirs invalid_tables links base ours theirs = Inr run"
    and "coherent_diffs base base_to_ours base_to_theirs"
  shows "(i < length base_to_ours \<longrightarrow> valid_target invalid_tables (base_to_ours ! i) \<longrightarrow>
      i \<in> set (matched_ours_indices (run_buckets run)) \<or> i \<in> set (extra_ours_indices (run_buckets run)) \<or>
      i \<in> fst ` fst ` set (conflict_pairs (run_buckets run))) \<and>
    (j < length base_to_theirs \<longrightarrow> valid_target invalid_tables (base_to_theirs ! j) \<longrightarrow>
      j \<in> set (extra_theirs_indices (run_buckets run)) \<or> j \<in> snd ` fst ` set (conflict_pairs (run_buckets run)) \<or>
      (\<exists>k \<in> set (matched_ours_indices (run_buckets run)). k < length base_to_ours \<and>
         statement_key base (base_to_theirs ! j) \<noteq> None \<and>
         statement_key base (base_to_ours ! k) = statement_key base (base_to_theirs ! j)))"
proof (cases "builds_ours base_to_ours base_to_theirs")
  case True
  then show ?thesis
    using passes_accounted [OF assms, of j] passes_accounted(2) [OF assms, of i]
    by (force simp: looked_up_def pair_of_def bucket_defs)
next
  case False
  then show ?thesis
    using passes_accounted(1) [OF assms, of i] passes_accounted(2) [OF assms, of j]
    by (force simp: looked_up_def pair_of_def bucket_defs)
qed


section \<open>Examples\<close>

text \<open>A table of people with a unique name; \<open>rows\<close> are the names by id.\<close>

definition demo_row_db :: "(string \<times> string) list \<Rightarrow> row_database" where
  "demo_row_db rows =
     \<lparr>select_row = (\<lambda>table w. Inr (case where_predicates w of
        [p] \<Rightarrow> (case predicate_value p of
           Literal_Node n \<Rightarrow> map_option (\<lambda>name. [(''id'', Some n), (''name'', Some name)]) (map_of rows n)
         | _ \<Rightarrow> None)
      | _ \<Rightarrow> None)),
      primary_key_rows = (\<lambda>_. [(''id'', 1), (''name'', 0)]), unique_index_rows = (\<lambda>_. [(''u'', ''name'')]),
      integrity_check_row = (\<lambda>_. ''ok''), foreign_key_check_rows = [], foreign_key_rows = (\<lambda>_. [])\<rparr>"

definition demo_where :: "string \<Rightarrow> row_where" where
  "demo_where n = Parsed_Where ''WHERE'' [\<lparr>predicate_is = False, predicate_column = Some ''id'', predicate_value = Literal_Node n\<rparr>]"

definition demo_diff :: "expr_type \<Rightarrow> string \<Rightarrow> string \<Rightarrow> diff_statement" where
  "demo_diff type n name =
     \<lparr>diff_type = type, diff_table = Some ''t'', diff_where = (if type = Insert_Expr then None else Some (demo_where n)),
      diff_schema = (if type = Insert_Expr then Some [''id'', ''name''] else None),
      diff_rows = (if type = Insert_Expr then [[Literal_Node n, Literal_Node name]] else []),
      diff_sets = (if type = Update_Expr then [(''name'', Literal_Node name)] else [])\<rparr>"

definition demo_base :: row_database where
  "demo_base = demo_row_db [(''1'', ''a''), (''2'', ''b'')]"

definition demo_ours :: row_database where
  "demo_ours = demo_row_db [(''1'', ''x''), (''2'', ''b'')]"

definition demo_theirs :: row_database where
  "demo_theirs = demo_row_db [(''1'', ''a''), (''3'', ''x'')]"

definition demo_to_ours :: "diff_statement list" where
  "demo_to_ours = [demo_diff Update_Expr ''1'' ''x'']"

definition demo_to_theirs :: "diff_statement list" where
  "demo_to_theirs = [demo_diff Delete_Expr ''2'' [], demo_diff Insert_Expr ''3'' ''x'']"

definition demo_row_run :: "row_error + row_run" where
  "demo_row_run = check_conflict_and_return_diffs demo_to_ours demo_to_theirs [] [] demo_base demo_ours demo_theirs"

text \<open>
  Ours gives one person the name that theirs inserts: the pair is reported, and the statement of
  ours is applied all the same, since it stays in the tables.
\<close>

lemma unique_conflict_is_applied:
  "map_sum id run_buckets demo_row_run =
     Inr \<lparr>matched_ours_indices = [], extra_ours_indices = [0], extra_theirs_indices = [0],
          conflict_pairs = [((0, 1), [Unique_Indexes_Conflict ''u'' [''name'']])]\<rparr>"
  by code_simp

lemma demo_row_run_buckets:
  obtains run where "demo_row_run = Inr run" "run_buckets run =
      \<lparr>matched_ours_indices = [], extra_ours_indices = [0], extra_theirs_indices = [0],
       conflict_pairs = [((0, 1), [Unique_Indexes_Conflict ''u'' [''name'']])]\<rparr>"
proof (cases demo_row_run)
  case (Inl e)
  show thesis using unique_conflict_is_applied unfolding Inl by simp
next
  case (Inr run)
  then show thesis using unique_conflict_is_applied that [of run] unfolding Inr by simp
qed

theorem applied_rows_disjoint_witness:
  "statement_key demo_base (demo_to_theirs ! 0) = Some (''t'', [Literal_Node ''2'']) \<and>
   statement_key demo_base (demo_to_theirs ! 0) \<noteq> Some (''t'', [Literal_Node ''1''])"
proof -
  obtain run where run: "demo_row_run = Inr run" "run_buckets run =
      \<lparr>matched_ours_indices = [], extra_ours_indices = [0], extra_theirs_indices = [0],
       conflict_pairs = [((0, 1), [Unique_Indexes_Conflict ''u'' [''name'']])]\<rparr>"
    by (rule demo_row_run_buckets)
  have key: "statement_key demo_base (demo_to_ours ! 0) = Some (''t'', [Literal_Node ''1''])" by code_simp
  have "statement_key demo_base (demo_to_theirs ! 0) = Some (''t'', [Literal_Node ''2''])" by code_simp
  with applied_rows_disjoint [OF run(1) [unfolded demo_row_run_def] _ _ key, of 0] run(2)
  show ?thesis by simp
qed

theorem row_statements_accounted_witness:
  "coherent_diffs demo_base demo_to_ours demo_to_theirs \<and>
   (\<exists>run. demo_row_run = Inr run \<and> 1 \<in> snd ` fst ` set (conflict_pairs (run_buckets run)))"
proof -
  obtain run where run: "demo_row_run = Inr run" "run_buckets run =
      \<lparr>matched_ours_indices = [], extra_ours_indices = [0], extra_theirs_indices = [0],
       conflict_pairs = [((0, 1), [Unique_Indexes_Conflict ''u'' [''name'']])]\<rparr>"
    by (rule demo_row_run_buckets)
  have ok: "coherent_diffs demo_base demo_to_ours demo_to_theirs" by code_simp
  from row_statements_accounted [OF run(1) [unfolded demo_row_run_def] this, of _ 1] run(2)
  have "1 \<in> snd ` fst ` set (conflict_pairs (run_buckets run))"
    by (simp add: demo_to_theirs_def valid_target_def)
  then show ?thesis using ok run(1) by blast
qed

text \<open>Two branches that change different rows.\<close>

definition demo_parse :: "string \<Rightarrow> diff_statement option" where
  "demo_parse sql =
     (if sql = ''update'' then Some (demo_diff Update_Expr ''1'' ''x'')
      else if sql = ''delete'' then Some (demo_diff Delete_Expr ''2'' [])
      else if sql = ''insert'' then Some (demo_diff Insert_Expr ''3'' ''x'') else None)"

definition demo_row_merge :: "string \<Rightarrow> row_error + row_outcome" where
  "demo_row_merge theirs = row_merge_main demo_parse ''update'' theirs demo_base demo_ours demo_theirs (\<lambda>_. False)"


text \<open>
  A key of a parent table that only theirs changes (and that is stored with its new value) is
  recorded as removed by ours: the lookup pass passes the flag of the build pass for an UPDATE.
\<close>

lemma lookup_update_marks_wrong_side:
  "map_sum id run_foreign
     (check_conflict_and_return_diffs [demo_diff Delete_Expr ''1'' []] [demo_diff Update_Expr ''2'' ''z''] []
        [(''t'', \<lparr>parent_references = [], child_references = [[Some ''name'']]\<rparr>)]
        demo_base (demo_row_db [(''2'', ''b'')]) (demo_row_db [(''1'', ''a''), (''2'', ''z'')])) =
     Inr [(''t'', \<lparr>removed_parent_keys_by_ours = [([Some ''a''], 0), ([Some ''z''], 0)],
                 removed_parent_keys_by_theirs = []\<rparr>)]"
  by code_simp

end
